(* ===== verification/Py_Prelude.thy ===== *)
theory Py_Prelude
  imports Main "HOL-Library.AList" "HOL-Library.Sublist"
begin

text \<open>
  What the Python sources use of the language and its standard library, written as HOL
  functions: exceptions as the left side of a sum, strings as character lists with the
  methods the code calls (\<open>split\<close>, \<open>rsplit\<close>, \<open>join\<close>, \<open>strip\<close>, \<open>replace\<close>, \<open>rfind\<close>, \<open>in\<close>),
  integer parsing and printing, insertion-ordered dictionaries as association lists
  (\<open>AList.update\<close> keeps the position of an existing key and appends a new one, as a
  Python dictionary does), and the dynamically typed values that a YAML file loads to.
  The lemmas are the round trips and frame facts the component theories share.
\<close>

named_theorems py_str \<open>evaluation and algebra of the string functions\<close>
named_theorems res_simps \<open>elimination of the exception monad\<close>

section \<open>Exceptions\<close>

datatype exn =
    ValueError string
  | TypeError string
  | KeyError string
  | IndexError
  | RuntimeError string
  | AssertionError
  | OSError string
  | StopIteration
  | ZeroDivisionError
  | AttributeError string
  | SystemExit int
  | ConfigException string
  | GenError string
  | ArgumentTypeError string
  | TimeoutExpired
  | ReqErr string string
  | ImportError string
  | RecursionError
  | EOFError string
  | UnboundLocalError string
  | CalledProcessError int

type_synonym 'a res = "exn + 'a"

definition bind_res :: "'a res \<Rightarrow> ('a \<Rightarrow> 'b res) \<Rightarrow> 'b res" where
  "bind_res r k = (case r of Inl e \<Rightarrow> Inl e | Inr v \<Rightarrow> k v)"

lemma bind_res_simps [simp, res_simps]:
  "bind_res (Inl e) k = Inl e"
  "bind_res (Inr v) k = k v"
  by (simp_all add: bind_res_def)

lemma bind_res_Inr [res_simps]:
  "bind_res r k = Inr y \<longleftrightarrow> (\<exists>v. r = Inr v \<and> k v = Inr y)"
  by (cases r) auto

lemma bind_res_Inl [res_simps]:
  "bind_res r k = Inl e \<longleftrightarrow> r = Inl e \<or> (\<exists>v. r = Inr v \<and> k v = Inl e)"
  by (cases r) auto

lemma bind_res_return [simp]: "bind_res r Inr = r"
  by (cases r) simp_all

lemma bind_res_ok:
  "(\<exists>y. bind_res r k = Inr y) \<longleftrightarrow> (\<exists>v. r = Inr v \<and> (\<exists>y. k v = Inr y))"
  by (auto simp: bind_res_Inr)

text \<open>\<open>try: r except ValueError as err: raise g(err)\<close>\<close>

definition on_value_error :: "(string \<Rightarrow> exn) \<Rightarrow> 'a res \<Rightarrow> 'a res" where
  "on_value_error g r =
     (case r of Inr v \<Rightarrow> Inr v | Inl e \<Rightarrow> Inl (case e of ValueError err \<Rightarrow> g err | _ \<Rightarrow> e))"

lemma on_value_error_Inr [simp]:
  "on_value_error g r = Inr v \<longleftrightarrow> r = Inr v"
  "on_value_error g (Inr v) = Inr v"
  "on_value_error g (Inl (ValueError err)) = Inl (g err)"
  by (simp_all add: on_value_error_def split: sum.splits)

text \<open>A loop or comprehension that calls a raising function on each element.\<close>

fun map_res :: "('a \<Rightarrow> 'b res) \<Rightarrow> 'a list \<Rightarrow> 'b list res" where
  "map_res f [] = Inr []"
| "map_res f (x # xs) = bind_res (f x) (\<lambda>y. bind_res (map_res f xs) (\<lambda>ys. Inr (y # ys)))"

text \<open>A loop that threads a state and may raise.\<close>

fun fold_res :: "('s \<Rightarrow> 'a \<Rightarrow> 's res) \<Rightarrow> 's \<Rightarrow> 'a list \<Rightarrow> 's res" where
  "fold_res f s [] = Inr s"
| "fold_res f s (x # xs) = bind_res (f s x) (\<lambda>s'. fold_res f s' xs)"

lemma fold_res_append [simp]:
  "fold_res f s (xs @ ys) = bind_res (fold_res f s xs) (\<lambda>s'. fold_res f s' ys)"
proof (induction xs arbitrary: s)
  case Nil
  then show ?case by simp
next
  case (Cons x xs)
  then show ?case by (cases "f s x") simp_all
qed

lemma map_res_Inr_map: "(\<And>x. x \<in> set xs \<Longrightarrow> f x = Inr (g x)) \<Longrightarrow> map_res f xs = Inr (map g xs)"
  by (induction xs) auto

lemma map_res_length: "map_res f xs = Inr ys \<Longrightarrow> length ys = length xs"
  by (induction xs arbitrary: ys) (auto simp: res_simps)

lemma map_filter_append [simp]:
  "List.map_filter f (xs @ ys) = List.map_filter f xs @ List.map_filter f ys"
  by (simp add: List.map_filter_def)

text \<open>An invariant that every successful step keeps holds after the loop.\<close>

lemma fold_res_invariant:
  assumes "fold_res f s xs = Inr s'" and "I s"
    and "\<And>s x t. x \<in> set xs \<Longrightarrow> I s \<Longrightarrow> f s x = Inr t \<Longrightarrow> I t"
  shows "I s'"
  using assms
proof (induction xs arbitrary: s)
  case Nil
  then show ?case by simp
next
  case (Cons x xs)
  from Cons.prems(1) obtain t where "f s x = Inr t" and "fold_res f t xs = Inr s'"
    by (auto simp: res_simps)
  with Cons show ?case by (metis list.set_intros(1) list.set_intros(2))
qed

section \<open>Strings\<close>

definition is_ws :: "char \<Rightarrow> bool" where
  "is_ws c \<longleftrightarrow> c \<in> set [CHR '' '', CHR 0x09, CHR 0x0A, CHR 0x0B, CHR 0x0C, CHR 0x0D,
                        CHR 0x1C, CHR 0x1D, CHR 0x1E, CHR 0x1F]"

definition is_digit :: "char \<Rightarrow> bool" where
  "is_digit c \<longleftrightarrow> c \<in> set ''0123456789''"

definition newline :: string where
  "newline = [CHR 0x0A]"

definition starts_with :: "string \<Rightarrow> string \<Rightarrow> bool" where
  "starts_with p s \<longleftrightarrow> take (length p) s = p"

definition ends_with :: "string \<Rightarrow> string \<Rightarrow> bool" where
  "ends_with p s \<longleftrightarrow> starts_with (rev p) (rev s)"

lemma starts_with_iff: "starts_with p s \<longleftrightarrow> (\<exists>t. s = p @ t)"
proof
  assume "starts_with p s"
  then have "s = p @ drop (length p) s"
    unfolding starts_with_def by (metis append_take_drop_id)
  then show "\<exists>t. s = p @ t" ..
qed (auto simp: starts_with_def)

lemma ends_with_iff: "ends_with p s \<longleftrightarrow> (\<exists>t. s = t @ p)"
  unfolding ends_with_def starts_with_iff by (metis rev_append rev_rev_ident)

text \<open>\<open>s.find(p)\<close> and \<open>p in s\<close>.\<close>

fun find_sub :: "string \<Rightarrow> string \<Rightarrow> nat option" where
  "find_sub p [] = (if p = [] then Some 0 else None)"
| "find_sub p (x # xs) =
     (if starts_with p (x # xs) then Some 0 else map_option Suc (find_sub p xs))"

definition py_in :: "string \<Rightarrow> string \<Rightarrow> bool" where
  "py_in p s \<longleftrightarrow> find_sub p s \<noteq> None"

lemma py_in_iff: "py_in p s \<longleftrightarrow> (\<exists>u v. s = u @ p @ v)"
proof (induction s)
  case Nil
  then show ?case by (simp add: py_in_def)
next
  case (Cons x xs)
  have "py_in p (x # xs) \<longleftrightarrow> starts_with p (x # xs) \<or> py_in p xs"
    by (simp add: py_in_def)
  also have "\<dots> \<longleftrightarrow> (\<exists>v. x # xs = p @ v) \<or> (\<exists>u v. xs = u @ p @ v)"
    by (simp add: Cons.IH starts_with_iff)
  also have "\<dots> \<longleftrightarrow> (\<exists>u v. x # xs = u @ p @ v)"
    by (metis append_Cons append_Nil list.exhaust list.inject)
  finally show ?case .
qed

lemma py_in_middle [simp]: "py_in p (u @ p @ v)"
  by (auto simp: py_in_iff)

text \<open>\<open>s.replace(old, new)\<close> for a nonempty \<open>old\<close>; every caller passes one.\<close>

function replace_all :: "string \<Rightarrow> string \<Rightarrow> string \<Rightarrow> string" where
  "replace_all old new s =
     (case s of [] \<Rightarrow> []
      | x # xs \<Rightarrow>
          if old \<noteq> [] \<and> starts_with old s
          then new @ replace_all old new (drop (length old) s)
          else x # replace_all old new xs)"
  by pat_completeness auto
termination
  by (relation "measure (\<lambda>(old, new, s). length s)") (auto simp: neq_Nil_conv)

declare replace_all.simps [simp del]

lemma replace_all_Nil [simp]: "replace_all old new [] = []"
  by (simp add: replace_all.simps)

lemma replace_all_Cons [simp]:
  "replace_all old new (x # xs) =
     (if old \<noteq> [] \<and> starts_with old (x # xs)
      then new @ replace_all old new (drop (length old) (x # xs))
      else x # replace_all old new xs)"
  by (subst replace_all.simps) simp

lemma replace_all_absent: "\<not> py_in old s \<Longrightarrow> replace_all old new s = s"
proof (induction s)
  case Nil
  then show ?case by simp
next
  case (Cons x xs)
  then have "\<not> starts_with old (x # xs)" and "\<not> py_in old xs"
    by (simp_all add: py_in_def split: if_splits)
  with Cons.IH show ?case by simp
qed

text \<open>Splitting at the characters that satisfy a predicate; \<open>split_on\<close> is \<open>s.split(c)\<close>.\<close>

fun split_by :: "(char \<Rightarrow> bool) \<Rightarrow> string \<Rightarrow> string list" where
  "split_by P [] = [[]]"
| "split_by P (x # xs) =
     (if P x then [] # split_by P xs
      else (case split_by P xs of [] \<Rightarrow> [[x]] | w # ws \<Rightarrow> (x # w) # ws))"

definition split_on :: "char \<Rightarrow> string \<Rightarrow> string list" where
  "split_on c = split_by (\<lambda>x. x = c)"

definition split_ws :: "string \<Rightarrow> string list" where
  "split_ws s = filter (\<lambda>w. w \<noteq> []) (split_by is_ws s)"

fun py_join :: "string \<Rightarrow> string list \<Rightarrow> string" where
  "py_join sep [] = []"
| "py_join sep [w] = w"
| "py_join sep (w # v # ws) = w @ sep @ py_join sep (v # ws)"

lemma split_by_not_Nil [simp]: "split_by P s \<noteq> []"
  by (induction s) (auto split: list.splits)

lemma split_on_not_Nil [simp]: "split_on c s \<noteq> []"
  by (simp add: split_on_def)

lemma py_join_Cons: "ws \<noteq> [] \<Longrightarrow> py_join sep (w # ws) = w @ sep @ py_join sep ws"
  by (cases ws) auto

lemma split_on_simps [py_str]:
  "split_on c [] = [[]]"
  "split_on c (c # xs) = [] # split_on c xs"
  "x \<noteq> c \<Longrightarrow> split_on c (x # xs) =
     (case split_on c xs of [] \<Rightarrow> [[x]] | w # ws \<Rightarrow> (x # w) # ws)"
  by (simp_all add: split_on_def)

lemma join_split_on: "py_join [c] (split_on c s) = s"
proof (induction s)
  case Nil
  then show ?case by (simp add: split_on_def)
next
  case (Cons x xs)
  obtain w ws where sp: "split_on c xs = w # ws"
    by (cases "split_on c xs") auto
  show ?case
  proof (cases "x = c")
    case True
    then show ?thesis using Cons.IH by (simp add: split_on_simps py_join_Cons)
  next
    case False
    then show ?thesis using Cons.IH sp
      by (cases ws) (simp_all add: split_on_simps)
  qed
qed

lemma split_by_no_sep: "\<forall>x\<in>set w. \<not> P x \<Longrightarrow> split_by P w = [w]"
  by (induction w) auto

lemma split_by_append_sep:
  "\<forall>x\<in>set w. \<not> P x \<Longrightarrow> P c \<Longrightarrow> split_by P (w @ c # s) = w # split_by P s"
  by (induction w) auto

lemma split_on_join:
  assumes "ws \<noteq> []" and "\<forall>w\<in>set ws. c \<notin> set w"
  shows "split_on c (py_join [c] ws) = ws"
  using assms
proof (induction ws)
  case Nil
  then show ?case by simp
next
  case (Cons w ws)
  have nosep: "\<forall>x\<in>set w. \<not> x = c" using Cons.prems by auto
  show ?case
  proof (cases "ws = []")
    case True
    then show ?thesis using split_by_no_sep [of w "\<lambda>x. x = c"] nosep by (simp add: split_on_def)
  next
    case False
    then have "split_on c (py_join [c] ws) = ws" using Cons by simp
    with False nosep show ?thesis
      by (simp add: py_join_Cons split_on_def split_by_append_sep [where P = "\<lambda>x. x = c"])
  qed
qed

lemma split_by_pieces: "w \<in> set (split_by P s) \<Longrightarrow> \<forall>x\<in>set w. \<not> P x"
proof (induction s arbitrary: w)
  case Nil
  then show ?case by simp
next
  case (Cons x xs)
  then show ?case by (cases "split_by P xs") (fastforce split: if_splits)+
qed

lemma split_on_pieces: "w \<in> set (split_on c s) \<Longrightarrow> c \<notin> set w"
  using split_by_pieces unfolding split_on_def by fastforce

lemma length_split_on: "length (split_on c s) = Suc (count_list s c)"
  by (induction s) (auto simp: split_on_def split: list.splits)

text \<open>\<open>strip\<close>, and \<open>rsplit(c, 1)\<close> and \<open>rfind(c)\<close> for one character.\<close>

definition py_lstrip :: "string \<Rightarrow> string" where
  "py_lstrip s = dropWhile is_ws s"

definition py_rstrip :: "string \<Rightarrow> string" where
  "py_rstrip s = rev (dropWhile is_ws (rev s))"

definition py_strip :: "string \<Rightarrow> string" where
  "py_strip s = py_rstrip (py_lstrip s)"

definition rfind_char :: "char \<Rightarrow> string \<Rightarrow> nat option" where
  "rfind_char c s =
     (if c \<in> set s then Some (length s - Suc (length (takeWhile (\<lambda>x. x \<noteq> c) (rev s)))) else None)"

definition rsplit1 :: "char \<Rightarrow> string \<Rightarrow> string list" where
  "rsplit1 c s =
     (case rfind_char c s of None \<Rightarrow> [s] | Some i \<Rightarrow> [take i s, drop (Suc i) s])"

lemma rfind_char_append:
  "c \<notin> set v \<Longrightarrow> rfind_char c (u @ c # v) = Some (length u)"
proof -
  assume "c \<notin> set v"
  then have "takeWhile (\<lambda>x. x \<noteq> c) (rev v @ c # rev u) = rev v"
    by (subst takeWhile_append2) auto
  then show ?thesis by (simp add: rfind_char_def)
qed

lemma rfind_char_None: "rfind_char c s = None \<longleftrightarrow> c \<notin> set s"
  by (simp add: rfind_char_def)

lemma rsplit1_append: "c \<notin> set v \<Longrightarrow> rsplit1 c (u @ c # v) = [u, v]"
  by (simp add: rsplit1_def rfind_char_append)

lemma rsplit1_join: "py_join [c] (rsplit1 c s) = s"
proof (cases "c \<in> set s")
  case True
  then obtain u v where "s = u @ c # v" and "c \<notin> set v"
    using split_list_last by metis
  then show ?thesis by (simp add: rsplit1_append)
next
  case False
  then show ?thesis by (simp add: rsplit1_def rfind_char_def)
qed

text \<open>\<open>os.path.join\<close> of a directory and a file name; \<open>pathlib\<close>'s \<open>/\<close> agrees with it on nonempty normalised paths.\<close>

definition path_join :: "string \<Rightarrow> string \<Rightarrow> string" where
  "path_join a b =
     (if starts_with ''/'' b then b
      else if a = [] \<or> ends_with ''/'' a then a @ b
      else a @ ''/'' @ b)"

text \<open>Words without white space, and \<open>split()\<close> on them.\<close>

definition no_ws :: "string \<Rightarrow> bool" where
  "no_ws s \<longleftrightarrow> (\<forall>c\<in>set s. \<not> is_ws c)"

lemma split_ws_sep: "is_ws c \<Longrightarrow> split_ws (c # s) = split_ws s"
  by (simp add: split_ws_def)

lemma split_ws_word: "no_ws w \<Longrightarrow> w \<noteq> [] \<Longrightarrow> split_ws w = [w]"
  by (simp add: split_ws_def no_ws_def split_by_no_sep)

lemma split_ws_word_sep:
  "no_ws w \<Longrightarrow> w \<noteq> [] \<Longrightarrow> is_ws c \<Longrightarrow> split_ws (w @ c # s) = w # split_ws s"
  by (simp add: split_ws_def no_ws_def split_by_append_sep)

lemma no_ws_append [simp]: "no_ws (u @ v) \<longleftrightarrow> no_ws u \<and> no_ws v"
  by (auto simp: no_ws_def)

end
