(* ===== verification/Py_Values.thy ===== *)
theory Py_Values
  imports Py_Prelude
begin

text \<open>
  Integers as text and the dynamically typed values of the sources: \<open>str(n)\<close>, \<open>hex(n)\<close>,
  \<open>int(s, base)\<close>, \<open>repr\<close>, and the type \<open>pyval\<close> of what a YAML document or a dictionary
  literal holds (\<open>None\<close>, booleans, integers, strings, lists, dictionaries).  Booleans are
  integers in Python: \<open>isinstance(True, int)\<close> holds and \<open>True == 1\<close>; \<open>is_int\<close> and \<open>py_eq\<close>
  say so.
\<close>

section \<open>Digits\<close>

definition digit_char :: "nat \<Rightarrow> char" where
  "digit_char d = ''0123456789abcdef'' ! d"

fun index_of :: "char \<Rightarrow> string \<Rightarrow> nat option" where
  "index_of c [] = None"
| "index_of c (x # xs) = (if x = c then Some 0 else map_option Suc (index_of c xs))"

definition digit_val :: "char \<Rightarrow> nat option" where
  "digit_val c =
     (case index_of c ''0123456789abcdef'' of
        Some d \<Rightarrow> Some d
      | None \<Rightarrow> map_option (\<lambda>d. d + 10) (index_of c ''ABCDEF''))"

lemma digit_val_char: "d < 16 \<Longrightarrow> digit_val (digit_char d) = Some d"
proof -
  have all: "\<forall>d\<in>set [0..<16]. digit_val (''0123456789abcdef'' ! d) = Some d"
    by code_simp
  assume "d < 16"
  then show ?thesis using all unfolding digit_char_def by simp
qed

lemma digit_char_not_special:
  "d < 16 \<Longrightarrow> digit_char d \<notin> {CHR ''_'', CHR ''-'', CHR ''+'', CHR ''x'', CHR '' '', CHR '':'', CHR '';'', CHR '','', CHR ''.'', CHR ''/''}"
proof -
  have all: "\<forall>d\<in>set [0..<16]. ''0123456789abcdef'' ! d \<notin> set ''_-+x :;,./''"
    by code_simp
  assume "d < 16"
  then show ?thesis using all unfolding digit_char_def by simp
qed

lemma digit_char_not_ws: "d < 16 \<Longrightarrow> \<not> is_ws (digit_char d)"
proof -
  have all: "\<forall>d\<in>set [0..<16]. \<not> is_ws (''0123456789abcdef'' ! d)"
    by code_simp
  assume "d < 16"
  then show ?thesis using all unfolding digit_char_def by simp
qed

section \<open>Printing\<close>

fun nat_digits :: "nat \<Rightarrow> nat \<Rightarrow> nat list" where
  "nat_digits b n = (if b < 2 \<or> n < b then [n] else nat_digits b (n div b) @ [n mod b])"

declare nat_digits.simps [simp del]

definition nat_str :: "nat \<Rightarrow> nat \<Rightarrow> string" where
  "nat_str b n = map digit_char (nat_digits b n)"

text \<open>\<open>str(n)\<close> and \<open>hex(n)\<close> for an integer.\<close>

definition str_int :: "int \<Rightarrow> string" where
  "str_int i = (if i < 0 then ''-'' @ nat_str 10 (nat (- i)) else nat_str 10 (nat i))"

definition py_hex :: "int \<Rightarrow> string" where
  "py_hex i = (if i < 0 then ''-0x'' @ nat_str 16 (nat (- i)) else ''0x'' @ nat_str 16 (nat i))"

definition str_bool :: "bool \<Rightarrow> string" where
  "str_bool b = (if b then ''True'' else ''False'')"

lemma nat_digits_not_Nil [simp]: "nat_digits b n \<noteq> []"
  by (subst nat_digits.simps) simp

lemma nat_str_not_Nil [simp]: "nat_str b n \<noteq> []"
  by (simp add: nat_str_def)

lemma nat_digits_less: "2 \<le> b \<Longrightarrow> d \<in> set (nat_digits b n) \<Longrightarrow> d < b"
proof (induction b n rule: nat_digits.induct)
  case (1 b n)
  show ?case
  proof (cases "n < b")
    case True
    with 1 show ?thesis by (subst (asm) (2) nat_digits.simps) simp
  next
    case False
    with 1 show ?thesis by (subst (asm) (2) nat_digits.simps) auto
  qed
qed

section \<open>Parsing\<close>

text \<open>
  \<open>parse_digits\<close> reads digits of the base, with single underscores allowed between
  them; its second argument says whether the previous character was a digit.
\<close>

fun parse_digits :: "nat \<Rightarrow> bool \<Rightarrow> nat \<Rightarrow> string \<Rightarrow> nat option" where
  "parse_digits b ok acc [] = (if ok then Some acc else None)"
| "parse_digits b ok acc (c # cs) =
     (if c = CHR ''_'' then (if ok then parse_digits b False acc cs else None)
      else (case digit_val c of
              None \<Rightarrow> None
            | Some d \<Rightarrow> if d < b then parse_digits b True (acc * b + d) cs else None))"

text \<open>The optional sign, after \<open>strip\<close>.\<close>

definition split_sign :: "string \<Rightarrow> bool \<times> string" where
  "split_sign s =
     (case s of [] \<Rightarrow> (False, [])
      | c # cs \<Rightarrow> if c = CHR ''-'' then (True, cs) else if c = CHR ''+'' then (False, cs) else (False, s))"

text \<open>
  A base prefix (\<open>0x\<close>, \<open>0o\<close>, \<open>0b\<close>, either case), which may be followed by one underscore.
\<close>

definition drop_prefix :: "char \<Rightarrow> string \<Rightarrow> string option" where
  "drop_prefix p s =
     (case s of
        a # c # rest \<Rightarrow>
          if a = CHR ''0'' \<and> c = p
          then Some (case rest of [] \<Rightarrow> [] | u # us \<Rightarrow> if u = CHR ''_'' then us else rest)
          else None
      | _ \<Rightarrow> None)"

definition first_some :: "'a option \<Rightarrow> 'a option \<Rightarrow> 'a option" where
  "first_some a b = (case a of Some x \<Rightarrow> Some x | None \<Rightarrow> b)"

definition parse_body :: "nat \<Rightarrow> string \<Rightarrow> nat option" where
  "parse_body b s =
     (if b = 16
      then (case first_some (drop_prefix (CHR ''x'') s) (drop_prefix (CHR ''X'') s) of
              Some r \<Rightarrow> parse_digits 16 False 0 r
            | None \<Rightarrow> parse_digits 16 False 0 s)
      else if b = 0
      then (case first_some (drop_prefix (CHR ''x'') s) (drop_prefix (CHR ''X'') s) of
              Some r \<Rightarrow> parse_digits 16 False 0 r
            | None \<Rightarrow>
           (case first_some (drop_prefix (CHR ''o'') s) (drop_prefix (CHR ''O'') s) of
              Some r \<Rightarrow> parse_digits 8 False 0 r
            | None \<Rightarrow>
           (case first_some (drop_prefix (CHR ''b'') s) (drop_prefix (CHR ''B'') s) of
              Some r \<Rightarrow> parse_digits 2 False 0 r
            | None \<Rightarrow>
                \<comment> \<open>base 0 refuses a decimal literal with a leading zero, unless it is zero\<close>
                (case parse_digits 10 False 0 s of
                   Some n \<Rightarrow> if starts_with ''0'' s \<and> n \<noteq> 0 then None else Some n
                 | None \<Rightarrow> None))))
      else parse_digits b False 0 s)"

text \<open>\<open>int(s, b)\<close> for the bases the sources use (0, 10, 16).\<close>

definition int_error :: "nat \<Rightarrow> string \<Rightarrow> exn" where
  "int_error b s =
     ValueError (''invalid literal for int() with base '' @ nat_str 10 b @ '': '' @ s)"

definition py_int :: "nat \<Rightarrow> string \<Rightarrow> int res" where
  "py_int b s =
     (let (neg, body) = split_sign (py_strip s)
      in case parse_body b body of
           None \<Rightarrow> Inl (int_error b s)
         | Some n \<Rightarrow> Inr (if neg then - int n else int n))"

lemma parse_digits_append_digit:
  "parse_digits b ok acc ds = Some n \<Longrightarrow> digit_val c = Some d \<Longrightarrow> d < b \<Longrightarrow> c \<noteq> CHR ''_'' \<Longrightarrow>
     parse_digits b ok acc (ds @ [c]) = Some (n * b + d)"
  by (induction b ok acc ds rule: parse_digits.induct) (auto split: if_splits option.splits)

lemma parse_nat_digits:
  "2 \<le> b \<Longrightarrow> b \<le> 16 \<Longrightarrow> parse_digits b ok 0 (map digit_char (nat_digits b n)) = Some n"
proof (induction b n arbitrary: ok rule: nat_digits.induct)
  case (1 b n)
  have dc: "m < b \<Longrightarrow> digit_val (digit_char m) = Some m \<and> digit_char m \<noteq> CHR ''_''" for m
    using "1.prems" digit_val_char [of m] digit_char_not_special [of m] by auto
  show ?case
  proof (cases "n < b")
    case True
    then show ?thesis using dc [of n] by (simp add: nat_digits.simps [of b n])
  next
    case False
    with 1 have ih: "parse_digits b ok 0 (map digit_char (nat_digits b (n div b))) = Some (n div b)"
      by simp
    have "n mod b < b" using "1.prems" by simp
    from parse_digits_append_digit [OF ih] dc [OF this] this False "1.prems"
    show ?thesis by (simp add: nat_digits.simps [of b n])
  qed
qed

lemma parse_nat_str: "2 \<le> b \<Longrightarrow> b \<le> 16 \<Longrightarrow> parse_digits b ok 0 (nat_str b n) = Some n"
  unfolding nat_str_def by (rule parse_nat_digits)

lemma nat_str_chars:
  assumes "2 \<le> b" "b \<le> 16" "c \<in> set (nat_str b n)"
  shows "\<exists>d<16. c = digit_char d"
proof -
  obtain d where "d \<in> set (nat_digits b n)" and "c = digit_char d"
    using assms(3) by (auto simp: nat_str_def)
  with nat_digits_less [OF assms(1), of d n] assms(2) show ?thesis
    by (intro exI [of _ d]) simp
qed

lemma nat_str_no_ws: "2 \<le> b \<Longrightarrow> b \<le> 16 \<Longrightarrow> c \<in> set (nat_str b n) \<Longrightarrow> \<not> is_ws c"
  using nat_str_chars digit_char_not_ws by blast

lemma py_strip_id: "(\<And>c. c \<in> set s \<Longrightarrow> \<not> is_ws c) \<Longrightarrow> py_strip s = s"
proof -
  have id: "\<forall>c\<in>set t. \<not> is_ws c \<Longrightarrow> dropWhile is_ws t = t" for t
    by (cases t) auto
  assume "\<And>c. c \<in> set s \<Longrightarrow> \<not> is_ws c"
  then have "\<forall>c\<in>set s. \<not> is_ws c" by blast
  then show ?thesis
    using id [of s] id [of "rev s"] by (simp add: py_strip_def py_lstrip_def py_rstrip_def)
qed

lemma nat_str_Cons:
  assumes "2 \<le> b" "b \<le> 16"
  obtains d ds where "nat_str b n = digit_char d # ds" "d < 16"
proof -
  obtain c ds where s: "nat_str b n = c # ds" by (cases "nat_str b n") auto
  then have "c \<in> set (nat_str b n)" by simp
  from nat_str_chars [OF assms this] obtain d where "d < 16" and "c = digit_char d" by blast
  with s that show thesis by simp
qed

text \<open>\<open>int(str(n)) == n\<close> and \<open>int(hex(n), 16) == n\<close>.\<close>

lemma split_sign_minus [simp]: "split_sign (CHR ''-'' # s) = (True, s)"
  by (simp add: split_sign_def)

lemma split_sign_nat_str:
  assumes "2 \<le> b" "b \<le> 16"
  shows "split_sign (nat_str b n) = (False, nat_str b n)"
proof -
  from nat_str_Cons [OF assms, of n] obtain d ds
    where s: "nat_str b n = digit_char d # ds" and "d < 16" by blast
  with digit_char_not_special [OF \<open>d < 16\<close>] show ?thesis by (simp add: split_sign_def)
qed

lemma int_str_int: "py_int 10 (str_int i) = Inr i"
proof (cases "i < 0")
  case True
  have "py_strip (''-'' @ nat_str 10 (nat (- i))) = ''-'' @ nat_str 10 (nat (- i))"
    by (rule py_strip_id) (auto dest: nat_str_no_ws [rotated 2] simp: is_ws_def)
  with True show ?thesis
    by (simp add: py_int_def str_int_def parse_body_def parse_nat_str)
next
  case False
  have "py_strip (nat_str 10 (nat i)) = nat_str 10 (nat i)"
    by (rule py_strip_id) (auto dest: nat_str_no_ws [rotated 2])
  with False show ?thesis
    by (simp add: py_int_def str_int_def split_sign_nat_str parse_body_def parse_nat_str)
qed

lemma drop_prefix_0x:
  "drop_prefix (CHR ''x'') (CHR ''0'' # CHR ''x'' # s) =
     Some (case s of [] \<Rightarrow> [] | u # us \<Rightarrow> if u = CHR ''_'' then us else s)"
  by (simp add: drop_prefix_def)

lemma parse_body_hex: "parse_body 16 (''0x'' @ nat_str 16 n) = Some n"
proof -
  obtain d ds where s: "nat_str 16 n = digit_char d # ds" and d: "d < 16"
    using nat_str_Cons [of 16 n] by auto
  have "drop_prefix (CHR ''x'') (''0x'' @ nat_str 16 n) = Some (nat_str 16 n)"
    using digit_char_not_special [OF d] by (simp add: drop_prefix_0x s)
  then show ?thesis by (simp add: parse_body_def first_some_def parse_nat_str)
qed

lemma int_hex: "0 \<le> i \<Longrightarrow> py_int 16 (py_hex i) = Inr i"
proof -
  assume i: "0 \<le> i"
  have "py_strip (''0x'' @ nat_str 16 (nat i)) = ''0x'' @ nat_str 16 (nat i)"
    by (rule py_strip_id) (auto dest: nat_str_no_ws [rotated 2] simp: is_ws_def)
  moreover have "split_sign (''0x'' @ nat_str 16 (nat i)) = (False, ''0x'' @ nat_str 16 (nat i))"
    by (simp add: split_sign_def)
  ultimately show ?thesis using i parse_body_hex [of "nat i"]
    by (simp add: py_int_def py_hex_def)
qed

lemma str_int_plain: "CHR ''.'' \<notin> set (str_int i)" "CHR ''/'' \<notin> set (str_int i)"
proof -
  have "c \<notin> set (nat_str 10 n)" if "c = CHR ''.'' \<or> c = CHR ''/''" for c n
  proof
    assume "c \<in> set (nat_str 10 n)"
    with nat_str_chars [of 10 c n] obtain d where "d < 16" "c = digit_char d" by auto
    with digit_char_not_special [of d] that show False by auto
  qed
  then show "CHR ''.'' \<notin> set (str_int i)" "CHR ''/'' \<notin> set (str_int i)" by (simp_all add: str_int_def)
qed

lemma no_ws_str_int [simp]: "no_ws (str_int i)"
proof -
  have "no_ws (nat_str 10 n)" for n
    unfolding no_ws_def using nat_str_no_ws [of 10 _ n] by auto
  moreover have "no_ws ''-''"
    by (simp add: no_ws_def is_ws_def)
  ultimately show ?thesis
    using no_ws_append [of "''-''"] by (simp add: str_int_def)
qed

lemma str_int_not_Nil [simp]: "str_int i \<noteq> []"
  by (simp add: str_int_def)

lemma str_int_inj: "str_int i = str_int j \<longleftrightarrow> i = j"
  using int_str_int by (metis sum.inject(2))

section \<open>Values\<close>

datatype pyval =
    PNone
  | PBool bool
  | PInt int
  | PStr string
  | PList "pyval list"
  | PDict "(pyval \<times> pyval) list"

text \<open>\<open>isinstance\<close> tests: a Python \<open>bool\<close> is an \<open>int\<close>.\<close>

fun is_bool :: "pyval \<Rightarrow> bool" where
  "is_bool (PBool _) = True" | "is_bool _ = False"

fun is_int :: "pyval \<Rightarrow> bool" where
  "is_int (PBool _) = True" | "is_int (PInt _) = True" | "is_int _ = False"

fun is_str :: "pyval \<Rightarrow> bool" where
  "is_str (PStr _) = True" | "is_str _ = False"

fun num_of :: "pyval \<Rightarrow> int option" where
  "num_of (PBool b) = Some (of_bool b)"
| "num_of (PInt i) = Some i"
| "num_of _ = None"

text \<open>
  \<open>==\<close> on scalars: numbers by value (so \<open>True == 1\<close>), everything else structurally.
  The sources compare only scalars with it.
\<close>

definition py_eq :: "pyval \<Rightarrow> pyval \<Rightarrow> bool" where
  "py_eq a b =
     (case num_of a of
        Some i \<Rightarrow> num_of b = Some i
      | None \<Rightarrow> num_of b = None \<and> a = b)"

lemma py_eq_refl [simp]: "py_eq a a"
  by (simp add: py_eq_def split: option.splits)

lemma py_eq_sym: "py_eq a b \<Longrightarrow> py_eq b a"
  by (auto simp: py_eq_def split: option.splits)

lemma py_eq_trans: "py_eq a b \<Longrightarrow> py_eq b c \<Longrightarrow> py_eq a c"
  by (auto simp: py_eq_def split: option.splits)

lemma py_eq_PStr [simp]: "py_eq (PStr s) b \<longleftrightarrow> b = PStr s"
  by (cases b) (auto simp: py_eq_def)

text \<open>Truth of a value, as \<open>if v:\<close>, \<open>v or w\<close> and \<open>not v\<close> use it.\<close>

fun truthy :: "pyval \<Rightarrow> bool" where
  "truthy PNone = False"
| "truthy (PBool b) = b"
| "truthy (PInt i) = (i \<noteq> 0)"
| "truthy (PStr s) = (s \<noteq> [])"
| "truthy (PList xs) = (xs \<noteq> [])"
| "truthy (PDict d) = (d \<noteq> [])"

text \<open>\<open>repr\<close> of a string: quotes and escapes for the printable ASCII range and control characters.\<close>

definition hex2 :: "char \<Rightarrow> string" where
  "hex2 c = [digit_char (of_char c div 16), digit_char (of_char c mod 16)]"

definition repr_char :: "char \<Rightarrow> char \<Rightarrow> string" where
  "repr_char q c =
     (if c = q \<or> c = CHR 0x5C then [CHR 0x5C, c]
      else if c = CHR 0x0A then [CHR 0x5C, CHR ''n'']
      else if c = CHR 0x0D then [CHR 0x5C, CHR ''r'']
      else if c = CHR 0x09 then [CHR 0x5C, CHR ''t'']
      else if (of_char c :: nat) < 32 \<or> (of_char c :: nat) = 127
        then [CHR 0x5C, CHR ''x''] @ hex2 c
      else [c])"

definition repr_str :: "string \<Rightarrow> string" where
  "repr_str s =
     (let q = (if CHR 0x27 \<in> set s \<and> CHR 0x22 \<notin> set s then CHR 0x22 else CHR 0x27)
      in [q] @ concat (map (repr_char q) s) @ [q])"

fun py_repr :: "pyval \<Rightarrow> string" where
  "py_repr PNone = ''None''"
| "py_repr (PBool b) = str_bool b"
| "py_repr (PInt i) = str_int i"
| "py_repr (PStr s) = repr_str s"
| "py_repr (PList xs) = ''['' @ py_join '', '' (map py_repr xs) @ '']''"
| "py_repr (PDict d) =
     ''{'' @ py_join '', '' (map (\<lambda>(k, v). py_repr k @ '': '' @ py_repr v) d) @ ''}''"

fun py_str :: "pyval \<Rightarrow> string" where
  "py_str (PStr s) = s"
| "py_str v = py_repr v"

section \<open>Dictionaries\<close>

type_synonym ('k, 'v) dict = "('k \<times> 'v) list"

abbreviation dict_set :: "'k \<Rightarrow> 'v \<Rightarrow> ('k, 'v) dict \<Rightarrow> ('k, 'v) dict" where
  "dict_set \<equiv> AList.update"

abbreviation dict_keys :: "('k, 'v) dict \<Rightarrow> 'k list" where
  "dict_keys d \<equiv> map fst d"

definition dict_get :: "('k, 'v) dict \<Rightarrow> 'k \<Rightarrow> 'v \<Rightarrow> 'v" where
  "dict_get d k v = (case map_of d k of Some x \<Rightarrow> x | None \<Rightarrow> v)"

lemma dict_set_lookup [simp]: "map_of (dict_set k v d) = (map_of d)(k \<mapsto> v)"
  by (simp add: AList.update_conv')

lemma dict_set_new: "k \<notin> fst ` set d \<Longrightarrow> dict_set k v d = d @ [(k, v)]"
  by (induction d) auto

lemma dict_set_distinct: "distinct (dict_keys d) \<Longrightarrow> distinct (dict_keys (dict_set k v d))"
  by (rule AList.distinct_update)

lemma dict_set_keys: "set (dict_keys (dict_set k v d)) = insert k (set (dict_keys d))"
  by (induction d) auto

lemma dict_set_same_keys: "k \<in> set (dict_keys d) \<Longrightarrow> dict_keys (dict_set k v d) = dict_keys d"
  by (induction d) auto

text \<open>Look a string key up in a \<open>PDict\<close> body.\<close>

fun lookup_str :: "(pyval \<times> pyval) list \<Rightarrow> string \<Rightarrow> pyval option" where
  "lookup_str [] k = None"
| "lookup_str ((k', v) # d) k = (if k' = PStr k then Some v else lookup_str d k)"

lemma lookup_str_map_of: "lookup_str d k = map_of d (PStr k)"
  by (induction d) auto

text \<open>\<open>str.lower\<close>.\<close>

definition lower_char :: "char \<Rightarrow> char" where
  "lower_char c =
     (case index_of c ''ABCDEFGHIJKLMNOPQRSTUVWXYZ'' of
        Some i \<Rightarrow> ''abcdefghijklmnopqrstuvwxyz'' ! i | None \<Rightarrow> c)"

definition py_lower :: "string \<Rightarrow> string" where
  "py_lower = map lower_char"

end
