(* ===== verification/Bytes.thy ===== *)
theory Bytes
  imports Main "HOL-Library.Word"
begin

text \<open>
  Fixed-width binary encodings.  The locale \<open>codec\<close> is the interface between the code that
  writes a buffer (\<open>tobytes\<close> in \<open>run/golden.py\<close>) and the code that reads it back (the
  firmware's \<open>fread\<close> into \<open>Memory_st\<close>): an encoder of constant width and a decoder that
  inverts it.  Its lemmas read a sequence of values, and what follows it, back from the
  concatenation of their encodings; the interpretations are the two element types the
  program writes, \<open>int8\<close> and little-endian \<open>int32\<close>.
\<close>

unbundle bit_operations_syntax

type_synonym byte = "8 word"

section \<open>Row-major traversal\<close>

text \<open>The elements of an \<open>n\<close> by \<open>m\<close> array in C order.\<close>

definition row_major :: "nat \<Rightarrow> nat \<Rightarrow> (nat \<Rightarrow> nat \<Rightarrow> 'a) \<Rightarrow> 'a list" where
  "row_major n m f = concat (map (\<lambda>i. map (f i) [0..<m]) [0..<n])"

lemma row_major_0 [simp]: "row_major 0 m f = []"
  by (simp add: row_major_def)

lemma row_major_Suc: "row_major (Suc n) m f = row_major n m f @ map (f n) [0..<m]"
  by (simp add: row_major_def)

lemma length_row_major [simp]: "length (row_major n m f) = n * m"
  by (induction n) (simp_all add: row_major_Suc)

lemma index_bound: "i < (n::nat) \<Longrightarrow> j < m \<Longrightarrow> i * m + j < n * m"
proof -
  assume "i < n" "j < m"
  then have "Suc i * m \<le> n * m" by (intro mult_le_mono1) simp
  with \<open>j < m\<close> show ?thesis by simp
qed

lemma row_major_nth:
  "i < n \<Longrightarrow> j < m \<Longrightarrow> row_major n m f ! (i * m + j) = f i j"
proof (induction n)
  case 0
  then show ?case by simp
next
  case (Suc n)
  show ?case
  proof (cases "i < n")
    case True
    with Suc.prems(2) have "i * m + j < n * m" by (intro index_bound)
    with True Suc show ?thesis by (simp add: row_major_Suc nth_append)
  next
    case False
    with Suc.prems have "i = n" by simp
    with Suc.prems(2) show ?thesis by (simp add: row_major_Suc nth_append)
  qed
qed

lemma row_major_cong:
  "(\<And>i j. i < n \<Longrightarrow> j < m \<Longrightarrow> f i j = g i j) \<Longrightarrow> row_major n m f = row_major n m g"
  unfolding row_major_def by (intro arg_cong [where f = concat] map_cong refl) auto

lemma map_row_major: "map h (row_major n m f) = row_major n m (\<lambda>i j. h (f i j))"
  by (simp add: row_major_def map_concat comp_def)

section \<open>Codecs\<close>

text \<open>Read \<open>n\<close> values of width \<open>w\<close> off the front of a buffer; \<open>None\<close> when it is too short.\<close>

fun dec_seq :: "nat \<Rightarrow> ('b list \<Rightarrow> 'a) \<Rightarrow> nat \<Rightarrow> 'b list \<Rightarrow> ('a list \<times> 'b list) option" where
  "dec_seq w dec 0 bs = Some ([], bs)"
| "dec_seq w dec (Suc n) bs =
     (if length bs < w then None
      else map_option (\<lambda>(vs, rest). (dec (take w bs) # vs, rest)) (dec_seq w dec n (drop w bs)))"

locale codec =
  fixes enc :: "'a \<Rightarrow> 'b list" and dec :: "'b list \<Rightarrow> 'a" and width :: nat
  assumes enc_width: "length (enc v) = width"
    and dec_enc: "dec (enc v) = v"
begin

lemma enc_inj: "enc u = enc v \<longleftrightarrow> u = v"
  by (metis dec_enc)

lemma length_enc_seq: "length (concat (map enc vs)) = length vs * width"
  by (induction vs) (simp_all add: enc_width)

lemma dec_seq_enc:
  "dec_seq width dec (length vs) (concat (map enc vs) @ rest) = Some (vs, rest)"
  by (induction vs) (simp_all add: enc_width dec_enc)

lemma dec_seq_short:
  "length bs < n * width \<Longrightarrow> dec_seq width dec n bs = None"
proof (induction n arbitrary: bs)
  case 0
  then show ?case by simp
next
  case (Suc n)
  show ?case
  proof (cases "length bs < width")
    case True
    then show ?thesis by simp
  next
    case False
    with Suc.prems have "length (drop width bs) < n * width" by simp
    from Suc.IH [OF this] False show ?thesis by simp
  qed
qed

end

section \<open>The element types of the program\<close>

definition enc_i8 :: "8 word \<Rightarrow> byte list" where
  "enc_i8 v = [v]"

definition dec_i8 :: "byte list \<Rightarrow> 8 word" where
  "dec_i8 bs = (case bs of [v] \<Rightarrow> v | _ \<Rightarrow> 0)"

definition enc_i32 :: "32 word \<Rightarrow> byte list" where
  "enc_i32 v = [ucast v, ucast (drop_bit 8 v), ucast (drop_bit 16 v), ucast (drop_bit 24 v)]"

definition dec_i32 :: "byte list \<Rightarrow> 32 word" where
  "dec_i32 bs =
     (case bs of
        [a, b, c, d] \<Rightarrow>
          ucast a OR push_bit 8 (ucast b) OR push_bit 16 (ucast c) OR push_bit 24 (ucast d)
      | _ \<Rightarrow> 0)"

lemma dec_enc_i32: "dec_i32 (enc_i32 v) = v"
proof (rule bit_word_eqI)
  fix n assume "n < LENGTH(32)"
  then have n: "n < 32" by simp
  show "bit (dec_i32 (enc_i32 v)) n = bit v n"
  proof (cases "n < 8 \<or> 24 \<le> n")
    case True
    then show ?thesis using n by (auto simp: dec_i32_def enc_i32_def bit_simps)
  next
    case False
    then show ?thesis using n
      by (cases "n < 16") (auto simp: dec_i32_def enc_i32_def bit_simps)
  qed
qed

interpretation i8: codec enc_i8 dec_i8 1
  by unfold_locales (simp_all add: enc_i8_def dec_i8_def)

interpretation i32: codec enc_i32 dec_i32 4
  by unfold_locales (simp_all add: dec_enc_i32, simp add: enc_i32_def)

end
