(* ===== verification/Golden.thy ===== *)
theory Golden
  imports Py_Values Bytes
begin

text \<open>
  \<^verbatim>\<open>run/golden.py\<close>: the reference that draws random int8 matrices \<open>k\<close> and \<open>x\<close> and an int32
  matrix \<open>a\<close>, writes them to \<open>kxa.bin\<close>, and writes \<open>y = k.T @ x + a\<close> to \<open>y_exp.bin\<close>.
  A numpy array is a shape and an element function; \<open>int32\<close> elements are 32-bit words, on
  which \<open>+\<close> and \<open>*\<close> wrap as numpy's do.  \<open>np.random.randint\<close> is outside the sources, so it
  is the parameter \<open>randint\<close>, used only through its documented range (\<open>randint_ok\<close>: the
  upper bound is exclusive).
  The reader of the files is the firmware (\<^verbatim>\<open>c/firmware.h\<close>): \<open>fread\<close> into the structure
  \<open>Memory_st\<close> that \<^verbatim>\<open>run/config.py\<close> generates, and \<open>check_output\<close>, whose C reference
  loop is modelled at the end.
\<close>

section \<open>Arrays\<close>

record 'a ndarray =
  nrows :: nat
  ncols :: nat
  elem :: "nat \<Rightarrow> nat \<Rightarrow> 'a"

definition np_T :: "'a ndarray \<Rightarrow> 'a ndarray" where
  "np_T A = \<lparr>nrows = ncols A, ncols = nrows A, elem = (\<lambda>i j. elem A j i)\<rparr>"

definition np_matmul :: "32 word ndarray \<Rightarrow> 32 word ndarray \<Rightarrow> 32 word ndarray res" where
  "np_matmul A B =
     (if ncols A = nrows B
      then Inr \<lparr>nrows = nrows A, ncols = ncols B,
                elem = (\<lambda>i j. \<Sum>l\<leftarrow>[0..<ncols A]. elem A i l * elem B l j)\<rparr>
      else Inl (ValueError ''matmul: Input operand 1 has a mismatch in its core dimension 0''))"

definition np_add :: "32 word ndarray \<Rightarrow> 32 word ndarray \<Rightarrow> 32 word ndarray res" where
  "np_add A B =
     (if nrows A = nrows B \<and> ncols A = ncols B
      then Inr \<lparr>nrows = nrows A, ncols = ncols A, elem = (\<lambda>i j. elem A i j + elem B i j)\<rparr>
      else Inl (ValueError ''operands could not be broadcast together''))"

text \<open>\<open>astype(np.int8)\<close> keeps the low byte; \<open>tobytes()\<close> is C order, little endian.\<close>

definition astype_int8 :: "32 word ndarray \<Rightarrow> 8 word ndarray" where
  "astype_int8 A = \<lparr>nrows = nrows A, ncols = ncols A, elem = (\<lambda>i j. ucast (elem A i j))\<rparr>"

definition tobytes_i8 :: "8 word ndarray \<Rightarrow> byte list" where
  "tobytes_i8 A = concat (map enc_i8 (row_major (nrows A) (ncols A) (elem A)))"

definition tobytes_i32 :: "32 word ndarray \<Rightarrow> byte list" where
  "tobytes_i32 A = concat (map enc_i32 (row_major (nrows A) (ncols A) (elem A)))"

section \<open>\<open>main\<close>\<close>

text \<open>
  \<open>randint call lo hi i j\<close> is element \<open>(i, j)\<close> of the array the given call draws.
\<close>

type_synonym randint = "nat \<Rightarrow> int \<Rightarrow> int \<Rightarrow> nat \<Rightarrow> nat \<Rightarrow> int"

definition randint_ok :: "randint \<Rightarrow> bool" where
  "randint_ok rnd \<longleftrightarrow> (\<forall>call lo hi i j. lo < hi \<longrightarrow> lo \<le> rnd call lo hi i j \<and> rnd call lo hi i j < hi)"

definition np_randint :: "randint \<Rightarrow> nat \<Rightarrow> int \<Rightarrow> int \<Rightarrow> nat \<Rightarrow> nat \<Rightarrow> 32 word ndarray" where
  "np_randint rnd call lo hi n m =
     \<lparr>nrows = n, ncols = m, elem = (\<lambda>i j. word_of_int (rnd call lo hi i j))\<rparr>"

record golden_files =
  kxa_bin :: "byte list"
  y_exp_bin :: "byte list"

definition golden_main :: "randint \<Rightarrow> nat \<Rightarrow> nat \<Rightarrow> nat \<Rightarrow> golden_files res" where
  "golden_main rnd R K C =
     (let k = np_randint rnd 0 (-128) 127 K C;
          x = np_randint rnd 1 (-128) 127 K R;
          a = np_randint rnd 2 (-2147483648) 2147483647 C R;
          kxa = tobytes_i8 (astype_int8 k) @ tobytes_i8 (astype_int8 x) @ tobytes_i32 a
      in bind_res (np_matmul (np_T k) x) (\<lambda>p.
         bind_res (np_add p a) (\<lambda>y.
         Inr \<lparr>kxa_bin = kxa, y_exp_bin = tobytes_i32 y\<rparr>)))"

text \<open>The matrices that a run draws, as integers.\<close>

definition k_of :: "randint \<Rightarrow> nat \<Rightarrow> nat \<Rightarrow> int" where
  "k_of rnd = rnd 0 (-128) 127"

definition x_of :: "randint \<Rightarrow> nat \<Rightarrow> nat \<Rightarrow> int" where
  "x_of rnd = rnd 1 (-128) 127"

definition a_of :: "randint \<Rightarrow> nat \<Rightarrow> nat \<Rightarrow> int" where
  "a_of rnd = rnd 2 (-2147483648) 2147483647"

lemma k_of_range: "randint_ok rnd \<Longrightarrow> -128 \<le> k_of rnd i j \<and> k_of rnd i j < 127"
  by (auto simp: randint_ok_def k_of_def)

lemma x_of_range: "randint_ok rnd \<Longrightarrow> -128 \<le> x_of rnd i j \<and> x_of rnd i j < 127"
  by (auto simp: randint_ok_def x_of_def)

lemma a_of_range: "randint_ok rnd \<Longrightarrow> -2147483648 \<le> a_of rnd i j \<and> a_of rnd i j < 2147483647"
  by (auto simp: randint_ok_def a_of_def)

text \<open>The expected value over the integers.\<close>

definition dot :: "nat \<Rightarrow> (nat \<Rightarrow> nat \<Rightarrow> int) \<Rightarrow> (nat \<Rightarrow> nat \<Rightarrow> int) \<Rightarrow> nat \<Rightarrow> nat \<Rightarrow> int" where
  "dot K k x c r = (\<Sum>l\<leftarrow>[0..<K]. k l c * x l r)"

definition y_spec :: "randint \<Rightarrow> nat \<Rightarrow> nat \<Rightarrow> nat \<Rightarrow> int" where
  "y_spec rnd K c r = dot K (k_of rnd) (x_of rnd) c r + a_of rnd c r"

lemma sum_list_word_of_int:
  "(\<Sum>l\<leftarrow>ls. word_of_int (f l)) = (word_of_int (\<Sum>l\<leftarrow>ls. f l) :: 'w::len word)"
  by (induction ls) simp_all

lemma sum_list_word_of_int_mult:
  "(\<Sum>l\<leftarrow>ls. word_of_int (f l) * word_of_int (g l)) = (word_of_int (\<Sum>l\<leftarrow>ls. f l * g l) :: 'w::len word)"
  by (induction ls) simp_all

lemma ucast_word_of_int_down:
  "LENGTH('b) \<le> LENGTH('a) \<Longrightarrow> ucast (word_of_int i :: 'a::len word) = (word_of_int i :: 'b::len word)"
  by (rule bit_word_eqI) (auto simp: bit_simps)

lemma golden_main_eq:
  "golden_main rnd R K C =
     Inr \<lparr>kxa_bin =
            concat (map enc_i8 (row_major K C (\<lambda>i j. word_of_int (k_of rnd i j)))) @
            concat (map enc_i8 (row_major K R (\<lambda>i j. word_of_int (x_of rnd i j)))) @
            concat (map enc_i32 (row_major C R (\<lambda>i j. word_of_int (a_of rnd i j)))),
          y_exp_bin =
            concat (map enc_i32 (row_major C R (\<lambda>c r. word_of_int (y_spec rnd K c r))))\<rparr>"
proof -
  have "(\<Sum>l\<leftarrow>[0..<K]. word_of_int (rnd 0 (- 128) 127 l c) * word_of_int (rnd 1 (- 128) 127 l r))
          + word_of_int (rnd 2 (- 2147483648) 2147483647 c r)
        = (word_of_int (y_spec rnd K c r) :: 32 word)" for c r
    by (simp add: sum_list_word_of_int_mult y_spec_def dot_def k_of_def x_of_def a_of_def)
  moreover have "ucast (word_of_int i :: 32 word) = (word_of_int i :: 8 word)" for i
    by (rule ucast_word_of_int_down) simp
  ultimately show ?thesis
    by (simp add: golden_main_def np_randint_def np_matmul_def np_T_def np_add_def
        tobytes_i8_def tobytes_i32_def astype_int8_def k_of_def x_of_def a_of_def)
qed

section \<open>The reader: the firmware's memory structure\<close>

text \<open>
  \<open>Memory_st\<close> as \<^verbatim>\<open>run/config.py\<close> generates it (lines 105 to 110, with the default widths
  8, 8 and 32), laid out by the natural alignment of the C ABI: each member starts at the
  next multiple of its element size.
\<close>

definition align_up :: "nat \<Rightarrow> nat \<Rightarrow> nat" where
  "align_up n a = (n + (a - 1)) div a * a"

record memory_layout =
  off_k :: nat
  off_x :: nat
  off_a :: nat
  off_y :: nat
  size_of :: nat

definition memory_st :: "nat \<Rightarrow> nat \<Rightarrow> nat \<Rightarrow> memory_layout" where
  "memory_st R K C =
     (let ok = 0; ox = ok + K * C; oa = align_up (ox + K * R) 4; oy = oa + C * R * 4
      in \<lparr>off_k = ok, off_x = ox, off_a = oa, off_y = oy, size_of = align_up (oy + C * R * 4) 4\<rparr>)"

text \<open>\<open>fread(mp->k, 1, n, fp)\<close>: at most \<open>n\<close> bytes of the file, written from offset 0 on.\<close>

definition fread_into :: "byte list \<Rightarrow> nat \<Rightarrow> byte list \<Rightarrow> byte list" where
  "fread_into mem n file = take n file @ drop (length (take n file)) mem"

definition load_kxa :: "nat \<Rightarrow> nat \<Rightarrow> nat \<Rightarrow> byte list \<Rightarrow> byte list \<Rightarrow> byte list" where
  "load_kxa R K C file mem = fread_into mem (K * C + K * R + C * R * 4) file"

definition mem_i8 :: "byte list \<Rightarrow> nat \<Rightarrow> nat \<Rightarrow> nat \<Rightarrow> nat \<Rightarrow> int" where
  "mem_i8 mem off cols i j = sint (mem ! (off + (i * cols + j)))"

definition mem_i32 :: "byte list \<Rightarrow> nat \<Rightarrow> nat \<Rightarrow> nat \<Rightarrow> nat \<Rightarrow> int" where
  "mem_i32 mem off cols i j = sint (dec_i32 (take 4 (drop (off + (i * cols + j) * 4) mem)))"

lemma align_up_dvd: "0 < a \<Longrightarrow> a dvd n \<Longrightarrow> align_up n a = n"
proof -
  assume a: "0 < a" and "a dvd n"
  then obtain k where n: "n = a * k" by (elim dvdE)
  have "(a * k + (a - 1)) div a = k"
    by (rule div_nat_eqI) (use a in \<open>simp_all add: algebra_simps\<close>)
  then show ?thesis by (simp add: align_up_def n)
qed

lemma concat_enc_i8: "concat (map enc_i8 vs) = vs"
  by (induction vs) (simp_all add: enc_i8_def)

lemma sint_of_int_8: "-128 \<le> i \<Longrightarrow> i < 128 \<Longrightarrow> sint (word_of_int i :: 8 word) = i"
  by (simp add: signed_of_int signed_take_bit_int_eq_self)

lemma sint_of_int_32:
  "-2147483648 \<le> i \<Longrightarrow> i < 2147483648 \<Longrightarrow> sint (word_of_int i :: 32 word) = i"
  by (simp add: signed_of_int signed_take_bit_int_eq_self)

lemma take_enc_i32:
  "n < length vs \<Longrightarrow> take 4 (drop (n * 4) (concat (map enc_i32 vs) @ rest)) = enc_i32 (vs ! n)"
proof (induction vs arbitrary: n)
  case Nil
  then show ?case by simp
next
  case (Cons v vs)
  have w: "length (enc_i32 v) = 4" by (simp add: enc_i32_def)
  show ?case
  proof (cases n)
    case 0
    with w show ?thesis by simp
  next
    case (Suc m)
    have "drop (Suc m * 4) (enc_i32 v @ concat (map enc_i32 vs) @ rest)
          = drop (m * 4) (concat (map enc_i32 vs) @ rest)"
      using w by simp
    with Suc Cons show ?thesis by (simp del: drop_append)
  qed
qed

text \<open>
  \<open>check_output\<close>: for each element the loop sums \<open>(int)k * (int)x\<close> in a C \<open>int\<close>, adds \<open>a\<close>,
  stores the sum and counts the elements of \<open>y\<close> that differ.
\<close>

definition c_sum :: "nat \<Rightarrow> (nat \<Rightarrow> nat \<Rightarrow> int) \<Rightarrow> (nat \<Rightarrow> nat \<Rightarrow> int) \<Rightarrow> (nat \<Rightarrow> nat \<Rightarrow> int)
    \<Rightarrow> nat \<Rightarrow> nat \<Rightarrow> 32 word" where
  "c_sum K k x a c r =
     foldl (\<lambda>sum l. sum + word_of_int (k l c) * word_of_int (x l r)) 0 [0..<K]
       + word_of_int (a c r)"

definition check_output :: "nat \<Rightarrow> nat \<Rightarrow> nat \<Rightarrow> (nat \<Rightarrow> nat \<Rightarrow> int) \<Rightarrow> (nat \<Rightarrow> nat \<Rightarrow> int)
    \<Rightarrow> (nat \<Rightarrow> nat \<Rightarrow> int) \<Rightarrow> (nat \<Rightarrow> nat \<Rightarrow> int) \<Rightarrow> nat" where
  "check_output R K C k x a y =
     length (filter (\<lambda>b. b) (row_major C R (\<lambda>c r. y c r \<noteq> sint (c_sum K k x a c r))))"

lemma foldl_plus_sum_list:
  "foldl (\<lambda>s l. s + f l) z ls = (z + (\<Sum>l\<leftarrow>ls. f l) :: 'w::len word)"
  by (induction ls arbitrary: z) (simp_all add: add.assoc)

lemma c_sum_dot: "c_sum K k x a c r = word_of_int (dot K k x c r + a c r)"
  by (simp add: c_sum_def dot_def foldl_plus_sum_list sum_list_word_of_int_mult)

lemma mem_i32_row_major_at:
  assumes "c < C" "r < R"
  shows "mem_i32 (pre @ concat (map enc_i32 (row_major C R f)) @ rest) (length pre) R c r = sint (f c r)"
proof -
  have "drop (length pre + (c * R + r) * 4) (pre @ concat (map enc_i32 (row_major C R f)) @ rest)
        = drop ((c * R + r) * 4) (concat (map enc_i32 (row_major C R f)) @ rest)"
    by simp
  then show ?thesis
    using take_enc_i32 [of "c * R + r" "row_major C R f" rest] assms
    by (simp add: mem_i32_def index_bound row_major_nth dec_enc_i32 del: drop_append)
qed

lemma mem_i32_row_major:
  "c < C \<Longrightarrow> r < R \<Longrightarrow> mem_i32 (concat (map enc_i32 (row_major C R f)) @ rest) 0 R c r = sint (f c r)"
  using mem_i32_row_major_at [where pre = "[]"] by simp

lemma dot_bound:
  assumes "\<And>i j. \<bar>k i j\<bar> \<le> 128" and "\<And>i j. \<bar>x i j\<bar> \<le> 128"
  shows "\<bar>dot K k x c r\<bar> \<le> 16384 * int K"
proof -
  have prod: "\<bar>k l c * x l r\<bar> \<le> 16384" for l
    using mult_mono [of "\<bar>k l c\<bar>" 128 "\<bar>x l r\<bar>" 128] assms by (simp add: abs_mult)
  have "\<bar>\<Sum>l\<leftarrow>ls. k l c * x l r\<bar> \<le> 16384 * int (length ls)" for ls
  proof (induction ls)
    case Nil
    then show ?case by simp
  next
    case (Cons l ls)
    then show ?case using prod [of l] by simp
  qed
  from this [of "[0..<K]"] show ?thesis by (simp add: dot_def)
qed

section \<open>Properties\<close>

lemma load_kxa_eq:
  assumes "golden_main rnd R K C = Inr f"
  shows "load_kxa R K C (kxa_bin f) mem =
           row_major K C (\<lambda>i j. word_of_int (k_of rnd i j)) @
           row_major K R (\<lambda>i j. word_of_int (x_of rnd i j)) @
           concat (map enc_i32 (row_major C R (\<lambda>i j. word_of_int (a_of rnd i j)))) @
           drop (K * C + K * R + C * R * 4) mem"
  using assms
  by (auto simp: golden_main_eq load_kxa_def fread_into_def concat_enc_i8 i32.length_enc_seq add.assoc)

text \<open>
  the firmware's \<open>fread\<close> of \<^verbatim>\<open>kxa.bin\<close> into \<open>Memory_st\<close>
  finds in \<open>k\<close>, \<open>x\<close> and \<open>a\<close> exactly the integers that were drawn, and leaves \<open>y\<close> as it was,
  provided the int8 matrices together fill whole words (\<open>4 dvd K*C + K*R\<close>); otherwise the
  C structure has padding before \<open>a\<close> that the file does not have.
\<close>

theorem firmware_reads_kxa:
  assumes rnd: "randint_ok rnd" and al: "4 dvd K * C + K * R"
    and run: "golden_main rnd R K C = Inr f"
    and len: "length mem = size_of (memory_st R K C)"
  shows "(\<forall>i<K. \<forall>j<C. mem_i8 (load_kxa R K C (kxa_bin f) mem) (off_k (memory_st R K C)) C i j = k_of rnd i j) \<and>
         (\<forall>i<K. \<forall>j<R. mem_i8 (load_kxa R K C (kxa_bin f) mem) (off_x (memory_st R K C)) R i j = x_of rnd i j) \<and>
         (\<forall>i<C. \<forall>j<R. mem_i32 (load_kxa R K C (kxa_bin f) mem) (off_a (memory_st R K C)) R i j = a_of rnd i j) \<and>
         drop (off_y (memory_st R K C)) (load_kxa R K C (kxa_bin f) mem) = drop (off_y (memory_st R K C)) mem"
proof -
  have oa: "off_a (memory_st R K C) = K * C + K * R"
    using align_up_dvd [OF _ al] by (simp add: memory_st_def Let_def)
  have oy: "off_y (memory_st R K C) = K * C + K * R + C * R * 4"
    using oa by (simp add: memory_st_def Let_def)
  have k8: "sint (word_of_int (k_of rnd i j) :: 8 word) = k_of rnd i j" for i j
    using k_of_range [OF rnd, of i j] by (simp add: sint_of_int_8)
  have x8: "sint (word_of_int (x_of rnd i j) :: 8 word) = x_of rnd i j" for i j
    using x_of_range [OF rnd, of i j] by (simp add: sint_of_int_8)
  have a32: "sint (word_of_int (a_of rnd i j) :: 32 word) = a_of rnd i j" for i j
    using a_of_range [OF rnd, of i j] by (simp add: sint_of_int_32)
  note load = load_kxa_eq [OF run]
  have "\<forall>i<K. \<forall>j<C. mem_i8 (load_kxa R K C (kxa_bin f) mem) 0 C i j = k_of rnd i j"
    by (simp add: load mem_i8_def nth_append index_bound row_major_nth k8)
  moreover have "\<forall>i<K. \<forall>j<R. mem_i8 (load_kxa R K C (kxa_bin f) mem) (K * C) R i j = x_of rnd i j"
    by (simp add: load mem_i8_def nth_append index_bound row_major_nth x8)
  moreover have "\<forall>i<C. \<forall>j<R. mem_i32 (load_kxa R K C (kxa_bin f) mem) (K * C + K * R) R i j = a_of rnd i j"
  proof (intro allI impI)
    fix i j assume "i < C" and "j < R"
    from mem_i32_row_major_at [OF this, where f = "\<lambda>i j. word_of_int (a_of rnd i j)" and
        pre = "row_major K C (\<lambda>i j. word_of_int (k_of rnd i j)) @ row_major K R (\<lambda>i j. word_of_int (x_of rnd i j))"]
    show "mem_i32 (load_kxa R K C (kxa_bin f) mem) (K * C + K * R) R i j = a_of rnd i j"
      by (simp add: load a32)
  qed
  moreover have "drop (K * C + K * R + C * R * 4) (load_kxa R K C (kxa_bin f) mem)
      = drop (K * C + K * R + C * R * 4) mem"
    by (simp add: load i32.length_enc_seq)
  ultimately show ?thesis using oa oy by (simp add: memory_st_def Let_def)
qed

definition rnd_low :: randint where
  "rnd_low call lo hi i j = lo"

lemma rnd_low_ok: "randint_ok rnd_low"
  by (simp add: randint_ok_def rnd_low_def)

theorem firmware_reads_kxa_witness:
  "\<exists>f. golden_main rnd_low 2 2 2 = Inr f \<and>
       mem_i8 (load_kxa 2 2 2 (kxa_bin f) (replicate 40 0)) 4 2 0 1 = -128 \<and>
       mem_i32 (load_kxa 2 2 2 (kxa_bin f) (replicate 40 0)) 8 2 1 1 = -2147483648"
proof -
  obtain f where f: "golden_main rnd_low 2 2 2 = Inr f"
    using golden_main_eq by blast
  have "length (replicate 40 (0::byte)) = size_of (memory_st 2 2 2)"
    by (simp add: memory_st_def Let_def align_up_def)
  from firmware_reads_kxa [OF rnd_low_ok _ f this]
  have "\<forall>i<2. \<forall>j<2. mem_i8 (load_kxa 2 2 2 (kxa_bin f) (replicate 40 0)) 4 2 i j = -128"
    and "\<forall>i<2. \<forall>j<2. mem_i32 (load_kxa 2 2 2 (kxa_bin f) (replicate 40 0)) 8 2 i j = -2147483648"
    by (simp_all add: memory_st_def Let_def align_up_def x_of_def a_of_def rnd_low_def)
  with f show ?thesis by (intro exI [of _ f]) simp
qed

text \<open>
  each element of \<^verbatim>\<open>y_exp.bin\<close> is the 32-bit two's complement value
  of \<open>k.T @ x + a\<close> over the integers, and is that integer itself when no wrap-around can
  happen, i.e. when \<open>16384 * K + |a| < 2^31\<close>.
\<close>

theorem golden_y_exp:
  assumes "golden_main rnd R K C = Inr f" and "c < C" and "r < R"
  shows "mem_i32 (y_exp_bin f) 0 R c r
           = (y_spec rnd K c r + 2147483648) mod 4294967296 - 2147483648 \<and>
         (randint_ok rnd \<and> 16384 * int K + \<bar>a_of rnd c r\<bar> < 2147483648 \<longrightarrow>
           mem_i32 (y_exp_bin f) 0 R c r = y_spec rnd K c r)"
proof -
  have y: "mem_i32 (y_exp_bin f) 0 R c r = sint (word_of_int (y_spec rnd K c r) :: 32 word)"
    using mem_i32_row_major [OF assms(2,3), where rest = "[]"] assms(1)
    by (auto simp: golden_main_eq)
  have wrap: "sint (word_of_int i :: 32 word) = (i + 2147483648) mod 4294967296 - 2147483648" for i
    by (simp add: signed_of_int signed_take_bit_eq_take_bit_shift take_bit_eq_mod)
  have "y_spec rnd K c r \<in> {-2147483648..<2147483648}"
    if "randint_ok rnd" "16384 * int K + \<bar>a_of rnd c r\<bar> < 2147483648"
  proof -
    have "\<bar>dot K (k_of rnd) (x_of rnd) c r\<bar> \<le> 16384 * int K"
    proof (rule dot_bound)
      show "\<bar>k_of rnd i j\<bar> \<le> 128" for i j using k_of_range [OF that(1), of i j] by arith
      show "\<bar>x_of rnd i j\<bar> \<le> 128" for i j using x_of_range [OF that(1), of i j] by arith
    qed
    with that(2) show ?thesis by (auto simp: y_spec_def)
  qed
  then show ?thesis using y wrap by (auto simp: sint_of_int_32)
qed

definition rnd_mid :: randint where
  "rnd_mid call lo hi i j = (lo + hi) div 2"

lemma rnd_mid_ok: "randint_ok rnd_mid"
  by (auto simp: randint_ok_def rnd_mid_def)

theorem golden_y_exp_witness:
  "\<exists>f. golden_main rnd_mid 1 2 1 = Inr f \<and> mem_i32 (y_exp_bin f) 0 1 0 0 = 1"
proof -
  obtain f where f: "golden_main rnd_mid 1 2 1 = Inr f"
    using golden_main_eq by blast
  have y: "y_spec rnd_mid 2 0 0 = 1"
    by (simp add: y_spec_def dot_def k_of_def x_of_def a_of_def rnd_mid_def upt_rec)
  from golden_y_exp [OF f, of 0 0] have "mem_i32 (y_exp_bin f) 0 1 0 0 = 1"
    by (simp add: y)
  with f show ?thesis by blast
qed

text \<open>
  the firmware's own check, which recomputes every element with a C loop
  over the integers it loaded, finds no mismatch against the values of \<^verbatim>\<open>y_exp.bin\<close>; the
  two references agree for every shape, including where the sum wraps around.
\<close>

theorem golden_passes_check_output:
  assumes "golden_main rnd R K C = Inr f"
  shows "check_output R K C (k_of rnd) (x_of rnd) (a_of rnd) (mem_i32 (y_exp_bin f) 0 R) = 0"
proof -
  have "row_major C R (\<lambda>c r. mem_i32 (y_exp_bin f) 0 R c r \<noteq> sint (c_sum K (k_of rnd) (x_of rnd) (a_of rnd) c r))
        = row_major C R (\<lambda>c r. False)"
    using mem_i32_row_major [where rest = "[]"] assms
    by (intro row_major_cong) (auto simp: golden_main_eq c_sum_dot y_spec_def)
  then show ?thesis by (simp add: check_output_def row_major_def filter_concat)
qed

theorem golden_passes_check_output_witness:
  "\<exists>f. golden_main rnd_low 2 3 2 = Inr f \<and>
       check_output 2 3 2 (k_of rnd_low) (x_of rnd_low) (a_of rnd_low) (mem_i32 (y_exp_bin f) 0 2) = 0"
proof -
  obtain f where f: "golden_main rnd_low 2 3 2 = Inr f"
    using golden_main_eq by blast
  from golden_passes_check_output [OF f] f show ?thesis by blast
qed

end
