(* ===== verification/Sys_Config.thy ===== *)
theory Sys_Config
  imports Py_Values
begin

text \<open>
  \<^verbatim>\<open>run/config.py\<close>: the one place where the parameters of the systolic-array subsystem are
  turned into the four files the other languages read: \<^verbatim>\<open>config.svh\<close> (SystemVerilog),
  \<^verbatim>\<open>config.h\<close> (firmware), \<^verbatim>\<open>config.tcl\<close> (Vivado) and \<^verbatim>\<open>config.scala\<close> (Chipyard).  The
  generated text is modelled character by character; a run is the list of the files it has
  written so far and its outcome, because an exception in the middle leaves files behind.
  The first properties read the generated header back the way the C preprocessor does.
\<close>

section \<open>Arguments\<close>

record config_args =
  arg_R :: int
  arg_C :: int
  arg_K :: int
  arg_WK :: int
  arg_WX :: int
  arg_WY :: int
  arg_VALID_PROB :: int
  arg_READY_PROB :: int
  arg_DATA_DIR :: string
  arg_FREQ_MHZ :: int
  arg_AXI_WIDTH :: int
  arg_AXIL_WIDTH :: int
  arg_ADDR_WIDTH :: int
  arg_TARGET :: string
  arg_WORK_DIR :: string

text \<open>
  \<open>argparse\<close> on the option/value pairs: a missing required option or a value that is not an
  integer exits with status 2, an option that is not declared does too; the last of several
  values for an option counts.
\<close>

definition option_names :: "string list" where
  "option_names = [''R'', ''C'', ''K'', ''WK'', ''WX'', ''WY'', ''VALID_PROB'', ''READY_PROB'', ''DATA_DIR'',
     ''FREQ_MHZ'', ''AXI_WIDTH'', ''AXIL_WIDTH'', ''ADDR_WIDTH'', ''TARGET'', ''WORK_DIR'']"

definition last_value :: "(string, string) dict \<Rightarrow> string \<Rightarrow> string option" where
  "last_value opts k = map_of (rev opts) k"

definition usage :: exn where
  "usage = SystemExit 2"

definition opt_int :: "(string, string) dict \<Rightarrow> string \<Rightarrow> int option \<Rightarrow> int res" where
  "opt_int opts k dflt =
     (case last_value opts k of
        Some v \<Rightarrow> (case py_int 10 v of Inl _ \<Rightarrow> Inl usage | Inr i \<Rightarrow> Inr i)
      | None \<Rightarrow> (case dflt of None \<Rightarrow> Inl usage | Some d \<Rightarrow> Inr d))"

definition opt_str :: "(string, string) dict \<Rightarrow> string \<Rightarrow> string option \<Rightarrow> string res" where
  "opt_str opts k dflt =
     (case last_value opts k of
        Some v \<Rightarrow> Inr v
      | None \<Rightarrow> (case dflt of None \<Rightarrow> Inl usage | Some d \<Rightarrow> Inr d))"

definition parse_args :: "(string, string) dict \<Rightarrow> config_args res" where
  "parse_args opts =
     (if \<not> set (map fst opts) \<subseteq> set option_names then Inl usage else
      bind_res (opt_int opts ''R'' None) (\<lambda>r.
      bind_res (opt_int opts ''C'' None) (\<lambda>c.
      bind_res (opt_int opts ''K'' None) (\<lambda>k.
      bind_res (opt_int opts ''WK'' (Some 8)) (\<lambda>wk.
      bind_res (opt_int opts ''WX'' (Some 8)) (\<lambda>wx.
      bind_res (opt_int opts ''WY'' (Some 32)) (\<lambda>wy.
      bind_res (opt_int opts ''VALID_PROB'' (Some 1000)) (\<lambda>vp.
      bind_res (opt_int opts ''READY_PROB'' (Some 1000)) (\<lambda>rp.
      bind_res (opt_str opts ''DATA_DIR'' None) (\<lambda>dd.
      bind_res (opt_int opts ''FREQ_MHZ'' (Some 100)) (\<lambda>fr.
      bind_res (opt_int opts ''AXI_WIDTH'' (Some 128)) (\<lambda>axi.
      bind_res (opt_int opts ''AXIL_WIDTH'' (Some 32)) (\<lambda>axil.
      bind_res (opt_int opts ''ADDR_WIDTH'' (Some 32)) (\<lambda>adr.
      bind_res (opt_str opts ''TARGET'' (Some ''sim'')) (\<lambda>tg.
      bind_res (opt_str opts ''WORK_DIR'' (Some ''work'')) (\<lambda>wd.
      Inr \<lparr>arg_R = r, arg_C = c, arg_K = k, arg_WK = wk, arg_WX = wx, arg_WY = wy,
           arg_VALID_PROB = vp, arg_READY_PROB = rp, arg_DATA_DIR = dd, arg_FREQ_MHZ = fr,
           arg_AXI_WIDTH = axi, arg_AXIL_WIDTH = axil, arg_ADDR_WIDTH = adr,
           arg_TARGET = tg, arg_WORK_DIR = wd\<rparr>))))))))))))))))"

section \<open>Tables\<close>

definition target_config_map :: "(string, string \<times> string) dict" where
  "target_config_map =
     [(''sim'',     (''B0000000'', ''16M'')),
      (''pynq_z2'', (''40000000'', ''1G'')),
      (''zcu104'',  (''B0000000'', ''256M'')),
      (''zcu102'',  (''B0000000'', ''256M'')),
      (''ibex'',    (''B0000000'', ''256M'')),
      (''boom'',    (''2000'',     ''256M''))]"

definition addr_map :: "(string, string) dict" where
  "addr_map =
     [(''A_START       '', ''0''),
      (''A_MM2S_0_DONE '', ''1''),
      (''A_MM2S_0_ADDR '', ''2''),
      (''A_MM2S_0_BYTES'', ''3''),
      (''A_MM2S_0_TUSER'', ''4''),
      (''A_MM2S_1_DONE '', ''5''),
      (''A_MM2S_1_ADDR '', ''6''),
      (''A_MM2S_1_BYTES'', ''7''),
      (''A_MM2S_1_TUSER'', ''8''),
      (''A_MM2S_2_DONE '', ''9''),
      (''A_MM2S_2_ADDR '', ''A''),
      (''A_MM2S_2_BYTES'', ''B''),
      (''A_MM2S_2_TUSER'', ''C''),
      (''A_S2MM_DONE   '', ''D''),
      (''A_S2MM_ADDR   '', ''E''),
      (''A_S2MM_BYTES  '', ''F'')]"

definition addr_line_svh :: "string \<times> string \<Rightarrow> string" where
  "addr_line_svh kv = [CHR 0x60] @ ''define '' @ fst kv @ '' h'' @ [CHR 0x27] @ snd kv"

definition addr_line_h :: "string \<times> string \<Rightarrow> string" where
  "addr_line_h kv = ''#define '' @ fst kv @ '' 0x'' @ snd kv"

text \<open>\<open>int(1000.0 / f)\<close>: truncation towards zero; division by zero raises.\<close>

definition clk_period :: "int \<Rightarrow> int res" where
  "clk_period f =
     (if f = 0 then Inl ZeroDivisionError
      else Inr (if 0 < f then 1000 div f else - (1000 div (- f))))"

definition zfill :: "nat \<Rightarrow> string \<Rightarrow> string" where
  "zfill n s = replicate (n - length s) (CHR ''0'') @ s"

section \<open>The generated files\<close>

definition config_svh :: "config_args \<Rightarrow> string \<Rightarrow> int \<Rightarrow> string" where
  "config_svh args base period = py_join newline
    ([[],
      [CHR 0x60] @ ''define R              '' @ str_int (arg_R args),
      [CHR 0x60] @ ''define C              '' @ str_int (arg_C args),
      [CHR 0x60] @ ''define WK             '' @ str_int (arg_WK args),
      [CHR 0x60] @ ''define WX             '' @ str_int (arg_WX args),
      [CHR 0x60] @ ''define WY             '' @ str_int (arg_WY args),
      [CHR 0x60] @ ''define VALID_PROB     '' @ str_int (arg_VALID_PROB args),
      [CHR 0x60] @ ''define READY_PROB     '' @ str_int (arg_READY_PROB args),
      [CHR 0x60] @ ''define CLK_PERIOD     '' @ str_int period,
      [CHR 0x60] @ ''define AXI_WIDTH      '' @ str_int (arg_AXI_WIDTH args),
      [CHR 0x60] @ ''define AXIL_WIDTH     '' @ str_int (arg_AXIL_WIDTH args),
      [CHR 0x60] @ ''define ADDR_WIDTH     '' @ str_int (arg_ADDR_WIDTH args),
      [CHR 0x60] @ ''define DIR            '' @ [CHR 0x22] @ arg_DATA_DIR args @ [CHR 0x22],
      [],
      [CHR 0x60] @ ''define AXIL_BASE_ADDR 32'' @ [CHR 0x27] @ ''h'' @ base] @
     map addr_line_svh addr_map @
     [[]])"

definition config_h :: "config_args \<Rightarrow> string \<Rightarrow> string" where
  "config_h args base = py_join newline
    ([[],
      ''                '',
      ''#ifndef CONFIG_H'',
      ''#define CONFIG_H'',
      [],
      ''#include <stdint.h>'',
      ''                '',
      ''#define R               '' @ str_int (arg_R args),
      ''#define C               '' @ str_int (arg_C args),
      ''#define K               '' @ str_int (arg_K args),
      ''#define TK              int'' @ str_int (arg_WK args) @ ''_t'',
      ''#define TX              int'' @ str_int (arg_WX args) @ ''_t'',
      ''#define TY              int'' @ str_int (arg_WY args) @ ''_t'',
      ''#define REG_WIDTH       '' @ str_int (arg_AXIL_WIDTH args),
      ''#define DIR             '' @ [CHR 0x22] @ arg_DATA_DIR args @ [CHR 0x22],
      [],
      ''#define CONFIG_BASEADDR 0x'' @ base] @
     map addr_line_h addr_map @
     [[],
      ''typedef struct {'',
      ''  TK k [K][C];'',
      ''  TX x [K][R];'',
      ''  TY a [C][R];'',
      ''  TY y [C][R];'',
      ''} Memory_st;'',
      [],
      ''#endif'',
      []])"

definition config_tcl :: "config_args \<Rightarrow> string \<Rightarrow> string \<Rightarrow> string" where
  "config_tcl args base rng = py_join newline
    ([[],
      ''set CONFIG_BASEADDR     0x'' @ zfill 8 base,
      ''set CONFIG_RANGE        '' @ rng,
      ''set FREQ_MHZ            '' @ str_int (arg_FREQ_MHZ args),
      ''set AXI_WIDTH           '' @ str_int (arg_AXI_WIDTH args),
      ''set TARGET               '' @ arg_TARGET args,
      []])"

definition config_scala :: "config_args \<Rightarrow> string \<Rightarrow> string" where
  "config_scala args base = py_join newline
    ([''package chipyard.my_axi_ip'',
      [],
      ''import org.chipsalliance.cde.config.Field'',
      [],
      ''case class MyAxiIPParams('',
      ''  baseAddress:   BigInt = 0x'' @ base @ ''L,'',
      ''  cfgBytes:      Int    = 0x1000,'',
      ''  axiAddrBits:   Int    = '' @ str_int (arg_ADDR_WIDTH args) @ '','',
      ''  axiDataBits:   Int    = '' @ str_int (arg_AXI_WIDTH args) @ '','',
      ''  axiIdBits:     Int    = 6,'',
      ''  maxBurstBytes: Int    = 32 * ('' @ str_int (arg_AXI_WIDTH args) @ '' / 8),'',
      ''  idCount:       Int    = 1,'',
      ''  maxFlight:     Int    = 1,'',
      ''  verilogTop:    String = '' @ [CHR 0x22] @ ''my_axi_ip'' @ [CHR 0x22] @ '','',
      ''  resourcePath:  String = '' @ [CHR 0x22] @ ''/vsrc/my_axi_ip_blackbox.sv'' @ [CHR 0x22],
      '')'',
      [],
      ''case object MyAxiIPKey extends Field[Option[MyAxiIPParams]](None)'',
      []])"

section \<open>The run\<close>

text \<open>
  Opening a file for writing creates it; the frequency is divided while \<^verbatim>\<open>config.svh\<close> is
  already open, so a zero frequency leaves an empty \<^verbatim>\<open>config.svh\<close>.
\<close>

definition generate :: "config_args \<Rightarrow> (string, string) dict \<times> string res" where
  "generate args =
     (case map_of target_config_map (arg_TARGET args) of
        None \<Rightarrow> ([], Inl (KeyError (arg_TARGET args)))
      | Some (base, rng) \<Rightarrow>
          let svh_path = path_join (arg_WORK_DIR args) ''config.svh'';
              h_path = path_join (arg_WORK_DIR args) ''config.h'';
              tcl_path = path_join (arg_WORK_DIR args) ''config.tcl'';
              scala_path = path_join (arg_WORK_DIR args) ''config.scala''
          in case clk_period (arg_FREQ_MHZ args) of
               Inl e \<Rightarrow> ([(svh_path, [])], Inl e)
             | Inr period \<Rightarrow>
                 ([(svh_path, config_svh args base period),
                   (h_path, config_h args base),
                   (tcl_path, config_tcl args base rng),
                   (scala_path, config_scala args base)],
                  Inr (''Generated '' @ svh_path @ '', '' @ h_path @ '', '' @ tcl_path @ '', and ''
                       @ scala_path @ '' successfully.'')))"


section \<open>Reading the header back\<close>

text \<open>
  The object-like macros of a C header: the name and the first word of the replacement of
  every \<open>#define\<close> line.
\<close>

definition define_of_line :: "string \<Rightarrow> (string \<times> string) option" where
  "define_of_line line =
     (case split_ws line of d # n # v # vs \<Rightarrow> if d = ''#define'' then Some (n, v) else None
      | _ \<Rightarrow> None)"

definition parse_defines :: "string \<Rightarrow> (string, string) dict" where
  "parse_defines text = List.map_filter define_of_line (split_on (CHR 0x0A) text)"

lemma split_ws_define:
  assumes "no_ws n" "n \<noteq> []" "\<forall>c\<in>set pad. is_ws c" "pad \<noteq> []"
  shows "split_ws (''#define '' @ n @ pad @ v) = ''#define'' # n # split_ws v"
proof -
  have strip: "\<forall>c\<in>set p. is_ws c \<Longrightarrow> split_ws (p @ v) = split_ws v" for p
    by (induction p) (simp_all add: split_ws_sep)
  obtain c p where pad: "pad = c # p" using assms(4) by (cases pad) auto
  have "split_ws (''#define'' @ CHR '' '' # (n @ c # (p @ v))) = ''#define'' # split_ws (n @ c # (p @ v))"
    by (rule split_ws_word_sep) (simp_all add: no_ws_def is_ws_def)
  also have "split_ws (n @ c # (p @ v)) = n # split_ws (p @ v)"
    using assms pad by (intro split_ws_word_sep) auto
  finally show ?thesis using strip [of p] assms(3) pad by simp
qed

lemma define_of_line_define:
  assumes "no_ws n" "n \<noteq> []" "\<forall>c\<in>set pad. is_ws c" "pad \<noteq> []" "no_ws v" "v \<noteq> []"
  shows "define_of_line (''#define '' @ n @ pad @ v) = Some (n, v)"
  unfolding define_of_line_def split_ws_define [OF assms(1-4)] split_ws_word [OF assms(5,6)]
  by simp

lemma split_ws_not_Nil: "\<not> is_ws c \<Longrightarrow> split_ws (c # s) \<noteq> []"
  by (auto simp: split_ws_def split: list.splits)

lemma no_ws_newline: "no_ws s \<Longrightarrow> CHR 0x0A \<notin> set s"
  by (auto simp: no_ws_def is_ws_def)

lemma define_R:
  assumes "no_ws v" "v \<noteq> []"
  shows "define_of_line (''#define R               '' @ v) = Some (''R'', v)"
    and "define_of_line (''#define C               '' @ v) = Some (''C'', v)"
    and "define_of_line (''#define K               '' @ v) = Some (''K'', v)"
    and "define_of_line (''#define REG_WIDTH       '' @ v) = Some (''REG_WIDTH'', v)"
    and "define_of_line (''#define TK              int'' @ v) = Some (''TK'', ''int'' @ v)"
    and "define_of_line (''#define TX              int'' @ v) = Some (''TX'', ''int'' @ v)"
    and "define_of_line (''#define TY              int'' @ v) = Some (''TY'', ''int'' @ v)"
    and "define_of_line (''#define CONFIG_BASEADDR 0x'' @ v) = Some (''CONFIG_BASEADDR'', ''0x'' @ v)"
proof -
  have w: "\<forall>c\<in>set (replicate n (CHR '' '')). is_ws c" for n
    by (simp add: is_ws_def)
  have iv: "no_ws (''int'' @ v)" and xv: "no_ws (''0x'' @ v)"
    using assms(1) by (simp_all add: no_ws_def is_ws_def)
  have n: "no_ws ''R''" "no_ws ''C''" "no_ws ''K''" "no_ws ''REG_WIDTH''" "no_ws ''TK''" "no_ws ''TX''"
      "no_ws ''TY''" "no_ws ''CONFIG_BASEADDR''"
    by (simp_all add: no_ws_def is_ws_def)
  show "define_of_line (''#define R               '' @ v) = Some (''R'', v)"
    using define_of_line_define [OF n(1) _ w [of 15] _ assms] by (simp add: numeral_eq_Suc)
  show "define_of_line (''#define C               '' @ v) = Some (''C'', v)"
    using define_of_line_define [OF n(2) _ w [of 15] _ assms] by (simp add: numeral_eq_Suc)
  show "define_of_line (''#define K               '' @ v) = Some (''K'', v)"
    using define_of_line_define [OF n(3) _ w [of 15] _ assms] by (simp add: numeral_eq_Suc)
  show "define_of_line (''#define REG_WIDTH       '' @ v) = Some (''REG_WIDTH'', v)"
    using define_of_line_define [OF n(4) _ w [of 7] _ assms] by (simp add: numeral_eq_Suc)
  show "define_of_line (''#define TK              int'' @ v) = Some (''TK'', ''int'' @ v)"
    using define_of_line_define [OF n(5) _ w [of 14] _ iv] by (simp add: numeral_eq_Suc)
  show "define_of_line (''#define TX              int'' @ v) = Some (''TX'', ''int'' @ v)"
    using define_of_line_define [OF n(6) _ w [of 14] _ iv] by (simp add: numeral_eq_Suc)
  show "define_of_line (''#define TY              int'' @ v) = Some (''TY'', ''int'' @ v)"
    using define_of_line_define [OF n(7) _ w [of 14] _ iv] by (simp add: numeral_eq_Suc)
  show "define_of_line (''#define CONFIG_BASEADDR 0x'' @ v) = Some (''CONFIG_BASEADDR'', ''0x'' @ v)"
    using define_of_line_define [OF n(8) _ w [of 1] _ xv] by (simp add: numeral_eq_Suc)
qed

lemma define_DIR: "\<exists>v. define_of_line (''#define DIR             '' @ [CHR 0x22] @ dd @ [CHR 0x22]) = Some (''DIR'', v)"
proof -
  have "split_ws (CHR 0x22 # dd @ [CHR 0x22]) \<noteq> []"
    by (rule split_ws_not_Nil) (simp add: is_ws_def)
  then obtain v vs where v: "split_ws (CHR 0x22 # dd @ [CHR 0x22]) = v # vs"
    by (cases "split_ws (CHR 0x22 # dd @ [CHR 0x22])") auto
  have "split_ws (''#define '' @ ''DIR'' @ replicate 13 (CHR '' '') @ CHR 0x22 # dd @ [CHR 0x22])
      = ''#define'' # ''DIR'' # v # vs"
    unfolding v [symmetric] by (rule split_ws_define) (simp_all add: no_ws_def is_ws_def)
  then show ?thesis by (simp add: define_of_line_def numeral_eq_Suc)
qed

lemma define_addr_map:
  "List.map_filter define_of_line (map addr_line_h addr_map) =
     map (\<lambda>(k, v). (py_strip k, ''0x'' @ v)) addr_map"
  by code_simp

section \<open>Properties\<close>

lemma target_base_no_ws: "(t, base, rng) \<in> set target_config_map \<Longrightarrow> no_ws base \<and> base \<noteq> []"
  by (auto simp: target_config_map_def no_ws_def is_ws_def)

lemma config_h_lines:
  assumes dir: "CHR 0x0A \<notin> set (arg_DATA_DIR args)" and base: "no_ws base" "base \<noteq> []"
  shows "\<exists>v. parse_defines (config_h args base) =
     [(''R'', str_int (arg_R args)), (''C'', str_int (arg_C args)), (''K'', str_int (arg_K args)),
      (''TK'', ''int'' @ str_int (arg_WK args) @ ''_t''), (''TX'', ''int'' @ str_int (arg_WX args) @ ''_t''),
      (''TY'', ''int'' @ str_int (arg_WY args) @ ''_t''), (''REG_WIDTH'', str_int (arg_AXIL_WIDTH args)),
      (''DIR'', v), (''CONFIG_BASEADDR'', ''0x'' @ base)] @
     map (\<lambda>(k, v). (py_strip k, ''0x'' @ v)) addr_map"
proof -
  obtain v where v: "define_of_line (''#define DIR             '' @ [CHR 0x22] @ arg_DATA_DIR args @ [CHR 0x22]) = Some (''DIR'', v)"
    using define_DIR by blast
  have t: "no_ws (str_int i @ ''_t'')" "str_int i @ ''_t'' \<noteq> []" for i
    by (simp_all add: no_ws_def is_ws_def) (use no_ws_str_int in \<open>auto simp: no_ws_def is_ws_def\<close>)
  have nl: "CHR 0x0A \<notin> set (str_int i)" for i
    by (rule no_ws_newline) simp
  have am: "\<forall>w\<in>set (map addr_line_h addr_map). CHR 0x0A \<notin> set w"
    by code_simp
  have none: "define_of_line [] = None" "define_of_line ''                '' = None"
    "define_of_line ''#ifndef CONFIG_H'' = None" "define_of_line ''#define CONFIG_H'' = None"
    "define_of_line ''#include <stdint.h>'' = None" "define_of_line ''typedef struct {'' = None"
    "define_of_line ''  TK k [K][C];'' = None" "define_of_line ''  TX x [K][R];'' = None"
    "define_of_line ''  TY a [C][R];'' = None" "define_of_line ''  TY y [C][R];'' = None"
    "define_of_line ''} Memory_st;'' = None" "define_of_line ''#endif'' = None"
    by code_simp+
  show ?thesis
    unfolding parse_defines_def config_h_def newline_def
    apply (subst split_on_join)
    subgoal by simp
    subgoal using dir nl no_ws_newline [OF base(1)] am by (simp del: set_map)
    subgoal
      by (rule exI [of _ v])
        (simp only: List.map_filter_simps map_filter_append none option.case list.map append_Nil2 append_Nil v
          define_R [OF no_ws_str_int str_int_not_Nil] define_R [OF t] define_R [OF base] define_addr_map)
    done
qed

text \<open>
  C27: reading the generated \<^verbatim>\<open>config.h\<close> back as the C preprocessor does gives
  every parameter that the firmware uses: the shape \<open>R\<close>, \<open>C\<close>, \<open>K\<close>, the element types, the
  register width, the base address of the target, and a register number for each of the
  sixteen \<open>A_*\<close> names, which are the numbers 0 to 15 in the order of the table.
\<close>

theorem config_h_roundtrip:
  assumes tgt: "map_of target_config_map (arg_TARGET args) = Some (base, rng)"
    and dir: "CHR 0x0A \<notin> set (arg_DATA_DIR args)"
  shows "map_of (parse_defines (config_h args base)) ''R'' = Some (str_int (arg_R args)) \<and>
         map_of (parse_defines (config_h args base)) ''C'' = Some (str_int (arg_C args)) \<and>
         map_of (parse_defines (config_h args base)) ''K'' = Some (str_int (arg_K args)) \<and>
         map_of (parse_defines (config_h args base)) ''TK'' = Some (''int'' @ str_int (arg_WK args) @ ''_t'') \<and>
         map_of (parse_defines (config_h args base)) ''TX'' = Some (''int'' @ str_int (arg_WX args) @ ''_t'') \<and>
         map_of (parse_defines (config_h args base)) ''TY'' = Some (''int'' @ str_int (arg_WY args) @ ''_t'') \<and>
         map_of (parse_defines (config_h args base)) ''REG_WIDTH'' = Some (str_int (arg_AXIL_WIDTH args)) \<and>
         map_of (parse_defines (config_h args base)) ''CONFIG_BASEADDR'' = Some (''0x'' @ base) \<and>
         (\<forall>i<16. \<exists>v. map_of (parse_defines (config_h args base)) (py_strip (fst (addr_map ! i))) = Some v \<and>
                 py_int 16 v = Inr (int i))"
proof -
  have base: "no_ws base" "base \<noteq> []"
    using target_base_no_ws [OF map_of_SomeD [OF tgt]] by blast+
  obtain v where v: "parse_defines (config_h args base) =
     [(''R'', str_int (arg_R args)), (''C'', str_int (arg_C args)), (''K'', str_int (arg_K args)),
      (''TK'', ''int'' @ str_int (arg_WK args) @ ''_t''), (''TX'', ''int'' @ str_int (arg_WX args) @ ''_t''),
      (''TY'', ''int'' @ str_int (arg_WY args) @ ''_t''), (''REG_WIDTH'', str_int (arg_AXIL_WIDTH args)),
      (''DIR'', v), (''CONFIG_BASEADDR'', ''0x'' @ base)] @
     map (\<lambda>(k, v). (py_strip k, ''0x'' @ v)) addr_map"
    using config_h_lines [OF dir base] by blast
  have names: "\<forall>i\<in>set [0..<16]. py_strip (fst (addr_map ! i)) \<notin>
      set [''R'', ''C'', ''K'', ''TK'', ''TX'', ''TY'', ''REG_WIDTH'', ''DIR'', ''CONFIG_BASEADDR'']"
    by code_simp
  have regs: "\<forall>i\<in>set [0..<16]. map_of (map (\<lambda>(k, v). (py_strip k, ''0x'' @ v)) addr_map)
        (py_strip (fst (addr_map ! i))) = Some (''0x'' @ snd (addr_map ! i)) \<and>
      py_int 16 (''0x'' @ snd (addr_map ! i)) = Inr (int i)"
    by code_simp
  have "\<exists>v. map_of (parse_defines (config_h args base)) (py_strip (fst (addr_map ! i))) = Some v \<and>
      py_int 16 v = Inr (int i)" if "i < 16" for i
  proof -
    have i: "i \<in> set [0..<16]" using that by simp
    note n = bspec [OF names i] and r = bspec [OF regs i]
    from n r show ?thesis unfolding v by (auto simp: map_of_append)
  qed
  then show ?thesis unfolding v by simp
qed

definition default_args :: config_args where
  "default_args = \<lparr>arg_R = 4, arg_C = 4, arg_K = 16, arg_WK = 8, arg_WX = 8, arg_WY = 32,
     arg_VALID_PROB = 1, arg_READY_PROB = 50, arg_DATA_DIR = ''work/data'', arg_FREQ_MHZ = 100,
     arg_AXI_WIDTH = 32, arg_AXIL_WIDTH = 32, arg_ADDR_WIDTH = 32, arg_TARGET = ''boom'',
     arg_WORK_DIR = ''work''\<rparr>"

theorem config_h_roundtrip_witness:
  "map_of (parse_defines (config_h default_args ''2000'')) ''K'' = Some ''16'' \<and>
   map_of (parse_defines (config_h default_args ''2000'')) ''TY'' = Some ''int32_t''"
proof -
  have tgt: "map_of target_config_map (arg_TARGET default_args) = Some (''2000'', ''256M'')"
    by (simp add: target_config_map_def default_args_def)
  have dir: "CHR 0x0A \<notin> set (arg_DATA_DIR default_args)"
    by (simp add: default_args_def)
  have "str_int (arg_K default_args) = ''16''" "str_int (arg_WY default_args) = ''32''"
    by code_simp+
  with config_h_roundtrip [OF tgt dir] show ?thesis by simp
qed



end
