(* ===== verification/Dma_Controller.thy ===== *)
theory Dma_Controller
  imports Sys_Config "HOL-Library.Word"
begin

text \<open>
  \<^verbatim>\<open>rtl/sys/dma_controller.sv\<close>, the register file between the firmware and the four DMA
  channels, and the firmware routine \<open>run\<close> of \<^verbatim>\<open>c/firmware.h\<close> that drives it.  A clock edge is
  the function \<open>dma_step\<close> on the sixteen registers; the outputs are functions of the
  registers and the inputs of the cycle.  The firmware addresses registers by the numbers of
  the generated \<^verbatim>\<open>config.h\<close>, the hardware by its own \<open>localparam\<close>s; the first property says
  they are the same numbers.
\<close>

unbundle bit_operations_syntax

section \<open>The registers\<close>

definition A_START :: nat where "A_START = 0"
definition A_MM2S_DONE :: "nat \<Rightarrow> nat" where "A_MM2S_DONE ch = 1 + 4 * ch"
definition A_MM2S_ADDR :: "nat \<Rightarrow> nat" where "A_MM2S_ADDR ch = 2 + 4 * ch"
definition A_MM2S_BYTES :: "nat \<Rightarrow> nat" where "A_MM2S_BYTES ch = 3 + 4 * ch"
definition A_MM2S_TUSER :: "nat \<Rightarrow> nat" where "A_MM2S_TUSER ch = 4 + 4 * ch"
definition A_S2MM_DONE :: nat where "A_S2MM_DONE = 13"
definition A_S2MM_ADDR :: nat where "A_S2MM_ADDR = 14"
definition A_S2MM_BYTES :: nat where "A_S2MM_BYTES = 15"

lemmas reg_defs = A_START_def A_MM2S_DONE_def A_MM2S_ADDR_def A_MM2S_BYTES_def
  A_MM2S_TUSER_def A_S2MM_DONE_def A_S2MM_ADDR_def A_S2MM_BYTES_def

type_synonym regs = "nat \<Rightarrow> 32 word"

record dma_in =
  rstn :: bool
  wr_en :: bool
  wr_addr :: nat
  wr_data :: "32 word"
  mm2s_ready :: "nat \<Rightarrow> bool"
  s2mm_ready :: bool
  mm2s_status :: "nat \<Rightarrow> (4 word) option"
  s2mm_status :: "(4 word) option"

text \<open>A status is \<open>Some error\<close> in a cycle where \<open>status_valid\<close> is high; done means no error.\<close>

definition status_done :: "(4 word) option \<Rightarrow> bool" where
  "status_done st = (st = Some 0)"

definition start_next :: "dma_in \<Rightarrow> bool" where
  "start_next i \<longleftrightarrow> wr_en i \<and> wr_addr i = A_START \<and> bit (wr_data i) 0"

definition all_ready :: "dma_in \<Rightarrow> bool" where
  "all_ready i \<longleftrightarrow> s2mm_ready i \<and> mm2s_ready i 0 \<and> mm2s_ready i 1 \<and> mm2s_ready i 2"

text \<open>
  The clock edge.  The later assignments of the block win: a start clears the done bits that
  the same cycle would have set, and a register write has priority over everything; a write
  outside the sixteen registers has no effect.
\<close>

definition set_done :: "dma_in \<Rightarrow> regs \<Rightarrow> regs" where
  "set_done i cfg =
     (\<lambda>a. if (a = A_MM2S_DONE 0 \<and> status_done (mm2s_status i 0)) \<or>
             (a = A_MM2S_DONE 1 \<and> status_done (mm2s_status i 1)) \<or>
             (a = A_MM2S_DONE 2 \<and> status_done (mm2s_status i 2)) \<or>
             (a = A_S2MM_DONE \<and> status_done (s2mm_status i)) then 1 else cfg a)"

definition clear_done :: "regs \<Rightarrow> regs" where
  "clear_done cfg =
     cfg(A_MM2S_DONE 0 := 0, A_MM2S_DONE 1 := 0, A_MM2S_DONE 2 := 0, A_S2MM_DONE := 0)"

definition dma_step :: "regs \<Rightarrow> dma_in \<Rightarrow> regs" where
  "dma_step cfg i =
     (if \<not> rstn i then (\<lambda>_. 0)
      else
        let c1 = set_done i cfg;
            c2 = (if start_next i then clear_done c1 else c1);
            c3 = (if bit (cfg A_START) 0 \<and> all_ready i then c2(A_START := 0) else c2)
        in if wr_en i \<and> wr_addr i < 16 then c3(wr_addr i := wr_data i) else c3)"

text \<open>The combinational outputs: valid signals and descriptors (length, address).\<close>

definition mm2s_valid :: "regs \<Rightarrow> dma_in \<Rightarrow> bool" where
  "mm2s_valid cfg i \<longleftrightarrow> bit (cfg A_START) 0 \<and> s2mm_ready i"

definition s2mm_valid :: "regs \<Rightarrow> dma_in \<Rightarrow> bool" where
  "s2mm_valid cfg i \<longleftrightarrow> bit (cfg A_START) 0 \<and> mm2s_ready i 0"

definition mm2s_desc :: "regs \<Rightarrow> nat \<Rightarrow> 32 word \<times> 32 word" where
  "mm2s_desc cfg ch = (cfg (A_MM2S_BYTES ch), cfg (A_MM2S_ADDR ch))"

definition s2mm_desc :: "regs \<Rightarrow> 32 word \<times> 32 word" where
  "s2mm_desc cfg = (cfg A_S2MM_BYTES, cfg A_S2MM_ADDR)"

fun dma_run :: "regs \<Rightarrow> dma_in list \<Rightarrow> regs" where
  "dma_run cfg [] = cfg"
| "dma_run cfg (i # is) = dma_run (dma_step cfg i) is"

lemma dma_run_append [simp]: "dma_run cfg (xs @ ys) = dma_run (dma_run cfg xs) ys"
  by (induction xs arbitrary: cfg) simp_all

section \<open>The firmware\<close>

text \<open>
  The nine register writes of \<open>run\<close>, in order, with the register numbers read from the
  table of \<^verbatim>\<open>run/config.py\<close>.
\<close>

definition reg_no :: "string \<Rightarrow> nat" where
  "reg_no name =
     (case List.map_filter (\<lambda>(k, v). if py_strip k = name then Some v else None) addr_map of
        v # _ \<Rightarrow> (case py_int 16 v of Inr n \<Rightarrow> nat n | Inl _ \<Rightarrow> 16)
      | [] \<Rightarrow> 16)"

record transfer =
  k_ptr :: "32 word"  k_bytes :: "32 word"
  x_ptr :: "32 word"  x_bytes :: "32 word"
  a_ptr :: "32 word"  a_bytes :: "32 word"
  y_ptr :: "32 word"  y_bytes :: "32 word"

definition firmware_writes :: "transfer \<Rightarrow> (nat \<times> 32 word) list" where
  "firmware_writes t =
     [(reg_no ''A_MM2S_0_ADDR'', k_ptr t), (reg_no ''A_MM2S_0_BYTES'', k_bytes t),
      (reg_no ''A_MM2S_1_ADDR'', x_ptr t), (reg_no ''A_MM2S_1_BYTES'', x_bytes t),
      (reg_no ''A_MM2S_2_ADDR'', a_ptr t), (reg_no ''A_MM2S_2_BYTES'', a_bytes t),
      (reg_no ''A_S2MM_ADDR'', y_ptr t), (reg_no ''A_S2MM_BYTES'', y_bytes t),
      (reg_no ''A_START'', 1)]"

text \<open>The cycle in which one of these writes reaches the controller, whatever else it sees.\<close>

definition is_write :: "dma_in \<Rightarrow> nat \<times> 32 word \<Rightarrow> bool" where
  "is_write i w \<longleftrightarrow> rstn i \<and> wr_en i \<and> wr_addr i = fst w \<and> wr_data i = snd w"

text \<open>A cycle with no register write and no reset: what the bus looks like while polling.\<close>

definition quiet :: "dma_in \<Rightarrow> bool" where
  "quiet i \<longleftrightarrow> rstn i \<and> \<not> wr_en i"

section \<open>A device with a done flag\<close>

text \<open>
  What the polling loop \<open>while (!fb_read_reg(...)) {}\<close> relies on: on quiet cycles a success
  report sets the flag, nothing else sets it and nothing clears it.
\<close>

locale done_flag =
  fixes step :: "'s \<Rightarrow> 'i \<Rightarrow> 's" and flag :: "'s \<Rightarrow> bool"
    and idle :: "'i \<Rightarrow> bool" and success :: "'i \<Rightarrow> bool"
  assumes flag_step: "idle i \<Longrightarrow> flag (step s i) \<longleftrightarrow> flag s \<or> success i"
begin

lemma flag_foldl:
  "\<forall>i\<in>set is. idle i \<Longrightarrow> flag (foldl step s is) \<longleftrightarrow> flag s \<or> (\<exists>i\<in>set is. success i)"
  by (induction "is" arbitrary: s) (auto simp: flag_step)

lemma flag_sticky:
  "\<forall>i\<in>set is. idle i \<Longrightarrow> flag s \<Longrightarrow> flag (foldl step s is)"
  by (simp add: flag_foldl)

lemma flag_never:
  "\<forall>i\<in>set is. idle i \<and> \<not> success i \<Longrightarrow> \<not> flag s \<Longrightarrow> \<not> flag (foldl step s is)"
  by (simp add: flag_foldl)

end

lemma dma_run_foldl: "dma_run cfg is = foldl dma_step cfg is"
  by (induction "is" arbitrary: cfg) simp_all

lemma s2mm_done_step:
  "quiet i \<Longrightarrow> dma_step cfg i A_S2MM_DONE = (if status_done (s2mm_status i) then 1 else cfg A_S2MM_DONE)"
  by (simp add: dma_step_def Let_def quiet_def start_next_def set_done_def reg_defs)

interpretation s2mm: done_flag dma_step "\<lambda>cfg. cfg A_S2MM_DONE \<noteq> 0" quiet "\<lambda>i. status_done (s2mm_status i)"
  by unfold_locales (simp add: s2mm_done_step)

section \<open>Lemmas\<close>

text \<open>The address, length and user registers are plain memory.\<close>

definition plain :: "nat \<Rightarrow> bool" where
  "plain a \<longleftrightarrow> a < 16 \<and> a \<notin> {A_START, A_MM2S_DONE 0, A_MM2S_DONE 1, A_MM2S_DONE 2, A_S2MM_DONE}"

lemma dma_step_plain:
  "plain a \<Longrightarrow> rstn i \<Longrightarrow>
     dma_step cfg i a = (if wr_en i \<and> wr_addr i = a then wr_data i else cfg a)"
  by (auto simp: plain_def dma_step_def Let_def set_done_def clear_done_def)

definition last_write :: "nat \<Rightarrow> 32 word \<Rightarrow> (nat \<times> 32 word) list \<Rightarrow> 32 word" where
  "last_write a v ws = foldl (\<lambda>v w. if fst w = a then snd w else v) v ws"

lemma dma_run_plain:
  assumes "plain a" and "\<forall>i\<in>set is. rstn i"
  shows "dma_run cfg is a =
           last_write a (cfg a) (map (\<lambda>i. (wr_addr i, wr_data i)) (filter wr_en is))"
  using assms
  by (induction "is" arbitrary: cfg) (auto simp: last_write_def dma_step_plain)

lemma reg_no_eq:
  "reg_no ''A_START'' = A_START"
  "reg_no ''A_MM2S_0_ADDR'' = A_MM2S_ADDR 0" "reg_no ''A_MM2S_0_BYTES'' = A_MM2S_BYTES 0"
  "reg_no ''A_MM2S_1_ADDR'' = A_MM2S_ADDR 1" "reg_no ''A_MM2S_1_BYTES'' = A_MM2S_BYTES 1"
  "reg_no ''A_MM2S_2_ADDR'' = A_MM2S_ADDR 2" "reg_no ''A_MM2S_2_BYTES'' = A_MM2S_BYTES 2"
  "reg_no ''A_S2MM_ADDR'' = A_S2MM_ADDR" "reg_no ''A_S2MM_BYTES'' = A_S2MM_BYTES"
  "reg_no ''A_S2MM_DONE'' = A_S2MM_DONE"
  by code_simp+

lemma dma_step_start:
  assumes "rstn i" "wr_en i" "wr_addr i = A_START" "wr_data i = 1"
  shows "dma_step cfg i A_START = 1" "dma_step cfg i A_S2MM_DONE = 0"
    "ch < 3 \<Longrightarrow> dma_step cfg i (A_MM2S_DONE ch) = 0"
  using assms
  by (auto simp: dma_step_def Let_def start_next_def clear_done_def reg_defs less_Suc_eq numeral_3_eq_3)

section \<open>Properties\<close>

text \<open>
  the nine writes of the firmware, each in its own cycle and with any number
  of cycles between them (status reports and ready signals of those cycles are arbitrary),
  leave the controller with the start bit set, all four done flags clear, and the four
  descriptors equal to the buffers the firmware named; the register numbers come from
  \<^verbatim>\<open>run/config.py\<close>, the decoding from the hardware.
\<close>

theorem firmware_programs_dma:
  assumes rst: "\<forall>i\<in>set is. rstn i" "rstn go" and go: "wr_en go"
    and ws: "map (\<lambda>i. (wr_addr i, wr_data i)) (filter wr_en (is @ [go])) = firmware_writes t"
  shows "let cfg' = dma_run cfg (is @ [go]) in
           mm2s_desc cfg' 0 = (k_bytes t, k_ptr t) \<and> mm2s_desc cfg' 1 = (x_bytes t, x_ptr t) \<and>
           mm2s_desc cfg' 2 = (a_bytes t, a_ptr t) \<and> s2mm_desc cfg' = (y_bytes t, y_ptr t) \<and>
           cfg' A_START = 1 \<and> cfg' A_S2MM_DONE = 0 \<and> (\<forall>ch<3. cfg' (A_MM2S_DONE ch) = 0)"
proof -
  have all: "\<forall>i\<in>set (is @ [go]). rstn i" using rst by simp
  have last: "(wr_addr go, wr_data go) = (A_START, 1)"
    using arg_cong [OF ws, of last] go by (simp add: firmware_writes_def reg_no_eq)
  have plain: "plain a \<Longrightarrow> dma_run cfg (is @ [go]) a = last_write a (cfg a) (firmware_writes t)" for a
    using dma_run_plain [OF _ all] ws by simp
  have p: "plain (A_MM2S_ADDR 0)" "plain (A_MM2S_ADDR 1)" "plain (A_MM2S_ADDR 2)"
    "plain (A_MM2S_BYTES 0)" "plain (A_MM2S_BYTES 1)" "plain (A_MM2S_BYTES 2)"
    "plain A_S2MM_ADDR" "plain A_S2MM_BYTES"
    by (simp_all add: plain_def reg_defs)
  have "mm2s_desc (dma_run cfg (is @ [go])) 0 = (k_bytes t, k_ptr t)"
    "mm2s_desc (dma_run cfg (is @ [go])) 1 = (x_bytes t, x_ptr t)"
    "mm2s_desc (dma_run cfg (is @ [go])) 2 = (a_bytes t, a_ptr t)"
    "s2mm_desc (dma_run cfg (is @ [go])) = (y_bytes t, y_ptr t)"
    unfolding mm2s_desc_def s2mm_desc_def plain [OF p(1)] plain [OF p(2)] plain [OF p(3)]
      plain [OF p(4)] plain [OF p(5)] plain [OF p(6)] plain [OF p(7)] plain [OF p(8)]
    by (simp_all add: firmware_writes_def reg_no_eq last_write_def reg_defs)
  moreover have "dma_run cfg (is @ [go]) A_START = 1 \<and> dma_run cfg (is @ [go]) A_S2MM_DONE = 0 \<and>
      (\<forall>ch<3. dma_run cfg (is @ [go]) (A_MM2S_DONE ch) = 0)"
    using dma_step_start [OF rst(2) go] last by simp
  ultimately show ?thesis unfolding Let_def by blast
qed

definition bus_write :: "nat \<times> 32 word \<Rightarrow> dma_in" where
  "bus_write w = \<lparr>rstn = True, wr_en = True, wr_addr = fst w, wr_data = snd w,
     mm2s_ready = (\<lambda>_. True), s2mm_ready = True, mm2s_status = (\<lambda>_. None), s2mm_status = None\<rparr>"

definition bus_idle :: "(4 word) option \<Rightarrow> dma_in" where
  "bus_idle st = \<lparr>rstn = True, wr_en = False, wr_addr = 0, wr_data = 0,
     mm2s_ready = (\<lambda>_. True), s2mm_ready = True, mm2s_status = (\<lambda>_. None), s2mm_status = st\<rparr>"

definition demo_transfer :: transfer where
  "demo_transfer = \<lparr>k_ptr = 0x20000000, k_bytes = 64, x_ptr = 0x20000040, x_bytes = 64,
     a_ptr = 0x20000080, a_bytes = 64, y_ptr = 0x200000C0, y_bytes = 64\<rparr>"

definition demo_run :: "dma_in list" where
  "demo_run = bus_idle None # map bus_write (butlast (firmware_writes demo_transfer)) @ [bus_idle (Some 0)]"

theorem firmware_programs_dma_witness:
  "mm2s_desc (dma_run (\<lambda>_. 0) (demo_run @ [bus_write (A_START, 1)])) 1 = (64, 0x20000040) \<and>
   dma_run (\<lambda>_. 0) (demo_run @ [bus_write (A_START, 1)]) A_START = 1"
proof -
  have "\<forall>i\<in>set demo_run. rstn i" "rstn (bus_write (A_START, 1))" "wr_en (bus_write (A_START, 1))"
    by (auto simp: demo_run_def bus_idle_def bus_write_def)
  moreover have "map (\<lambda>i. (wr_addr i, wr_data i)) (filter wr_en (demo_run @ [bus_write (A_START, 1)]))
      = firmware_writes demo_transfer"
    by (simp add: demo_run_def bus_idle_def bus_write_def firmware_writes_def reg_no_eq)
  ultimately show ?thesis
    using firmware_programs_dma [of demo_run "bus_write (A_START, 1)" demo_transfer "\<lambda>_. 0"]
    by (simp add: Let_def demo_transfer_def)
qed

text \<open>
  C29: after a start, the firmware's polling loop sees \<open>A_S2MM_DONE\<close>
  nonzero exactly when the write channel has reported a success.  So it returns once the DMA
  succeeds, whatever happens afterwards, and it never returns when every report of the
  channel is an error: there is no timeout and no error register.
\<close>

theorem firmware_poll:
  assumes start: "rstn go" "wr_en go" "wr_addr go = A_START" "wr_data go = 1"
    and poll: "\<forall>i\<in>set is. quiet i"
  shows "dma_run cfg (go # is) A_S2MM_DONE \<noteq> 0 \<longleftrightarrow> (\<exists>i\<in>set is. s2mm_status i = Some 0)"
proof -
  have "dma_step cfg go A_S2MM_DONE = 0"
    using dma_step_start [OF start] by blast
  then show ?thesis
    using s2mm.flag_foldl [OF poll, of "dma_step cfg go"] by (simp add: dma_run_foldl status_done_def)
qed

theorem firmware_poll_witness:
  "dma_run (\<lambda>_. 0) (bus_write (A_START, 1) # [bus_idle None, bus_idle (Some 0), bus_idle (Some 5)]) A_S2MM_DONE \<noteq> 0 \<and>
   dma_run (\<lambda>_. 0) (bus_write (A_START, 1) # replicate 1000 (bus_idle (Some 5))) A_S2MM_DONE = 0"
  using firmware_poll [of "bus_write (A_START, 1)" "[bus_idle None, bus_idle (Some 0), bus_idle (Some 5)]" "\<lambda>_. 0"]
    firmware_poll [of "bus_write (A_START, 1)" "replicate 1000 (bus_idle (Some 5))" "\<lambda>_. 0"]
  by (auto simp: bus_write_def bus_idle_def quiet_def)

text \<open>
  the start bit stays set, so that every channel keeps being offered its
  descriptor, until a cycle in which all four channels are ready; in that cycle all four
  valid signals are high, and the bit is clear in the next one.
\<close>

theorem start_until_all_ready:
  assumes "bit (cfg A_START) 0" and "\<forall>i\<in>set is. quiet i \<and> \<not> all_ready i" and "quiet j"
  shows "dma_run cfg is A_START = cfg A_START \<and>
         (all_ready j \<longrightarrow>
            s2mm_valid (dma_run cfg is) j \<and> mm2s_valid (dma_run cfg is) j \<and>
            dma_run cfg (is @ [j]) A_START = 0) \<and>
         (\<not> all_ready j \<longrightarrow> dma_run cfg (is @ [j]) A_START = cfg A_START)"
proof -
  have step: "dma_step c i A_START = (if bit (c A_START) 0 \<and> all_ready i then 0 else c A_START)"
    if "quiet i" for c i
    using that by (simp add: dma_step_def Let_def quiet_def start_next_def set_done_def reg_defs)
  have keep: "dma_run cfg is A_START = cfg A_START"
    using assms(2) by (induction "is" arbitrary: cfg) (auto simp: step)
  show ?thesis
    using keep assms(1,3) by (simp add: step s2mm_valid_def mm2s_valid_def all_ready_def)
qed

theorem start_until_all_ready_witness:
  "dma_run ((\<lambda>_. 0)(A_START := 1)) [(bus_idle None)\<lparr>s2mm_ready := False\<rparr>] A_START = 1 \<and>
   dma_run ((\<lambda>_. 0)(A_START := 1)) ([(bus_idle None)\<lparr>s2mm_ready := False\<rparr>] @ [bus_idle None]) A_START = 0"
  using start_until_all_ready [of "(\<lambda>_. 0)(A_START := 1)" "[(bus_idle None)\<lparr>s2mm_ready := False\<rparr>]" "bus_idle None"]
  by (simp add: bus_idle_def quiet_def all_ready_def)

end
