(* ===== verification/Shlex.thy ===== *)
theory Shlex
  imports Py_Values
begin

text \<open>
  The two functions of Python's \<open>shlex\<close> that every script of the flow uses to build and to
  take apart command lines: \<open>shlex.quote\<close> and \<open>shlex.split\<close> (POSIX mode, no comments).
  \<open>split\<close> is the state machine of the library.  The locale \<open>word_quoting\<close> states what the
  callers rely on, that a quoted word reads back as that one word whatever follows it; the
  round trip of a whole command line is proved in it once.
\<close>

section \<open>Quoting\<close>

definition safe_char :: "char \<Rightarrow> bool" where
  "safe_char c \<longleftrightarrow>
     c \<in> set ''abcdefghijklmnopqrstuvwxyzABCDEFGHIJKLMNOPQRSTUVWXYZ0123456789_@%+=:,./-''"

definition sq :: char where "sq = CHR 0x27"
definition dq :: char where "dq = CHR 0x22"
definition bs :: char where "bs = CHR 0x5C"

lemmas quote_chars = sq_def dq_def bs_def

definition shlex_quote :: "string \<Rightarrow> string" where
  "shlex_quote s =
     (if s = [] then [sq, sq]
      else if \<forall>c\<in>set s. safe_char c then s
      else [sq] @ concat (map (\<lambda>c. if c = sq then [sq, dq, sq, dq, sq] else [c]) s) @ [sq])"

definition shlex_join :: "string list \<Rightarrow> string" where
  "shlex_join ws = py_join '' '' (map shlex_quote ws)"

section \<open>Splitting\<close>

text \<open>
  The states: between words; inside a word, in single quotes or in double quotes, with the
  text of the word so far; after a backslash, outside or inside double quotes.
\<close>

datatype shlex_state =
    Between
  | InWord string
  | InSq string
  | InDq string
  | Esc string
  | EscDq string

definition shlex_ws :: "char \<Rightarrow> bool" where
  "shlex_ws c \<longleftrightarrow> c \<in> set [CHR '' '', CHR 0x09, CHR 0x0D, CHR 0x0A]"

fun shlex_go :: "shlex_state \<Rightarrow> string \<Rightarrow> string list res" where
  "shlex_go Between [] = Inr []"
| "shlex_go (InWord w) [] = Inr [w]"
| "shlex_go (InSq w) [] = Inl (ValueError ''No closing quotation'')"
| "shlex_go (InDq w) [] = Inl (ValueError ''No closing quotation'')"
| "shlex_go (Esc w) [] = Inl (ValueError ''No escaped character'')"
| "shlex_go (EscDq w) [] = Inl (ValueError ''No escaped character'')"
| "shlex_go Between (c # cs) =
     (if shlex_ws c then shlex_go Between cs
      else if c = bs then shlex_go (Esc []) cs
      else if c = sq then shlex_go (InSq []) cs
      else if c = dq then shlex_go (InDq []) cs
      else shlex_go (InWord [c]) cs)"
| "shlex_go (InWord w) (c # cs) =
     (if shlex_ws c then map_sum id ((#) w) (shlex_go Between cs)
      else if c = bs then shlex_go (Esc w) cs
      else if c = sq then shlex_go (InSq w) cs
      else if c = dq then shlex_go (InDq w) cs
      else shlex_go (InWord (w @ [c])) cs)"
| "shlex_go (InSq w) (c # cs) =
     (if c = sq then shlex_go (InWord w) cs else shlex_go (InSq (w @ [c])) cs)"
| "shlex_go (InDq w) (c # cs) =
     (if c = dq then shlex_go (InWord w) cs
      else if c = bs then shlex_go (EscDq w) cs
      else shlex_go (InDq (w @ [c])) cs)"
| "shlex_go (Esc w) (c # cs) = shlex_go (InWord (w @ [c])) cs"
| "shlex_go (EscDq w) (c # cs) =
     (if c = dq \<or> c = bs then shlex_go (InDq (w @ [c])) cs
      else shlex_go (InDq (w @ [bs, c])) cs)"

definition shlex_split :: "string \<Rightarrow> string list res" where
  "shlex_split = shlex_go Between"

section \<open>The interface and its client\<close>

locale word_quoting =
  fixes quote :: "string \<Rightarrow> string" and split :: "string \<Rightarrow> string list res"
  assumes split_last: "split (quote w) = Inr [w]"
    and split_word: "split (quote w @ CHR '' '' # s) = map_sum id ((#) w) (split s)"
begin

lemma split_join:
  "ws \<noteq> [] \<Longrightarrow> split (py_join '' '' (map quote ws)) = Inr ws"
proof (induction ws)
  case Nil
  then show ?case by simp
next
  case (Cons w ws)
  show ?case
  proof (cases "ws = []")
    case True
    then show ?thesis by (simp add: split_last)
  next
    case False
    then have "py_join '' '' (map quote (w # ws)) = quote w @ CHR '' '' # py_join '' '' (map quote ws)"
      by (simp add: py_join_Cons)
    with Cons.IH [OF False] show ?thesis by (simp add: split_word)
  qed
qed

lemma quote_inj: "quote v = quote w \<longleftrightarrow> v = w"
  by (metis split_last list.inject sum.inject(2))

end

lemma safe_char_plain:
  "safe_char c \<Longrightarrow> \<not> shlex_ws c \<and> c \<noteq> bs \<and> c \<noteq> sq \<and> c \<noteq> dq"
  by (auto simp: safe_char_def shlex_ws_def quote_chars)

lemma go_safe: "\<forall>c\<in>set v. safe_char c \<Longrightarrow> shlex_go (InWord w) (v @ s) = shlex_go (InWord (w @ v)) s"
  by (induction v arbitrary: w) (auto dest: safe_char_plain)

lemma go_quoted:
  "shlex_go (InSq w) (concat (map (\<lambda>c. if c = sq then [sq, dq, sq, dq, sq] else [c]) v) @ s)
     = shlex_go (InSq (w @ v)) s"
  by (induction v arbitrary: w) (auto simp: quote_chars shlex_ws_def)

lemma go_quote: "shlex_go Between (shlex_quote v @ s) = shlex_go (InWord v) s"
proof -
  have sq: "\<not> shlex_ws sq" "sq \<noteq> bs" by (auto simp: shlex_ws_def quote_chars)
  show ?thesis
  proof (cases "v \<noteq> [] \<and> (\<forall>c\<in>set v. safe_char c)")
    case True
    then obtain c cs where v: "v = c # cs" and safe: "safe_char c" "\<forall>c\<in>set cs. safe_char c"
      by (cases v) auto
    with go_safe [OF safe(2), of "[c]" s] safe_char_plain [OF safe(1)] show ?thesis
      by (simp add: shlex_quote_def)
  next
    case False
    then show ?thesis using sq go_quoted [of "[]" v "sq # s"]
      by (auto simp: shlex_quote_def)
  qed
qed

interpretation shlex: word_quoting shlex_quote shlex_split
proof unfold_locales
  show "shlex_split (shlex_quote w) = Inr [w]" for w
    using go_quote [of w "[]"] by (simp add: shlex_split_def)
  show "shlex_split (shlex_quote w @ CHR '' '' # s) = map_sum id ((#) w) (shlex_split s)" for w s
    by (simp add: shlex_split_def go_quote shlex_ws_def)
qed

lemma shlex_split_join: "shlex_split (shlex_join ws) = Inr ws"
  by (cases "ws = []") (simp_all add: shlex_join_def shlex.split_join, simp add: shlex_split_def)

lemma shlex_split_plain:
  "\<forall>c\<in>set v. safe_char c \<Longrightarrow> v \<noteq> [] \<Longrightarrow> shlex_split v = Inr [v]"
  using shlex.split_last [of v] by (simp add: shlex_quote_def)

end
