(* ===== verification/Ibex_Config.thy ===== *)
theory Ibex_Config
  imports Shlex
begin

text \<open>
  \<^verbatim>\<open>ibex-soc/util/ibex_config.py\<close>: reads the YAML file of named core configurations, checks
  one against the list of known fields and their types, and prints its parameters in the
  syntax of a simulator.  The file system and the YAML parser are outside the sources: they
  are the parameters \<open>read_file\<close> and \<open>yaml_load\<close> of \<open>parse_config\<close>.  A set in a Python
  message has no fixed order; the model prints it in the order of the file.
\<close>

section \<open>Configurations\<close>

datatype ftype = TBool | TStr | TInt

definition known_fields :: "(string \<times> ftype) list" where
  "known_fields =
     [(''RV32E'', TBool),
      (''RV32M'', TStr),
      (''RV32B'', TStr),
      (''RegFile'', TStr),
      (''BranchTargetALU'', TBool),
      (''WritebackStage'', TBool),
      (''ICache'', TBool),
      (''ICacheECC'', TBool),
      (''ICacheScramble'', TBool),
      (''BranchPredictor'', TBool),
      (''DbgTriggerEn'', TBool),
      (''SecureIbex'', TBool),
      (''PMPEnable'', TBool),
      (''PMPGranularity'', TInt),
      (''PMPNumRegions'', TInt),
      (''MHPMCounterNum'', TInt),
      (''MHPMCounterWidth'', TInt)]"

abbreviation known_keys :: "string list" where
  "known_keys \<equiv> map fst known_fields"

record config =
  params :: "(pyval \<times> pyval) list"
  rv32e :: bool
  rv32m :: string
  rv32b :: string
  reg_file :: string
  branch_target_alu :: bool
  writeback_stage :: bool
  icache :: bool
  icache_ecc :: bool
  icache_scramble :: bool
  branch_predictor :: bool
  dbg_trigger_en :: bool
  secure_ibex :: bool
  pmp_enable :: bool
  pmp_granularity :: int
  pmp_num_regions :: int
  mhpm_counter_num :: int
  mhpm_counter_width :: int

text \<open>\<open>yml[fld]\<close>\<close>

definition getitem :: "(pyval \<times> pyval) list \<Rightarrow> string \<Rightarrow> pyval res" where
  "getitem yml fld = (case lookup_str yml fld of Some v \<Rightarrow> Inr v | None \<Rightarrow> Inl (KeyError fld))"

definition read_bool :: "string \<Rightarrow> (pyval \<times> pyval) list \<Rightarrow> bool res" where
  "read_bool fld yml = bind_res (getitem yml fld) (\<lambda>val.
     case val of
       PBool b \<Rightarrow> Inr b
     | PInt i \<Rightarrow>
         if 0 \<le> i \<and> i \<le> 1 then Inr (i \<noteq> 0)
         else Inl (ValueError (fld @ '' value is '' @ str_int i @
                ('', which is out of '' @ ''range for a boolean type.'')))
     | _ \<Rightarrow> Inl (ValueError (fld @ '' value is '' @ py_repr val @ '', but we expected a bool.'')))"

definition read_int :: "string \<Rightarrow> (pyval \<times> pyval) list \<Rightarrow> int res" where
  "read_int fld yml = bind_res (getitem yml fld) (\<lambda>val.
     case num_of val of
       Some i \<Rightarrow> Inr i
     | None \<Rightarrow> Inl (ValueError (fld @ '' value is '' @ py_repr val @ '', but we expected an int.'')))"

definition read_str :: "string \<Rightarrow> (pyval \<times> pyval) list \<Rightarrow> string res" where
  "read_str fld yml = bind_res (getitem yml fld) (\<lambda>val.
     case val of
       PStr s \<Rightarrow> Inr s
     | _ \<Rightarrow> Inl (ValueError (fld @ '' value is '' @ py_repr val @ '', but we expected a string.'')))"

definition repr_set :: "pyval list \<Rightarrow> string" where
  "repr_set xs = (if xs = [] then ''set()'' else ''{'' @ py_join '', '' (map py_repr xs) @ ''}'')"

definition extra_keys :: "(pyval \<times> pyval) list \<Rightarrow> pyval list" where
  "extra_keys yml = filter (\<lambda>k. k \<notin> set (map PStr known_keys)) (map fst yml)"

definition missing_keys :: "(pyval \<times> pyval) list \<Rightarrow> string list" where
  "missing_keys yml = filter (\<lambda>k. PStr k \<notin> set (map fst yml)) known_keys"

text \<open>\<open>Config.__init__\<close>\<close>

definition Config :: "pyval \<Rightarrow> config res" where
  "Config yml =
     (case yml of
        PDict d \<Rightarrow>
          if extra_keys d \<noteq> []
          then Inl (ValueError (''Configuration object has unknown keys: '' @ repr_set (extra_keys d)))
          else if missing_keys d \<noteq> []
          then Inl (ValueError (''Configuration object has missing keys: '' @ repr_set (extra_keys d)))
          else
            bind_res (read_bool ''RV32E'' d) (\<lambda>f1.
            bind_res (read_str ''RV32M'' d) (\<lambda>f2.
            bind_res (read_str ''RV32B'' d) (\<lambda>f3.
            bind_res (read_str ''RegFile'' d) (\<lambda>f4.
            bind_res (read_bool ''BranchTargetALU'' d) (\<lambda>f5.
            bind_res (read_bool ''WritebackStage'' d) (\<lambda>f6.
            bind_res (read_bool ''ICache'' d) (\<lambda>f7.
            bind_res (read_bool ''ICacheECC'' d) (\<lambda>f8.
            bind_res (read_bool ''ICacheScramble'' d) (\<lambda>f9.
            bind_res (read_bool ''BranchPredictor'' d) (\<lambda>f10.
            bind_res (read_bool ''DbgTriggerEn'' d) (\<lambda>f11.
            bind_res (read_bool ''SecureIbex'' d) (\<lambda>f12.
            bind_res (read_bool ''PMPEnable'' d) (\<lambda>f13.
            bind_res (read_int ''PMPGranularity'' d) (\<lambda>f14.
            bind_res (read_int ''PMPNumRegions'' d) (\<lambda>f15.
            bind_res (read_int ''MHPMCounterNum'' d) (\<lambda>f16.
            bind_res (read_int ''MHPMCounterWidth'' d) (\<lambda>f17.
            Inr \<lparr>params = d, rv32e = f1, rv32m = f2, rv32b = f3, reg_file = f4,
                 branch_target_alu = f5, writeback_stage = f6, icache = f7, icache_ecc = f8,
                 icache_scramble = f9, branch_predictor = f10, dbg_trigger_en = f11,
                 secure_ibex = f12, pmp_enable = f13, pmp_granularity = f14,
                 pmp_num_regions = f15, mhpm_counter_num = f16, mhpm_counter_width = f17\<rparr>)))))))))))))))))
      | _ \<Rightarrow> Inl (ValueError ''Configuration object is not a dict''))"

text \<open>\<open>Configs.__init__\<close>: every entry of the file is checked; a failing one names the entry.\<close>

definition Configs :: "pyval \<Rightarrow> (pyval, config) dict res" where
  "Configs yml =
     (case yml of
        PDict d \<Rightarrow>
          fold_res (\<lambda>cs (cfg_name, cfg_yaml).
            bind_res (on_value_error (\<lambda>err.
                ValueError (''Error when reading '' @ py_repr cfg_name @ '' config: '' @ err))
              (Config cfg_yaml)) (\<lambda>c. Inr (dict_set cfg_name c cs))) [] d
      | _ \<Rightarrow> Inl (ValueError ''Configurations dictionary is not a dict''))"

definition default_config_file :: string where
  "default_config_file = ''ibex_configs.yaml''"

definition get_config_file_location :: "(string, string) dict \<Rightarrow> string" where
  "get_config_file_location environ = dict_get environ ''IBEX_CONFIG_FILE'' default_config_file"

text \<open>
  The message for an unknown name shows the placeholder of the file name literally: only the
  first of the two adjacent literals is an f-string.  The file name is a string or a path
  object; \<open>filename_repr\<close> is what \<open>repr\<close> prints for it.
\<close>

definition parse_config :: "(string \<Rightarrow> string res) \<Rightarrow> (string \<Rightarrow> string + pyval) \<Rightarrow> string \<Rightarrow> string
    \<Rightarrow> string \<Rightarrow> config res" where
  "parse_config read_file yaml_load config_name config_filename filename_repr =
     bind_res (read_file config_filename) (\<lambda>contents.
     case yaml_load contents of
       Inl err \<Rightarrow> Inl (ConfigException (''Could not decode yaml: '' @ err))
     | Inr yml \<Rightarrow>
         bind_res (on_value_error (\<lambda>err. ConfigException (filename_repr @ '': '' @ err))
                     (Configs yml))
          (\<lambda>configs. (case map_of configs (PStr config_name) of
                 Some c \<Rightarrow> Inr c
               | None \<Rightarrow> Inl (ValueError (''Configuration '' @ repr_str config_name @ '' not found ''
                          @ ''in YAML at {config_filename!r}.'')))))"

section \<open>Output formats\<close>

record out_args =
  query_flds :: "string list"
  ins_hier_path :: string
  string_define_prefix :: string

definition fusesoc_output :: "config \<Rightarrow> string res" where
  "fusesoc_output c =
     bind_res (map_res (\<lambda>(fld, typ). bind_res (getitem (params c) fld) (\<lambda>val.
        Inr (shlex_quote (''--'' @ fld @ ''='' @ py_str val)))) known_fields)
     (\<lambda>cmd. Inr (py_join '' '' cmd))"

definition query_output :: "config \<Rightarrow> out_args \<Rightarrow> string" where
  "query_output c args =
     py_join newline (map (\<lambda>fld.
       case lookup_str (params c) fld of
         Some val \<Rightarrow> fld @ ''='' @ py_str val
       | None \<Rightarrow> fld @ '' not found in config'') (query_flds args))"

record sim_opts =
  cmd_name :: string
  description :: string
  param_set_fn :: "string \<Rightarrow> string \<Rightarrow> string list"
  define_set_fn :: "string \<Rightarrow> string \<Rightarrow> string list"
  hierarchy_sep :: string

definition hier_prefix :: "sim_opts \<Rightarrow> out_args \<Rightarrow> string" where
  "hier_prefix so args =
     (if ins_hier_path args \<noteq> [] then ins_hier_path args @ hierarchy_sep so else [])"

text \<open>The options of one field, before quoting.\<close>

definition field_opts :: "sim_opts \<Rightarrow> config \<Rightarrow> out_args \<Rightarrow> string \<times> ftype \<Rightarrow> string list res" where
  "field_opts so c args = (\<lambda>(fld, typ).
     bind_res (getitem (params c) fld) (\<lambda>val.
     if typ = TStr
     then (case val of
             PStr s \<Rightarrow> Inr (define_set_fn so (string_define_prefix args @ fld) s)
           | _ \<Rightarrow> Inl (TypeError ''can only concatenate str''))
     else (case num_of val of
             Some i \<Rightarrow> Inr (param_set_fn so (hier_prefix so args @ fld) (str_int i))
           | None \<Rightarrow> Inl (TypeError ''int() argument''))))"

definition sim_output :: "sim_opts \<Rightarrow> config \<Rightarrow> out_args \<Rightarrow> string res" where
  "sim_output so c args =
     bind_res (map_res (\<lambda>f. bind_res (field_opts so c args f) (\<lambda>opts. Inr (map shlex_quote opts)))
                known_fields)
     (\<lambda>optss. Inr (py_join '' '' (concat optss)))"

text \<open>The simulators of \<open>main\<close>.\<close>

definition no_opts :: "string \<Rightarrow> string \<Rightarrow> string list" where
  "no_opts p v = []"

definition simulators :: "sim_opts list" where
  "simulators =
     [\<lparr>cmd_name = ''vcs_opts'', description = ''VCS compile'',
       param_set_fn = (\<lambda>p v. [''-pvalue+'' @ p @ ''='' @ v]),
       define_set_fn = (\<lambda>d v. [''+define+'' @ d @ ''='' @ v]), hierarchy_sep = ''.''\<rparr>,
      \<lparr>cmd_name = ''riviera_sim_opts'', description = ''Riviera simulate'',
       param_set_fn = (\<lambda>p v. [''-g/'' @ p @ ''='' @ v]), define_set_fn = no_opts, hierarchy_sep = ''/''\<rparr>,
      \<lparr>cmd_name = ''riviera_compile_opts'', description = ''Riviera compile'',
       param_set_fn = no_opts,
       define_set_fn = (\<lambda>d v. [''+define+'' @ d @ ''='' @ v]), hierarchy_sep = ''/''\<rparr>,
      \<lparr>cmd_name = ''questa_sim_opts'', description = ''Questa simulate'',
       param_set_fn = (\<lambda>p v. [''-g/'' @ p @ ''='' @ v]), define_set_fn = no_opts, hierarchy_sep = ''/''\<rparr>,
      \<lparr>cmd_name = ''questa_compile_opts'', description = ''Questa compile'',
       param_set_fn = no_opts,
       define_set_fn = (\<lambda>d v. [''+define+'' @ d @ ''='' @ v]), hierarchy_sep = ''/''\<rparr>,
      \<lparr>cmd_name = ''xlm_opts'', description = ''Xcelium compile'',
       param_set_fn = (\<lambda>p v. [''-defparam'', p @ ''='' @ v]),
       define_set_fn = (\<lambda>d v. [''-define'', d @ ''='' @ v]), hierarchy_sep = ''.''\<rparr>,
      \<lparr>cmd_name = ''dsim_compile_opts'', description = ''DSim compile'',
       param_set_fn = (\<lambda>p v. [''+define+'' @ p @ ''='' @ v]), define_set_fn = no_opts, hierarchy_sep = ''/''\<rparr>]"

datatype output_type = Fusesoc | Query | Sim sim_opts

definition outputters :: "(string, output_type) dict" where
  "outputters = [(''fusesoc_opts'', Fusesoc), (''query_fields'', Query)]
                @ map (\<lambda>so. (cmd_name so, Sim so)) simulators"

definition run_output :: "output_type \<Rightarrow> config \<Rightarrow> out_args \<Rightarrow> string res" where
  "run_output t c args =
     (case t of Fusesoc \<Rightarrow> fusesoc_output c | Query \<Rightarrow> Inr (query_output c args)
      | Sim so \<Rightarrow> sim_output so c args)"

text \<open>
  \<open>main\<close> after \<open>argparse\<close>: no output type prints an error and exits with status 1, an
  undeclared one exits with the usage status 2.
\<close>

definition ibex_config_main :: "(string \<Rightarrow> string res) \<Rightarrow> (string \<Rightarrow> string + pyval) \<Rightarrow> (string, string) dict
    \<Rightarrow> string \<Rightarrow> string option \<Rightarrow> string option \<Rightarrow> out_args \<Rightarrow> string res" where
  "ibex_config_main read_file yaml_load environ config_name config_filename output_fn args =
     (case output_fn of
        None \<Rightarrow> Inl (SystemExit 1)
      | Some name \<Rightarrow>
          (case map_of outputters name of
             None \<Rightarrow> Inl (SystemExit 2)
           | Some t \<Rightarrow>
               (let f = (case config_filename of
                           Some f \<Rightarrow> f | None \<Rightarrow> get_config_file_location environ)
                in bind_res (parse_config read_file yaml_load config_name f (repr_str f))
                     (\<lambda>c. run_output t c args))))"

section \<open>Which configurations are accepted\<close>

fun well_typed :: "ftype \<Rightarrow> pyval \<Rightarrow> bool" where
  "well_typed TBool v = (is_bool v \<or> v = PInt 0 \<or> v = PInt 1)"
| "well_typed TInt v = is_int v"
| "well_typed TStr v = is_str v"

definition field_ok :: "(pyval \<times> pyval) list \<Rightarrow> string \<times> ftype \<Rightarrow> bool" where
  "field_ok d ft = (case lookup_str d (fst ft) of None \<Rightarrow> False | Some v \<Rightarrow> well_typed (snd ft) v)"

definition keys_ok :: "(pyval \<times> pyval) list \<Rightarrow> bool" where
  "keys_ok d \<longleftrightarrow> set (map fst d) = set (map PStr known_keys)"

lemma read_bool_Inr:
  "read_bool f d = Inr b \<longleftrightarrow>
     lookup_str d f = Some (PBool b) \<or> lookup_str d f = Some (PInt (of_bool b))"
  by (cases b; cases "lookup_str d f")
     (auto simp: read_bool_def getitem_def split: pyval.splits)

lemma read_int_Inr: "read_int f d = Inr i \<longleftrightarrow> (\<exists>v. lookup_str d f = Some v \<and> num_of v = Some i)"
  by (cases "lookup_str d f") (auto simp: read_int_def getitem_def split: option.splits)

lemma read_str_Inr: "read_str f d = Inr s \<longleftrightarrow> lookup_str d f = Some (PStr s)"
  by (cases "lookup_str d f") (auto simp: read_str_def getitem_def split: pyval.splits)

lemma num_of_is_int: "(\<exists>i. num_of v = Some i) \<longleftrightarrow> is_int v"
  by (cases v) auto

lemma is_str_PStr: "is_str v \<longleftrightarrow> (\<exists>s. v = PStr s)"
  by (cases v) auto

lemma is_bool_PBool: "is_bool v \<longleftrightarrow> (\<exists>s. v = PBool s)"
  by (cases v) auto

lemma read_bool_ok: "(\<exists>b. read_bool f d = Inr b) \<longleftrightarrow> field_ok d (f, TBool)"
  by (auto simp: read_bool_Inr field_ok_def is_bool_PBool split: option.splits)

lemma read_int_ok: "(\<exists>b. read_int f d = Inr b) \<longleftrightarrow> field_ok d (f, TInt)"
  by (auto simp: read_int_Inr field_ok_def num_of_is_int [symmetric] split: option.splits)

lemma read_str_ok: "(\<exists>b. read_str f d = Inr b) \<longleftrightarrow> field_ok d (f, TStr)"
  by (auto simp: read_str_Inr field_ok_def is_str_PStr split: option.splits)

lemmas read_ok = read_bool_ok read_int_ok read_str_ok

lemma keys_ok_iff: "extra_keys d = [] \<and> missing_keys d = [] \<longleftrightarrow> keys_ok d"
  unfolding extra_keys_def missing_keys_def keys_ok_def filter_empty_conv by auto

text \<open>
  C26: \<open>Config\<close> accepts exactly the dictionaries whose keys are the seventeen known fields and
  whose values have the declared types, where 0 and 1 pass for booleans and booleans for
  integers.
\<close>
theorem config_accepted:
  "(\<exists>c. Config yml = Inr c) \<longleftrightarrow>
     (\<exists>d. yml = PDict d \<and> keys_ok d \<and> list_all (field_ok d) known_fields)"
proof (cases yml)
  case (PDict d)
  have "(\<exists>c. Config (PDict d) = Inr c) \<longleftrightarrow>
      extra_keys d = [] \<and> missing_keys d = [] \<and> list_all (field_ok d) known_fields"
    by (simp add: Config_def bind_res_ok read_ok known_fields_def)
  with PDict keys_ok_iff show ?thesis by auto
qed (simp_all add: Config_def)

section \<open>What the simulators receive\<close>

text \<open>The values of the fields as the attributes hold them: integers, or strings.\<close>

definition typed_fields :: "config \<Rightarrow> (string \<times> (int + string)) list" where
  "typed_fields c =
     [(''RV32E'', Inl (of_bool (rv32e c))),
      (''RV32M'', Inr (rv32m c)),
      (''RV32B'', Inr (rv32b c)),
      (''RegFile'', Inr (reg_file c)),
      (''BranchTargetALU'', Inl (of_bool (branch_target_alu c))),
      (''WritebackStage'', Inl (of_bool (writeback_stage c))),
      (''ICache'', Inl (of_bool (icache c))),
      (''ICacheECC'', Inl (of_bool (icache_ecc c))),
      (''ICacheScramble'', Inl (of_bool (icache_scramble c))),
      (''BranchPredictor'', Inl (of_bool (branch_predictor c))),
      (''DbgTriggerEn'', Inl (of_bool (dbg_trigger_en c))),
      (''SecureIbex'', Inl (of_bool (secure_ibex c))),
      (''PMPEnable'', Inl (of_bool (pmp_enable c))),
      (''PMPGranularity'', Inl (pmp_granularity c)),
      (''PMPNumRegions'', Inl (pmp_num_regions c)),
      (''MHPMCounterNum'', Inl (mhpm_counter_num c)),
      (''MHPMCounterWidth'', Inl (mhpm_counter_width c))]"

fun expected_opts :: "sim_opts \<Rightarrow> out_args \<Rightarrow> string \<times> (int + string) \<Rightarrow> string list" where
  "expected_opts so args (f, Inl i) = param_set_fn so (hier_prefix so args @ f) (str_int i)"
| "expected_opts so args (f, Inr s) = define_set_fn so (string_define_prefix args @ f) s"

definition field_agrees :: "(pyval \<times> pyval) list \<Rightarrow> string \<times> ftype \<Rightarrow> string \<times> (int + string) \<Rightarrow> bool" where
  "field_agrees d ft tf \<longleftrightarrow> fst ft = fst tf \<and>
     (case snd tf of
        Inr s \<Rightarrow> snd ft = TStr \<and> lookup_str d (fst ft) = Some (PStr s)
      | Inl i \<Rightarrow> snd ft \<noteq> TStr \<and> (\<exists>v. lookup_str d (fst ft) = Some v \<and> num_of v = Some i))"

lemma read_bool_agrees: "read_bool f d = Inr b \<Longrightarrow> field_agrees d (f, TBool) (f, Inl (of_bool b))"
  by (auto simp: read_bool_Inr field_agrees_def)

lemma read_int_agrees: "read_int f d = Inr i \<Longrightarrow> field_agrees d (f, TInt) (f, Inl i)"
  by (auto simp: read_int_Inr field_agrees_def)

lemma read_str_agrees: "read_str f d = Inr s \<Longrightarrow> field_agrees d (f, TStr) (f, Inr s)"
  by (auto simp: read_str_Inr field_agrees_def)

lemmas read_agrees = read_bool_agrees read_int_agrees read_str_agrees

lemma Config_agrees:
  assumes "Config (PDict d) = Inr c"
  shows "params c = d \<and> list_all2 (field_agrees d) known_fields (typed_fields c)"
  using assms
  by (clarsimp simp: Config_def bind_res_Inr split: if_splits)
     (simp add: known_fields_def typed_fields_def read_agrees)

lemma field_opts_agree:
  "field_agrees (params c) ft tf \<Longrightarrow> field_opts so c args ft = Inr (expected_opts so args tf)"
  by (cases ft; cases tf; cases "snd tf")
     (auto simp: field_agrees_def field_opts_def getitem_def)

lemma map_res_all2:
  "list_all2 R xs ys \<Longrightarrow> (\<And>x y. R x y \<Longrightarrow> f x = Inr (g y)) \<Longrightarrow> map_res f xs = Inr (map g ys)"
  by (induction rule: list_all2_induct) auto

lemma sim_output_expected:
  assumes "Config (PDict d) = Inr c"
  shows "sim_output so c args =
    Inr (shlex_join (concat (map (expected_opts so args) (typed_fields c))))"
proof -
  from Config_agrees [OF assms]
  have all: "list_all2 (field_agrees (params c)) known_fields (typed_fields c)" by simp
  have "map_res (\<lambda>f. bind_res (field_opts so c args f) (\<lambda>opts. Inr (map shlex_quote opts))) known_fields
      = Inr (map (\<lambda>tf. map shlex_quote (expected_opts so args tf)) (typed_fields c))"
    by (rule map_res_all2 [OF all]) (simp add: field_opts_agree)
  then show ?thesis
    by (simp add: sim_output_def shlex_join_def map_concat o_def)
qed

text \<open>
  C20: The options printed for a simulator, read back by a shell-like splitter, are exactly the
  options of the seventeen typed attributes in their order, each in the form the simulator's
  two functions give it: nothing is lost, merged or reordered by the quoting.
\<close>
theorem sim_output_roundtrip:
  assumes "Config (PDict d) = Inr c"
  shows "bind_res (sim_output so c args) shlex_split =
    Inr (concat (map (expected_opts so args) (typed_fields c)))"
  by (simp add: sim_output_expected [OF assms] shlex_split_join)

definition opentitan :: "(pyval \<times> pyval) list" where
  "opentitan =
     [(PStr ''RV32E'', PInt 0), (PStr ''RV32M'', PStr ''ibex_pkg::RV32MSingleCycle''),
      (PStr ''RV32B'', PStr ''ibex_pkg::RV32BOTEarlGrey''), (PStr ''RegFile'', PStr ''ibex_pkg::RegFileFF''),
      (PStr ''BranchTargetALU'', PInt 1), (PStr ''WritebackStage'', PInt 1), (PStr ''ICache'', PInt 1),
      (PStr ''ICacheECC'', PInt 1), (PStr ''ICacheScramble'', PInt 1), (PStr ''BranchPredictor'', PInt 0),
      (PStr ''DbgTriggerEn'', PInt 1), (PStr ''SecureIbex'', PInt 1), (PStr ''PMPEnable'', PInt 1),
      (PStr ''PMPGranularity'', PInt 0), (PStr ''PMPNumRegions'', PInt 16),
      (PStr ''MHPMCounterNum'', PInt 10), (PStr ''MHPMCounterWidth'', PInt 32)]"

definition opentitan_config :: config where
  "opentitan_config =
     \<lparr>params = opentitan, rv32e = False, rv32m = ''ibex_pkg::RV32MSingleCycle'',
      rv32b = ''ibex_pkg::RV32BOTEarlGrey'', reg_file = ''ibex_pkg::RegFileFF'',
      branch_target_alu = True, writeback_stage = True, icache = True, icache_ecc = True,
      icache_scramble = True, branch_predictor = False, dbg_trigger_en = True,
      secure_ibex = True, pmp_enable = True, pmp_granularity = 0, pmp_num_regions = 16,
      mhpm_counter_num = 10, mhpm_counter_width = 32\<rparr>"

lemma opentitan_Config: "Config (PDict opentitan) = Inr opentitan_config"
  by code_simp

theorem sim_output_roundtrip_witness:
  "bind_res (sim_output (simulators ! 0) opentitan_config
       \<lparr>query_flds = [], ins_hier_path = ''tb.dut'', string_define_prefix = ''IBEX_CFG_''\<rparr>) shlex_split =
     Inr (concat (map (expected_opts (simulators ! 0)
       \<lparr>query_flds = [], ins_hier_path = ''tb.dut'', string_define_prefix = ''IBEX_CFG_''\<rparr>)
       (typed_fields opentitan_config)))"
  by (rule sim_output_roundtrip [OF opentitan_Config])

section \<open>The file of configurations\<close>

lemma fold_configs:
  assumes "fold_res (\<lambda>cs (n, y). bind_res (on_value_error (g n) (Config y))
              (\<lambda>c. Inr (dict_set n c cs))) cs d = Inr cs'"
    and "distinct (map fst d)"
  shows "map_of cs' k = (case map_of d k of Some y \<Rightarrow> Some (case Config y of Inr c \<Rightarrow> c)
                                          | None \<Rightarrow> map_of cs k)"
  using assms
proof (induction d arbitrary: cs)
  case Nil
  then show ?case by simp
next
  case (Cons e d)
  obtain n y where e: "e = (n, y)" by (cases e)
  from Cons.prems(1) e obtain c where c: "Config y = Inr c"
    by (auto simp: bind_res_Inr)
  have none: "map_of d n = None" using Cons.prems(2) e by (simp add: map_of_eq_None_iff)
  from Cons.IH [of "dict_set n c cs"] Cons.prems e c none show ?case
    by (auto split: option.splits)
qed

lemma Configs_lookup:
  assumes "Configs (PDict d) = Inr cs" and "distinct (map fst d)"
  shows "map_of cs k = map_option (\<lambda>y. case Config y of Inr c \<Rightarrow> c) (map_of d k)"
  using fold_configs [of _ "[]" d cs k] assms by (auto simp: Configs_def split: option.splits)

lemma Configs_all_ok:
  assumes "Configs (PDict d) = Inr cs" and "(k, y) \<in> set d"
  shows "\<exists>c. Config y = Inr c"
proof -
  obtain us vs where d: "d = us @ (k, y) # vs" using assms(2) by (meson split_list)
  from assms(1) show ?thesis unfolding d
    by (auto simp: Configs_def bind_res_Inr)
qed



end
