(* ===== verification/Ibex_Cmd.thy ===== *)
theory Ibex_Cmd
  imports Ibex_Config
begin

text \<open>
  \<^verbatim>\<open>dv/uvm/core_ibex/scripts/ibex_cmd.py\<close>: asks \<^verbatim>\<open>util/ibex_config.py\<close>, run as a subprocess,
  for the options of a simulator and a stage, derives the ISA strings of a configuration,
  and filters the test list by the RTL parameters a test needs.  The host (file system, YAML
  parser, environment, the text a failing script leaves on its error stream) is the record
  \<open>host\<close>; the script that the subprocess runs is the model of the theory \<open>Ibex_Config\<close>.
\<close>

section \<open>Options of a simulator\<close>

record host =
  fs_read :: "string \<Rightarrow> string res"
  yaml_parse :: "string \<Rightarrow> string + pyval"
  env_vars :: "(string, string) dict"
  ibex_root :: string
  err_text :: "exn \<Rightarrow> string"

text \<open>For each simulator: needs compile options, needs simulation options.\<close>

definition SIM_CFGS :: "(string, bool \<times> bool) dict" where
  "SIM_CFGS =
     [(''vcs'', (True, False)),
      (''riviera'', (True, True)),
      (''questa'', (True, True)),
      (''xlm'', (True, False)),
      (''dsim'', (True, False))]"

definition config_script :: "host \<Rightarrow> string" where
  "config_script h = path_join (path_join (ibex_root h) ''util'') ''ibex_config.py''"

definition config_yaml :: "host \<Rightarrow> string" where
  "config_yaml h = path_join (ibex_root h) ''ibex_configs.yaml''"

definition tb_args :: out_args where
  "tb_args = \<lparr>query_flds = [], ins_hier_path = ''core_ibex_tb_top'',
              string_define_prefix = ''IBEX_CFG_''\<rparr>"

text \<open>
  Only the output types of the simulators declare the two options that the command line
  passes; the argument parser of the script refuses every other output type with status 2.
\<close>

definition run_ibex_config :: "host \<Rightarrow> string \<Rightarrow> string \<Rightarrow> string res" where
  "run_ibex_config h config_name output_type =
     (let outcome = (case map_of outputters output_type of
            Some (Sim so) \<Rightarrow> ibex_config_main (fs_read h) (yaml_parse h) (env_vars h) config_name
                              (Some (config_yaml h)) (Some output_type) tb_args
          | _ \<Rightarrow> Inl (SystemExit 2))
      in case outcome of
           Inl e \<Rightarrow> Inl (GenError (''Error running '' @ config_script h @ '' got:'' @ newline
                              @ newline @ err_text h e))
         | Inr text \<Rightarrow> Inr (py_strip (text @ newline)))"

definition get_x_opts :: "host \<Rightarrow> string \<Rightarrow> string \<Rightarrow> string \<Rightarrow> string res" where
  "get_x_opts h config_name simulator stage =
     (case map_of SIM_CFGS simulator of
        None \<Rightarrow> Inl (ValueError (''Unsupported simulator: '' @ simulator @ ''.''))
      | Some (needs_compile_opts, needs_sim_opts) \<Rightarrow>
          let specify_which_opts = (needs_compile_opts \<and> needs_sim_opts) in
          bind_res (if stage = ''compile'' then Inr needs_compile_opts
                    else if stage = ''sim'' then Inr needs_sim_opts
                    else Inl AssertionError)
            (\<lambda>needs_opts.
               if \<not> needs_opts then Inr []
               else run_ibex_config h config_name
                      (if specify_which_opts then simulator @ ''_'' @ stage @ ''_opts''
                       else simulator @ ''_opts'')))"

definition get_compile_opts :: "host \<Rightarrow> string \<Rightarrow> string \<Rightarrow> string res" where
  "get_compile_opts h config_name simulator = get_x_opts h config_name simulator ''compile''"

definition get_sim_opts :: "host \<Rightarrow> string \<Rightarrow> string \<Rightarrow> string res" where
  "get_sim_opts h config_name simulator = get_x_opts h config_name simulator ''sim''"

definition get_config :: "host \<Rightarrow> string \<Rightarrow> config res" where
  "get_config h cfg_name =
     parse_config (fs_read h) (yaml_parse h) cfg_name (config_yaml h)
       (''PosixPath('' @ repr_str (config_yaml h) @ '')'')"

text \<open>\<^verbatim>\<open>render_config_template.py\<close>: a template, already read, filled with the configuration's dictionary.\<close>

definition render_template :: "host \<Rightarrow> ((pyval \<times> pyval) list \<Rightarrow> string res) \<Rightarrow> string \<Rightarrow> string res" where
  "render_template h ibex_config_template config_name =
     bind_res (get_config h config_name) (\<lambda>ibex_config. ibex_config_template (params ibex_config))"

definition render_main :: "host \<Rightarrow> (string \<Rightarrow> ((pyval \<times> pyval) list \<Rightarrow> string res) res) \<Rightarrow> string \<Rightarrow> string \<Rightarrow> string res" where
  "render_main h load_template ibex_config template_filename =
     bind_res (load_template template_filename) (\<lambda>tpl.
     bind_res (render_template h tpl ibex_config) (\<lambda>s. Inr (s @ newline)))"

section \<open>ISA strings\<close>

definition bitmanip_mapping :: "(string, string list) dict" where
  "bitmanip_mapping =
     [(''ibex_pkg::RV32BNone'', []),
      (''ibex_pkg::RV32BBalanced'', [''Zba'', ''Zbb'', ''Zbs'', ''XZbf'', ''XZbt'']),
      (''ibex_pkg::RV32BOTEarlGrey'',
         [''Zba'', ''Zbb'', ''Zbc'', ''Zbs'', ''XZbf'', ''XZbp'', ''XZbr'', ''XZbt'']),
      (''ibex_pkg::RV32BFull'',
         [''Zba'', ''Zbb'', ''Zbc'', ''Zbs'', ''XZbe'', ''XZbf'', ''XZbp'', ''XZbr'', ''XZbt''])]"

definition base_isa :: "config \<Rightarrow> string" where
  "base_isa cfg =
     (let has_multiplier = (rv32m cfg \<noteq> ''ibex_pkg::RV32MNone'')
      in ''rv32'' @ (if rv32e cfg then ''e'' else ''i'') @ (if has_multiplier then ''m'' else []) @ ''c'')"

definition get_isas_for_config :: "config \<Rightarrow> (string \<times> string) res" where
  "get_isas_for_config cfg =
     (case map_of bitmanip_mapping (rv32b cfg) of
        None \<Rightarrow> Inl (ValueError (''Unknown RV32B value ('' @ rv32b cfg @ '') in config YAML''))
      | Some bitmanip_isa \<Rightarrow>
          let has_bitmanip = (rv32b cfg \<noteq> ''ibex_pkg::RV32BNone'');
              toolchain_isa = base_isa cfg @ (if has_bitmanip then ''b'' else [])
          in Inr (toolchain_isa, py_join ''_'' ([base_isa cfg] @ bitmanip_isa)))"

section \<open>Filtering tests\<close>

type_synonym test_entry = "(string, pyval) dict"

text \<open>\<open>config_val not in p_val\<close>, after a string or an integer became a one-element list.\<close>

definition coerce_param :: "pyval \<Rightarrow> pyval" where
  "coerce_param v = (if is_str v \<or> is_int v then PList [v] else v)"

definition in_value :: "pyval \<Rightarrow> pyval \<Rightarrow> bool res" where
  "in_value x v =
     (case v of
        PList xs \<Rightarrow> Inr (list_ex (py_eq x) xs)
      | PDict d \<Rightarrow> Inr (list_ex (\<lambda>(k, _). py_eq x k) d)
      | _ \<Rightarrow> Inl (TypeError ''argument is not iterable''))"

text \<open>
  The inner loop: \<open>acc\<close> is the list of accepted tests so far.  The test is appended after
  every parameter that matches, and the first one that does not ends the loop.
\<close>

fun filter_params :: "string \<Rightarrow> config \<Rightarrow> test_entry \<Rightarrow> (pyval \<times> pyval) list \<Rightarrow> test_entry list
    \<Rightarrow> test_entry list res" where
  "filter_params cfg_str cfg test [] acc = Inr acc"
| "filter_params cfg_str cfg test ((p, p_val) # ps) acc =
     (case map_of (params cfg) p of
        None \<Rightarrow> Inl (ValueError (''Parameter '' @ py_str p @ '' not found in config '' @ cfg_str))
      | Some PNone \<Rightarrow> Inl (ValueError (''Parameter '' @ py_str p @ '' not found in config '' @ cfg_str))
      | Some config_val \<Rightarrow>
          bind_res (in_value config_val (coerce_param p_val)) (\<lambda>found.
            if \<not> found
            then (case map_of test ''test'' of None \<Rightarrow> Inl (KeyError ''test'') | Some _ \<Rightarrow> Inr acc)
            else filter_params cfg_str cfg test ps (acc @ [test])))"

definition filter_test :: "string \<Rightarrow> config \<Rightarrow> test_entry list \<Rightarrow> test_entry \<Rightarrow> test_entry list res" where
  "filter_test cfg_str cfg acc test =
     (case map_of test ''rtl_params'' of
        None \<Rightarrow> Inr (acc @ [test])
      | Some (PDict param_dict) \<Rightarrow> filter_params cfg_str cfg test param_dict acc
      | Some _ \<Rightarrow> Inl AssertionError)"

definition filter_tests_by_config :: "string \<Rightarrow> config \<Rightarrow> test_entry list \<Rightarrow> test_entry list res" where
  "filter_tests_by_config cfg_str cfg test_list = fold_res (filter_test cfg_str cfg) [] test_list"

section \<open>Every parameter reaches the simulator\<close>

lemma safe_char_not_ws: "safe_char c \<Longrightarrow> \<not> is_ws c"
  by (auto simp: safe_char_def is_ws_def)

lemma sq_not_ws: "\<not> is_ws sq"
  by (simp add: is_ws_def quote_chars)

lemma shlex_quote_not_Nil [simp]: "shlex_quote w \<noteq> []"
  by (simp add: shlex_quote_def)

lemma shlex_quote_hd: "\<not> is_ws (hd (shlex_quote w))"
  by (cases w) (auto simp: shlex_quote_def sq_not_ws safe_char_not_ws)

lemma shlex_quote_last: "\<not> is_ws (last (shlex_quote w))"
  by (auto simp: shlex_quote_def sq_not_ws safe_char_not_ws)

lemma shlex_join_hd: "ws \<noteq> [] \<Longrightarrow> \<not> is_ws (hd (shlex_join ws))"
  by (cases ws; cases "tl ws") (simp_all add: shlex_join_def shlex_quote_hd)

lemma shlex_join_not_Nil: "ws \<noteq> [] \<Longrightarrow> shlex_join ws \<noteq> []"
  by (cases ws; cases "tl ws") (simp_all add: shlex_join_def)

lemma shlex_join_last: "ws \<noteq> [] \<Longrightarrow> \<not> is_ws (last (shlex_join ws))"
proof (induction ws)
  case Nil
  then show ?case by simp
next
  case (Cons w ws)
  show ?case
  proof (cases "ws = []")
    case True
    then show ?thesis by (simp add: shlex_join_def shlex_quote_last)
  next
    case False
    then have "shlex_join (w # ws) = shlex_quote w @ '' '' @ shlex_join ws"
      by (simp add: shlex_join_def py_join_Cons)
    with Cons.IH [OF False] shlex_join_not_Nil [OF False] show ?thesis by simp
  qed
qed

lemma py_strip_line:
  assumes "s \<noteq> [] \<Longrightarrow> \<not> is_ws (hd s) \<and> \<not> is_ws (last s)"
  shows "py_strip (s @ newline) = s"
proof (cases "s = []")
  case True
  then show ?thesis by (simp add: py_strip_def py_lstrip_def py_rstrip_def newline_def is_ws_def)
next
  case False
  then obtain c cs where s: "s = c # cs" by (cases s) auto
  from False obtain ds d where r: "s = ds @ [d]" by (cases s rule: rev_cases) auto
  from assms [OF False] s have c: "\<not> is_ws c" by simp
  from assms [OF False] r have d: "\<not> is_ws d" by simp
  have "is_ws (CHR 0x0A)" by (simp add: is_ws_def)
  then have "dropWhile is_ws (rev (s @ newline)) = rev s" using r d by (simp add: newline_def)
  moreover have "dropWhile is_ws (s @ newline) = s @ newline" using s c by simp
  ultimately show ?thesis by (simp add: py_strip_def py_lstrip_def py_rstrip_def)
qed

lemma strip_shlex_join: "py_strip (shlex_join ws @ newline) = shlex_join ws"
  by (rule py_strip_line) (metis shlex_join_def list.map(1) py_join.simps(1) shlex_join_hd shlex_join_last)

text \<open>The words a field becomes on the two command lines.\<close>

fun compile_words :: "string \<Rightarrow> string \<times> (int + string) \<Rightarrow> string list" where
  "compile_words sim (f, Inl i) =
     (if sim = ''vcs'' then [''-pvalue+core_ibex_tb_top.'' @ f @ ''='' @ str_int i]
      else if sim = ''xlm'' then [''-defparam'', ''core_ibex_tb_top.'' @ f @ ''='' @ str_int i]
      else [])"
| "compile_words sim (f, Inr s) =
     (if sim = ''xlm'' then [''-define'', ''IBEX_CFG_'' @ f @ ''='' @ s]
      else [''+define+IBEX_CFG_'' @ f @ ''='' @ s])"

fun sim_words :: "string \<Rightarrow> string \<times> (int + string) \<Rightarrow> string list" where
  "sim_words sim (f, Inl i) =
     (if sim = ''riviera'' \<or> sim = ''questa''
      then [''-g/core_ibex_tb_top/'' @ f @ ''='' @ str_int i] else [])"
| "sim_words sim (f, Inr s) = []"

lemma run_ibex_config_words:
  assumes "map_of outputters ot = Some (Sim so)" and "get_config h name = Inr c"
    and "Config (PDict d) = Inr c"
  shows "bind_res (run_ibex_config h name ot) shlex_split =
    Inr (concat (map (expected_opts so tb_args) (typed_fields c)))"
proof -
  have "parse_config (fs_read h) (yaml_parse h) name (config_yaml h) (repr_str (config_yaml h)) = Inr c"
    using assms(2)
    by (auto simp: get_config_def parse_config_def bind_res_Inr split: sum.splits)
  then have "ibex_config_main (fs_read h) (yaml_parse h) (env_vars h) name
      (Some (config_yaml h)) (Some ot) tb_args = sim_output so c tb_args"
    using assms(1) by (simp add: ibex_config_main_def run_output_def)
  with assms show ?thesis
    by (simp add: run_ibex_config_def sim_output_expected [OF assms(3)] strip_shlex_join shlex_split_join)
qed

lemma expected_is_words:
  "expected_opts (simulators ! 0) tb_args = compile_words ''vcs''"
  "expected_opts (simulators ! 1) tb_args = sim_words ''riviera''"
  "expected_opts (simulators ! 2) tb_args = compile_words ''riviera''"
  "expected_opts (simulators ! 3) tb_args = sim_words ''questa''"
  "expected_opts (simulators ! 4) tb_args = compile_words ''questa''"
  "expected_opts (simulators ! 5) tb_args = compile_words ''xlm''"
proof -
  have ext: "f = g" if "\<And>x i. f (x, Inl i) = g (x, Inl i)" "\<And>x s. f (x, Inr s) = g (x, Inr s)"
    for f g :: "string \<times> (int + string) \<Rightarrow> string list"
  proof
    show "f y = g y" for y using that by (cases y; cases "snd y") auto
  qed
  show "expected_opts (simulators ! 0) tb_args = compile_words ''vcs''"
    "expected_opts (simulators ! 1) tb_args = sim_words ''riviera''"
    "expected_opts (simulators ! 2) tb_args = compile_words ''riviera''"
    "expected_opts (simulators ! 3) tb_args = sim_words ''questa''"
    "expected_opts (simulators ! 4) tb_args = compile_words ''questa''"
    "expected_opts (simulators ! 5) tb_args = compile_words ''xlm''"
    by (rule ext; simp add: simulators_def hier_prefix_def tb_args_def no_opts_def)+
qed

lemma outputter_names:
  "map_of outputters ''vcs_opts'' = Some (Sim (simulators ! 0))"
  "map_of outputters ''riviera_sim_opts'' = Some (Sim (simulators ! 1))"
  "map_of outputters ''riviera_compile_opts'' = Some (Sim (simulators ! 2))"
  "map_of outputters ''questa_sim_opts'' = Some (Sim (simulators ! 3))"
  "map_of outputters ''questa_compile_opts'' = Some (Sim (simulators ! 4))"
  "map_of outputters ''xlm_opts'' = Some (Sim (simulators ! 5))"
  "map_of outputters ''dsim_opts'' = None"
  by (simp_all add: outputters_def simulators_def)

lemmas x_opts_simps = get_x_opts_def SIM_CFGS_def Let_def

text \<open>
  C31: For each simulator but DSim the compile and simulation command lines together carry
  every field of the configuration, once, in the form and on the command line that the
  simulator takes it: parameters as values of the testbench hierarchy, strings as defines.
\<close>
theorem options_reach_simulator:
  assumes "sim \<in> set [''vcs'', ''riviera'', ''questa'', ''xlm'']"
    and "get_config h name = Inr c" and "Config (PDict d) = Inr c"
  shows "bind_res (get_compile_opts h name sim) shlex_split =
           Inr (concat (map (compile_words sim) (typed_fields c)))
       \<and> bind_res (get_sim_opts h name sim) shlex_split =
           Inr (concat (map (sim_words sim) (typed_fields c)))
       \<and> list_all (\<lambda>f. (compile_words sim f = []) \<noteq> (sim_words sim f = [])) (typed_fields c)"
proof -
  note words = run_ibex_config_words [OF _ assms(2,3)]
  have none: "concat (map (sim_words s) fs) = []" if "s = ''vcs'' \<or> s = ''xlm''" for s fs
  proof -
    have "sim_words s f = []" for f using that by (cases f; cases "snd f") auto
    then show ?thesis by simp
  qed
  have once: "list_all (\<lambda>f. (compile_words sim f = []) \<noteq> (sim_words sim f = [])) (typed_fields c)"
    using assms(1) by (auto simp: typed_fields_def)
  have nil: "shlex_split [] = Inr []" by (simp add: shlex_split_def)
  note cases = words [OF outputter_names(1)] words [OF outputter_names(2)]
    words [OF outputter_names(3)] words [OF outputter_names(4)]
    words [OF outputter_names(5)] words [OF outputter_names(6)] expected_is_words none nil
  have "bind_res (get_compile_opts h name sim) shlex_split =
      Inr (concat (map (compile_words sim) (typed_fields c)))"
    using assms(1) by (simp add: get_compile_opts_def x_opts_simps, elim disjE; simp add: cases del: One_nat_def)
  moreover have "bind_res (get_sim_opts h name sim) shlex_split =
      Inr (concat (map (sim_words sim) (typed_fields c)))"
    using assms(1) by (simp add: get_sim_opts_def x_opts_simps, elim disjE; simp add: cases del: One_nat_def)
  ultimately show ?thesis using once by blast
qed

text \<open>
  For DSim the compile options are never produced, whatever the configuration: the output
  type asked for is \<open>dsim_opts\<close>, which the script does not declare.
\<close>
theorem dsim_options_always_fail:
  "get_compile_opts h name ''dsim'' =
     Inl (GenError (''Error running '' @ config_script h @ '' got:'' @ newline
            @ newline @ err_text h (SystemExit 2)))"
  by (simp add: get_compile_opts_def get_x_opts_def SIM_CFGS_def run_ibex_config_def outputter_names)


text \<open>A host whose configuration file holds the OpenTitan entry.\<close>

definition demo_host :: host where
  "demo_host =
     \<lparr>fs_read = (\<lambda>f. if f = ''/ibex/ibex_configs.yaml'' then Inr ''opentitan: ...''
                    else Inl (OSError ''No such file'')),
      yaml_parse = (\<lambda>t. Inr (PDict [(PStr ''opentitan'', PDict opentitan)])),
      env_vars = [], ibex_root = ''/ibex'', err_text = (\<lambda>e. ''Traceback'')\<rparr>"

lemma demo_get_config: "get_config demo_host ''opentitan'' = Inr opentitan_config"
proof -
  have "config_yaml demo_host = ''/ibex/ibex_configs.yaml''" by code_simp
  then show ?thesis
    by (simp add: get_config_def demo_host_def parse_config_def Configs_def opentitan_Config)
qed

theorem options_reach_simulator_witness:
  "bind_res (get_compile_opts demo_host ''opentitan'' ''xlm'') shlex_split =
           Inr (concat (map (compile_words ''xlm'') (typed_fields opentitan_config)))
       \<and> bind_res (get_sim_opts demo_host ''opentitan'' ''xlm'') shlex_split =
           Inr (concat (map (sim_words ''xlm'') (typed_fields opentitan_config)))
       \<and> list_all (\<lambda>f. (compile_words ''xlm'' f = []) \<noteq> (sim_words ''xlm'' f = []))
            (typed_fields opentitan_config)"
  by (rule options_reach_simulator [OF _ demo_get_config opentitan_Config]) simp

section \<open>The ISA strings\<close>

text \<open>
  The toolchain string is \<open>rv32\<close>, the base letters and \<open>b\<close> exactly when the
  configuration has bit-manipulation extensions; the simulator's string splits at the
  underscores into the base and those extensions.  An unknown \<open>RV32B\<close> value is an error.
\<close>
theorem isa_strings:
  "(case get_isas_for_config cfg of
      Inl e \<Rightarrow> map_of bitmanip_mapping (rv32b cfg) = None
        \<and> e = ValueError (''Unknown RV32B value ('' @ rv32b cfg @ '') in config YAML'')
    | Inr (toolchain, iss) \<Rightarrow>
        (\<exists>exts. map_of bitmanip_mapping (rv32b cfg) = Some exts
          \<and> split_on (CHR ''_'') iss = base_isa cfg # exts
          \<and> toolchain = base_isa cfg @ (if exts = [] then [] else ''b'')))"
proof (cases "map_of bitmanip_mapping (rv32b cfg)")
  case None
  then show ?thesis by (simp add: get_isas_for_config_def)
next
  case (Some exts)
  have mapping: "\<forall>(k, es)\<in>set bitmanip_mapping.
      (\<forall>w\<in>set es. CHR ''_'' \<notin> set w) \<and> (es = [] \<longleftrightarrow> k = ''ibex_pkg::RV32BNone'')"
    by code_simp
  from mapping map_of_SomeD [OF Some]
  have exts: "\<forall>w\<in>set exts. CHR ''_'' \<notin> set w" "exts = [] \<longleftrightarrow> rv32b cfg = ''ibex_pkg::RV32BNone''"
    by auto
  have "CHR ''_'' \<notin> set (base_isa cfg)" by (simp add: base_isa_def)
  then have "split_on (CHR ''_'') (py_join ''_'' (base_isa cfg # exts)) = base_isa cfg # exts"
    using exts(1) by (intro split_on_join) auto
  with Some exts(2) show ?thesis by (simp add: get_isas_for_config_def)
qed

section \<open>What the filter keeps\<close>

definition param_matches :: "config \<Rightarrow> pyval \<times> pyval \<Rightarrow> bool" where
  "param_matches cfg pv =
     (case map_of (params cfg) (fst pv) of
        Some v \<Rightarrow> in_value v (coerce_param (snd pv)) = Inr True
      | None \<Rightarrow> False)"

text \<open>A parameter the configuration has, with a value or a list of values.\<close>

definition param_wf :: "config \<Rightarrow> pyval \<times> pyval \<Rightarrow> bool" where
  "param_wf cfg pv =
     ((case map_of (params cfg) (fst pv) of Some v \<Rightarrow> v \<noteq> PNone | None \<Rightarrow> False)
      \<and> (case coerce_param (snd pv) of PList _ \<Rightarrow> True | _ \<Rightarrow> False))"

definition test_params :: "test_entry \<Rightarrow> (pyval \<times> pyval) list option" where
  "test_params t = (case map_of t ''rtl_params'' of Some (PDict d) \<Rightarrow> Some d | _ \<Rightarrow> None)"

definition test_wf :: "config \<Rightarrow> test_entry \<Rightarrow> bool" where
  "test_wf cfg t =
     (map_of t ''test'' \<noteq> None
      \<and> (map_of t ''rtl_params'' = None
         \<or> (case test_params t of Some d \<Rightarrow> list_all (param_wf cfg) d | None \<Rightarrow> False)))"

definition copies :: "config \<Rightarrow> test_entry \<Rightarrow> nat" where
  "copies cfg t =
     (case test_params t of None \<Rightarrow> 1 | Some d \<Rightarrow> length (takeWhile (param_matches cfg) d))"

lemma filter_params_wf:
  "list_all (param_wf cfg) ps \<Longrightarrow> map_of test ''test'' \<noteq> None \<Longrightarrow>
   filter_params s cfg test ps acc
     = Inr (acc @ replicate (length (takeWhile (param_matches cfg) ps)) test)"
proof (induction ps arbitrary: acc)
  case Nil
  then show ?case by simp
next
  case (Cons pv ps)
  obtain p v where pv: "pv = (p, v)" by (cases pv)
  from Cons.prems(1) pv obtain cv xs
    where cv: "map_of (params cfg) p = Some cv" "cv \<noteq> PNone" and xs: "coerce_param v = PList xs"
    by (auto simp: param_wf_def split: option.splits pyval.splits)
  have step: "filter_params s cfg test (pv # ps) acc =
      (if list_ex (py_eq cv) xs then filter_params s cfg test ps (acc @ [test]) else Inr acc)"
    using cv xs pv Cons.prems(2) by (cases cv) (auto simp: in_value_def)
  have "param_matches cfg pv \<longleftrightarrow> list_ex (py_eq cv) xs"
    using cv xs pv by (simp add: param_matches_def in_value_def)
  with step Cons show ?case by simp
qed

lemma filter_test_wf:
  assumes "test_wf cfg t"
  shows "filter_test s cfg acc t = Inr (acc @ replicate (copies cfg t) t)"
proof (cases "map_of t ''rtl_params''")
  case None
  then show ?thesis by (simp add: filter_test_def copies_def test_params_def)
next
  case (Some v)
  with assms obtain d where d: "v = PDict d" "list_all (param_wf cfg) d" "map_of t ''test'' \<noteq> None"
    by (auto simp: test_wf_def test_params_def split: pyval.splits)
  with Some filter_params_wf [OF d(2,3)] show ?thesis
    by (simp add: filter_test_def copies_def test_params_def)
qed

text \<open>
  On a well-formed test list the filter keeps a test once for every parameter in the
  longest matching prefix of its parameters, not once if all match: a test whose first
  parameter matches and whose second does not is still kept.
\<close>
theorem filter_keeps_copies:
  assumes "list_all (test_wf cfg) ts"
  shows "filter_tests_by_config s cfg ts = Inr (concat (map (\<lambda>t. replicate (copies cfg t) t) ts))"
proof -
  have "fold_res (filter_test s cfg) acc ts = Inr (acc @ concat (map (\<lambda>t. replicate (copies cfg t) t) ts))"
    for acc
    using assms by (induction ts arbitrary: acc) (simp_all add: filter_test_wf)
  from this [of "[]"] show ?thesis by (simp add: filter_tests_by_config_def)
qed

definition demo_tests :: "test_entry list" where
  "demo_tests =
     [[(''test'', PStr ''riscv_arithmetic_basic_test'')],
      [(''test'', PStr ''riscv_pmp_basic_test''), (''rtl_params'', PDict [(PStr ''PMPEnable'', PInt 1)])],
      [(''test'', PStr ''two_params''),
       (''rtl_params'', PDict [(PStr ''ICache'', PInt 1), (PStr ''PMPNumRegions'', PInt 4)])]]"

theorem filter_keeps_copies_witness:
  "filter_tests_by_config ''cfg'' opentitan_config demo_tests = Inr demo_tests"
proof -
  have "concat (map (\<lambda>t. replicate (copies opentitan_config t) t) demo_tests) = demo_tests"
    by code_simp
  moreover have "list_all (test_wf opentitan_config) demo_tests" by code_simp
  ultimately show ?thesis
    by (simp add: filter_keeps_copies [of opentitan_config demo_tests "''cfg''"])
qed

text \<open>
  When every test names exactly one parameter, as the test lists of the repository do,
  or none, the filter is what it is meant to be: it keeps, once and in order, the tests whose
  parameters match the configuration.
\<close>
theorem filter_single_param:
  assumes "list_all (test_wf cfg) ts"
    and "list_all (\<lambda>t. case test_params t of None \<Rightarrow> True | Some d \<Rightarrow> length d = 1) ts"
  shows "filter_tests_by_config s cfg ts =
    Inr (filter (\<lambda>t. case test_params t of None \<Rightarrow> True | Some d \<Rightarrow> list_all (param_matches cfg) d) ts)"
proof -
  have "fold_res (filter_test s cfg) acc ts = Inr (acc @ filter
      (\<lambda>t. case test_params t of None \<Rightarrow> True | Some d \<Rightarrow> list_all (param_matches cfg) d) ts)" for acc
    using assms
  proof (induction ts arbitrary: acc)
    case Nil
    then show ?case by simp
  next
    case (Cons t ts)
    have "replicate (copies cfg t) t = (if (case test_params t of None \<Rightarrow> True
        | Some d \<Rightarrow> list_all (param_matches cfg) d) then [t] else [])"
      using Cons.prems(2) by (auto simp: copies_def length_Suc_conv split: option.splits)
    with Cons show ?case by (simp add: filter_test_wf)
  qed
  from this [of "[]"] show ?thesis by (simp add: filter_tests_by_config_def)
qed

theorem filter_single_param_witness:
  "filter_tests_by_config ''cfg'' opentitan_config (take 2 demo_tests) = Inr (take 2 demo_tests)"
proof -
  have "list_all (test_wf opentitan_config) (take 2 demo_tests)" by code_simp
  moreover have "list_all (\<lambda>t. case test_params t of None \<Rightarrow> True | Some d \<Rightarrow> length d = 1)
      (take 2 demo_tests)" by code_simp
  moreover have "filter (\<lambda>t. case test_params t of None \<Rightarrow> True
      | Some d \<Rightarrow> list_all (param_matches opentitan_config) d) (take 2 demo_tests) = take 2 demo_tests"
    by code_simp
  ultimately show ?thesis
    using filter_single_param [of opentitan_config "take 2 demo_tests" "''cfg''"] by simp
qed

end
