(* ===== verification/Scripts_Lib.thy ===== *)
theory Scripts_Lib
  imports Shlex
begin

text \<open>
  \<^verbatim>\<open>dv/uvm/core_ibex/scripts/scripts_lib.py\<close>: running a command with redirected output and a
  timeout, formatting values for command lines and for YAML, and substituting the \<open><name>\<close>
  placeholders of command templates.  Processes and files are outside the sources; \<open>run_one\<close>
  takes their outcome as an argument and returns the trace of what it did with them.
\<close>

section \<open>Values to print\<close>

datatype item =
    INone
  | IBool bool
  | IInt int
  | IStr string
  | IPath string
  | IList "item list"
  | IDict "(item \<times> item) list"
  | IObj string

fun item_repr :: "item \<Rightarrow> string" where
  "item_repr INone = ''None''"
| "item_repr (IBool b) = str_bool b"
| "item_repr (IInt i) = str_int i"
| "item_repr (IStr s) = repr_str s"
| "item_repr (IPath p) = ''PosixPath('' @ repr_str p @ '')''"
| "item_repr (IList xs) = ''['' @ py_join '', '' (map item_repr xs) @ '']''"
| "item_repr (IDict d) =
     ''{'' @ py_join '', '' (map (\<lambda>(k, v). item_repr k @ '': '' @ item_repr v) d) @ ''}''"
| "item_repr (IObj s) = s"

fun item_str :: "item \<Rightarrow> string" where
  "item_str (IStr s) = s"
| "item_str (IPath p) = p"
| "item_str v = item_repr v"

text \<open>\<open>resolve\<close> stands for the path library's resolution of a path against the file system.\<close>

definition format_to_str :: "(string \<Rightarrow> string) \<Rightarrow> item \<Rightarrow> string res" where
  "format_to_str resolve arg =
     (case arg of
        IInt _ \<Rightarrow> Inr (item_str arg)
      | IStr _ \<Rightarrow> Inr (item_str arg)
      | IBool _ \<Rightarrow> Inr (item_str arg)
      | IPath p \<Rightarrow> Inr (resolve p)
      | INone \<Rightarrow> Inr []
      | _ \<Rightarrow> Inl (TypeError ''Couldn't format element to str!''))"

definition on_type_error :: "(string \<Rightarrow> 'a res) \<Rightarrow> 'a res \<Rightarrow> 'a res" where
  "on_type_error h r =
     (case r of Inr v \<Rightarrow> Inr v | Inl e \<Rightarrow> (case e of TypeError m \<Rightarrow> h m | _ \<Rightarrow> Inl e))"

lemma on_type_error_simps [simp]:
  "on_type_error h (Inr v) = Inr v"
  "on_type_error h (Inl (TypeError m)) = h m"
  by (simp_all add: on_type_error_def)

definition format_to_cmd :: "(string \<Rightarrow> string) \<Rightarrow> item list \<Rightarrow> string list res" where
  "format_to_cmd resolve input_arg =
     map_res (\<lambda>item. on_type_error
        (\<lambda>e. Inl (RuntimeError (''Can't format item to str when constructing a cmd: '' @ e)))
        (format_to_str resolve item)) input_arg"

definition printable_value :: "(string \<Rightarrow> string) \<Rightarrow> item \<Rightarrow> string res" where
  "printable_value resolve v =
     on_type_error (\<lambda>_. Inr (item_str v))
       (case v of
          IDict d \<Rightarrow> Inr (item_str v)
        | IList xs \<Rightarrow> bind_res (map_res (format_to_str resolve) xs) (\<lambda>ws. Inr (py_join '' '' ws))
        | _ \<Rightarrow> format_to_str resolve v)"

definition format_dict_to_printable_dict :: "(string \<Rightarrow> string) \<Rightarrow> (string, item) dict
    \<Rightarrow> (string, string) dict res" where
  "format_dict_to_printable_dict resolve arg =
     fold_res (\<lambda>clean (k, v). bind_res (printable_value resolve v) (\<lambda>s. Inr (dict_set k s clean))) [] arg"

section \<open>YAML output\<close>

definition YAML_MULTILINE_CHARS :: string where
  "YAML_MULTILINE_CHARS = [CHR ''['', CHR '']'', CHR '':'', CHR 0x27, CHR 0x22, CHR 0x0A]"

text \<open>The type check of the decorator admits integers, strings and booleans.\<close>

definition yaml_value_format :: "item \<Rightarrow> string res" where
  "yaml_value_format val =
     (case val of
        IStr s \<Rightarrow>
          if list_ex (\<lambda>c. c \<in> set s) YAML_MULTILINE_CHARS
          then Inr (''|-'' @ newline
                 @ py_join newline (map (\<lambda>line. ''  '' @ line) (split_on (CHR 0x0A) s)))
          else Inr s
      | IInt i \<Rightarrow> Inr (item_str val)
      | IBool b \<Rightarrow> Inr (item_str val)
      | _ \<Rightarrow> Inl (TypeError ''type of val must be one of (int, str, bool)''))"

definition key_width :: "(string \<times> item) list \<Rightarrow> nat" where
  "key_width d = foldl (\<lambda>klen k. max klen (length k)) 1 (map fst d)"

definition pprint_key :: "nat \<Rightarrow> string \<Rightarrow> string" where
  "pprint_key klen k = k @ '':'' @ replicate (klen - length k) (CHR '' '') @ '' ''"

definition pprint_dict :: "(string, item) dict \<Rightarrow> string res" where
  "pprint_dict d =
     bind_res (map_res (\<lambda>(k, v). bind_res (yaml_value_format v) (\<lambda>s.
       Inr (pprint_key (key_width d) k @ s @ newline))) d) (\<lambda>ls. Inr (concat ls))"

text \<open>
  \<open>testdata_cls.export\<close>: the files written, in order; \<open>pickled\<close> is what the pickle library
  writes for the object.
\<close>

definition testdata_export :: "(string \<Rightarrow> string) \<Rightarrow> string option \<Rightarrow> string option \<Rightarrow> bool \<Rightarrow> string
    \<Rightarrow> (string, item) dict \<Rightarrow> (string \<times> string) list res" where
  "testdata_export resolve pickle_file yaml_file write_yaml pickled obj =
     (case pickle_file of
        None \<Rightarrow> Inl (RuntimeError [])
      | Some pf \<Rightarrow>
          (case yaml_file of
             None \<Rightarrow> Inl (RuntimeError [])
           | Some yf \<Rightarrow>
               if \<not> write_yaml then Inr [(pf, pickled)]
               else bind_res (format_dict_to_printable_dict resolve obj) (\<lambda>d.
                    bind_res (pprint_dict (map (\<lambda>(k, s). (k, IStr s)) d)) (\<lambda>text.
                    Inr [(pf, pickled), (yf, text)]))))"

text \<open>\<open>testdata_cls.construct_from_pickle\<close>: \<open>unpickle\<close> is the pickle library.\<close>

definition construct_from_pickle :: "(string \<Rightarrow> string res) \<Rightarrow> (string \<Rightarrow> 'a res) \<Rightarrow> string \<Rightarrow> 'a res" where
  "construct_from_pickle read_file unpickle metadata_pickle = bind_res (read_file metadata_pickle) unpickle"

definition read_yaml :: "(string \<Rightarrow> string res) \<Rightarrow> (string \<Rightarrow> string + pyval) \<Rightarrow> string \<Rightarrow> pyval res" where
  "read_yaml read_file yaml_load yaml_file =
     bind_res (read_file yaml_file) (\<lambda>contents.
       case yaml_load contents of Inl exc \<Rightarrow> Inl (SystemExit 1) | Inr yaml_data \<Rightarrow> Inr yaml_data)"

section \<open>Running a command\<close>

text \<open>
  Where the streams go: nowhere special, a string (only \<^verbatim>\<open>/dev/null\<close> is accepted), a path, or
  an open stream, which may have a name and may accept text.
\<close>

datatype redirect =
    NoRedirect
  | ToStr string
  | ToPath string
  | ToStream "string option" bool

datatype outcome = Exits int | OsErr string | TimesOut

datatype event =
    Opened string
  | Closed string
  | Stderr string
  | Stdout string
  | StreamText string
  | Ran "string list" "int option" "(string, string) dict option"

definition path_name :: "string \<Rightarrow> string" where
  "path_name p = last (split_on (CHR ''/'') p)"

text \<open>The destination, or the exception raised before anything is opened.\<close>

definition open_dest :: "(string \<Rightarrow> exn option) \<Rightarrow> redirect \<Rightarrow> event list res" where
  "open_dest open_error r =
     (case r of
        NoRedirect \<Rightarrow> Inr []
      | ToStr s \<Rightarrow>
          if s = ''/dev/null'' then Inr []
          else Inl (RuntimeError (''redirect_stdstream called as '' @ s @ '' ''
                 @ ''but that argument is invalid.''))
      | ToPath p \<Rightarrow> (case open_error p of Some e \<Rightarrow> Inl e | None \<Rightarrow> Inr [Opened p])
      | ToStream _ _ \<Rightarrow> Inr [])"

definition redir_text :: "redirect \<Rightarrow> string res" where
  "redir_text r =
     (case r of
        NoRedirect \<Rightarrow> Inr []
      | ToStr s \<Rightarrow> Inr ('' >'' @ shlex_quote s @ '' 2>&1'')
      | ToPath p \<Rightarrow> Inr ('' >>'' @ shlex_quote (path_name p) @ '' 2>&1'')
      | ToStream (Some n) _ \<Rightarrow> Inr ('' >>'' @ shlex_quote n @ '' 2>&1'')
      | ToStream None _ \<Rightarrow> Inl (AttributeError ''name''))"

definition close_dest :: "redirect \<Rightarrow> event list" where
  "close_dest r = (case r of ToPath p \<Rightarrow> [Closed p] | _ \<Rightarrow> [])"

text \<open>
  The announcement of a verbose call: to standard error and, where the destination takes
  text, to it (the files opened here are binary, and \<open>DEVNULL\<close> is a number).
\<close>

definition announce :: "bool \<Rightarrow> redirect \<Rightarrow> string \<Rightarrow> (string \<times> event list) res" where
  "announce verbose r cmd_str =
     (if \<not> verbose then Inr (cmd_str, [])
      else bind_res (redir_text r) (\<lambda>redir.
        let line = ''+ '' @ cmd_str @ redir
        in Inr (cmd_str @ redir,
            Stderr line # (case r of ToStream _ True \<Rightarrow> [StreamText line] | _ \<Rightarrow> []))))"

definition show_timeout :: "int option \<Rightarrow> string" where
  "show_timeout t = (case t of None \<Rightarrow> ''None'' | Some n \<Rightarrow> str_int n)"

definition run_one :: "(string \<Rightarrow> exn option) \<Rightarrow> (string list \<Rightarrow> outcome) \<Rightarrow> bool \<Rightarrow> string list
    \<Rightarrow> redirect \<Rightarrow> int option \<Rightarrow> bool \<Rightarrow> (string, string) dict option \<Rightarrow> event list \<times> int res" where
  "run_one open_error proc verbose cmd r timeout_s reraise env =
     (case open_dest open_error r of
        Inl e \<Rightarrow> ([], Inl e)
      | Inr opened \<Rightarrow>
          (case announce verbose r (shlex_join cmd) of
             Inl e \<Rightarrow> (opened, Inl e)
           | Inr (cmd_str, said) \<Rightarrow>
               let (out, ret) =
                 (case proc cmd of
                    Exits rc \<Rightarrow> ([], Inr rc)
                  | OsErr e \<Rightarrow> ([Stdout e], Inr 1)
                  | TimesOut \<Rightarrow>
                      ([Stdout (''Error: Timeout['' @ show_timeout timeout_s @ ''s]: '' @ cmd_str)],
                       if reraise then Inl TimeoutExpired else Inr 1))
               in (opened @ said @ [Ran cmd timeout_s env] @ out @ close_dest r, ret)))"

section \<open>Placeholders\<close>

definition needle_of :: "string \<Rightarrow> string" where
  "needle_of name = ''<'' @ name @ ''>''"

definition subst_opt :: "string \<Rightarrow> string \<Rightarrow> string \<Rightarrow> string" where
  "subst_opt s name replacement =
     (if py_in (needle_of name) s then replace_all (needle_of name) replacement s else s)"

datatype subst_value = SStr string | SPath string

definition value_text :: "(string \<Rightarrow> string) \<Rightarrow> subst_value \<Rightarrow> string" where
  "value_text resolve v = (case v of SStr s \<Rightarrow> s | SPath p \<Rightarrow> resolve p)"

definition subst_dict :: "(string \<Rightarrow> string) \<Rightarrow> string \<Rightarrow> (string, subst_value) dict \<Rightarrow> string" where
  "subst_dict resolve s var_dict =
     foldl (\<lambda>s (key, v). subst_opt s key (value_text resolve v)) s var_dict"

definition subst_env_vars :: "(string, string) dict \<Rightarrow> string \<Rightarrow> string list \<Rightarrow> string res" where
  "subst_env_vars environ s vars =
     fold_res (\<lambda>s var.
       case map_of environ var of
         None \<Rightarrow> Inl (RuntimeError (''Cannot substitute '' @ var @ '' in command because ''
                   @ ''the environment variable $'' @ var @ '' is not set.''))
       | Some v \<Rightarrow> Inr (subst_opt s var v)) s vars"

section \<open>Commands are announced, run and cleaned up after\<close>

fun opened_in :: "event list \<Rightarrow> string list" where
  "opened_in [] = []"
| "opened_in (Opened p # es) = p # opened_in es"
| "opened_in (_ # es) = opened_in es"

fun closed_in :: "event list \<Rightarrow> string list" where
  "closed_in [] = []"
| "closed_in (Closed p # es) = p # closed_in es"
| "closed_in (_ # es) = closed_in es"

lemma opened_in_append [simp]: "opened_in (xs @ ys) = opened_in xs @ opened_in ys"
  by (induction xs rule: opened_in.induct) auto

lemma closed_in_append [simp]: "closed_in (xs @ ys) = closed_in xs @ closed_in ys"
  by (induction xs rule: closed_in.induct) auto

lemma announce_no_files:
  "announce verbose r cmd_str = Inr (c, said) \<Longrightarrow> opened_in said = [] \<and> closed_in said = []"
  by (cases r)
     (auto simp: announce_def bind_res_Inr Let_def split: if_splits bool.splits)

lemma announce_total:
  "(\<forall>t. r \<noteq> ToStream None t) \<Longrightarrow> \<exists>c said. announce verbose r cmd_str = Inr (c, said)"
  by (cases r) (auto simp: announce_def redir_text_def Let_def split: option.splits)

text \<open>
  C38: Whatever the process does (exits, fails to start, times out, with or without re-raising),
  \<open>run_one\<close> closes exactly the files it opened, and it returns the exit code, or 1 when the
  process did not run to its end, or raises the timeout when asked to.
\<close>
theorem run_one_outcome:
  assumes "run_one open_error proc verbose cmd r timeout_s reraise env = (events, ret)"
    and "\<forall>t. r \<noteq> ToStream None t"
  shows "opened_in events = closed_in events
    \<and> (case open_dest open_error r of
         Inl e \<Rightarrow> events = [] \<and> ret = Inl e
       | Inr _ \<Rightarrow> Ran cmd timeout_s env \<in> set events
           \<and> ret = (case proc cmd of Exits rc \<Rightarrow> Inr rc | OsErr _ \<Rightarrow> Inr 1
                    | TimesOut \<Rightarrow> if reraise then Inl TimeoutExpired else Inr 1))"
proof (cases "open_dest open_error r")
  case (Inl e)
  with assms(1) show ?thesis by (simp add: run_one_def)
next
  case (Inr op)
  obtain c said where a: "announce verbose r (shlex_join cmd) = Inr (c, said)"
    using announce_total [OF assms(2)] by blast
  have files: "opened_in op = closed_in (close_dest r) \<and> closed_in op = [] \<and> opened_in (close_dest r) = []"
    using Inr by (cases r) (auto simp: open_dest_def close_dest_def split: if_splits option.splits)
  from assms(1) Inr a files announce_no_files [OF a] show ?thesis
    by (auto simp: run_one_def split: outcome.splits)
qed

theorem run_one_outcome_witness:
  "fst (run_one (\<lambda>_. None) (\<lambda>_. TimesOut) True [''make'', ''a b''] (ToPath ''out/log'') (Some 5) False None)
     = [Opened ''out/log'', Stderr ''+ make 'a b' >>log 2>&1'', Ran [''make'', ''a b''] (Some 5) None,
        Stdout ''Error: Timeout[5s]: make 'a b' >>log 2>&1'', Closed ''out/log'']
   \<and> opened_in [Opened ''out/log'', Stderr ''+ make 'a b' >>log 2>&1'', Ran [''make'', ''a b''] (Some 5) None,
        Stdout ''Error: Timeout[5s]: make 'a b' >>log 2>&1'', Closed ''out/log''] = [''out/log'']"
  (is "fst ?run = ?events \<and> _")
proof -
  have run: "?run = (?events, Inr 1)" by code_simp
  from run_one_outcome [OF run] show ?thesis by (simp add: run)
qed

text \<open>
  The command line a verbose call announces reads back, up to the redirection, as the
  words of the command: the printed line can be pasted into a shell.
\<close>
theorem run_one_announces:
  "\<exists>redir. fst (run_one open_error proc True cmd NoRedirect timeout_s reraise env) ! 0
     = Stderr (''+ '' @ redir) \<and> shlex_split redir = Inr cmd"
  by (simp add: run_one_def open_dest_def announce_def redir_text_def shlex_split_join
        split: outcome.splits)

section \<open>YAML round trip and alignment\<close>

text \<open>Reading a block scalar back: drop the indicator line, unindent, join.\<close>

definition read_block :: "string \<Rightarrow> string" where
  "read_block s = py_join newline (map (drop 2) (tl (split_on (CHR 0x0A) s)))"

lemma newline_char: "newline = [CHR 0x0A]"
  by (simp add: newline_def)

text \<open>
  A string with characters that YAML would interpret is written as a block scalar from
  which unindenting the lines gives the string back, line breaks included; any other string is
  written as it is.
\<close>
theorem yaml_string_roundtrip:
  "(if list_ex (\<lambda>c. c \<in> set s) YAML_MULTILINE_CHARS
    then map_sum id read_block (yaml_value_format (IStr s))
    else yaml_value_format (IStr s)) = Inr s"
proof (cases "list_ex (\<lambda>c. c \<in> set s) YAML_MULTILINE_CHARS")
  case False
  then show ?thesis by (simp add: yaml_value_format_def)
next
  case True
  let ?ls = "split_on (CHR 0x0A) s"
  let ?body = "py_join newline (map ((@) ''  '') ?ls)"
  have "split_on (CHR 0x0A) ?body = map ((@) ''  '') ?ls"
    unfolding newline_char by (rule split_on_join) (auto dest: split_on_pieces)
  moreover have "split_on (CHR 0x0A) (''|-'' @ CHR 0x0A # ?body) = ''|-'' # split_on (CHR 0x0A) ?body"
    unfolding split_on_def by (rule split_by_append_sep) auto
  ultimately have "read_block (''|-'' @ newline @ ?body) = py_join newline ?ls"
    by (simp add: read_block_def newline_char o_def)
  also have "\<dots> = s" unfolding newline_char by (rule join_split_on)
  finally show ?thesis using True by (simp add: yaml_value_format_def del: append_Cons)
qed

lemma foldl_max: "k \<in> set ks \<Longrightarrow> length k \<le> foldl (\<lambda>klen k. max klen (length k)) n ks"
  and foldl_max_ge: "n \<le> foldl (\<lambda>klen k. max klen (length k)) n ks"
proof (induction ks arbitrary: n)
  case (Cons k' ks)
  { case 1 then show ?case using Cons.IH(1)
      by (auto intro: order_trans [OF _ Cons.IH(2)]) }
  { case 2 then show ?case
      by (auto intro: order_trans [OF _ Cons.IH(2)]) }
qed simp_all

text \<open>
  The pretty printer puts every value in the same column, two past the longest key.
\<close>
lemma pprint_key_length:
  assumes "(k, v) \<in> set d"
  shows "length (pprint_key (key_width d) k) = key_width d + 2 \<and> length k \<le> key_width d"
proof -
  have "length k \<le> key_width d"
    unfolding key_width_def using assms by (intro foldl_max) force
  then show ?thesis by (simp add: pprint_key_def)
qed


end
