(* ===== verification/Tool_Cmds.thy ===== *)
theory Tool_Cmds
  imports Scripts_Lib
begin

text \<open>
  \<^verbatim>\<open>dv/uvm/core_ibex/scripts/riscvdv_interface.py\<close>: the simulator's command templates of
  \<^verbatim>\<open>rtl_simulation.yaml\<close> become runnable commands by three passes of placeholder
  substitution, a check that no placeholder is left, and a split into words.  The
  specification is a template as a list of pieces, on which a pass replaces whole
  placeholders; the string functions are shown to implement it.
\<close>

section \<open>The code\<close>

definition is_word_char :: "char \<Rightarrow> bool" where
  "is_word_char c \<longleftrightarrow>
     c \<in> set ''abcdefghijklmnopqrstuvwxyzABCDEFGHIJKLMNOPQRSTUVWXYZ0123456789_''"

text \<open>\<open>re.findall(r'(<[\w]+>)', s)\<close>\<close>

function findall_params :: "string \<Rightarrow> string list" where
  "findall_params [] = []"
| "findall_params (c # s) =
     (let w = takeWhile is_word_char s; rest = dropWhile is_word_char s
      in if c = CHR ''<'' \<and> w \<noteq> [] \<and> rest \<noteq> [] \<and> hd rest = CHR ''>''
         then (''<'' @ w @ ''>'') # findall_params (tl rest)
         else findall_params s)"
  by pat_completeness auto
termination
  by (relation "measure length")
     (auto simp: less_Suc_eq_le intro: le_trans [OF diff_le_self length_dropWhile_le])

text \<open>
  One entry \<open>simulator_entry[cmd_type]\<close>: its \<open>cmd\<close> list and its other keys, in order; and
  the \<open>env_var\<close> string of the simulator, if it has one.
\<close>

record tool_entry =
  cmd_list :: "string list"
  cmd_opts :: "(string, string) dict"
  env_var :: "string option"

definition enabled :: "(string, bool) dict \<Rightarrow> string \<Rightarrow> bool" where
  "enabled user_enables k = (map_of user_enables k = Some True)"

definition cmd_opts_dict :: "tool_entry \<Rightarrow> (string, bool) dict \<Rightarrow> (string, subst_value) dict" where
  "cmd_opts_dict e user_enables =
     map (\<lambda>(k, v). (k, SStr (if enabled user_enables k then py_strip v else []))) (cmd_opts e)"

definition env_names :: "string \<Rightarrow> string list" where
  "env_names s = split_on (CHR '','') (replace_all '' '' [] s)"

definition format_one_cmd :: "(string \<Rightarrow> string) \<Rightarrow> (string, string) dict \<Rightarrow> tool_entry
    \<Rightarrow> (string, bool) dict \<Rightarrow> (string, subst_value) dict \<Rightarrow> string \<Rightarrow> string list res" where
  "format_one_cmd resolve environ e user_enables user_subst cmd =
     (let c1 = subst_dict resolve cmd (cmd_opts_dict e user_enables);
          c2 = subst_dict resolve c1 user_subst
      in bind_res (case env_var e of None \<Rightarrow> Inr c2 | Some s \<Rightarrow> subst_env_vars environ c2 (env_names s))
           (\<lambda>c3. if findall_params c3 \<noteq> [] then Inl (RuntimeError []) else shlex_split c3))"

text \<open>The entries of the YAML list, as far as they are read: the name of the tool and its body.\<close>

definition get_yaml_for_simulator :: "(string \<times> 'e) list \<Rightarrow> string \<Rightarrow> 'e res" where
  "get_yaml_for_simulator entries simulator =
     (case find (\<lambda>(tool, _). tool = simulator) entries of
        Some (_, e) \<Rightarrow> Inr e
      | None \<Rightarrow> Inl (RuntimeError (''Cannot find RTL simulator '' @ simulator)))"

definition get_tool_cmds :: "(string \<Rightarrow> string) \<Rightarrow> (string, string) dict
    \<Rightarrow> (string \<times> (string, tool_entry) dict) list \<Rightarrow> string \<Rightarrow> string
    \<Rightarrow> (string, bool) dict \<Rightarrow> (string, subst_value) dict \<Rightarrow> string list list res" where
  "get_tool_cmds resolve environ entries simulator cmd_type user_enables user_subst =
     bind_res (get_yaml_for_simulator entries simulator) (\<lambda>simulator_entry.
     case map_of simulator_entry cmd_type of
       None \<Rightarrow> Inl (KeyError cmd_type)
     | Some e \<Rightarrow> map_res (format_one_cmd resolve environ e user_enables user_subst) (cmd_list e))"

text \<open>\<open>get_run_cmd\<close>: the command of riscv-dv's \<^verbatim>\<open>run.py\<close>, under the root of the repository.\<close>

definition get_run_cmd :: "string \<Rightarrow> bool \<Rightarrow> item list" where
  "get_run_cmd root verbose =
     (let riscv_dv = path_join (path_join root ''vendor'') ''google_riscv-dv'';
          extension = path_join (path_join (path_join (path_join root ''dv'') ''uvm'') ''core_ibex'')
                        ''riscv_dv_extension''
      in [IStr ''python3'',
          IPath (path_join riscv_dv ''run.py''),
          IStr ''--testlist'', IPath (path_join extension ''testlist.yaml''),
          IStr ''--gcc_opts=-mno-strict-align'',
          IStr ''--custom_target'', IPath extension,
          IStr ''--csr_yaml'', IPath (path_join extension ''csr_description.yaml''),
          IStr ''--mabi=ilp32'']
         @ (if verbose then [IStr ''--verbose''] else []))"

section \<open>Templates as pieces\<close>

datatype piece = Lit string | Par string

fun piece_text :: "piece \<Rightarrow> string" where
  "piece_text (Lit s) = s"
| "piece_text (Par n) = needle_of n"

definition template_text :: "piece list \<Rightarrow> string" where
  "template_text ps = concat (map piece_text ps)"

definition no_angle :: "string \<Rightarrow> bool" where
  "no_angle s \<longleftrightarrow> CHR ''<'' \<notin> set s \<and> CHR ''>'' \<notin> set s"

definition param_name :: "string \<Rightarrow> bool" where
  "param_name n \<longleftrightarrow> n \<noteq> [] \<and> list_all is_word_char n"

fun piece_wf :: "piece \<Rightarrow> bool" where
  "piece_wf (Lit s) = no_angle s"
| "piece_wf (Par n) = param_name n"

definition subst_pieces :: "string \<Rightarrow> piece list \<Rightarrow> piece list \<Rightarrow> piece list" where
  "subst_pieces n r ps = concat (map (\<lambda>p. if p = Par n then r else [p]) ps)"

lemma subst_pieces_wf:
  "list_all piece_wf r \<Longrightarrow> list_all piece_wf ps \<Longrightarrow> list_all piece_wf (subst_pieces n r ps)"
  by (induction ps) (auto simp: subst_pieces_def)

lemma template_text_simps [simp]:
  "template_text [] = []"
  "template_text (p # ps) = piece_text p @ template_text ps"
  "template_text (ps @ qs) = template_text ps @ template_text qs"
  by (simp_all add: template_text_def)

lemma is_word_char_no_angle [simp]: "\<not> is_word_char (CHR ''<'')" "\<not> is_word_char (CHR ''>'')"
  by (simp_all add: is_word_char_def)

lemma param_name_no_angle: "param_name n \<Longrightarrow> no_angle n"
  unfolding param_name_def no_angle_def list_all_iff using is_word_char_no_angle by metis

lemma replace_skip:
  "CHR ''<'' \<notin> set s \<Longrightarrow> replace_all (needle_of n) r (s @ t) = s @ replace_all (needle_of n) r t"
  by (induction s) (auto simp: needle_of_def starts_with_def)

lemma replace_hit: "replace_all (needle_of n) r (needle_of n @ t) = r @ replace_all (needle_of n) r t"
  by (simp add: needle_of_def starts_with_def)

lemma starts_with_append_iff: "starts_with (p @ q) (p @ s) \<longleftrightarrow> starts_with q s"
  by (simp add: starts_with_def)

lemma name_end_unique:
  "no_angle m \<Longrightarrow> no_angle n \<Longrightarrow> n @ CHR ''>'' # u = m @ CHR ''>'' # v \<Longrightarrow> n = m"
proof (induction n arbitrary: m)
  case Nil
  then show ?case by (cases m) (auto simp: no_angle_def)
next
  case (Cons x n)
  then show ?case by (cases m) (auto simp: no_angle_def)
qed

lemma replace_miss:
  assumes "no_angle m" "no_angle n" "m \<noteq> n"
  shows "replace_all (needle_of n) r (needle_of m @ t) = needle_of m @ replace_all (needle_of n) r t"
proof -
  have "\<not> starts_with (needle_of n) (needle_of m @ t)"
  proof
    assume "starts_with (needle_of n) (needle_of m @ t)"
    then obtain v where "m @ CHR ''>'' # t = n @ CHR ''>'' # v"
      by (auto simp: starts_with_iff needle_of_def)
    with name_end_unique [OF assms(2,1), of t v] assms(3) show False by simp
  qed
  moreover have "CHR ''<'' \<notin> set (m @ ''>'')" using assms(1) by (simp add: no_angle_def)
  ultimately show ?thesis
    using replace_skip [of "m @ ''>''" n r t] by (simp add: needle_of_def)
qed

lemma subst_opt_replace: "subst_opt s n r = replace_all (needle_of n) r s"
  by (simp add: subst_opt_def replace_all_absent)

lemma subst_opt_pieces:
  assumes "list_all piece_wf ps" "no_angle n"
  shows "subst_opt (template_text ps) n (template_text r) = template_text (subst_pieces n r ps)"
  unfolding subst_opt_replace using assms(1)
proof (induction ps)
  case Nil
  then show ?case by (simp add: subst_pieces_def)
next
  case (Cons p ps)
  then have IH: "replace_all (needle_of n) (template_text r) (template_text ps)
      = template_text (subst_pieces n r ps)" by simp
  show ?case
  proof (cases p)
    case (Lit s)
    with Cons.prems IH show ?thesis
      by (simp add: replace_skip no_angle_def subst_pieces_def)
  next
    case (Par m)
    with Cons.prems have "no_angle m" by (simp add: param_name_no_angle)
    with Par IH assms(2) show ?thesis
      by (cases "m = n") (simp_all add: replace_hit replace_miss subst_pieces_def)
  qed
qed

section \<open>Left-over placeholders\<close>

definition params_of :: "piece list \<Rightarrow> string list" where
  "params_of ps = concat (map (\<lambda>p. case p of Par n \<Rightarrow> [needle_of n] | Lit s \<Rightarrow> []) ps)"

lemma findall_skip: "CHR ''<'' \<notin> set s \<Longrightarrow> findall_params (s @ t) = findall_params t"
  by (induction s) auto

lemma findall_hit:
  assumes "param_name n"
  shows "findall_params (needle_of n @ t) = needle_of n # findall_params t"
proof -
  have all: "list_all is_word_char n" and ne: "n \<noteq> []" using assms by (simp_all add: param_name_def)
  have gt: "\<not> is_word_char (CHR ''>'')" by (simp add: is_word_char_def)
  have tw: "takeWhile is_word_char (n @ CHR ''>'' # t) = n"
    "dropWhile is_word_char (n @ CHR ''>'' # t) = CHR ''>'' # t"
    using all gt by (simp_all add: list_all_iff takeWhile_append2 dropWhile_append2)
  show ?thesis using ne tw by (simp add: needle_of_def)
qed

lemma findall_template:
  "list_all piece_wf ps \<Longrightarrow> findall_params (template_text ps) = params_of ps"
proof (induction ps)
  case Nil
  then show ?case by (simp add: params_of_def)
next
  case (Cons p ps)
  then show ?case
    by (cases p) (simp_all add: params_of_def findall_skip findall_hit no_angle_def)
qed


section \<open>The three passes\<close>

text \<open>One pass over the pieces, for a dictionary whose values are templates.\<close>

definition pass_pieces :: "(string \<times> piece list) list \<Rightarrow> piece list \<Rightarrow> piece list" where
  "pass_pieces d ps = foldl (\<lambda>ps (n, r). subst_pieces n r ps) ps d"

definition dict_wf :: "(string \<times> piece list) list \<Rightarrow> bool" where
  "dict_wf d = list_all (\<lambda>(n, r). no_angle n \<and> list_all piece_wf r) d"

definition texts :: "(string \<times> piece list) list \<Rightarrow> (string \<times> string) list" where
  "texts d = map (\<lambda>(n, r). (n, template_text r)) d"

lemma pass_wf:
  "dict_wf d \<Longrightarrow> list_all piece_wf ps \<Longrightarrow> list_all piece_wf (pass_pieces d ps)"
  by (induction d arbitrary: ps) (auto simp: pass_pieces_def dict_wf_def subst_pieces_wf)

lemma pass_texts:
  assumes "dict_wf d" "list_all piece_wf ps"
    and "map (\<lambda>(k, v). (k, value_text resolve v)) vd = texts d"
  shows "subst_dict resolve (template_text ps) vd = template_text (pass_pieces d ps)"
  using assms
proof (induction d arbitrary: vd ps)
  case Nil
  then show ?case by (simp add: texts_def subst_dict_def pass_pieces_def)
next
  case (Cons e d)
  obtain n r where e: "e = (n, r)" by (cases e)
  from Cons.prems(3) e obtain v vd' where vd: "vd = (n, v) # vd'" "value_text resolve v = template_text r"
    "map (\<lambda>(k, v). (k, value_text resolve v)) vd' = texts d"
    by (auto simp: texts_def)
  have wf: "no_angle n" "list_all piece_wf r" "dict_wf d" using Cons.prems(1) e by (auto simp: dict_wf_def)
  from Cons.IH [OF wf(3) subst_pieces_wf [OF wf(2) Cons.prems(2)] vd(3), of n]
  show ?case using e vd(1,2) subst_opt_pieces [OF Cons.prems(2) wf(1), of r]
    by (simp add: subst_dict_def pass_pieces_def)
qed

lemma env_pass:
  assumes "list_all piece_wf ps" "dict_wf d"
    and "list_all (\<lambda>(n, r). map_of environ n = Some (template_text r)) d"
  shows "subst_env_vars environ (template_text ps) (map fst d) = Inr (template_text (pass_pieces d ps))"
  using assms
proof (induction d arbitrary: ps)
  case Nil
  then show ?case by (simp add: subst_env_vars_def pass_pieces_def)
next
  case (Cons e d)
  obtain n r where e: "e = (n, r)" by (cases e)
  have wf: "no_angle n" "list_all piece_wf r" "dict_wf d" using Cons.prems(2) e by (auto simp: dict_wf_def)
  from Cons.IH [OF subst_pieces_wf [OF wf(2) Cons.prems(1)] wf(3), of n] Cons.prems e
  show ?case using subst_opt_pieces [OF Cons.prems(1) wf(1), of r]
    by (simp add: subst_env_vars_def pass_pieces_def)
qed

text \<open>
  C30: On a well-formed template the three string passes are three passes of whole-placeholder
  replacement on its pieces, in this order: the options of the entry (empty unless enabled),
  the caller's values, the environment.  The command is produced exactly when no placeholder
  remains, and it is then the word list of the filled template.
\<close>
theorem tool_command_pieces:
  assumes "list_all piece_wf ps" "dict_wf d1" "dict_wf d2" "dict_wf d3"
    and "map (\<lambda>(k, v). (k, value_text resolve v)) (cmd_opts_dict e en) = texts d1"
    and "map (\<lambda>(k, v). (k, value_text resolve v)) us = texts d2"
    and "env_var e = Some names" "env_names names = map fst d3"
    and "list_all (\<lambda>(n, r). map_of environ n = Some (template_text r)) d3"
  shows "format_one_cmd resolve environ e en us (template_text ps) =
    (let filled = pass_pieces d3 (pass_pieces d2 (pass_pieces d1 ps))
     in if params_of filled = [] then shlex_split (template_text filled) else Inl (RuntimeError []))"
proof -
  let ?p1 = "pass_pieces d1 ps"
  let ?p2 = "pass_pieces d2 ?p1"
  note w1 = pass_wf [OF assms(2,1)]
  note w2 = pass_wf [OF assms(3) w1]
  note w3 = pass_wf [OF assms(4) w2]
  show ?thesis
    using pass_texts [OF assms(2,1,5)] pass_texts [OF assms(3) w1 assms(6)]
      env_pass [OF w2 assms(4,9)] findall_template [OF w3]
    by (simp add: format_one_cmd_def assms(7,8) Let_def)
qed

text \<open>A template in the manner of the Xcelium entry: one option, one caller's value, one variable.\<close>

definition demo_entry :: tool_entry where
  "demo_entry = \<lparr>cmd_list = [''<xrun> -l <log> <wave>''],
     cmd_opts = [(''wave'', '' -input <tcl> '')], env_var = Some ''xrun, HOME''\<rparr>"

definition demo_pieces :: "piece list" where
  "demo_pieces = [Par ''xrun'', Lit '' -l '', Par ''log'', Lit '' '', Par ''wave'']"

theorem tool_command_pieces_witness:
  "format_one_cmd id [(''HOME'', ''/h''), (''xrun'', ''/bin/xrun'')] demo_entry [(''wave'', True)]
      [(''log'', SStr ''a.log''), (''tcl'', SPath ''w.tcl'')] ''<xrun> -l <log> <wave>''
     = Inr [''/bin/xrun'', ''-l'', ''a.log'', ''-input'', ''w.tcl'']"
proof -
  let ?d1 = "[(''wave'', [Lit ''-input '', Par ''tcl''])]"
  let ?d2 = "[(''log'', [Lit ''a.log'']), (''tcl'', [Lit ''w.tcl''])]"
  let ?d3 = "[(''xrun'', [Lit ''/bin/xrun'']), (''HOME'', [Lit ''/h''])]"
  let ?us = "[(''log'', SStr ''a.log''), (''tcl'', SPath ''w.tcl'')]"
  let ?env = "[(''HOME'', ''/h''), (''xrun'', ''/bin/xrun'')]"
  have "list_all piece_wf demo_pieces" by code_simp
  moreover have "dict_wf ?d1" by code_simp
  moreover have "dict_wf ?d2" by code_simp
  moreover have "dict_wf ?d3" by code_simp
  moreover have "map (\<lambda>(k, v). (k, value_text id v)) (cmd_opts_dict demo_entry [(''wave'', True)]) = texts ?d1"
    by code_simp
  moreover have "map (\<lambda>(k, v). (k, value_text id v)) ?us = texts ?d2" by code_simp
  moreover have "env_var demo_entry = Some ''xrun, HOME''" by code_simp
  moreover have "env_names ''xrun, HOME'' = map fst ?d3" by code_simp
  moreover have "list_all (\<lambda>(n, r). map_of ?env n = Some (template_text r)) ?d3" by code_simp
  ultimately have
    "format_one_cmd id ?env demo_entry [(''wave'', True)] ?us (template_text demo_pieces) =
      (let filled = pass_pieces ?d3 (pass_pieces ?d2 (pass_pieces ?d1 demo_pieces))
       in if params_of filled = [] then shlex_split (template_text filled) else Inl (RuntimeError []))"
    by (rule tool_command_pieces)
  moreover have "(let filled = pass_pieces ?d3 (pass_pieces ?d2 (pass_pieces ?d1 demo_pieces))
       in if params_of filled = [] then shlex_split (template_text filled) else Inl (RuntimeError []))
     = Inr [''/bin/xrun'', ''-l'', ''a.log'', ''-input'', ''w.tcl'']" by code_simp
  moreover have "template_text demo_pieces = ''<xrun> -l <log> <wave>''" by code_simp
  ultimately show ?thesis by simp
qed

text \<open>
  A variable of the \<open>env_var\<close> list that the environment does not set is an error even when
  no command mentions it, which the documentation of the function says it is not.
\<close>
theorem unset_env_var_raises:
  assumes "v \<in> set vars" "map_of environ v = None"
  shows "\<exists>m. subst_env_vars environ s vars = Inl (RuntimeError m)"
  using assms(1)
proof (induction vars arbitrary: s)
  case Nil
  then show ?case by simp
next
  case (Cons w vars)
  then show ?case
    using assms(2) by (cases "w = v"; cases "map_of environ w") (auto simp: subst_env_vars_def)
qed

theorem unset_env_var_raises_witness:
  "\<exists>m. subst_env_vars [(''HOME'', ''/h'')] ''xrun -f <HOME>'' [''HOME'', ''LICENSE''] = Inl (RuntimeError m)"
  by (rule unset_env_var_raises [of "''LICENSE''"]) simp_all

end
