(* ===== verification/Regex.thy ===== *)
theory Regex
  imports Py_Values
begin

text \<open>
  The fragment of Python's \<open>re\<close> that the sources use, as a backtracking matcher.  \<open>mtch r s\<close>
  lists the ways \<open>r\<close> matches a prefix of \<open>s\<close>, each as the rest of the string and the groups
  it captured, in the order in which the backtracking of \<open>re\<close> finds them: alternatives left
  to right, greedy repetition longest first, lazy repetition shortest first.  \<open>re_match\<close> and
  \<open>re_search\<close> take the first.  The lemmas describe the repetition of a character class whose
  continuation cannot start with that class: the pattern of every field of a log line.
\<close>

datatype regex =
    Eps
  | Cls "char \<Rightarrow> bool"
  | Seq regex regex
  | Alt regex regex
  | Star regex
  | LStar regex
  | Grp string regex
  | Eol

type_synonym caps = "(string \<times> string) list"

definition before :: "caps \<Rightarrow> (string \<times> caps) list \<Rightarrow> (string \<times> caps) list" where
  "before c ms = map (\<lambda>(s, d). (s, c @ d)) ms"

text \<open>Continue every way of matching.\<close>

fun seqm :: "(string \<times> caps) list \<Rightarrow> (string \<Rightarrow> (string \<times> caps) list) \<Rightarrow> (string \<times> caps) list" where
  "seqm [] k = []"
| "seqm ((s, c) # ms) k = before c (k s) @ seqm ms k"

lemma seqm_cong [fundef_cong]:
  "ms = ns \<Longrightarrow> (\<And>s c. (s, c) \<in> set ns \<Longrightarrow> f s = g s) \<Longrightarrow> seqm ms f = seqm ns g"
proof (induction ns arbitrary: ms)
  case (Cons n ns)
  obtain s c where n: "n = (s, c)" by (cases n)
  have "seqm ns f = seqm ns g" by (rule Cons.IH [OF refl]) (erule Cons.prems(2) [OF list.set_intros(2)])
  moreover have "f s = g s" by (rule Cons.prems(2) [of s c]) (simp add: n)
  ultimately show ?case using Cons.prems(1) n by simp
qed simp

text \<open>An iteration of a repetition has to consume something.\<close>

definition progress :: "string \<Rightarrow> (string \<times> caps) list \<Rightarrow> (string \<times> caps) list" where
  "progress s ms = filter (\<lambda>(s1, _). length s1 < length s) ms"

function mtch :: "regex \<Rightarrow> string \<Rightarrow> (string \<times> caps) list" where
  "mtch Eps s = [(s, [])]"
| "mtch (Cls P) s = (case s of [] \<Rightarrow> [] | c # cs \<Rightarrow> if P c then [(cs, [])] else [])"
| "mtch (Seq r1 r2) s = seqm (mtch r1 s) (mtch r2)"
| "mtch (Alt r1 r2) s = mtch r1 s @ mtch r2 s"
| "mtch (Star r) s = seqm (progress s (mtch r s)) (mtch (Star r)) @ [(s, [])]"
| "mtch (LStar r) s = (s, []) # seqm (progress s (mtch r s)) (mtch (LStar r))"
| "mtch (Grp n r) s = map (\<lambda>(s1, c1). (s1, c1 @ [(n, take (length s - length s1) s)])) (mtch r s)"
| "mtch Eol s = (if s = [] \<or> s = newline then [(s, [])] else [])"
  by pat_completeness auto
termination
  by (relation "measures [\<lambda>(r, s). size r, \<lambda>(r, s). length s]") (auto simp: progress_def)

declare mtch.simps(5,6) [simp del]

abbreviation Plus :: "regex \<Rightarrow> regex" where
  "Plus r \<equiv> Seq r (Star r)"

abbreviation LPlus :: "regex \<Rightarrow> regex" where
  "LPlus r \<equiv> Seq r (LStar r)"

abbreviation Opt :: "regex \<Rightarrow> regex" where
  "Opt r \<equiv> Alt r Eps"

fun Seqs :: "regex list \<Rightarrow> regex" where
  "Seqs [] = Eps"
| "Seqs [r] = r"
| "Seqs (r # q # rs) = Seq r (Seqs (q # rs))"

text \<open>\<open>[A-Za-z0-9_]\<close>.\<close>

definition word_char :: "char \<Rightarrow> bool" where
  "word_char c \<longleftrightarrow>
     c \<in> set ''ABCDEFGHIJKLMNOPQRSTUVWXYZabcdefghijklmnopqrstuvwxyz0123456789_''"

text \<open>A literal string.\<close>

definition Str :: "string \<Rightarrow> regex" where
  "Str s = Seqs (map (\<lambda>c. Cls (\<lambda>x. x = c)) s)"

text \<open>\<open>m.group(name)\<close>: the last capture of that name.\<close>

definition group :: "caps \<Rightarrow> string \<Rightarrow> string option" where
  "group c n = map_of (rev c) n"

definition group_str :: "caps \<Rightarrow> string \<Rightarrow> string" where
  "group_str c n = (case group c n of Some s \<Rightarrow> s | None \<Rightarrow> [])"

definition re_match :: "regex \<Rightarrow> string \<Rightarrow> caps option" where
  "re_match r s = (case mtch r s of [] \<Rightarrow> None | m # _ \<Rightarrow> Some (snd m))"

fun re_search :: "regex \<Rightarrow> string \<Rightarrow> caps option" where
  "re_search r [] = re_match r []"
| "re_search r (c # s) = (case re_match r (c # s) of Some m \<Rightarrow> Some m | None \<Rightarrow> re_search r s)"

section \<open>What a match is\<close>

inductive lang :: "regex \<Rightarrow> string \<Rightarrow> bool" where
  Eps: "lang Eps []"
| Cls: "P c \<Longrightarrow> lang (Cls P) [c]"
| Seq: "lang r1 u \<Longrightarrow> lang r2 v \<Longrightarrow> lang (Seq r1 r2) (u @ v)"
| Alt1: "lang r1 u \<Longrightarrow> lang (Alt r1 r2) u"
| Alt2: "lang r2 u \<Longrightarrow> lang (Alt r1 r2) u"
| Star0: "lang (Star r) []"
| Star1: "lang r u \<Longrightarrow> lang (Star r) v \<Longrightarrow> lang (Star r) (u @ v)"
| LStar0: "lang (LStar r) []"
| LStar1: "lang r u \<Longrightarrow> lang (LStar r) v \<Longrightarrow> lang (LStar r) (u @ v)"
| Grp: "lang r u \<Longrightarrow> lang (Grp n r) u"
| Eol: "lang Eol []"

lemma before_simps [simp]:
  "before c [] = []"
  "before c ((s, d) # ms) = (s, c @ d) # before c ms"
  "before [] ms = ms"
  "before c (ms @ ns) = before c ms @ before c ns"
  "before c (before d ms) = before (c @ d) ms"
  by (auto simp: before_def split_def)

lemma seqm_append [simp]: "seqm (ms @ ns) k = seqm ms k @ seqm ns k"
  by (induction ms k rule: seqm.induct) simp_all

lemma before_seqm: "before c (seqm ms k) = seqm (before c ms) k"
  by (induction ms) (auto simp: before_def)

lemma seqm_assoc: "seqm (seqm ms f) g = seqm ms (\<lambda>s. seqm (f s) g)"
  by (induction ms) (auto simp: before_seqm)

lemma in_seqm: "(t, d) \<in> set (seqm ms k) \<longleftrightarrow>
    (\<exists>s c e. (s, c) \<in> set ms \<and> (t, e) \<in> set (k s) \<and> d = c @ e)"
proof (induction ms)
  case (Cons m ms)
  then show ?case by (cases m) (auto simp: before_def)
qed simp

lemma in_progress: "(t, c) \<in> set (progress s ms) \<longleftrightarrow> (t, c) \<in> set ms \<and> length t < length s"
  by (auto simp: progress_def)

lemma mtch_sound: "(t, c) \<in> set (mtch r s) \<Longrightarrow> \<exists>w. s = w @ t \<and> lang r w"
proof (induction r s arbitrary: t c rule: mtch.induct)
  case (3 r1 r2 s)
  then obtain s1 c1 d where 1: "(s1, c1) \<in> set (mtch r1 s)" "(t, d) \<in> set (mtch r2 s1)"
    by (auto simp: in_seqm)
  from "3.IH"(1) [OF 1(1)] obtain u where "s = u @ s1" "lang r1 u" by blast
  moreover from "3.IH"(2) [OF 1] obtain v where "s1 = v @ t" "lang r2 v" by blast
  ultimately have "s = (u @ v) @ t" "lang (Seq r1 r2) (u @ v)" by (simp_all add: lang.Seq)
  then show ?case by blast
next
  case (4 r1 r2 s)
  from "4.prems" consider "(t, c) \<in> set (mtch r1 s)" | "(t, c) \<in> set (mtch r2 s)" by auto
  then show ?case
  proof cases
    case 1
    from "4.IH"(1) [OF this] show ?thesis using lang.Alt1 by blast
  next
    case 2
    from "4.IH"(2) [OF this] show ?thesis using lang.Alt2 by blast
  qed
next
  case (5 r s)
  show ?case
  proof (cases "t = s")
    case True
    then show ?thesis by (intro exI [of _ "[]"]) (simp add: lang.Star0)
  next
    case False
    with "5.prems" obtain s1 c1 d where 1: "(s1, c1) \<in> set (progress s (mtch r s))"
      "(t, d) \<in> set (mtch (Star r) s1)"
      by (auto simp: mtch.simps(5) [of r s] in_seqm)
    from 1(1) obtain u where "s = u @ s1" "lang r u" using "5.IH"(1) by (auto simp: in_progress)
    moreover from "5.IH"(2) [OF 1] obtain v where "s1 = v @ t" "lang (Star r) v" by blast
    ultimately have "s = (u @ v) @ t" "lang (Star r) (u @ v)" by (simp_all add: lang.Star1)
    then show ?thesis by blast
  qed
next
  case (6 r s)
  show ?case
  proof (cases "t = s")
    case True
    then show ?thesis by (intro exI [of _ "[]"]) (simp add: lang.LStar0)
  next
    case False
    with "6.prems" obtain s1 c1 d where 1: "(s1, c1) \<in> set (progress s (mtch r s))"
      "(t, d) \<in> set (mtch (LStar r) s1)"
      by (auto simp: mtch.simps(6) [of r s] in_seqm)
    from 1(1) obtain u where "s = u @ s1" "lang r u" using "6.IH"(1) by (auto simp: in_progress)
    moreover from "6.IH"(2) [OF 1] obtain v where "s1 = v @ t" "lang (LStar r) v" by blast
    ultimately have "s = (u @ v) @ t" "lang (LStar r) (u @ v)" by (simp_all add: lang.LStar1)
    then show ?thesis by blast
  qed
next
  case (7 n r s)
  then obtain c1 where "(t, c1) \<in> set (mtch r s)" by auto
  from "7.IH" [OF this] show ?case using lang.Grp by blast
qed (auto intro: lang.Eps lang.Cls lang.Eol split: list.splits if_splits)

section \<open>Fields\<close>

text \<open>A regular expression that no string starting with a character of the class matches.\<close>

definition rejects :: "regex \<Rightarrow> (char \<Rightarrow> bool) \<Rightarrow> bool" where
  "rejects r P \<longleftrightarrow> (\<forall>c s. P c \<longrightarrow> mtch r (c # s) = [])"

lemma rejectsD: "rejects r P \<Longrightarrow> P c \<Longrightarrow> mtch r (c # s) = []"
  by (simp add: rejects_def)

lemma rejects_Cls: "(\<And>c. P c \<Longrightarrow> \<not> Q c) \<Longrightarrow> rejects (Cls Q) P"
  by (simp add: rejects_def)

lemma rejects_Seq: "rejects r P \<Longrightarrow> rejects (Seq r q) P"
  by (simp add: rejects_def)

lemma rejects_Grp: "rejects r P \<Longrightarrow> rejects (Grp n r) P"
  by (simp add: rejects_def)

lemmas rejects_intros = rejects_Cls rejects_Seq rejects_Grp

lemma Seq_assoc: "mtch (Seq (Seq a b) r) s = mtch (Seq a (Seq b r)) s"
proof -
  have "mtch (Seq b r) = (\<lambda>t. seqm (mtch b t) (mtch r))" by (rule ext) simp
  then show ?thesis by (simp add: seqm_assoc)
qed

lemma mtch_Star_Cls:
  "mtch (Star (Cls P)) [] = [([], [])]"
  "mtch (Star (Cls P)) (c # cs) =
     (if P c then mtch (Star (Cls P)) cs @ [(c # cs, [])] else [(c # cs, [])])"
  by (simp_all add: mtch.simps(5) [of _ "[]"] mtch.simps(5) [of _ "c # cs"] progress_def)

lemma mtch_LStar_Cls:
  "mtch (LStar (Cls P)) [] = [([], [])]"
  "mtch (LStar (Cls P)) (c # cs) =
     (c # cs, []) # (if P c then mtch (LStar (Cls P)) cs else [])"
  by (simp_all add: mtch.simps(6) [of _ "[]"] mtch.simps(6) [of _ "c # cs"] progress_def)

lemma Star_field: "rejects r P \<Longrightarrow> mtch (Seq (Star (Cls P)) r) s = mtch r (dropWhile P s)"
  by (induction s) (simp_all add: mtch_Star_Cls rejects_def)

lemma LStar_field: "rejects r P \<Longrightarrow> mtch (Seq (LStar (Cls P)) r) s = mtch r (dropWhile P s)"
  by (induction s) (simp_all add: mtch_LStar_Cls rejects_def)

lemma Plus_field:
  assumes "rejects r P"
  shows "mtch (Seq (Plus (Cls P)) r) s = (if s \<noteq> [] \<and> P (hd s) then mtch r (dropWhile P s) else [])"
  using Star_field [OF assms] unfolding Seq_assoc by (cases s) simp_all

lemma LPlus_field:
  assumes "rejects r P"
  shows "mtch (Seq (LPlus (Cls P)) r) s = (if s \<noteq> [] \<and> P (hd s) then mtch r (dropWhile P s) else [])"
  using LStar_field [OF assms] unfolding Seq_assoc by (cases s) simp_all

text \<open>The same inside a group: the capture is the longest run of the class.\<close>

lemma group_seq:
  "mtch (Seq (Grp n a) r) s =
     seqm (map (\<lambda>(s1, c1). (s1, c1 @ [(n, take (length s - length s1) s)])) (mtch a s)) (mtch r)"
  by simp

lemma seqm_Star_Cls:
  assumes "rejects r P"
  shows "seqm (map (\<lambda>(s1, c1). (s1, c1 @ [(n, f s1)])) (mtch (Star (Cls P)) s)) (mtch r)
    = before [(n, f (dropWhile P s))] (mtch r (dropWhile P s))"
  using assms by (induction s) (simp_all add: mtch_Star_Cls rejects_def)

lemma seqm_LStar_Cls:
  assumes "rejects r P"
  shows "seqm (map (\<lambda>(s1, c1). (s1, c1 @ [(n, f s1)])) (mtch (LStar (Cls P)) s)) (mtch r)
    = before [(n, f (dropWhile P s))] (mtch r (dropWhile P s))"
  using assms by (induction s) (simp_all add: mtch_LStar_Cls rejects_def)

lemma take_dropWhile: "take (length s - length (dropWhile P s)) s = takeWhile P s"
  by (metis append_take_drop_id append_eq_append_conv diff_diff_cancel length_drop
      length_dropWhile_le takeWhile_dropWhile_id)

lemma group_Star_field:
  assumes "rejects r P"
  shows "mtch (Seq (Grp n (Star (Cls P))) r) s = before [(n, takeWhile P s)] (mtch r (dropWhile P s))"
  using seqm_Star_Cls [OF assms, of n "\<lambda>t. take (length s - length t) s" s]
  by (simp add: take_dropWhile)

lemma group_LStar_field:
  assumes "rejects r P"
  shows "mtch (Seq (Grp n (LStar (Cls P))) r) s = before [(n, takeWhile P s)] (mtch r (dropWhile P s))"
  using seqm_LStar_Cls [OF assms, of n "\<lambda>t. take (length s - length t) s" s]
  by (simp add: take_dropWhile)

lemma take_dropWhile_Cons:
  "P c \<Longrightarrow> take (Suc (length s) - length (dropWhile P s)) (c # s) = c # takeWhile P s"
  using take_dropWhile [of "c # s" P] by simp

lemma group_Plus_field:
  assumes "rejects r P"
  shows "mtch (Seq (Grp n (Plus (Cls P))) r) s =
    (if s \<noteq> [] \<and> P (hd s) then before [(n, takeWhile P s)] (mtch r (dropWhile P s)) else [])"
proof (cases s)
  case Nil
  then show ?thesis by simp
next
  case (Cons c cs)
  then show ?thesis
    using seqm_Star_Cls [OF assms, of n "\<lambda>t. take (Suc (length cs) - length t) (c # cs)" cs]
    by (simp add: take_dropWhile_Cons)
qed

lemma group_LPlus_field:
  assumes "rejects r P"
  shows "mtch (Seq (Grp n (LPlus (Cls P))) r) s =
    (if s \<noteq> [] \<and> P (hd s) then before [(n, takeWhile P s)] (mtch r (dropWhile P s)) else [])"
proof (cases s)
  case Nil
  then show ?thesis by simp
next
  case (Cons c cs)
  then show ?thesis
    using seqm_LStar_Cls [OF assms, of n "\<lambda>t. take (Suc (length cs) - length t) (c # cs)" cs]
    by (simp add: take_dropWhile_Cons)
qed

lemmas field_simps =
  Star_field LStar_field Plus_field LPlus_field
  group_Star_field group_LStar_field group_Plus_field group_LPlus_field

section \<open>First matches\<close>

lemma mtch_Star_Cls_hd:
  "mtch (Star (Cls P)) s \<noteq> [] \<and> hd (mtch (Star (Cls P)) s) = (dropWhile P s, [])"
  by (induction s) (auto simp: mtch_Star_Cls)

lemma hd_before: "ms \<noteq> [] \<Longrightarrow> hd (before c ms) = (fst (hd ms), c @ snd (hd ms))"
  by (cases ms) (auto simp: before_def split_def)

lemma before_Nil_iff [simp]: "before c ms = [] \<longleftrightarrow> ms = []"
  by (simp add: before_def)

lemma hd_seqm:
  "ms \<noteq> [] \<Longrightarrow> k (fst (hd ms)) \<noteq> [] \<Longrightarrow>
   seqm ms k \<noteq> [] \<and> hd (seqm ms k) = (fst (hd (k (fst (hd ms)))), snd (hd ms) @ snd (hd (k (fst (hd ms)))))"
  by (cases ms; cases "hd ms") (auto simp: hd_before)

lemma runs:
  assumes "list_all P u" "u \<noteq> []" "s \<noteq> [] \<Longrightarrow> \<not> P (hd s)"
  shows "u @ s \<noteq> [] \<and> P (hd (u @ s))" "dropWhile P (u @ s) = s" "takeWhile P (u @ s) = u"
proof -
  have "dropWhile P s = s \<and> takeWhile P s = []" using assms(3) by (cases s) auto
  then show "dropWhile P (u @ s) = s" "takeWhile P (u @ s) = u"
    using assms(1) by (auto simp: list_all_iff)
  show "u @ s \<noteq> [] \<and> P (hd (u @ s))" using assms(1,2) by (cases u) auto
qed


definition class_then :: "(char \<Rightarrow> bool) \<Rightarrow> string \<Rightarrow> bool" where
  "class_then P s \<longleftrightarrow> s = [] \<or> \<not> P (hd s)"

lemma field_run:
  assumes "list_all P u" "u \<noteq> []" "class_then P s" "rejects r P"
  shows "mtch (Seq (Plus (Cls P)) r) (u @ s) = mtch r s"
    and "mtch (Seq (Grp n (Plus (Cls P))) r) (u @ s) = before [(n, u)] (mtch r s)"
proof -
  have "s \<noteq> [] \<Longrightarrow> \<not> P (hd s)" using assms(3) by (simp add: class_then_def)
  note run = runs [OF assms(1,2) this]
  show "mtch (Seq (Plus (Cls P)) r) (u @ s) = mtch r s"
    using run by (simp only: Plus_field [OF assms(4)]) simp
  show "mtch (Seq (Grp n (Plus (Cls P))) r) (u @ s) = before [(n, u)] (mtch r s)"
    using run by (simp only: group_Plus_field [OF assms(4)]) simp
qed

lemma Plus_hd:
  assumes "list_all P u" "u \<noteq> []" "class_then P s"
  shows "mtch (Plus (Cls P)) (u @ s) \<noteq> [] \<and> hd (mtch (Plus (Cls P)) (u @ s)) = (s, [])"
proof -
  have "s \<noteq> [] \<Longrightarrow> \<not> P (hd s)" using assms(3) by (simp add: class_then_def)
  note run = runs [OF assms(1,2) this]
  obtain c cs where u: "u = c # cs" using assms(2) by (cases u) auto
  with assms(1) have "P c" by simp
  have d: "dropWhile P (cs @ s) = s" using run(2) u \<open>P c\<close> by simp
  show ?thesis using mtch_Star_Cls_hd [of P "cs @ s"] u \<open>P c\<close> d by simp
qed

definition run_of :: "(char \<Rightarrow> bool) \<Rightarrow> string \<Rightarrow> bool" where
  "run_of P s \<longleftrightarrow> s \<noteq> [] \<and> list_all P s"

lemma class_then_run: "run_of Q u \<Longrightarrow> (\<And>c. Q c \<Longrightarrow> \<not> P c) \<Longrightarrow> class_then P (u @ s)"
  by (cases u) (auto simp: run_of_def class_then_def)

lemma re_match_before:
  "mtch r s = before c (mtch q t) \<Longrightarrow> re_match r s = map_option (\<lambda>d. c @ d) (re_match q t)"
  by (cases "mtch q t") (auto simp: re_match_def)

lemma re_match_field:
  assumes "run_of P u" "class_then P s" "rejects r P"
  shows "re_match (Seq (Plus (Cls P)) r) (u @ s) = re_match r s"
    and "re_match (Seq (Grp n (Plus (Cls P))) r) (u @ s) = map_option (\<lambda>d. (n, u) # d) (re_match r s)"
  using field_run [of P u s r, OF _ _ assms(2,3)] assms(1)
    re_match_before [of "Seq (Grp n (Plus (Cls P))) r" "u @ s" "[(n, u)]" r s]
  by (simp_all add: run_of_def re_match_def)

lemma re_match_skip:
  assumes "list_all P u" "class_then P s" "rejects r P"
  shows "re_match (Seq (Star (Cls P)) r) (u @ s) = re_match r s"
proof -
  have "dropWhile P (u @ s) = s"
    using assms(1,2) by (cases s) (auto simp: class_then_def list_all_iff dropWhile_append)
  then show ?thesis by (simp only: re_match_def Star_field [OF assms(3)])
qed

text \<open>The pieces of a pattern against the pieces of a line, for the first match.\<close>

lemma re_match_assoc: "re_match (Seq (Seq a b) r) s = re_match (Seq a (Seq b r)) s"
  by (simp only: re_match_def Seq_assoc)

lemma Str_Cons: "s \<noteq> [] \<Longrightarrow> Str (c # s) = Seq (Cls (\<lambda>x. x = c)) (Str s)"
  by (cases s) (simp_all add: Str_def)

lemma mtch_Str: "mtch (Seq (Str s) r) (s @ t) = mtch r t"
proof (induction s)
  case Nil
  then show ?case by (simp add: Str_def)
next
  case (Cons c s)
  show ?case
  proof (cases "s = []")
    case True
    then show ?thesis by (simp add: Str_def)
  next
    case False
    then show ?thesis using Cons by (simp add: Str_Cons Seq_assoc [simplified])
  qed
qed

lemma re_match_Str: "re_match (Seq (Str s) r) (s @ t) = re_match r t"
  by (simp only: re_match_def mtch_Str)

lemma mtch_Str_other: "s \<noteq> [] \<Longrightarrow> c \<noteq> hd s \<Longrightarrow> mtch (Seq (Str s) r) (c # t) = []"
  by (cases s; cases "tl s") (simp_all add: Str_def)

lemma rejects_Str: "s \<noteq> [] \<Longrightarrow> \<not> P (hd s) \<Longrightarrow> rejects (Seq (Str s) r) P"
  unfolding rejects_def using mtch_Str_other by metis

text \<open>Lazy repetition: skip the characters at which the continuation cannot match.\<close>

lemma lazy_skip:
  assumes "list_all P u" "list_all (\<lambda>c. \<forall>s. mtch r (c # s) = []) u"
  shows "seqm (map (\<lambda>(s1, c1). (s1, c1 @ [(n, f s1)])) (mtch (LStar (Cls P)) (u @ t))) (mtch r)
    = seqm (map (\<lambda>(s1, c1). (s1, c1 @ [(n, f s1)])) (mtch (LStar (Cls P)) t)) (mtch r)"
  using assms by (induction u) (simp_all add: mtch_LStar_Cls)

lemma LStar_Cls_Cons: "\<exists>ms. mtch (LStar (Cls P)) t = (t, []) # ms"
  by (cases t) (simp_all add: mtch_LStar_Cls)

lemma re_match_lazy:
  assumes "list_all P u" "list_all (\<lambda>c. \<forall>s. mtch r (c # s) = []) u" "re_match r t = Some d"
  shows "re_match (Seq (Grp n (LStar (Cls P))) r) (u @ t) = Some ((n, u) # d)"
proof -
  let ?f = "\<lambda>s1. take (length (u @ t) - length s1) (u @ t)"
  obtain ms where ms: "mtch (LStar (Cls P)) t = (t, []) # ms" using LStar_Cls_Cons by blast
  have "mtch (Seq (Grp n (LStar (Cls P))) r) (u @ t)
      = seqm (map (\<lambda>(s1, c1). (s1, c1 @ [(n, ?f s1)])) (mtch (LStar (Cls P)) (u @ t))) (mtch r)"
    by simp
  also have "\<dots> = seqm (map (\<lambda>(s1, c1). (s1, c1 @ [(n, ?f s1)])) (mtch (LStar (Cls P)) t)) (mtch r)"
    by (rule lazy_skip [OF assms(1,2)])
  finally show ?thesis using assms(3)
    by (cases "mtch r t") (auto simp: re_match_def ms)
qed

text \<open>Greedy repetition: the longest run first.\<close>

lemma re_match_greedy:
  assumes "run_of P u" "class_then P s" "re_match r s = Some d"
  shows "re_match (Seq (Plus (Cls P)) r) (u @ s) = Some d"
proof -
  have hd: "mtch (Plus (Cls P)) (u @ s) \<noteq> []" "hd (mtch (Plus (Cls P)) (u @ s)) = (s, [])"
    using Plus_hd [of P u s] assms(1,2) by (simp_all add: run_of_def)
  have "mtch r s \<noteq> []" "snd (hd (mtch r s)) = d"
    using assms(3) by (auto simp: re_match_def split: list.splits)
  then have "seqm (mtch (Plus (Cls P)) (u @ s)) (mtch r) \<noteq> []"
    "snd (hd (seqm (mtch (Plus (Cls P)) (u @ s)) (mtch r))) = d"
    using hd_seqm [OF hd(1), of "mtch r"] hd(2) by simp_all
  moreover have "mtch (Seq (Plus (Cls P)) r) (u @ s) = seqm (mtch (Plus (Cls P)) (u @ s)) (mtch r)"
    by (rule mtch.simps(3))
  ultimately show ?thesis unfolding re_match_def by (metis list.case_eq_if list.sel(1))
qed

lemma re_match_greedy_group:
  assumes "run_of P u" "class_then P s" "re_match r s = Some d"
  shows "re_match (Seq (Grp n (Plus (Cls P))) r) (u @ s) = Some ((n, u) # d)"
proof -
  have hd: "mtch (Plus (Cls P)) (u @ s) \<noteq> []" "hd (mtch (Plus (Cls P)) (u @ s)) = (s, [])"
    using Plus_hd [of P u s] assms(1,2) by (simp_all add: run_of_def)
  have g: "mtch (Grp n (Plus (Cls P))) (u @ s) \<noteq> []" "hd (mtch (Grp n (Plus (Cls P))) (u @ s)) = (s, [(n, u)])"
    using hd unfolding mtch.simps(7) by (simp_all add: hd_map del: mtch.simps)
  have "mtch r s \<noteq> []" "snd (hd (mtch r s)) = d"
    using assms(3) by (auto simp: re_match_def split: list.splits)
  then show ?thesis
    using hd_seqm [OF g(1), of "mtch r"] g(2)
    by (cases "seqm (mtch (Grp n (Plus (Cls P))) (u @ s)) (mtch r)") (auto simp: re_match_def simp del: mtch.simps(7))
qed

lemma re_match_opt:
  "re_match (Seq (Opt a) r) s = (case re_match (Seq a r) s of Some d \<Rightarrow> Some d | None \<Rightarrow> re_match r s)"
  by (cases "mtch (Seq a r) s") (simp_all add: re_match_def)

lemma re_match_lazy_field:
  assumes "run_of P u" "class_then P s" "rejects r P"
  shows "re_match (Seq (Grp n (LPlus (Cls P))) r) (u @ s) = map_option (\<lambda>d. (n, u) # d) (re_match r s)"
proof -
  have "s \<noteq> [] \<Longrightarrow> \<not> P (hd s)" using assms(2) by (simp add: class_then_def)
  with assms(1) have run: "u @ s \<noteq> [] \<and> P (hd (u @ s))" "dropWhile P (u @ s) = s" "takeWhile P (u @ s) = u"
    using runs [of P u s] by (simp_all add: run_of_def)
  then have "mtch (Seq (Grp n (LPlus (Cls P))) r) (u @ s) = before [(n, u)] (mtch r s)"
    by (simp only: group_LPlus_field [OF assms(3)]) simp
  from re_match_before [OF this] show ?thesis by simp
qed

text \<open>A printed natural number is a run of digits.\<close>

lemma digit_str: "0 \<le> n \<Longrightarrow> run_of is_digit (str_int n)"
proof -
  assume n: "0 \<le> n"
  have digits: "\<forall>d\<in>set [0..<10]. is_digit (digit_char d)" by code_simp
  have "is_digit c" if "c \<in> set (nat_str 10 (nat n))" for c
  proof -
    from that obtain d where "d \<in> set (nat_digits 10 (nat n))" "c = digit_char d"
      by (auto simp: nat_str_def)
    with nat_digits_less [of 10 d "nat n"] digits show ?thesis by simp
  qed
  with n show ?thesis by (simp add: run_of_def str_int_def list_all_iff)
qed

section \<open>Completeness\<close>

fun no_eol :: "regex \<Rightarrow> bool" where
  "no_eol (Seq r q) = (no_eol r \<and> no_eol q)"
| "no_eol (Alt r q) = (no_eol r \<and> no_eol q)"
| "no_eol (Star r) = no_eol r"
| "no_eol (LStar r) = no_eol r"
| "no_eol (Grp n r) = no_eol r"
| "no_eol Eol = False"
| "no_eol r = True"

lemma mtch_complete:
  "lang r w \<Longrightarrow> no_eol r \<Longrightarrow> \<exists>c. (t, c) \<in> set (mtch r (w @ t))"
proof (induction arbitrary: t rule: lang.induct)
  case (Seq r1 u r2 v)
  from Seq.IH(1) [of "v @ t"] Seq.prems obtain c1 where 1: "(v @ t, c1) \<in> set (mtch r1 (u @ v @ t))" by auto
  from Seq.IH(2) [of t] Seq.prems obtain c2 where 2: "(t, c2) \<in> set (mtch r2 (v @ t))" by auto
  from 1 2 have "\<exists>c. (t, c) \<in> set (seqm (mtch r1 (u @ v @ t)) (mtch r2))"
    unfolding in_seqm by blast
  then show ?case by simp
next
  case (Star0 r)
  then show ?case by (auto simp: mtch.simps(5) [of r t])
next
  case (Star1 r u v)
  show ?case
  proof (cases "u = []")
    case True
    with Star1.IH(2) [of t] Star1.prems show ?thesis by simp
  next
    case False
    from Star1.IH(1) [of "v @ t"] Star1.prems obtain c1 where 1: "(v @ t, c1) \<in> set (mtch r (u @ v @ t))" by auto
    from Star1.IH(2) [of t] Star1.prems obtain c2 where 2: "(t, c2) \<in> set (mtch (Star r) (v @ t))" by auto
    from 1 False have "(v @ t, c1) \<in> set (progress (u @ v @ t) (mtch r (u @ v @ t)))"
      by (simp add: in_progress)
    with 2 have "\<exists>c. (t, c) \<in> set (seqm (progress (u @ v @ t) (mtch r (u @ v @ t))) (mtch (Star r)))"
      unfolding in_seqm by blast
    then show ?thesis by (auto simp: mtch.simps(5) [of r "u @ v @ t"])
  qed
next
  case (LStar0 r)
  then show ?case by (auto simp: mtch.simps(6) [of r t])
next
  case (LStar1 r u v)
  show ?case
  proof (cases "u = []")
    case True
    with LStar1.IH(2) [of t] LStar1.prems show ?thesis by simp
  next
    case False
    from LStar1.IH(1) [of "v @ t"] LStar1.prems obtain c1 where 1: "(v @ t, c1) \<in> set (mtch r (u @ v @ t))" by auto
    from LStar1.IH(2) [of t] LStar1.prems obtain c2 where 2: "(t, c2) \<in> set (mtch (LStar r) (v @ t))" by auto
    from 1 False have "(v @ t, c1) \<in> set (progress (u @ v @ t) (mtch r (u @ v @ t)))"
      by (simp add: in_progress)
    with 2 have "\<exists>c. (t, c) \<in> set (seqm (progress (u @ v @ t) (mtch r (u @ v @ t))) (mtch (LStar r)))"
      unfolding in_seqm by blast
    then show ?thesis by (auto simp: mtch.simps(6) [of r "u @ v @ t"])
  qed
next
  case (Grp r u n)
  from Grp.IH [of t] Grp.prems obtain c where "(t, c) \<in> set (mtch r (u @ t))" by auto
  then show ?case by force
qed force+

lemma re_match_lang: "lang r w \<Longrightarrow> no_eol r \<Longrightarrow> re_match r (w @ t) \<noteq> None"
  using mtch_complete [of r w t] by (cases "mtch r (w @ t)") (auto simp: re_match_def)

lemma lang_Str: "lang (Str s) s"
proof (induction s)
  case Nil
  then show ?case by (simp add: Str_def lang.Eps)
next
  case (Cons c s)
  show ?case
  proof (cases "s = []")
    case True
    then show ?thesis by (simp add: Str_def lang.Cls)
  next
    case False
    then show ?thesis using Cons lang.Seq [of "Cls (\<lambda>x. x = c)" "[c]" "Str s" s]
      by (simp add: Str_Cons lang.Cls)
  qed
qed

lemma lang_Star_Cls: "list_all P s \<Longrightarrow> lang (Star (Cls P)) s"
proof (induction s)
  case Nil
  then show ?case by (simp add: lang.Star0)
next
  case (Cons c s)
  then show ?case using lang.Star1 [of "Cls P" "[c]" s] by (simp add: lang.Cls)
qed

section \<open>First matches of sequences, and no match\<close>

lemma mtch_Str1: "mtch (Seq (Str [c]) r) (x # s) = (if x = c then mtch r s else [])"
  by (simp add: Str_def)

lemma group_hd:
  assumes "mtch r (u @ s) \<noteq> [] \<and> hd (mtch r (u @ s)) = (s, [])"
  shows "mtch (Grp n r) (u @ s) \<noteq> [] \<and> hd (mtch (Grp n r) (u @ s)) = (s, [(n, u)])"
  using assms by (cases "mtch r (u @ s)") auto

lemma Seq_hd:
  assumes "mtch r s \<noteq> [] \<and> hd (mtch r s) = (t, c)" "mtch q t \<noteq> [] \<and> hd (mtch q t) = (v, d)"
  shows "mtch (Seq r q) s \<noteq> [] \<and> hd (mtch (Seq r q) s) = (v, c @ d)"
  using hd_seqm [of "mtch r s" "mtch q"] assms by simp

lemma re_match_hd: "mtch r s \<noteq> [] \<and> hd (mtch r s) = (t, c) \<Longrightarrow> re_match r s = Some c"
  by (cases "mtch r s") (auto simp: re_match_def)

lemma search_none:
  assumes "\<And>w. lang r w \<Longrightarrow> x \<in> set w" and "x \<notin> set s"
  shows "re_search r s = None"
proof -
  have none: "mtch r v = []" if "x \<notin> set v" for v
  proof (rule ccontr)
    assume "mtch r v \<noteq> []"
    then obtain t c where "(t, c) \<in> set (mtch r v)" by (cases "mtch r v") auto
    from mtch_sound [OF this] obtain w where "v = w @ t" "lang r w" by blast
    with assms(1) [of w] that show False by simp
  qed
  from assms(2) show ?thesis by (induction s) (simp_all add: re_match_def none)
qed

lemma lang_Str_set: "lang (Str [c]) w \<Longrightarrow> c \<in> set w"
  by (auto simp: Str_def elim: lang.cases)

end
