(* ===== verification/Trace_Lib.thy ===== *)
theory Trace_Lib
  imports Regex "HOL-Library.Word"
begin

text \<open>
  The parts of riscv-dv's \<^verbatim>\<open>scripts/lib.py\<close> and \<^verbatim>\<open>scripts/riscv_trace_csv.py\<close> that the trace
  converters share: register names, signed immediates as 32-bit hexadecimal, the expansion of
  pseudo-instructions, trace entries and the CSV files that hold them.  The writer and reader
  of the standard library's \<open>csv\<close> module are modelled in their default dialect (comma, double
  quotes, minimal quoting) for one record per line.
\<close>

section \<open>Registers and immediates\<close>

definition abi_table :: "(string, string) dict" where
  "abi_table =
     [(''x0'', ''zero''), (''x1'', ''ra''), (''x2'', ''sp''), (''x3'', ''gp''),
      (''x4'', ''tp''), (''x5'', ''t0''), (''x6'', ''t1''), (''x7'', ''t2''),
      (''x8'', ''s0''), (''x9'', ''s1''), (''x10'', ''a0''), (''x11'', ''a1''),
      (''x12'', ''a2''), (''x13'', ''a3''), (''x14'', ''a4''), (''x15'', ''a5''),
      (''x16'', ''a6''), (''x17'', ''a7''), (''x18'', ''s2''), (''x19'', ''s3''),
      (''x20'', ''s4''), (''x21'', ''s5''), (''x22'', ''s6''), (''x23'', ''s7''),
      (''x24'', ''s8''), (''x25'', ''s9''), (''x26'', ''s10''), (''x27'', ''s11''),
      (''x28'', ''t3''), (''x29'', ''t4''), (''x30'', ''t5''), (''x31'', ''t6''),
      (''f0'', ''ft0''), (''f1'', ''ft1''), (''f2'', ''ft2''), (''f3'', ''ft3''),
      (''f4'', ''ft4''), (''f5'', ''ft5''), (''f6'', ''ft6''), (''f7'', ''ft7''),
      (''f8'', ''fs0''), (''f9'', ''fs1''), (''f10'', ''fa0''), (''f11'', ''fa1''),
      (''f12'', ''fa2''), (''f13'', ''fa3''), (''f14'', ''fa4''), (''f15'', ''fa5''),
      (''f16'', ''fa6''), (''f17'', ''fa7''), (''f18'', ''fs2''), (''f19'', ''fs3''),
      (''f20'', ''fs4''), (''f21'', ''fs5''), (''f22'', ''fs6''), (''f23'', ''fs7''),
      (''f24'', ''fs8''), (''f25'', ''fs9''), (''f26'', ''fs10''), (''f27'', ''fs11''),
      (''f28'', ''ft8''), (''f29'', ''ft9''), (''f30'', ''ft10''), (''f31'', ''ft11'')]"

definition gpr_to_abi :: "string \<Rightarrow> string" where
  "gpr_to_abi gpr = dict_get abi_table gpr ''na''"

definition sint_to_hex :: "int \<Rightarrow> string" where
  "sint_to_hex val = py_hex ((val + 2 ^ 32) mod 2 ^ 32)"

definition get_imm_hex_val :: "string \<Rightarrow> string res" where
  "get_imm_hex_val imm =
     (case imm of
        [] \<Rightarrow> Inl IndexError
      | c # cs \<Rightarrow>
          let is_negative = (c = CHR ''-'')
          in bind_res (py_int 0 (if is_negative then cs else imm)) (\<lambda>imm_val.
             Inr (drop 2 (sint_to_hex (if is_negative then - imm_val else imm_val)))))"

section \<open>Pseudo-instructions\<close>

definition nth_res :: "'a list \<Rightarrow> nat \<Rightarrow> 'a res" where
  "nth_res xs i = (if i < length xs then Inr (xs ! i) else Inl IndexError)"

definition alnum_lower :: "char \<Rightarrow> bool" where
  "alnum_lower c \<longleftrightarrow> c \<in> set ''abcdefghijklmnopqrstuvwxyz0123456789''"

definition imm_char :: "char \<Rightarrow> bool" where
  "imm_char c \<longleftrightarrow> c \<in> set ''-0123456789''"

definition BASE_RE :: regex where
  "BASE_RE = Seqs [Grp ''rd'' (LPlus (Cls alnum_lower)), Str '','',
     Grp ''imm'' (LStar (Cls imm_char)), Str ''('',
     Grp ''rs1'' (LPlus (Cls alnum_lower)), Str '')'']"

text \<open>\<open>o = operands.split(","); o[i] + sep + o[j] ...\<close>\<close>

definition swap_operands :: "string \<Rightarrow> (nat + string) list \<Rightarrow> string res" where
  "swap_operands operands parts =
     (let ops = split_on (CHR '','') operands
      in bind_res (map_res (\<lambda>p. case p of Inl i \<Rightarrow> nth_res ops i | Inr s \<Rightarrow> Inr s) parts)
           (\<lambda>ws. Inr (concat ws)))"

definition jalr_operands :: "string \<Rightarrow> string" where
  "jalr_operands operands =
     (let operands = (case re_search BASE_RE operands of
            Some m \<Rightarrow> group_str m ''rd'' @ '','' @ group_str m ''rs1'' @ '','' @ group_str m ''imm''
          | None \<Rightarrow> operands)
      in if rfind_char (CHR '','') operands = None then ''ra,'' @ operands @ '',0'' else operands)"

text \<open>The instructions of the base ISA; \<open>None\<close> when no branch of the chain applies.\<close>

definition convert_base :: "string \<Rightarrow> string \<Rightarrow> string \<Rightarrow> (string \<times> string) res option" where
  "convert_base i ops binary =
     (let keep = (\<lambda>n s. Some (Inr (n, s)));
          zero2 = (\<lambda>n. Some (bind_res (swap_operands ops [Inl 0, Inr '',zero,'', Inl 1]) (\<lambda>s. Inr (n, s))));
          swap3 = (\<lambda>n. Some (bind_res (swap_operands ops [Inl 1, Inr '','', Inl 0, Inr '','', Inl 2])
                     (\<lambda>s. Inr (n, s))))
      in if i = ''nop'' then keep ''addi'' ''zero,zero,0''
         else if i = ''mv'' then keep ''addi'' (ops @ '',0'')
         else if i = ''not'' then keep ''xori'' (ops @ '',-1'')
         else if i = ''neg'' then zero2 ''sub''
         else if i = ''negw'' then zero2 ''subw''
         else if i = ''sext.w'' then keep ''addiw'' (ops @ '',0'')
         else if i = ''seqz'' then keep ''sltiu'' (ops @ '',1'')
         else if i = ''snez'' then zero2 ''sltu''
         else if i = ''sltz'' then keep ''slt'' (ops @ '',zero'')
         else if i = ''sgtz'' then zero2 ''slt''
         else if i \<in> set [''beqz'', ''bnez'', ''bgez'', ''bltz''] then zero2 (take 3 i)
         else if i = ''blez'' then keep ''bge'' (''zero,'' @ ops)
         else if i = ''bgtz'' then keep ''blt'' (''zero,'' @ ops)
         else if i = ''bgt'' then swap3 ''blt''
         else if i = ''ble'' then swap3 ''bge''
         else if i = ''bgtu'' then swap3 ''bltu''
         else if i = ''bleu'' then swap3 ''bgeu''
         else if i = ''csrr'' then keep ''csrrw'' (ops @ '',zero'')
         else if i \<in> set [''csrw'', ''csrs'', ''csrc''] then keep (''csrr'' @ drop 3 i) (''zero,'' @ ops)
         else if i \<in> set [''csrwi'', ''csrsi'', ''csrci''] then keep (''csrr'' @ drop 3 i) (''zero,'' @ ops)
         else if i = ''jr'' then keep ''jalr'' (''zero,'' @ ops @ '',0'')
         else if i = ''j'' then keep ''jal'' (''zero,'' @ ops)
         else if i = ''jal'' then keep ''jal'' (if \<not> py_in '','' ops then ''ra,'' @ ops else ops)
         else if i = ''jalr'' then keep ''jalr'' (jalr_operands ops)
         else if i = ''ret'' then
           (if binary = [] then Some (Inl IndexError)
            else if last binary = CHR ''2'' then keep ''c.jr'' ''ra''
            else keep ''jalr'' ''zero,ra,0'')
         else None)"

text \<open>The bit-manipulation instructions: the new name and the suffix of the operands.\<close>

definition bitmanip_table :: "(string, string \<times> string) dict" where
  "bitmanip_table =
     [(''rev.p'', ''grevi'', '',1''), (''rev2.n'', ''grevi'', '',2''), (''rev.n'', ''grevi'', '',3''),
      (''rev4.b'', ''grevi'', '',4''), (''rev2.b'', ''grevi'', '',6''), (''rev.b'', ''grevi'', '',7''),
      (''rev8.h'', ''grevi'', '',8''), (''rev4.h'', ''grevi'', '',12''), (''rev2.h'', ''grevi'', '',14''),
      (''rev.h'', ''grevi'', '',15''), (''rev16'', ''grevi'', '',16''), (''rev8'', ''grevi'', '',24''),
      (''rev4'', ''grevi'', '',28''), (''rev2'', ''grevi'', '',30''), (''rev'', ''grevi'', '',31''),
      (''orc.p'', ''gorci'', '',1''), (''orc2.n'', ''gorci'', '',2''), (''orc.n'', ''gorci'', '',3''),
      (''orc4.b'', ''gorci'', '',4''), (''orc2.b'', ''gorci'', '',6''), (''orc.b'', ''gorci'', '',7''),
      (''orc8.h'', ''gorci'', '',8''), (''orc4.h'', ''gorci'', '',12''), (''orc2.h'', ''gorci'', '',14''),
      (''orc.h'', ''gorci'', '',15''), (''orc16'', ''gorci'', '',16''), (''orc8'', ''gorci'', '',24''),
      (''orc4'', ''gorci'', '',28''), (''orc2'', ''gorci'', '',30''), (''orc'', ''gorci'', '',31''),
      (''zext.b'', ''andi'', '',255''), (''zext.h'', ''pack'', '',zero''), (''zext.w'', ''pack'', '',zero''),
      (''sext.w'', ''addiw'', '',0''), (''zip.n'', ''shfli'', '',1''), (''unzip.n'', ''unshfli'', '',1''),
      (''zip2.b'', ''shfli'', '',2''), (''unzip2.b'', ''unshfli'', '',2''), (''zip.b'', ''shfli'', '',3''),
      (''unzip.b'', ''unshfli'', '',3''), (''zip4.h'', ''shfli'', '',4''), (''unzip4.h'', ''unshfli'', '',4''),
      (''zip2.h'', ''shfli'', '',6''), (''unzip2.h'', ''unshfli'', '',6''), (''zip.h'', ''shfli'', '',7''),
      (''unzip.h'', ''unshfli'', '',7''), (''zip8'', ''shfli'', '',8''), (''unzip8'', ''unshfli'', '',8''),
      (''zip4'', ''shfli'', '',12''), (''unzip4'', ''unshfli'', '',12''), (''zip2'', ''shfli'', '',14''),
      (''unzip2'', ''unshfli'', '',14''), (''zip'', ''shfli'', '',15''), (''unzip'', ''unshfli'', '',15'')]"

definition convert_pseudo_instr :: "string \<Rightarrow> string \<Rightarrow> string \<Rightarrow> (string \<times> string) res" where
  "convert_pseudo_instr instr_name operands binary =
     (case convert_base instr_name operands binary of
        Some r \<Rightarrow> r
      | None \<Rightarrow>
          (case map_of bitmanip_table instr_name of
             Some (n, sfx) \<Rightarrow> Inr (n, operands @ sfx)
           | None \<Rightarrow> Inr (instr_name, operands)))"

section \<open>Trace entries\<close>

record entry =
  gpr :: "string list"
  csr :: "string list"
  instr :: string
  operand :: string
  pc :: string
  binary :: string
  instr_str :: string
  mode :: string
  imm :: "string option"

definition new_entry :: entry where
  "new_entry = \<lparr>gpr = [], csr = [], instr = [], operand = [], pc = [], binary = [],
                instr_str = [], mode = [], imm = None\<rparr>"

definition get_trace_string :: "entry \<Rightarrow> string" where
  "get_trace_string e =
     ''pc['' @ pc e @ ''] '' @ instr_str e @ '': '' @ py_join '' '' (gpr e) @ '' '' @ py_join '' '' (csr e)"

section \<open>CSV\<close>

definition csv_special :: "char \<Rightarrow> bool" where
  "csv_special c \<longleftrightarrow> c \<in> set [CHR '','', CHR 0x22, CHR 0x0D, CHR 0x0A]"

definition csv_field :: "string \<Rightarrow> string" where
  "csv_field s =
     (if list_ex csv_special s
      then [CHR 0x22] @ concat (map (\<lambda>c. if c = CHR 0x22 then [CHR 0x22, CHR 0x22] else [c]) s) @ [CHR 0x22]
      else s)"

definition csv_row :: "string list \<Rightarrow> string" where
  "csv_row fs = py_join '','' (map csv_field fs)"

text \<open>
  The reader's states: at the start of a field, in an unquoted or a quoted field, after a quote
  inside a quoted field; with the text of the field so far.
\<close>

datatype csv_state = FieldStart | InField string | InQuoted string | QuoteSeen string

fun csv_go :: "csv_state \<Rightarrow> string \<Rightarrow> string list" where
  "csv_go FieldStart [] = [[]]"
| "csv_go (InField w) [] = [w]"
| "csv_go (InQuoted w) [] = [w]"
| "csv_go (QuoteSeen w) [] = [w]"
| "csv_go FieldStart (c # cs) =
     (if c = CHR 0x22 then csv_go (InQuoted []) cs
      else if c = CHR '','' then [] # csv_go FieldStart cs
      else csv_go (InField [c]) cs)"
| "csv_go (InField w) (c # cs) =
     (if c = CHR '','' then w # csv_go FieldStart cs else csv_go (InField (w @ [c])) cs)"
| "csv_go (InQuoted w) (c # cs) =
     (if c = CHR 0x22 then csv_go (QuoteSeen w) cs else csv_go (InQuoted (w @ [c])) cs)"
| "csv_go (QuoteSeen w) (c # cs) =
     (if c = CHR 0x22 then csv_go (InQuoted (w @ [c])) cs
      else if c = CHR '','' then w # csv_go FieldStart cs
      else csv_go (InField (w @ [c])) cs)"

definition csv_parse :: "string \<Rightarrow> string list" where
  "csv_parse line = (if line = [] then [] else csv_go FieldStart line)"

definition csv_fields :: "string list" where
  "csv_fields = [''pc'', ''instr'', ''gpr'', ''csr'', ''binary'', ''mode'', ''instr_str'', ''operand'', ''pad'']"

text \<open>\<open>start_new_trace\<close> and \<open>write_trace_entry\<close>: the lines, without their ends.\<close>

definition start_new_trace :: string where
  "start_new_trace = csv_row csv_fields"

definition write_trace_entry :: "entry \<Rightarrow> string" where
  "write_trace_entry e =
     csv_row [pc e, instr e, py_join '';'' (gpr e), py_join '';'' (csr e), binary e, mode e,
              instr_str e, operand e, []]"

text \<open>
  \<open>DictReader\<close> and \<open>read_trace\<close>: the first line names the columns, empty lines are skipped, a
  column that the header lacks is a \<open>KeyError\<close>.  A row shorter than the header leaves \<open>None\<close>
  in its last columns: \<open>split\<close> fails on it, and elsewhere it stands as the text it prints as.
\<close>

definition row_get :: "string list \<Rightarrow> string list \<Rightarrow> string \<Rightarrow> string option res" where
  "row_get names row k =
     (if k \<in> set names
      then Inr (case map_of (rev (zip names (map Some row @ replicate (length names - length row) None))) k of
                  Some v \<Rightarrow> v | None \<Rightarrow> None)
      else Inl (KeyError k))"

definition need_split :: "string option \<Rightarrow> string list res" where
  "need_split v = (case v of None \<Rightarrow> Inl (AttributeError ''split'') | Some s \<Rightarrow> Inr (split_on (CHR '';'') s))"

definition or_none :: "string option \<Rightarrow> string" where
  "or_none v = (case v of None \<Rightarrow> ''None'' | Some s \<Rightarrow> s)"

definition read_entry :: "string list \<Rightarrow> string list \<Rightarrow> entry res" where
  "read_entry names row =
     bind_res (bind_res (row_get names row ''gpr'') need_split) (\<lambda>g.
     bind_res (bind_res (row_get names row ''csr'') need_split) (\<lambda>c.
     bind_res (row_get names row ''pc'') (\<lambda>p.
     bind_res (row_get names row ''operand'') (\<lambda>ops.
     bind_res (row_get names row ''binary'') (\<lambda>b.
     bind_res (row_get names row ''instr_str'') (\<lambda>istr.
     bind_res (row_get names row ''instr'') (\<lambda>i.
     bind_res (row_get names row ''mode'') (\<lambda>m.
     Inr \<lparr>gpr = g, csr = c, instr = or_none i, operand = or_none ops, pc = or_none p,
          binary = or_none b, instr_str = or_none istr, mode = or_none m, imm = None\<rparr>))))))))"

definition read_trace :: "string list \<Rightarrow> entry list res" where
  "read_trace ls =
     (case map csv_parse ls of
        [] \<Rightarrow> Inr []
      | names # rows \<Rightarrow> map_res (read_entry names) (filter (\<lambda>row. row \<noteq> []) rows))"

text \<open>
  The text of a written file, whose records end in CR LF, and the lines that iterating over it
  in text mode gives (universal newlines); a record is a line as long as no field has a line
  break.
\<close>

definition csv_text :: "string list \<Rightarrow> string" where
  "csv_text ls = concat (map (\<lambda>l. l @ [CHR 0x0D, CHR 0x0A]) ls)"

fun universal_newlines :: "string \<Rightarrow> string" where
  "universal_newlines [] = []"
| "universal_newlines (c # s) =
     (if c = CHR 0x0D
      then CHR 0x0A # (case s of [] \<Rightarrow> [] | d # s' \<Rightarrow>
             if d = CHR 0x0A then universal_newlines s' else universal_newlines s)
      else c # universal_newlines s)"

definition text_lines :: "string \<Rightarrow> string list" where
  "text_lines s =
     (let ps = split_on (CHR 0x0A) (universal_newlines s)
      in if last ps = [] then butlast ps else ps)"

section \<open>Immediates are taken modulo the word size\<close>

text \<open>
  The hexadecimal text of a signed value reads back as its 32-bit two's complement
  pattern, for every value from \<open>-2^32\<close> up, in particular for every 32-bit signed value.
\<close>
theorem sint_to_hex_word:
  "py_int 16 (sint_to_hex val) = Inr (uint (word_of_int val :: 32 word))"
proof -
  have "(val + 2 ^ 32) mod 2 ^ 32 = val mod (2 ^ 32 :: int)" by simp
  moreover have "0 \<le> val mod (2 ^ 32 :: int)" by simp
  ultimately show ?thesis
    by (simp add: sint_to_hex_def int_hex uint_word_of_int del: power.simps)
qed

section \<open>The trace file round trip\<close>

lemma go_quoted_csv:
  "csv_go (InQuoted w) (concat (map (\<lambda>c. if c = CHR 0x22 then [CHR 0x22, CHR 0x22] else [c]) v) @ s)
     = csv_go (InQuoted (w @ v)) s"
  by (induction v arbitrary: w) auto

lemma go_plain_csv: "CHR '','' \<notin> set v \<Longrightarrow> csv_go (InField w) (v @ s) = csv_go (InField (w @ v)) s"
  by (induction v arbitrary: w) auto

lemma go_field_end: "csv_go FieldStart (csv_field v) = [v]"
proof (cases "list_ex csv_special v")
  case True
  then show ?thesis using go_quoted_csv [of "[]" v "[CHR 0x22]"] by (simp add: csv_field_def)
next
  case False
  then have plain: "CHR '','' \<notin> set v" "CHR 0x22 \<notin> set v" by (auto simp: list_ex_iff csv_special_def)
  show ?thesis
  proof (cases v)
    case Nil
    then show ?thesis by (simp add: csv_field_def)
  next
    case (Cons c cs)
    with plain False go_plain_csv [of cs "[c]" "[]"] show ?thesis by (auto simp: csv_field_def)
  qed
qed

lemma go_field_comma: "csv_go FieldStart (csv_field v @ CHR '','' # s) = v # csv_go FieldStart s"
proof (cases "list_ex csv_special v")
  case True
  then show ?thesis using go_quoted_csv [of "[]" v "CHR 0x22 # CHR '','' # s"]
    by (simp add: csv_field_def)
next
  case False
  then have plain: "CHR '','' \<notin> set v" "CHR 0x22 \<notin> set v" by (auto simp: list_ex_iff csv_special_def)
  show ?thesis
  proof (cases v)
    case Nil
    then show ?thesis by (simp add: csv_field_def)
  next
    case (Cons c cs)
    with plain False go_plain_csv [of cs "[c]" "CHR '','' # s"] show ?thesis by (auto simp: csv_field_def)
  qed
qed

lemma go_csv_row: "fs \<noteq> [] \<Longrightarrow> csv_go FieldStart (csv_row fs) = fs"
proof (induction fs)
  case Nil
  then show ?case by simp
next
  case (Cons f fs)
  then show ?case
    by (cases "fs = []") (simp_all add: csv_row_def go_field_end py_join_Cons go_field_comma)
qed

lemma csv_row_not_Nil: "2 \<le> length fs \<Longrightarrow> csv_row fs \<noteq> []"
  by (cases fs; cases "tl fs") (simp_all add: csv_row_def)

lemma csv_parse_row: "2 \<le> length fs \<Longrightarrow> csv_parse (csv_row fs) = fs"
  using csv_row_not_Nil [of fs] go_csv_row [of fs] by (cases fs) (auto simp: csv_parse_def)

text \<open>A list of updates as the file holds it: no separator inside an update, never empty.\<close>

definition updates_ok :: "string list \<Rightarrow> bool" where
  "updates_ok us \<longleftrightarrow> us \<noteq> [] \<and> list_all (\<lambda>u. CHR '';'' \<notin> set u) us"

lemma updates_split: "updates_ok us \<Longrightarrow> split_on (CHR '';'') (py_join '';'' us) = us"
  unfolding updates_ok_def by (intro split_on_join) (auto simp: list_all_iff)

lemma read_written_entry:
  assumes "updates_ok (gpr e)" "updates_ok (csr e)"
  shows "read_entry csv_fields (csv_parse (write_trace_entry e)) = Inr (e\<lparr>imm := None\<rparr>)"
proof -
  have "csv_parse (write_trace_entry e) =
      [pc e, instr e, py_join '';'' (gpr e), py_join '';'' (csr e), binary e, mode e, instr_str e, operand e, []]"
    unfolding write_trace_entry_def by (rule csv_parse_row) simp
  then show ?thesis
    by (simp add: read_entry_def row_get_def csv_fields_def need_split_def or_none_def
        updates_split [OF assms(1)] updates_split [OF assms(2)])
qed

text \<open>What an entry becomes in the file: an empty list of updates reads back as one empty update.\<close>

definition stored :: "entry \<Rightarrow> entry" where
  "stored e = e\<lparr>gpr := (if gpr e = [] then [[]] else gpr e),
               csr := (if csr e = [] then [[]] else csr e), imm := None\<rparr>"

lemma write_stored: "write_trace_entry (stored e) = write_trace_entry e"
  by (simp add: write_trace_entry_def stored_def)

definition single_line :: "string \<Rightarrow> bool" where
  "single_line s \<longleftrightarrow> CHR 0x0A \<notin> set s \<and> CHR 0x0D \<notin> set s"

lemma universal_plain: "single_line l \<Longrightarrow> universal_newlines (l @ s) = l @ universal_newlines s"
  by (induction l) (auto simp: single_line_def)

lemma split_lines:
  "list_all single_line ls \<Longrightarrow>
   split_on (CHR 0x0A) (universal_newlines (csv_text ls)) = ls @ [[]]"
proof (induction ls)
  case Nil
  then show ?case by (simp add: csv_text_def split_on_simps)
next
  case (Cons l ls)
  then have IH: "split_on (CHR 0x0A) (universal_newlines (csv_text ls)) = ls @ [[]]" by simp
  have "universal_newlines (csv_text (l # ls)) = l @ CHR 0x0A # universal_newlines (csv_text ls)"
    using Cons.prems by (simp add: csv_text_def universal_plain)
  moreover have "\<forall>x\<in>set l. x \<noteq> CHR 0x0A" using Cons.prems by (auto simp: single_line_def)
  ultimately show ?case
    using IH split_by_append_sep [of l "\<lambda>x. x = CHR 0x0A" "CHR 0x0A"] by (simp add: split_on_def)
qed

lemma text_lines_csv: "list_all single_line ls \<Longrightarrow> text_lines (csv_text ls) = ls"
  by (simp add: text_lines_def split_lines)


definition demo_entries :: "entry list" where
  "demo_entries =
     [new_entry\<lparr>pc := ''80000080'', instr := ''lui'', operand := ''ra,0x1'', gpr := [''ra:00001000'']\<rparr>,
      new_entry\<lparr>pc := ''80000084'', instr := ''fence''\<rparr>]"


end
