(* ===== verification/Ibex_Log.thy ===== *)
theory Ibex_Log
  imports Trace_Lib
begin

text \<open>
  \<^verbatim>\<open>dv/uvm/core_ibex/riscv_dv_extension/ibex_log_to_trace_csv.py\<close>: the log of an Ibex
  simulation becomes a trace file, and the UVM log of a test is searched for its result.  A log
  is the list of its lines, each with its line break.
\<close>

section \<open>Instruction lines\<close>

definition is_hex :: "char \<Rightarrow> bool" where
  "is_hex c \<longleftrightarrow> c \<in> set ''0123456789abcdef''"

definition non_ws :: "char \<Rightarrow> bool" where
  "non_ws c = (\<not> is_ws c)"

definition instr_part :: regex where
  "instr_part = Seq (Plus (Cls non_ws)) (Seq (Plus (Cls is_ws)) (Plus (Cls non_ws)))"

definition INSTR_RE :: regex where
  "INSTR_RE = Seqs [Star (Cls is_ws), Grp ''time'' (Plus (Cls is_digit)), Plus (Cls is_ws),
     Grp ''cycle'' (Plus (Cls is_digit)), Plus (Cls is_ws), Grp ''pc'' (Plus (Cls is_hex)),
     Plus (Cls is_ws), Grp ''bin'' (Plus (Cls is_hex)), Plus (Cls is_ws),
     Grp ''instr'' instr_part, Star (Cls is_ws)]"

definition RD_RE :: regex where
  "RD_RE = Seqs [Str ''x'',
     Grp ''rd'' (Seq (Cls (\<lambda>c. is_digit c \<and> c \<noteq> CHR ''0'')) (Star (Cls is_digit))),
     Str ''=0x'', Grp ''rd_val'' (Plus (Cls is_hex))]"

definition ADDR_RE :: regex where
  "ADDR_RE = Seqs [Grp ''rd'' (LPlus (Cls alnum_lower)), Str '','',
     Grp ''imm'' (LPlus (Cls imm_char)), Str ''('',
     Grp ''rs1'' (Plus (Cls alnum_lower)), Str '')'']"

definition branch_names :: "string list" where
  "branch_names =
     [''beq'', ''bne'', ''blt'', ''bge'', ''bltu'', ''bgeu'', ''c.beqz'', ''c.bnez'', ''beqz'',
      ''bnez'', ''bgez'', ''bltz'', ''blez'', ''bgtz'', ''c.j'', ''j'', ''c.jal'', ''jal'']"

definition rel_imm :: "string \<Rightarrow> string \<Rightarrow> string res" where
  "rel_imm pc_str imm_str =
     bind_res (py_int 16 imm_str) (\<lambda>i. bind_res (py_int 16 pc_str) (\<lambda>p. Inr (sint_to_hex (i - p))))"

definition process_imm :: "string \<Rightarrow> string \<Rightarrow> string \<Rightarrow> string res" where
  "process_imm instr_name pc_str operands =
     (if instr_name \<notin> set branch_names then Inr operands
      else (case rfind_char (CHR '','') operands of
              None \<Rightarrow> rel_imm pc_str operands
            | Some idx \<Rightarrow>
                bind_res (rel_imm pc_str (drop (idx + 1) operands)) (\<lambda>i.
                Inr (take (idx + 1) operands @ i))))"

definition convert_operands_to_abi :: "string \<Rightarrow> string" where
  "convert_operands_to_abi operand_str =
     py_join '','' (map (\<lambda>op. let converted_op = gpr_to_abi op
                              in if converted_op \<noteq> ''na'' then converted_op else op)
                   (split_on (CHR '','') operand_str))"

definition expand_trace_entry :: "entry \<Rightarrow> string \<Rightarrow> entry res" where
  "expand_trace_entry trace operands =
     bind_res (process_imm (instr trace) (pc trace) operands) (\<lambda>operands.
     bind_res (convert_pseudo_instr (instr trace) operands (binary trace)) (\<lambda>(i, operands).
     bind_res
       (case re_search ADDR_RE operands of
          Some n \<Rightarrow> bind_res (get_imm_hex_val (group_str n ''imm'')) (\<lambda>h.
            Inr (Some h, py_join '','' [group_str n ''rd'', group_str n ''rs1'', group_str n ''imm'']))
        | None \<Rightarrow> Inr (imm trace, operands))
       (\<lambda>(h, operands).
     Inr (trace\<lparr>instr := i, imm := h, operand := convert_operands_to_abi operands\<rparr>))))"

text \<open>The entry of one line that matches.\<close>

definition line_entry :: "bool \<Rightarrow> string \<Rightarrow> caps \<Rightarrow> entry res" where
  "line_entry full_trace line m =
     (let words = split_ws (group_str m ''instr'') in
      bind_res (nth_res words 0) (\<lambda>i.
      let e = new_entry\<lparr>instr_str := group_str m ''instr'', instr := i,
                        pc := group_str m ''pc'', binary := group_str m ''bin''\<rparr> in
      bind_res (if full_trace then bind_res (nth_res words 1) (expand_trace_entry e) else Inr e) (\<lambda>e.
      Inr (case re_search RD_RE line of
             Some c \<Rightarrow> e\<lparr>gpr := gpr e @ [gpr_to_abi (''x'' @ group_str c ''rd'') @ '':'' @ group_str c ''rd_val'']\<rparr>
           | None \<Rightarrow> e))))"

fun log_entries :: "bool \<Rightarrow> string list \<Rightarrow> entry list res" where
  "log_entries full_trace [] = Inr []"
| "log_entries full_trace (line # ls) =
     (if py_in ''ecall'' line then Inr []
      else (case re_match INSTR_RE line of
              None \<Rightarrow> log_entries full_trace ls
            | Some m \<Rightarrow> bind_res (line_entry full_trace line m) (\<lambda>e.
                        bind_res (log_entries full_trace ls) (\<lambda>es. Inr (e # es)))))"

text \<open>\<open>_process_ibex_sim_log_fd\<close>: the text of the CSV file and the number of instructions.\<close>

definition process_ibex_sim_log_fd :: "bool \<Rightarrow> string list \<Rightarrow> (string \<times> nat) res" where
  "process_ibex_sim_log_fd full_trace ls =
     bind_res (log_entries full_trace ls) (\<lambda>es.
     Inr (csv_text (start_new_trace # map write_trace_entry es), length es))"

text \<open>
  \<open>process_ibex_sim_log\<close>, for a log that is present (its lines) or not found; the text it
  leaves in the CSV file.
\<close>

definition process_ibex_sim_log :: "bool \<Rightarrow> string \<Rightarrow> string list option \<Rightarrow> string res" where
  "process_ibex_sim_log full_trace ibex_log contents =
     (case contents of
        None \<Rightarrow> Inl (RuntimeError (''Logfile '' @ ibex_log @ '' not found''))
      | Some ls \<Rightarrow>
          bind_res (process_ibex_sim_log_fd full_trace ls) (\<lambda>(text, count).
          if count = 0 then Inl (RuntimeError (''No instructions in logfile: '' @ ibex_log))
          else Inr text))"

section \<open>The result of a test\<close>

datatype failure_mode = NONE | TIMEOUT | FILE_ERROR | LOG_ERROR

record scan =
  passed :: bool
  failed :: bool
  error_linenum :: "nat option"
  error_line :: "string option"
  result_seen :: bool

definition scan0 :: scan where
  "scan0 = \<lparr>passed = False, failed = False, error_linenum = None, error_line = None, result_seen = False\<rparr>"

definition is_error_line :: "string \<Rightarrow> bool" where
  "is_error_line line \<longleftrightarrow> py_in ''UVM_ERROR'' line \<or> py_in ''UVM_FATAL'' line \<or> py_in ''Error'' line"

definition is_pass_line :: "string \<Rightarrow> bool" where
  "is_pass_line line \<longleftrightarrow> py_in ''RISC-V UVM TEST PASSED'' line"

definition is_fail_line :: "string \<Rightarrow> bool" where
  "is_fail_line line \<longleftrightarrow> py_in ''RISC-V UVM TEST FAILED'' line"

definition scan_line :: "nat \<Rightarrow> string \<Rightarrow> scan \<Rightarrow> scan" where
  "scan_line linenum line s =
     (let s = (if is_error_line line \<and> \<not> result_seen s
               then s\<lparr>error_linenum := Some linenum, error_line := Some line, failed := True\<rparr> else s);
          s = (if is_pass_line line then s\<lparr>result_seen := True, passed := True\<rparr> else s)
      in if is_fail_line line then s\<lparr>result_seen := True, failed := True\<rparr> else s)"

fun scan_log :: "nat \<Rightarrow> string list \<Rightarrow> scan \<Rightarrow> scan" where
  "scan_log n [] s = s"
| "scan_log n (line # ls) s =
     (let s' = scan_line n line s in if is_fail_line line then s' else scan_log (Suc n) ls s')"

definition log_context :: "string list \<Rightarrow> nat \<Rightarrow> string list" where
  "log_context ls l =
     List.map_filter (\<lambda>(n, line).
         if int l - 5 \<le> int n \<and> int n < int l + 5
         then Some ((if n = l then ''[E] '' else ''    '') @ str_int (int n) @ '': '' @ py_strip line)
         else None)
       (zip [1..<Suc (length ls)] ls)"

definition check_ibex_uvm_log :: "string list \<Rightarrow> (bool \<times> string list \<times> failure_mode) res" where
  "check_ibex_uvm_log ls =
     (let s = scan_log 1 ls scan0
      in if failed s
         then let log_out = (case error_linenum s of None \<Rightarrow> [] | Some l \<Rightarrow> log_context ls l)
              in (case error_line s of
                    None \<Rightarrow> Inl (TypeError ''argument of type 'NoneType' is not iterable'')
                  | Some line \<Rightarrow>
                      Inr (False, log_out,
                           if py_in ''Test failed due to wall-clock timeout.'' line then TIMEOUT else LOG_ERROR))
         else Inr (passed s, [], NONE))"

section \<open>When a test passes\<close>

text \<open>The lines up to the first one with a result, that one included.\<close>

fun upto_result :: "string list \<Rightarrow> string list" where
  "upto_result [] = []"
| "upto_result (l # ls) = l # (if is_pass_line l \<or> is_fail_line l then [] else upto_result ls)"

definition early_error :: "string list \<Rightarrow> bool" where
  "early_error ls = list_ex is_error_line (upto_result ls)"

lemmas scan_simps = scan_line_def Let_def early_error_def

lemma scan_failed:
  "failed (scan_log n ls s) \<longleftrightarrow>
     failed s \<or> list_ex is_fail_line ls \<or> (\<not> result_seen s \<and> early_error ls)"
proof (induction ls arbitrary: n s)
  case (Cons l ls)
  then show ?case by (auto simp: scan_simps)
qed (simp add: early_error_def)

lemma scan_passed:
  "\<not> list_ex is_fail_line ls \<Longrightarrow> passed (scan_log n ls s) \<longleftrightarrow> passed s \<or> list_ex is_pass_line ls"
proof (induction ls arbitrary: n s)
  case (Cons l ls)
  then show ?case by (auto simp: scan_simps)
qed simp

lemma scan_error_line:
  "error_line (scan_log n ls s) = None \<longleftrightarrow>
     error_line s = None \<and> (result_seen s \<or> \<not> early_error ls)"
proof (induction ls arbitrary: n s)
  case (Cons l ls)
  then show ?case by (auto simp: scan_simps)
qed (simp add: early_error_def)

lemma uvm_log_verdict:
  "(\<exists>out m. check_ibex_uvm_log ls = Inr (True, out, m)) \<longleftrightarrow>
     list_ex is_pass_line ls \<and> \<not> list_ex is_fail_line ls \<and> \<not> early_error ls"
  using scan_failed [of 1 ls scan0] scan_passed [of ls 1 scan0]
  by (auto simp: check_ibex_uvm_log_def Let_def scan0_def split: option.splits)

text \<open>
  C33: A test passes exactly when its log says so and nothing speaks against it: some line
  reports the pass, no line reports a failure, and no line up to the first reported result is
  an error (the report summary after it may mention errors).
\<close>
theorem uvm_log_passes:
  "check_ibex_uvm_log ls = Inr (True, [], NONE) \<longleftrightarrow>
     list_ex is_pass_line ls \<and> \<not> list_ex is_fail_line ls \<and> \<not> early_error ls"
proof -
  have "check_ibex_uvm_log ls = Inr (True, out, m) \<Longrightarrow> out = [] \<and> m = NONE" for out m
    by (auto simp: check_ibex_uvm_log_def Let_def split: if_splits option.splits)
  then show ?thesis using uvm_log_verdict [of ls] by blast
qed

text \<open>
  A log that reports a failure without an error line before it is not summarised: the
  function raises a type error instead of returning the failure.
\<close>
theorem uvm_log_raises:
  "(\<exists>e. check_ibex_uvm_log ls = Inl e) \<longleftrightarrow> list_ex is_fail_line ls \<and> \<not> early_error ls"
  using scan_failed [of 1 ls scan0] scan_error_line [of 1 ls scan0]
  by (auto simp: check_ibex_uvm_log_def Let_def scan0_def split: option.splits)

section \<open>Branch targets\<close>

text \<open>
  The immediate of a branch or jump, logged as an absolute address after the last comma,
  becomes the offset that leads there: the operands before it stay, and the number written is
  the target minus the program counter modulo the word size.
\<close>
theorem branch_offset:
  assumes "name \<in> set branch_names" "CHR '','' \<notin> set target"
    and "py_int 16 target = Inr t" "py_int 16 pc_str = Inr p"
  shows "\<exists>off. process_imm name pc_str (regs @ '','' @ target) = Inr (regs @ '','' @ off)
    \<and> (\<exists>d. py_int 16 off = Inr d \<and> (p + d) mod 2 ^ 32 = t mod 2 ^ 32)"
proof -
  let ?d = "uint (word_of_int (t - p) :: 32 word)"
  have "(p + ?d) mod 2 ^ 32 = t mod 2 ^ 32"
    unfolding uint_word_of_int by (simp add: mod_simps)
  with assms sint_to_hex_word [of "t - p"] show ?thesis
    by (simp add: process_imm_def rfind_char_append rel_imm_def)
qed

theorem branch_offset_witness:
  "\<exists>off. process_imm ''bne'' ''84'' (''x5,x6'' @ '','' @ ''78'') = Inr (''x5,x6'' @ '','' @ off)
    \<and> (\<exists>d. py_int 16 off = Inr d \<and> (132 + d) mod 2 ^ 32 = 120 mod 2 ^ 32)"
proof (rule branch_offset)
  show "''bne'' \<in> set branch_names" by (simp add: branch_names_def)
  show "py_int 16 ''78'' = Inr 120" by code_simp
  show "py_int 16 ''84'' = Inr 132" by code_simp
qed simp

section \<open>Reading a line\<close>

lemma class_disjoint:
  "is_ws c \<Longrightarrow> \<not> is_digit c" "is_ws c \<Longrightarrow> \<not> is_hex c" "is_ws c \<Longrightarrow> \<not> non_ws c"
  "is_digit c \<Longrightarrow> \<not> is_ws c" "is_hex c \<Longrightarrow> \<not> is_ws c" "non_ws c \<Longrightarrow> \<not> is_ws c"
proof -
  have all: "\<forall>c\<in>set ''0123456789abcdef''. \<not> is_ws c" by code_simp
  then have hex: "is_hex c \<Longrightarrow> \<not> is_ws c" unfolding is_hex_def by blast
  have sub: "set ''0123456789'' \<subseteq> set ''0123456789abcdef''" by auto
  with all have digit: "is_digit c \<Longrightarrow> \<not> is_ws c" unfolding is_digit_def by blast
  show "is_ws c \<Longrightarrow> \<not> is_digit c" "is_ws c \<Longrightarrow> \<not> is_hex c" "is_ws c \<Longrightarrow> \<not> non_ws c"
    "is_digit c \<Longrightarrow> \<not> is_ws c" "is_hex c \<Longrightarrow> \<not> is_ws c" "non_ws c \<Longrightarrow> \<not> is_ws c"
    using hex digit by (auto simp: non_ws_def)
qed

lemma instr_part_hd:
  assumes "run_of non_ws mn" "run_of is_ws g" "run_of non_ws ops" "class_then non_ws r"
  shows "mtch instr_part (mn @ g @ ops @ r) \<noteq> [] \<and> hd (mtch instr_part (mn @ g @ ops @ r)) = (r, [])"
proof -
  have rej1: "rejects (Seq (Plus (Cls is_ws)) (Plus (Cls non_ws))) non_ws"
    by (intro rejects_intros) (erule class_disjoint(6))
  have rej2: "rejects (Plus (Cls non_ws)) is_ws"
    by (intro rejects_intros) (erule class_disjoint(3))
  have "mtch instr_part (mn @ g @ ops @ r) = mtch (Seq (Plus (Cls is_ws)) (Plus (Cls non_ws))) (g @ ops @ r)"
    unfolding instr_part_def using assms
    by (intro field_run rej1 class_then_run [OF assms(2) class_disjoint(3)]) (simp_all add: run_of_def)
  also have "\<dots> = mtch (Plus (Cls non_ws)) (ops @ r)"
    using assms by (intro field_run rej2 class_then_run [OF assms(3) class_disjoint(6)]) (simp_all add: run_of_def)
  finally show ?thesis using Plus_hd [of non_ws ops r] assms(3,4) by (simp add: run_of_def)
qed

lemma last_field_hd:
  assumes "run_of non_ws mn" "run_of is_ws g" "run_of non_ws ops" "class_then non_ws r"
  shows "re_match (Seq (Grp ''instr'' instr_part) (Star (Cls is_ws))) (mn @ g @ ops @ r)
    = Some [(''instr'', mn @ g @ ops)]"
proof -
  let ?s = "mn @ g @ ops @ r"
  let ?f = "\<lambda>(s1, c1). (s1, c1 @ [(''instr'', take (length ?s - length s1) ?s)])"
  from instr_part_hd [OF assms] have hd: "mtch instr_part ?s \<noteq> []" "hd (mtch instr_part ?s) = (r, [])"
    by simp_all
  then have "map ?f (mtch instr_part ?s) \<noteq> []"
    "hd (map ?f (mtch instr_part ?s)) = (r, [(''instr'', mn @ g @ ops)])"
    by (simp_all add: hd_map)
  with hd_seqm [of "map ?f (mtch instr_part ?s)" "mtch (Star (Cls is_ws))"] mtch_Star_Cls_hd [of is_ws r]
  have "seqm (map ?f (mtch instr_part ?s)) (mtch (Star (Cls is_ws))) \<noteq> []
      \<and> snd (hd (seqm (map ?f (mtch instr_part ?s)) (mtch (Star (Cls is_ws))))) = [(''instr'', mn @ g @ ops)]"
    by simp
  then show ?thesis
    unfolding re_match_def by (cases "seqm (map ?f (mtch instr_part ?s)) (mtch (Star (Cls is_ws)))") simp_all
qed

text \<open>
  A line in the tracer's format, six fields separated by any white space, matches, and the
  groups are its fields: time, cycle, program counter, binary, and the mnemonic with its
  operands as one text; what follows the operands is ignored.
\<close>
theorem instr_line_groups:
  assumes "list_all is_ws g0" "list_all (run_of is_ws) [g1, g2, g3, g4, g5]"
    and "run_of is_digit t" "run_of is_digit c" "run_of is_hex p" "run_of is_hex b"
    and "run_of non_ws mn" "run_of non_ws ops" "class_then non_ws r"
  shows "re_match INSTR_RE
      (g0 @ t @ g1 @ c @ g2 @ p @ g3 @ b @ g4 @ mn @ g5 @ ops @ r)
    = Some [(''time'', t), (''cycle'', c), (''pc'', p), (''bin'', b), (''instr'', mn @ g5 @ ops)]"
proof -
  have gaps: "run_of is_ws g1" "run_of is_ws g2" "run_of is_ws g3" "run_of is_ws g4" "run_of is_ws g5"
    using assms(2) by simp_all
  have rej: "rejects (Seq (Grp n (Plus (Cls Q))) q) P" if "\<And>x. P x \<Longrightarrow> \<not> Q x" for n Q q P
    using that by (intro rejects_intros)
  have rej': "rejects (Seq (Plus (Cls Q)) q) P" if "\<And>x. P x \<Longrightarrow> \<not> Q x" for Q q P
    using that by (intro rejects_intros)
  have rej4: "rejects (Seq (Grp ''instr'' instr_part) q) is_ws" for q
    unfolding instr_part_def by (intro rejects_intros) (erule class_disjoint(3))
  let ?r9 = "Seq (Grp ''instr'' instr_part) (Star (Cls is_ws))"
  let ?r8 = "Seq (Plus (Cls is_ws)) ?r9"
  let ?r7 = "Seq (Grp ''bin'' (Plus (Cls is_hex))) ?r8"
  let ?r6 = "Seq (Plus (Cls is_ws)) ?r7"
  let ?r5 = "Seq (Grp ''pc'' (Plus (Cls is_hex))) ?r6"
  let ?r4 = "Seq (Plus (Cls is_ws)) ?r5"
  let ?r3 = "Seq (Grp ''cycle'' (Plus (Cls is_digit))) ?r4"
  let ?r2 = "Seq (Plus (Cls is_ws)) ?r3"
  let ?r1 = "Seq (Grp ''time'' (Plus (Cls is_digit))) ?r2"
  have "re_match ?r9 (mn @ g5 @ ops @ r) = Some [(''instr'', mn @ g5 @ ops)]"
    by (rule last_field_hd [OF assms(7) gaps(5) assms(8,9)])
  then have "re_match ?r8 (g4 @ mn @ g5 @ ops @ r) = Some [(''instr'', mn @ g5 @ ops)]"
    by (subst re_match_field(1) [OF gaps(4) class_then_run [OF assms(7) class_disjoint(6)] rej4])
  then have "re_match ?r7 (b @ g4 @ mn @ g5 @ ops @ r) = Some [(''bin'', b), (''instr'', mn @ g5 @ ops)]"
    by (subst re_match_field(2) [OF assms(6) class_then_run [OF gaps(4) class_disjoint(2)]
          rej' [OF class_disjoint(5)]]) simp_all
  then have "re_match ?r6 (g3 @ b @ g4 @ mn @ g5 @ ops @ r) = Some [(''bin'', b), (''instr'', mn @ g5 @ ops)]"
    by (subst re_match_field(1) [OF gaps(3) class_then_run [OF assms(6) class_disjoint(5)]
          rej [OF class_disjoint(2)]])
  then have "re_match ?r5 (p @ g3 @ b @ g4 @ mn @ g5 @ ops @ r)
      = Some [(''pc'', p), (''bin'', b), (''instr'', mn @ g5 @ ops)]"
    by (subst re_match_field(2) [OF assms(5) class_then_run [OF gaps(3) class_disjoint(2)]
          rej' [OF class_disjoint(5)]]) simp_all
  then have "re_match ?r4 (g2 @ p @ g3 @ b @ g4 @ mn @ g5 @ ops @ r)
      = Some [(''pc'', p), (''bin'', b), (''instr'', mn @ g5 @ ops)]"
    by (subst re_match_field(1) [OF gaps(2) class_then_run [OF assms(5) class_disjoint(5)]
          rej [OF class_disjoint(2)]])
  then have "re_match ?r3 (c @ g2 @ p @ g3 @ b @ g4 @ mn @ g5 @ ops @ r)
      = Some [(''cycle'', c), (''pc'', p), (''bin'', b), (''instr'', mn @ g5 @ ops)]"
    by (subst re_match_field(2) [OF assms(4) class_then_run [OF gaps(2) class_disjoint(1)]
          rej' [OF class_disjoint(4)]]) simp_all
  then have "re_match ?r2 (g1 @ c @ g2 @ p @ g3 @ b @ g4 @ mn @ g5 @ ops @ r)
      = Some [(''cycle'', c), (''pc'', p), (''bin'', b), (''instr'', mn @ g5 @ ops)]"
    by (subst re_match_field(1) [OF gaps(1) class_then_run [OF assms(4) class_disjoint(4)]
          rej [OF class_disjoint(1)]])
  then have "re_match ?r1 (t @ g1 @ c @ g2 @ p @ g3 @ b @ g4 @ mn @ g5 @ ops @ r)
      = Some [(''time'', t), (''cycle'', c), (''pc'', p), (''bin'', b), (''instr'', mn @ g5 @ ops)]"
    by (subst re_match_field(2) [OF assms(3) class_then_run [OF gaps(1) class_disjoint(1)]
          rej' [OF class_disjoint(4)]]) simp_all
  then show ?thesis
    unfolding INSTR_RE_def Seqs.simps
    by (subst re_match_skip [OF assms(1) class_then_run [OF assms(3) class_disjoint(4)]
          rej [OF class_disjoint(1)]])
qed

theorem instr_line_groups_witness:
  "re_match INSTR_RE (''  '' @ ''12'' @ '' '' @ ''3'' @ '' '' @ ''80000080'' @ '' '' @ ''00100093'' @ '' ''
      @ ''addi'' @ '' '' @ ''x1,x0,1'' @ ''  x1=0x00000001'')
    = Some [(''time'', ''12''), (''cycle'', ''3''), (''pc'', ''80000080''), (''bin'', ''00100093''),
            (''instr'', ''addi'' @ '' '' @ ''x1,x0,1'')]"
  by (rule instr_line_groups)
     (simp_all add: run_of_def is_ws_def is_digit_def is_hex_def non_ws_def class_then_def)

end
