(* ===== verification/Spike_Log.thy ===== *)
theory Spike_Log
  imports Trace_Lib
begin

text \<open>
  riscv-dv's \<^verbatim>\<open>scripts/spike_log_to_trace_csv.py\<close>: the reader of a Spike log, a state machine
  over its lines (the trampoline, waiting for an instruction, an instruction in hand), and the
  writer that drops what does not change the architectural state.  A log is the list of its
  lines with their line breaks.
\<close>

section \<open>Patterns\<close>

definition hex_char :: "char \<Rightarrow> bool" where
  "hex_char c \<longleftrightarrow> c \<in> set ''abcdef0123456789''"

definition any_char :: "char \<Rightarrow> bool" where
  "any_char c \<longleftrightarrow> c \<noteq> CHR 0x0A"

abbreviation word_sp :: regex where
  "word_sp \<equiv> Plus (Cls is_ws)"

definition core_prefix :: "regex list" where
  "core_prefix = [Str ''core'', word_sp, Plus (Cls is_digit), Str '':'', word_sp]"

definition SPIKE_RD_RE :: regex where
  "SPIKE_RD_RE = Seqs
     [Opt (Seqs core_prefix), Grp ''pri'' (Cls is_digit), word_sp,
      Str ''0x'', Grp ''addr'' (LPlus (Cls hex_char)), word_sp,
      Str ''('', Grp ''bin'' (LStar (Cls any_char)), Str '')'', word_sp,
      Grp ''reg'' (Seqs [Cls (\<lambda>c. c = CHR ''x'' \<or> c = CHR ''f''), Star (Cls is_ws), LStar (Cls is_digit)]),
      word_sp, Str ''0x'', Grp ''val'' (Plus (Cls hex_char)),
      Opt (Seqs [word_sp, Grp ''csr'' (Plus (Cls (\<lambda>c. \<not> is_ws c))), word_sp, Str ''0x'',
                 Grp ''csr_val'' (Plus (Cls hex_char))])]"

definition CORE_RE :: regex where
  "CORE_RE = Seqs (core_prefix @
     [Str ''0x'', Grp ''addr'' (LPlus (Cls hex_char)), word_sp,
      Str ''(0x'', Grp ''bin'' (LStar (Cls any_char)), Str '')'', word_sp,
      Grp ''instr'' (LStar (Cls any_char)), Eol])"

definition SPIKE_ADDR_RE :: regex where
  "SPIKE_ADDR_RE = Seqs [Grp ''rd'' (LPlus (Cls alnum_lower)), Str '','',
     Grp ''imm'' (LPlus (Cls imm_char)), Str ''('',
     Grp ''rs1'' (Plus (Cls alnum_lower)), Str '')'']"

definition end_trampoline_re :: regex where
  "end_trampoline_re = Seqs [Str ''core'', Star (Cls any_char), Str '': 0x'',
     Star (Cls (\<lambda>c. c = CHR ''0'')), Str ''1010 '']"

section \<open>One instruction\<close>

definition process_jal :: "string \<Rightarrow> string res" where
  "process_jal ops =
     (let start = (case rfind_char (CHR '','') ops of None \<Rightarrow> 0 | Some idx \<Rightarrow> idx + 1);
          im = drop start ops
      in case im of
           [] \<Rightarrow> Inl IndexError
         | c # cs \<Rightarrow>
             bind_res (if c = CHR ''-''
                       then bind_res (py_int 16 cs) (\<lambda>n. Inr (''-'' @ str_int n))
                       else bind_res (py_int 16 im) (\<lambda>n. Inr (str_int n)))
               (\<lambda>s. Inr (take start ops @ s)))"

definition process_instr :: "entry \<Rightarrow> entry res" where
  "process_instr trace =
     bind_res (if instr trace = ''jal'' then process_jal (operand trace) else Inr (operand trace)) (\<lambda>ops.
     Inr (trace\<lparr>operand :=
       (case re_search SPIKE_ADDR_RE ops of
          Some m \<Rightarrow> group_str m ''rd'' @ '','' @ group_str m ''rs1'' @ '','' @ group_str m ''imm''
        | None \<Rightarrow> ops)\<rparr>))"

definition read_spike_instr :: "caps \<Rightarrow> bool \<Rightarrow> entry res" where
  "read_spike_instr m full_trace =
     (let disasm = replace_all ''pc - '' ''-'' (replace_all ''pc + '' [] (group_str m ''instr''));
          e = new_entry\<lparr>pc := group_str m ''addr'', instr_str := disasm, binary := group_str m ''bin''\<rparr>
      in if \<not> full_trace then Inr e
         else let opcode = hd (split_on (CHR '' '') disasm);
                  ops = replace_all '' '' [] (drop (length opcode) disasm)
              in bind_res (convert_pseudo_instr opcode ops (binary e)) (\<lambda>(i, ops).
                 process_instr (e\<lparr>instr := i, operand := ops\<rparr>)))"

text \<open>A commit line adds its register and, when present, its CSR, and sets the mode.\<close>

definition commit :: "caps \<Rightarrow> entry \<Rightarrow> entry" where
  "commit m e =
     (let e = e\<lparr>gpr := gpr e @ [gpr_to_abi (replace_all '' '' [] (group_str m ''reg''))
                                 @ '':'' @ group_str m ''val'']\<rparr>;
          e = (if group_str m ''csr'' \<noteq> [] \<and> group_str m ''csr_val'' \<noteq> []
               then e\<lparr>csr := csr e @ [group_str m ''csr'' @ '':'' @ group_str m ''csr_val'']\<rparr> else e)
      in e\<lparr>mode := group_str m ''pri''\<rparr>)"

section \<open>The state machine\<close>

datatype spike_state = Trampoline | WaitInstr | Effect entry | Stopped entry

text \<open>
  One line: the next state and the entries yielded, each with the flag that says that the
  instruction trapped as illegal.  After \<open>ecall\<close> no line is read; that instruction is still
  in hand at the end.
\<close>

definition take_instr :: "bool \<Rightarrow> caps \<Rightarrow> spike_state res" where
  "take_instr full_trace m =
     bind_res (read_spike_instr m full_trace) (\<lambda>e.
     Inr (if instr_str e = ''ecall'' then Stopped e else Effect e))"

definition spike_step :: "bool \<Rightarrow> spike_state \<Rightarrow> string \<Rightarrow> (spike_state \<times> (entry \<times> bool) list) res" where
  "spike_step full_trace st line =
     (case st of
        Trampoline \<Rightarrow>
          Inr (if re_match end_trampoline_re line \<noteq> None then WaitInstr else Trampoline, [])
      | WaitInstr \<Rightarrow>
          (case re_match CORE_RE line of
             None \<Rightarrow> Inr (WaitInstr, [])
           | Some m \<Rightarrow> bind_res (take_instr full_trace m) (\<lambda>st. Inr (st, [])))
      | Effect e \<Rightarrow>
          (case re_match CORE_RE line of
             Some m \<Rightarrow> bind_res (take_instr full_trace m) (\<lambda>st. Inr (st, [(e, False)]))
           | None \<Rightarrow>
               if py_in ''trap_illegal_instruction'' line then Inr (WaitInstr, [(e, True)])
               else (case re_match SPIKE_RD_RE line of
                       Some m \<Rightarrow> Inr (Effect (commit m e), [])
                     | None \<Rightarrow> Inr (Effect e, [])))
      | Stopped e \<Rightarrow> Inr (Stopped e, []))"

definition spike_end :: "spike_state \<Rightarrow> (entry \<times> bool) list" where
  "spike_end st = (case st of Effect e \<Rightarrow> [(e, False)] | Stopped e \<Rightarrow> [(e, False)] | _ \<Rightarrow> [])"

fun spike_run :: "bool \<Rightarrow> spike_state \<Rightarrow> string list \<Rightarrow> (entry \<times> bool) list res" where
  "spike_run full_trace st [] = Inr (spike_end st)"
| "spike_run full_trace st (line # ls) =
     bind_res (spike_step full_trace st line) (\<lambda>(st', out).
     bind_res (spike_run full_trace st' ls) (\<lambda>out'. Inr (out @ out')))"

definition read_spike_trace :: "bool \<Rightarrow> string list \<Rightarrow> (entry \<times> bool) list res" where
  "read_spike_trace full_trace ls = spike_run full_trace Trampoline ls"

definition keeps :: "bool \<Rightarrow> entry \<Rightarrow> bool" where
  "keeps full_trace e \<longleftrightarrow> full_trace \<or> gpr e \<noteq> [] \<or> instr_str e \<in> set [''wfi'', ''ecall'']"

text \<open>The text of the CSV file and the number of instructions written.\<close>

definition process_spike_sim_log :: "bool \<Rightarrow> string list \<Rightarrow> (string \<times> nat) res" where
  "process_spike_sim_log full_trace ls =
     bind_res (read_spike_trace full_trace ls) (\<lambda>es.
     let kept = filter (keeps full_trace) (map fst es)
     in Inr (csv_text (start_new_trace # map write_trace_entry kept), length kept))"

section \<open>What is read\<close>

text \<open>The lines that start an instruction, after the trampoline and up to the first \<open>ecall\<close>.\<close>

fun instr_lines :: "bool \<Rightarrow> string list \<Rightarrow> entry list res" where
  "instr_lines full_trace [] = Inr []"
| "instr_lines full_trace (line # ls) =
     (case re_match CORE_RE line of
        None \<Rightarrow> instr_lines full_trace ls
      | Some m \<Rightarrow> bind_res (read_spike_instr m full_trace) (\<lambda>e.
          if instr_str e = ''ecall'' then Inr [e]
          else bind_res (instr_lines full_trace ls) (\<lambda>es. Inr (e # es))))"

definition after_trampoline :: "string list \<Rightarrow> string list" where
  "after_trampoline ls = drop 1 (dropWhile (\<lambda>l. re_match end_trampoline_re l = None) ls)"

text \<open>Two entries of the same instruction: they may differ in the committed updates only.\<close>

definition same_instr :: "entry \<Rightarrow> entry \<Rightarrow> bool" where
  "same_instr a b \<longleftrightarrow> a\<lparr>gpr := [], csr := [], mode := []\<rparr> = b\<lparr>gpr := [], csr := [], mode := []\<rparr>"

lemma same_instr_refl [simp]: "same_instr e e"
  by (simp add: same_instr_def)

lemma same_instr_commit: "same_instr e' e \<Longrightarrow> same_instr (commit m e') e"
  by (simp add: same_instr_def commit_def Let_def)

lemma run_stopped: "spike_run ft (Stopped e) ls = Inr [(e, False)]"
  by (induction ls) (simp_all add: spike_step_def spike_end_def)

lemma same_instr_all2:
  "list_all2 same_instr xs ys \<Longrightarrow> same_instr x y \<Longrightarrow> list_all2 same_instr (x # xs) (y # ys)"
  by simp

text \<open>What the machine yields from each state, when the instruction lines ahead are \<open>es\<close>.\<close>

lemma spike_run_entries:
  assumes "instr_lines ft ls = Inr es"
  shows "(\<exists>out. spike_run ft WaitInstr ls = Inr out \<and> list_all2 same_instr (map fst out) es)
    \<and> (\<forall>e. \<exists>out. spike_run ft (Effect e) ls = Inr out
          \<and> list_all2 same_instr (map fst out) (e # es))"
  using assms
proof (induction ls arbitrary: es)
  case Nil
  then show ?case by (simp add: spike_end_def)
next
  case (Cons line ls)
  show ?case
  proof (cases "re_match CORE_RE line")
    case (Some m)
    with Cons.prems obtain i where i: "read_spike_instr m ft = Inr i"
      and rest: "if instr_str i = ''ecall'' then es = [i]
        else \<exists>is. instr_lines ft ls = Inr is \<and> es = i # is"
      by (auto simp: bind_res_Inr split: if_splits)
    show ?thesis
    proof (cases "instr_str i = ''ecall''")
      case True
      with Some i rest show ?thesis
        by (simp add: spike_step_def take_instr_def run_stopped)
    next
      case False
      with rest obtain es' where "instr_lines ft ls = Inr es'" "es = i # es'" by auto
      with Cons.IH [of es'] obtain out where out: "spike_run ft (Effect i) ls = Inr out"
        "list_all2 same_instr (map fst out) es" by auto
      with Some i False show ?thesis by (simp add: spike_step_def take_instr_def)
    qed
  next
    case None
    with Cons.prems have rest: "instr_lines ft ls = Inr es" by simp
    from Cons.IH [OF rest] have wait: "\<exists>out. spike_run ft WaitInstr ls = Inr out
        \<and> list_all2 same_instr (map fst out) es"
      and eff: "\<And>e. \<exists>out. spike_run ft (Effect e) ls = Inr out \<and> list_all2 same_instr (map fst out) (e # es)"
      by blast+
    have "\<exists>out. spike_run ft (Effect e) (line # ls) = Inr out
        \<and> list_all2 same_instr (map fst out) (e # es)" for e
    proof -
      have eff': "\<exists>out. spike_run ft (Effect e') ls = Inr out \<and> list_all2 same_instr (map fst out) (e # es)"
        if "same_instr e' e" for e'
        using eff [of e'] that by (auto simp: list_all2_Cons2 same_instr_def)
      from None wait eff' [OF same_instr_refl] eff' [OF same_instr_commit [OF same_instr_refl]] show ?thesis
        by (auto simp: spike_step_def split: option.splits)
    qed
    with wait None show ?thesis by (auto simp: spike_step_def)
  qed
qed



section \<open>Reading one line\<close>

lemma hex_digit_disjoint:
  "is_ws c \<Longrightarrow> \<not> is_digit c" "is_ws c \<Longrightarrow> \<not> hex_char c" "is_digit c \<Longrightarrow> \<not> is_ws c" "hex_char c \<Longrightarrow> \<not> is_ws c"
proof -
  have all: "\<forall>c\<in>set ''abcdef0123456789''. \<not> is_ws c" by code_simp
  then have hex: "hex_char c \<Longrightarrow> \<not> is_ws c" unfolding hex_char_def by blast
  have "set ''0123456789'' \<subseteq> set ''abcdef0123456789''" by auto
  with all have digit: "is_digit c \<Longrightarrow> \<not> is_ws c" unfolding is_digit_def by blast
  show "is_ws c \<Longrightarrow> \<not> is_digit c" "is_ws c \<Longrightarrow> \<not> hex_char c" "is_digit c \<Longrightarrow> \<not> is_ws c" "hex_char c \<Longrightarrow> \<not> is_ws c"
    using hex digit by auto
qed

lemma class_then_Cons [simp]: "class_then P (c # s) \<longleftrightarrow> \<not> P c"
  by (simp add: class_then_def)

lemma CORE_RE_Seq:
  "CORE_RE = Seq (Str ''core'') (Seq word_sp (Seq (Plus (Cls is_digit)) (Seq (Str '':'') (Seq word_sp
     (Seq (Str ''0x'') (Seq (Grp ''addr'' (LPlus (Cls hex_char))) (Seq word_sp
     (Seq (Str ''(0x'') (Seq (Grp ''bin'' (LStar (Cls any_char))) (Seq (Str '')'') (Seq word_sp
     (Seq (Grp ''instr'' (LStar (Cls any_char))) Eol))))))))))))"
  by (simp add: CORE_RE_def core_prefix_def)

text \<open>
  An instruction line of a Spike log, whatever the white space between its fields, is read
  as its address, its binary (the text up to the first closing parenthesis) and its
  disassembly (the rest of the line).
\<close>
theorem core_line_groups:
  assumes "list_all (run_of is_ws) [g1, g2, g3, g4]" "run_of is_digit n" "run_of hex_char addr"
    and "list_all (\<lambda>c. any_char c \<and> c \<noteq> CHR '')'') bin" "list_all any_char dis" "class_then is_ws (dis @ newline)"
  shows "re_match CORE_RE
      (''core'' @ g1 @ n @ '':'' @ g2 @ ''0x'' @ addr @ g3 @ ''(0x'' @ bin @ '')'' @ g4 @ dis @ newline)
    = Some [(''addr'', addr), (''bin'', bin), (''instr'', dis)]"
proof -
  have gaps: "run_of is_ws g1" "run_of is_ws g2" "run_of is_ws g3" "run_of is_ws g4"
    using assms(1) by simp_all
  let ?r9 = "Seq (Grp ''instr'' (LStar (Cls any_char))) Eol"
  let ?r8 = "Seq word_sp ?r9"
  let ?r7 = "Seq (Str '')'') ?r8"
  let ?r6 = "Seq (Grp ''bin'' (LStar (Cls any_char))) ?r7"
  let ?r5 = "Seq (Str ''(0x'') ?r6"
  let ?r4 = "Seq word_sp ?r5"
  let ?r3 = "Seq (Grp ''addr'' (LPlus (Cls hex_char))) ?r4"
  let ?r2 = "Seq (Str ''0x'') ?r3"
  let ?r1 = "Seq word_sp ?r2"
  let ?r0 = "Seq (Str '':'') ?r1"
  have "re_match Eol newline = Some []" by (simp add: re_match_def newline_def)
  moreover have "list_all (\<lambda>c. \<forall>s. mtch Eol (c # s) = []) dis"
    using assms(5) by (auto simp: list_all_iff any_char_def newline_def)
  ultimately have "re_match ?r9 (dis @ newline) = Some [(''instr'', dis)]"
    using re_match_lazy [OF assms(5)] by blast
  then have "re_match ?r8 (g4 @ dis @ newline) = Some [(''instr'', dis)]"
    by (rule re_match_greedy [OF gaps(4) assms(6)])
  then have 7: "re_match ?r7 ('')'' @ g4 @ dis @ newline) = Some [(''instr'', dis)]"
    by (simp only: re_match_Str)
  have "list_all any_char bin" "list_all (\<lambda>c. \<forall>s. mtch ?r7 (c # s) = []) bin"
    using assms(4) mtch_Str_other [of "'')''"] by (simp_all add: list_all_iff del: mtch.simps)
  from re_match_lazy [OF this 7]
  have "re_match ?r6 (bin @ '')'' @ g4 @ dis @ newline) = Some [(''bin'', bin), (''instr'', dis)]" .
  then have 5: "re_match ?r5 (''(0x'' @ bin @ '')'' @ g4 @ dis @ newline) = Some [(''bin'', bin), (''instr'', dis)]"
    by (simp only: re_match_Str)
  have "rejects ?r5 is_ws" by (rule rejects_Str) (simp_all add: is_ws_def)
  then have 4: "re_match ?r4 (g3 @ ''(0x'' @ bin @ '')'' @ g4 @ dis @ newline) = Some [(''bin'', bin), (''instr'', dis)]"
    using 5 by (subst re_match_field(1) [OF gaps(3)]) (simp_all add: is_ws_def)
  have "rejects ?r4 hex_char" by (intro rejects_intros) (erule hex_digit_disjoint(4))
  with 4 have "re_match ?r3 (addr @ g3 @ ''(0x'' @ bin @ '')'' @ g4 @ dis @ newline)
      = Some [(''addr'', addr), (''bin'', bin), (''instr'', dis)]"
    by (subst re_match_lazy_field [OF assms(3) class_then_run [OF gaps(3) hex_digit_disjoint(2)]]) simp_all
  then have 2: "re_match ?r2 (''0x'' @ addr @ g3 @ ''(0x'' @ bin @ '')'' @ g4 @ dis @ newline)
      = Some [(''addr'', addr), (''bin'', bin), (''instr'', dis)]" by (simp only: re_match_Str)
  have "rejects ?r2 is_ws" by (rule rejects_Str) (simp_all add: is_ws_def)
  then have "re_match ?r1 (g2 @ ''0x'' @ addr @ g3 @ ''(0x'' @ bin @ '')'' @ g4 @ dis @ newline)
      = Some [(''addr'', addr), (''bin'', bin), (''instr'', dis)]"
    using 2 by (subst re_match_field(1) [OF gaps(2)]) (simp_all add: is_ws_def)
  then have 0: "re_match ?r0 ('':'' @ g2 @ ''0x'' @ addr @ g3 @ ''(0x'' @ bin @ '')'' @ g4 @ dis @ newline)
      = Some [(''addr'', addr), (''bin'', bin), (''instr'', dis)]" by (simp only: re_match_Str)
  have "rejects ?r0 is_digit" by (rule rejects_Str) (simp_all add: is_digit_def)
  with 0 have d: "re_match (Seq (Plus (Cls is_digit)) ?r0)
      (n @ '':'' @ g2 @ ''0x'' @ addr @ g3 @ ''(0x'' @ bin @ '')'' @ g4 @ dis @ newline)
      = Some [(''addr'', addr), (''bin'', bin), (''instr'', dis)]"
    by (subst re_match_field(1) [OF assms(2)]) (simp_all add: is_digit_def)
  have "rejects (Seq (Plus (Cls is_digit)) ?r0) is_ws"
    by (intro rejects_intros) (erule hex_digit_disjoint(1))
  with d have w: "re_match (Seq word_sp (Seq (Plus (Cls is_digit)) ?r0))
      (g1 @ n @ '':'' @ g2 @ ''0x'' @ addr @ g3 @ ''(0x'' @ bin @ '')'' @ g4 @ dis @ newline)
      = Some [(''addr'', addr), (''bin'', bin), (''instr'', dis)]"
    by (subst re_match_field(1) [OF gaps(1) class_then_run [OF assms(2) hex_digit_disjoint(3)]])
  show ?thesis
    unfolding CORE_RE_Seq by (subst re_match_Str) (rule w)
qed


theorem core_line_groups_witness:
  "re_match CORE_RE (''core'' @ ''   '' @ ''0'' @ '':'' @ '' '' @ ''0x'' @ ''80000004'' @ '' '' @ ''(0x'' @ ''00100093''
      @ '')'' @ '' '' @ ''li      ra, 1'' @ newline)
    = Some [(''addr'', ''80000004''), (''bin'', ''00100093''), (''instr'', ''li      ra, 1'')]"
  by (rule core_line_groups)
     (simp_all add: run_of_def is_ws_def is_digit_def hex_char_def any_char_def class_then_def newline_def)

section \<open>A small log\<close>

definition core_line :: "string \<Rightarrow> string \<Rightarrow> string \<Rightarrow> string" where
  "core_line addr bin dis =
     ''core'' @ ''   '' @ ''0'' @ '':'' @ '' '' @ ''0x'' @ addr @ '' '' @ ''(0x'' @ bin @ '')'' @ '' '' @ dis @ newline"

lemma core_line_match:
  assumes "run_of hex_char addr" "run_of hex_char bin" "list_all any_char dis" "class_then is_ws (dis @ newline)"
  shows "re_match CORE_RE (core_line addr bin dis) = Some [(''addr'', addr), (''bin'', bin), (''instr'', dis)]"
proof -
  have "\<forall>c\<in>set ''abcdef0123456789''. any_char c \<and> c \<noteq> CHR '')''" by code_simp
  then have "list_all (\<lambda>c. any_char c \<and> c \<noteq> CHR '')'') bin"
    using assms(2) unfolding run_of_def list_all_iff hex_char_def by blast
  moreover have "run_of is_ws '' ''" "run_of is_ws ''   ''" "run_of is_digit ''0''" by code_simp+
  ultimately show ?thesis
    unfolding core_line_def by (intro core_line_groups assms) simp_all
qed


lemma core_other: "c \<noteq> CHR ''c'' \<Longrightarrow> re_match CORE_RE (c # s) = None"
  unfolding CORE_RE_Seq re_match_def by (subst mtch_Str_other) simp_all

lemma trampoline_line:
  assumes "list_all any_char a" "list_all (\<lambda>c. c = CHR ''0'') z"
  shows "re_match end_trampoline_re ((''core'' @ a @ '': 0x'' @ z @ ''1010 '') @ s) \<noteq> None"
proof (rule re_match_lang)
  have "lang (Seq (Str ''core'') (Seq (Star (Cls any_char)) (Seq (Str '': 0x'')
     (Seq (Star (Cls (\<lambda>c. c = CHR ''0''))) (Str ''1010 ''))))) (''core'' @ a @ '': 0x'' @ z @ ''1010 '')"
    by (intro lang.Seq lang_Str lang_Star_Cls assms)
  then show "lang end_trampoline_re (''core'' @ a @ '': 0x'' @ z @ ''1010 '')"
    by (simp add: end_trampoline_re_def)
  show "no_eol end_trampoline_re" by (simp add: end_trampoline_re_def Str_def)
qed

definition demo_spike_log :: "string list" where
  "demo_spike_log =
     [(''core'' @ ''   0'' @ '': 0x'' @ ''0000'' @ ''1010 '') @ ''(0x00028067) jr t0'' @ newline,
      core_line ''80000000'' ''00100093'' ''li ra, 1'',
      ''3 0x80000000 (0x00100093) x 1 0x00000001'' @ newline,
      core_line ''80000004'' ''00000073'' ''ecall'',
      core_line ''80000008'' ''00000013'' ''nop'']"

definition demo_spike_entries :: "entry list" where
  "demo_spike_entries =
     [new_entry\<lparr>pc := ''80000000'', instr_str := ''li ra, 1'', binary := ''00100093''\<rparr>,
      new_entry\<lparr>pc := ''80000004'', instr_str := ''ecall'', binary := ''00000073''\<rparr>]"

lemma demo_core_lines:
  "re_match CORE_RE (core_line ''80000000'' ''00100093'' ''li ra, 1'')
     = Some [(''addr'', ''80000000''), (''bin'', ''00100093''), (''instr'', ''li ra, 1'')]"
  "re_match CORE_RE (core_line ''80000004'' ''00000073'' ''ecall'')
     = Some [(''addr'', ''80000004''), (''bin'', ''00000073''), (''instr'', ''ecall'')]"
  by (rule core_line_match; code_simp)+

lemma demo_instr_lines:
  "instr_lines False (after_trampoline demo_spike_log) = Inr demo_spike_entries"
proof -
  have tramp: "re_match end_trampoline_re
      ((''core'' @ ''   0'' @ '': 0x'' @ ''0000'' @ ''1010 '') @ ''(0x00028067) jr t0'' @ newline) \<noteq> None"
    by (rule trampoline_line; code_simp)
  have after: "after_trampoline demo_spike_log = tl demo_spike_log"
    using tramp by (simp add: after_trampoline_def demo_spike_log_def)
  have disasm: "read_spike_instr [(''addr'', ''80000000''), (''bin'', ''00100093''), (''instr'', ''li ra, 1'')] False
      = Inr (demo_spike_entries ! 0)"
    "read_spike_instr [(''addr'', ''80000004''), (''bin'', ''00000073''), (''instr'', ''ecall'')] False
      = Inr (demo_spike_entries ! 1)" by code_simp+
  have names: "instr_str (demo_spike_entries ! 0) \<noteq> ''ecall''" "instr_str (demo_spike_entries ! 1) = ''ecall''"
    "demo_spike_entries = [demo_spike_entries ! 0, demo_spike_entries ! 1]" by code_simp+
  show ?thesis unfolding after
    using names by (simp add: demo_spike_log_def demo_core_lines core_other disasm)
qed


end
