(* ===== verification/Trace_Compare.thy ===== *)
theory Trace_Compare
  imports Trace_Lib
begin

text \<open>
  riscv-dv's \<^verbatim>\<open>scripts/instr_trace_compare.py\<close>: two traces are compared by the register
  updates that change the architectural state.  The specification lists those updates of each
  trace; the theorem says for which pairs of lists the comparison passes.
\<close>

section \<open>Register state\<close>

fun update_gpr :: "bool \<Rightarrow> string list \<Rightarrow> (string, string) dict \<Rightarrow> (bool \<times> (string, string) dict) res" where
  "update_gpr change [] g = Inr (change, g)"
| "update_gpr change (update # us) g =
     (if update = [] then Inr (False, g)
      else (case split_on (CHR '':'') update of
              [rd, rd_val] \<Rightarrow>
                bind_res (case map_of g rd of
                            Some old \<Rightarrow> Inr (rd_val \<noteq> old)
                          | None \<Rightarrow> bind_res (py_int 16 rd_val) (\<lambda>n. Inr (n \<noteq> 0)))
                  (\<lambda>c. update_gpr (change \<or> c) us (dict_set rd rd_val g))
            | _ \<Rightarrow> Inl (SystemExit 1)))"

definition check_update_gpr :: "string list \<Rightarrow> (string, string) dict
    \<Rightarrow> (bool \<times> (string, string) dict) res" where
  "check_update_gpr us g = update_gpr False us g"

section \<open>The comparison\<close>

text \<open>
  The loop over trace 1: register values of both traces, what is left of trace 2 and its entry
  read last, the two counters and the log text.
\<close>

record cmp =
  gpr_val_1 :: "(string, string) dict"
  gpr_val_2 :: "(string, string) dict"
  rest_2 :: "entry list"
  last_2 :: entry
  matched_cnt :: nat
  mismatch_cnt :: nat
  log_text :: string

record cmp_args =
  name1 :: string
  name2 :: string
  len1 :: nat
  len2 :: nat
  print_limit :: nat

abbreviation nat_text :: "nat \<Rightarrow> string" where
  "nat_text n \<equiv> str_int (int n)"

text \<open>The inner loop: move trace 2 forward until an entry changes the state.\<close>

fun advance :: "entry list \<Rightarrow> entry \<Rightarrow> (string, string) dict
    \<Rightarrow> (bool \<times> entry list \<times> entry \<times> (string, string) dict) res" where
  "advance [] prev g = Inr (False, [], prev, g)"
| "advance (t # ts) prev g =
     bind_res (check_update_gpr (gpr t) g) (\<lambda>(change, g').
       if change then Inr (True, ts, t, g') else advance ts t g')"

text \<open>\<open>trace_2_index\<close>\<close>

definition index2 :: "cmp_args \<Rightarrow> cmp \<Rightarrow> nat" where
  "index2 a s = len2 a - length (rest_2 s)"

definition mismatch_text :: "cmp_args \<Rightarrow> cmp \<Rightarrow> entry \<Rightarrow> string" where
  "mismatch_text a s trace =
     (if mismatch_cnt s \<le> print_limit a
      then ''Mismatch['' @ nat_text (mismatch_cnt s) @ '']:'' @ newline
           @ name1 a @ ''['' @ str_int (int (index2 a s) - 1) @ ''] : '' @ get_trace_string trace @ newline
           @ name2 a @ ''['' @ str_int (int (index2 a s) - 1) @ ''] : '' @ get_trace_string (last_2 s) @ newline
      else [])"

definition count_mismatch :: "cmp_args \<Rightarrow> entry \<Rightarrow> cmp \<Rightarrow> cmp" where
  "count_mismatch a trace s =
     (let s' = s\<lparr>mismatch_cnt := mismatch_cnt s + 1\<rparr>
      in s'\<lparr>log_text := log_text s' @ mismatch_text a s' trace\<rparr>)"

definition compare_entry :: "cmp_args \<Rightarrow> nat \<Rightarrow> entry \<Rightarrow> bool \<Rightarrow> cmp \<Rightarrow> cmp" where
  "compare_entry a trace_1_index trace change2 s =
     (if \<not> change2
      then (let s' = s\<lparr>mismatch_cnt := mismatch_cnt s + 1\<rparr>
            in s'\<lparr>log_text := log_text s'
                 @ ''Mismatch['' @ nat_text (mismatch_cnt s') @ '']:'' @ newline
                 @ ''['' @ nat_text trace_1_index @ ''] '' @ name1 a @ '' : '' @ get_trace_string trace @ newline
                 @ str_int (int (len1 a) - int trace_1_index + 1) @ '' instructions left in trace ''
                 @ name1 a @ newline\<rparr>)
      else if length (gpr trace) \<noteq> length (gpr (last_2 s)) then count_mismatch a trace s
      else if list_ex (\<lambda>i. gpr trace ! i \<noteq> gpr (last_2 s) ! i) [0..<length (gpr trace)]
      then count_mismatch a trace s
      else s\<lparr>matched_cnt := matched_cnt s + 1\<rparr>)"

fun compare_loop :: "cmp_args \<Rightarrow> nat \<Rightarrow> entry list \<Rightarrow> cmp \<Rightarrow> cmp res" where
  "compare_loop a i [] s = Inr s"
| "compare_loop a i (trace # ts) s =
     (if gpr trace = [] then compare_loop a (i + 1) ts s
      else bind_res (check_update_gpr (gpr trace) (gpr_val_1 s)) (\<lambda>(change1, g1).
        let s = s\<lparr>gpr_val_1 := g1\<rparr>
        in if \<not> change1 then compare_loop a (i + 1) ts s
           else bind_res (advance (rest_2 s) (last_2 s) (gpr_val_2 s)) (\<lambda>(change2, rest, prev, g2).
             let s = compare_entry a (i + 1) trace change2
                       (s\<lparr>rest_2 := rest, last_2 := prev, gpr_val_2 := g2\<rparr>)
             in if rest_2 s = [] then Inr s else compare_loop a (i + 1) ts s)))"

text \<open>The check for remaining instructions of trace 2 that change the state.\<close>

fun check_rest :: "cmp_args \<Rightarrow> entry list \<Rightarrow> (string, string) dict \<Rightarrow> cmp \<Rightarrow> cmp res" where
  "check_rest a [] g s = Inr s"
| "check_rest a (t # ts) g s =
     bind_res (check_update_gpr (gpr t) g) (\<lambda>(change, g').
       if change
       then Inr (s\<lparr>mismatch_cnt := mismatch_cnt s + (1 + length ts),
                   log_text := log_text s @ nat_text (1 + length ts) @ '' instructions left in trace ''
                     @ name2 a @ newline\<rparr>)
       else check_rest a ts g' s)"

definition compare_in_order :: "cmp_args \<Rightarrow> entry list \<Rightarrow> entry list \<Rightarrow> cmp res" where
  "compare_in_order a t1 t2 =
     bind_res (compare_loop a 0 t1
         \<lparr>gpr_val_1 = [], gpr_val_2 = [], rest_2 = t2, last_2 = new_entry,
          matched_cnt = 0, mismatch_cnt = 0, log_text = []\<rparr>)
       (\<lambda>s. check_rest a (rest_2 s) (gpr_val_2 s) s)"

definition compare_result :: "nat \<Rightarrow> nat \<Rightarrow> string" where
  "compare_result matched mismatch =
     (if mismatch = 0 then ''[PASSED]: '' @ nat_text matched @ '' matched'' @ newline
      else ''[FAILED]: '' @ nat_text matched @ '' matched, '' @ nat_text mismatch @ '' mismatch'' @ newline)"

text \<open>
  \<open>compare_trace_csv\<close>: the names and lines of two trace files; the text appended to the log
  and the result line.
\<close>

definition compare_trace_csv :: "string \<Rightarrow> string list \<Rightarrow> string \<Rightarrow> string list \<Rightarrow> string \<Rightarrow> string
    \<Rightarrow> bool \<Rightarrow> nat \<Rightarrow> bool \<Rightarrow> (string \<times> string) res" where
  "compare_trace_csv csv1 ls1 csv2 ls2 n1 n2 in_order_mode limit compare_final_value_only =
     (let in_order_mode = (if compare_final_value_only then False else in_order_mode);
          header = n1 @ '' : '' @ csv1 @ newline @ n2 @ '' : '' @ csv2 @ newline
      in bind_res (read_trace ls1) (\<lambda>t1. bind_res (read_trace ls2) (\<lambda>t2.
         bind_res
           (if in_order_mode
            then bind_res (compare_in_order \<lparr>name1 = n1, name2 = n2, len1 = length t1, len2 = length t2,
                     print_limit = limit\<rparr> t1 t2)
                   (\<lambda>s. Inr (matched_cnt s, mismatch_cnt s, log_text s))
            else Inr (0, 0, []))
           (\<lambda>(matched, mismatch, text).
              let result = compare_result matched mismatch
              in Inr (header @ text @ result @ newline, result)))))"

section \<open>Specification: the updates that change the state\<close>

fun changes :: "(string, string) dict \<Rightarrow> entry list \<Rightarrow> entry list res" where
  "changes g [] = Inr []"
| "changes g (t # ts) =
     bind_res (check_update_gpr (gpr t) g) (\<lambda>(change, g').
     bind_res (changes g' ts) (\<lambda>cs. Inr (if change then t # cs else cs)))"

text \<open>Whether the last entry of a trace changes the state.\<close>

fun ends_changed :: "(string, string) dict \<Rightarrow> entry list \<Rightarrow> bool" where
  "ends_changed g [] = False"
| "ends_changed g (t # ts) =
     (case check_update_gpr (gpr t) g of
        Inl e \<Rightarrow> False
      | Inr (change, g') \<Rightarrow> if ts = [] then change else ends_changed g' ts)"

text \<open>The number of mismatches is zero exactly for these lists of updates.\<close>

definition updates_agree :: "string list list \<Rightarrow> string list list \<Rightarrow> bool \<Rightarrow> bool" where
  "updates_agree us1 us2 ends2 \<longleftrightarrow> us1 = us2 \<or> (ends2 \<and> take (length us2) us1 = us2)"

lemma check_update_Nil [simp]: "check_update_gpr [] g = Inr (False, g)"
  by (simp add: check_update_gpr_def)

lemma changes_Cons:
  assumes "changes g (t # ts) = Inr cs"
  obtains ch g' cs' where "check_update_gpr (gpr t) g = Inr (ch, g')" "changes g' ts = Inr cs'"
    "cs = (if ch then t # cs' else cs')"
  using assms by (auto simp: bind_res_Inr)

lemma advance_Nil:
  "changes g ts = Inr [] \<Longrightarrow>
   (\<exists>l g'. advance ts prev g = Inr (False, [], l, g')) \<and> \<not> ends_changed g ts"
proof (induction ts arbitrary: g prev)
  case Nil
  then show ?case by simp
next
  case (Cons t ts)
  from changes_Cons [OF Cons.prems] obtain ch g' cs' where u: "check_update_gpr (gpr t) g = Inr (ch, g')"
    and cs': "changes g' ts = Inr cs'" and "[] = (if ch then t # cs' else cs')" by blast
  then have "\<not> ch" "cs' = []" by (simp_all split: if_splits)
  with Cons.IH [of g' t] u cs' show ?case by simp
qed

lemma advance_Cons:
  "changes g ts = Inr (c # cs) \<Longrightarrow>
   \<exists>rest g'. advance ts prev g = Inr (True, rest, c, g') \<and> changes g' rest = Inr cs
     \<and> (if rest = [] then ends_changed g ts else ends_changed g ts = ends_changed g' rest)"
proof (induction ts arbitrary: g prev)
  case Nil
  then show ?case by simp
next
  case (Cons t ts)
  from changes_Cons [OF Cons.prems] obtain ch g' cs' where u: "check_update_gpr (gpr t) g = Inr (ch, g')"
    and cs': "changes g' ts = Inr cs'" and cs: "c # cs = (if ch then t # cs' else cs')" by blast
  show ?case
  proof (cases ch)
    case True
    with u cs cs' show ?thesis by simp
  next
    case False
    with cs cs' have "changes g' ts = Inr (c # cs)" by simp
    moreover from this have ne: "ts \<noteq> []" by (cases ts) simp_all
    ultimately obtain rest g'' where "advance ts t g' = Inr (True, rest, c, g'')"
      "changes g'' rest = Inr cs"
      "if rest = [] then ends_changed g' ts else ends_changed g' ts = ends_changed g'' rest"
      using Cons.IH [of g' t] by blast
    with u False ne show ?thesis by (intro exI [of _ rest] exI [of _ g'']) simp
  qed
qed

lemma check_rest_changes:
  assumes "changes g ts = Inr cs"
  shows "\<exists>s'. check_rest a ts g s = Inr s' \<and> matched_cnt s' = matched_cnt s
    \<and> (mismatch_cnt s' = 0 \<longleftrightarrow> mismatch_cnt s = 0 \<and> cs = [])"
  using assms
proof (induction ts arbitrary: g cs)
  case Nil
  then show ?case by simp
next
  case (Cons t ts)
  from changes_Cons [OF Cons.prems] obtain ch g' cs' where u: "check_update_gpr (gpr t) g = Inr (ch, g')"
    and cs': "changes g' ts = Inr cs'" and cs: "cs = (if ch then t # cs' else cs')" by blast
  with Cons.IH [OF cs'] show ?case by (cases ch) simp_all
qed

lemma list_differs:
  assumes "length xs = length ys"
  shows "list_ex (\<lambda>i. xs ! i \<noteq> ys ! i) [0..<length xs] \<longleftrightarrow> xs \<noteq> ys"
proof -
  have "list_ex (\<lambda>i. xs ! i \<noteq> ys ! i) [0..<length xs] \<longleftrightarrow> (\<exists>i<length xs. xs ! i \<noteq> ys ! i)"
    by (auto simp: list_ex_iff)
  then show ?thesis using nth_equalityI [OF assms] by metis
qed

lemma compare_entry_simps:
  "rest_2 (compare_entry a i t ch s) = rest_2 s"
  "gpr_val_1 (compare_entry a i t ch s) = gpr_val_1 s"
  "gpr_val_2 (compare_entry a i t ch s) = gpr_val_2 s"
  "last_2 (compare_entry a i t ch s) = last_2 s"
  by (simp_all add: compare_entry_def count_mismatch_def Let_def)

lemma compare_entry_counts:
  "mismatch_cnt (compare_entry a i t ch s) = mismatch_cnt s + (if ch \<and> gpr t = gpr (last_2 s) then 0 else 1)"
  "matched_cnt (compare_entry a i t ch s) = matched_cnt s + (if ch \<and> gpr t = gpr (last_2 s) then 1 else 0)"
  using list_differs [of "gpr t" "gpr (last_2 s)"]
  by (auto simp: compare_entry_def count_mismatch_def Let_def)

lemma compare_loop_result:
  assumes "changes (gpr_val_1 s) ts = Inr c1" and "changes (gpr_val_2 s) (rest_2 s) = Inr c2"
  shows "\<exists>s'. bind_res (compare_loop a i ts s) (\<lambda>s. check_rest a (rest_2 s) (gpr_val_2 s) s) = Inr s'
    \<and> (mismatch_cnt s' = 0 \<longleftrightarrow> mismatch_cnt s = 0
        \<and> updates_agree (map gpr c1) (map gpr c2) (ends_changed (gpr_val_2 s) (rest_2 s)))
    \<and> (mismatch_cnt s' = 0 \<longrightarrow> matched_cnt s' = matched_cnt s + length c2)"
  using assms
proof (induction ts arbitrary: i s c1 c2)
  case Nil
  with check_rest_changes [OF Nil.prems(2), of a s] show ?case by (auto simp: updates_agree_def)
next
  case (Cons t ts)
  from changes_Cons [OF Cons.prems(1)] obtain ch g1 cs1 where
    u: "check_update_gpr (gpr t) (gpr_val_1 s) = Inr (ch, g1)" and cs1: "changes g1 ts = Inr cs1"
    and c1: "c1 = (if ch then t # cs1 else cs1)" by blast
  show ?case
  proof (cases ch)
    case False
    show ?thesis
    proof (cases "gpr t = []")
      case True
      with u have "g1 = gpr_val_1 s" by simp
      with Cons.IH [of s cs1 c2 "i + 1"] Cons.prems(2) cs1 c1 False True show ?thesis by simp
    next
      case ne: False
      let ?s = "s\<lparr>gpr_val_1 := g1\<rparr>"
      have "compare_loop a i (t # ts) s = compare_loop a (i + 1) ts ?s"
        using u ne False by simp
      with Cons.IH [of ?s cs1 c2 "i + 1"] Cons.prems(2) cs1 c1 False show ?thesis by simp
    qed
  next
    case True
    then have ne: "gpr t \<noteq> []" using u by auto
    show ?thesis
    proof (cases c2)
      case Nil
      with advance_Nil [of "gpr_val_2 s" "rest_2 s" "last_2 s"] Cons.prems(2) obtain l g'
        where adv: "advance (rest_2 s) (last_2 s) (gpr_val_2 s) = Inr (False, [], l, g')"
          and "\<not> ends_changed (gpr_val_2 s) (rest_2 s)" by auto
      with u ne True Nil c1 show ?thesis
        by (simp add: compare_entry_simps compare_entry_counts updates_agree_def)
    next
      case (Cons c cs2)
      with advance_Cons [of "gpr_val_2 s" "rest_2 s" c cs2 "last_2 s"] Cons.prems(2) obtain rest g'
        where adv: "advance (rest_2 s) (last_2 s) (gpr_val_2 s) = Inr (True, rest, c, g')"
          and ch2: "changes g' rest = Inr cs2"
          and ends: "if rest = [] then ends_changed (gpr_val_2 s) (rest_2 s)
            else ends_changed (gpr_val_2 s) (rest_2 s) = ends_changed g' rest" by blast
      let ?s = "compare_entry a (i + 1) t True
        (s\<lparr>gpr_val_1 := g1, rest_2 := rest, last_2 := c, gpr_val_2 := g'\<rparr>)"
      have loop: "compare_loop a i (t # ts) s = (if rest = [] then Inr ?s else compare_loop a (i + 1) ts ?s)"
        using u ne True adv by (simp add: compare_entry_simps)
      show ?thesis
      proof (cases "rest = []")
        case True
        then show ?thesis using loop ch2 ends Cons c1 \<open>ch\<close>
          by (auto simp: compare_entry_simps compare_entry_counts updates_agree_def)
      next
        case False
        with Cons.IH [of ?s cs1 cs2 "i + 1"] loop ends cs1 ch2 Cons c1 \<open>ch\<close> show ?thesis
          by (auto simp: compare_entry_simps compare_entry_counts updates_agree_def
                simp del: compare_loop.simps split: if_splits)
      qed
    qed
  qed
qed

text \<open>
  C11: The in-order comparison passes exactly when the state-changing updates of the two traces
  are the same, or when those of trace 2 are a prefix of those of trace 1 and the last
  instruction of trace 2 is itself a state change: then the rest of trace 1 is not looked at.
  The number reported is the number of updates of trace 2.
\<close>
theorem compare_passes:
  assumes "changes [] t1 = Inr c1" and "changes [] t2 = Inr c2"
  shows "\<exists>s. compare_in_order a t1 t2 = Inr s
    \<and> (mismatch_cnt s = 0 \<longleftrightarrow> map gpr c1 = map gpr c2
        \<or> (ends_changed [] t2 \<and> take (length c2) (map gpr c1) = map gpr c2))
    \<and> (mismatch_cnt s = 0 \<longrightarrow> matched_cnt s = length c2)"
  using compare_loop_result [of "\<lparr>gpr_val_1 = [], gpr_val_2 = [], rest_2 = t2, last_2 = new_entry,
          matched_cnt = 0, mismatch_cnt = 0, log_text = []\<rparr>" t1 c1 c2 a 0] assms
  by (simp add: compare_in_order_def updates_agree_def)

definition upd :: "string \<Rightarrow> entry" where
  "upd u = new_entry\<lparr>gpr := [u]\<rparr>"

theorem compare_passes_witness:
  "\<exists>s. compare_in_order \<lparr>name1 = ''rtl'', name2 = ''iss'', len1 = 3, len2 = 2, print_limit = 5\<rparr>
       [upd ''a0:1'', upd ''a1:2'', upd ''a2:3''] [upd ''a0:1'', upd ''a1:2''] = Inr s
    \<and> mismatch_cnt s = 0 \<and> matched_cnt s = 2"
proof -
  have c1: "changes [] [upd ''a0:1'', upd ''a1:2'', upd ''a2:3'']
      = Inr [upd ''a0:1'', upd ''a1:2'', upd ''a2:3'']" by code_simp
  have c2: "changes [] [upd ''a0:1'', upd ''a1:2''] = Inr [upd ''a0:1'', upd ''a1:2'']" by code_simp
  have "ends_changed [] [upd ''a0:1'', upd ''a1:2'']" by code_simp
  with compare_passes [OF c1 c2] show ?thesis by fastforce
qed

text \<open>
  Without in-order mode, or when only final values are asked for, nothing is compared: two
  readable traces always pass, with zero matches.
\<close>
theorem compare_out_of_order_vacuous:
  assumes "read_trace ls1 = Inr t1" "read_trace ls2 = Inr t2" "\<not> in_order \<or> final_only"
  shows "\<exists>text. compare_trace_csv csv1 ls1 csv2 ls2 n1 n2 in_order limit final_only
     = Inr (text, ''[PASSED]: 0 matched'' @ newline)"
proof -
  have "nat_text 0 = ''0''" by code_simp
  with assms show ?thesis by (auto simp: compare_trace_csv_def compare_result_def)
qed

theorem compare_out_of_order_vacuous_witness:
  "\<exists>text. compare_trace_csv ''a.csv'' [start_new_trace] ''b.csv''
       [start_new_trace, write_trace_entry (upd ''a0:1'')] ''rtl'' ''iss'' True 5 True
     = Inr (text, ''[PASSED]: 0 matched'' @ newline)"
  by (rule compare_out_of_order_vacuous [of _ "[]" _ "[(upd ''a0:1'')\<lparr>csr := [[]]\<rparr>]"]; code_simp)

end
