(* ===== verification/Check_Logs.thy ===== *)
theory Check_Logs
  imports Ibex_Log Scripts_Lib
begin

text \<open>
  Deciding and collecting results, under \<^verbatim>\<open>dv/uvm/core_ibex/scripts\<close>: \<^verbatim>\<open>test_run_result.py\<close> (the
  record of one run), \<^verbatim>\<open>test_entry.py\<close>, \<^verbatim>\<open>check_logs.py\<close> (one run is judged from its logs),
  \<^verbatim>\<open>collect_results.py\<close> and the text parts of \<^verbatim>\<open>report_lib\<close>.  A file is its list of lines, or the
  exception that opening it raises.
\<close>

section \<open>The record of a run\<close>

datatype test_type = RISCVDV | DIRECTED

text \<open>
  The fields hold what the scripts put in them, which for \<open>timeout_s\<close>, \<open>rtl_test\<close>, \<open>ddm_sim_opts\<close>
  and \<open>compile_asm_gen_cmds\<close> is not what their declarations say (nothing checks an assignment).
\<close>

record trr =
  trr_passed :: "bool option"
  trr_failure_mode :: "failure_mode option"
  trr_failure_message :: "string option"
  trr_timeout_s :: "pyval option"
  trr_testtype :: "test_type option"
  trr_testdotseed :: "string option"
  trr_testname :: "string option"
  trr_seed :: "int option"
  trr_binary :: "string option"
  trr_rtl_simulator :: "string option"
  trr_iss_cosim :: "string option"
  trr_is_discrete_debug_module :: "bool option"
  trr_binary_main :: "string option"
  trr_binary_dm :: "string option"
  trr_vmem_main :: "string option"
  trr_vmem_dm :: "string option"
  trr_ddm_sim_opts :: "string option"
  trr_gen_test :: "(string list) option"
  trr_gen_opts :: "(string list) option"
  trr_rtl_test :: "pyval option"
  trr_sim_opts :: "(string list) option"
  trr_directed_data :: "(string, pyval) dict option"
  trr_dir_test :: "string option"
  trr_assembly :: "string option"
  trr_objectfile :: "string option"
  trr_riscvdv_run_gen_log :: "string option"
  trr_riscvdv_run_gen_stdout :: "string option"
  trr_riscvdv_run_log :: "string option"
  trr_riscvdv_run_stdout :: "string option"
  trr_compile_asm_gen_log :: "string option"
  trr_compile_asm_log :: "string option"
  trr_rtl_log :: "string option"
  trr_rtl_stdout :: "string option"
  trr_rtl_trace :: "string option"
  trr_iss_cosim_log :: "string option"
  trr_iss_cosim_trace :: "string option"
  trr_dir_fcov :: "string option"
  trr_riscvdv_run_gen_cmds :: "(string list list) option"
  trr_riscvdv_run_cmds :: "(string list list) option"
  trr_compile_asm_gen_cmds :: "(string list list) option"
  trr_compile_asm_cmds :: "(string list list) option"
  trr_rtl_cmds :: "(string list list) option"
  trr_metadata_pickle_file :: "string option"
  trr_pickle_file :: "string option"
  trr_yaml_file :: "string option"

definition empty_trr :: trr where
  "empty_trr =
     \<lparr>trr_passed = None, trr_failure_mode = None, trr_failure_message = None,
      trr_timeout_s = None, trr_testtype = None, trr_testdotseed = None, trr_testname = None,
      trr_seed = None, trr_binary = None, trr_rtl_simulator = None, trr_iss_cosim = None,
      trr_is_discrete_debug_module = None, trr_binary_main = None, trr_binary_dm = None,
      trr_vmem_main = None, trr_vmem_dm = None, trr_ddm_sim_opts = None, trr_gen_test = None,
      trr_gen_opts = None, trr_rtl_test = None, trr_sim_opts = None, trr_directed_data = None,
      trr_dir_test = None, trr_assembly = None, trr_objectfile = None,
      trr_riscvdv_run_gen_log = None, trr_riscvdv_run_gen_stdout = None,
      trr_riscvdv_run_log = None, trr_riscvdv_run_stdout = None,
      trr_compile_asm_gen_log = None, trr_compile_asm_log = None, trr_rtl_log = None,
      trr_rtl_stdout = None, trr_rtl_trace = None, trr_iss_cosim_log = None,
      trr_iss_cosim_trace = None, trr_dir_fcov = None, trr_riscvdv_run_gen_cmds = None,
      trr_riscvdv_run_cmds = None, trr_compile_asm_gen_cmds = None,
      trr_compile_asm_cmds = None, trr_rtl_cmds = None, trr_metadata_pickle_file = None,
      trr_pickle_file = None, trr_yaml_file = None\<rparr>"

text \<open>\<open>Failure_Modes.__str__\<close>\<close>

definition failure_mode_str :: "failure_mode \<Rightarrow> string" where
  "failure_mode_str m =
     (case m of NONE \<Rightarrow> ''NONE(0)'' | TIMEOUT \<Rightarrow> ''TIMEOUT(1)''
      | FILE_ERROR \<Rightarrow> ''FILE_ERROR(2)'' | LOG_ERROR \<Rightarrow> ''LOG_ERROR(3)'')"

text \<open>The text a formatted string shows for an optional value.\<close>

definition opt_text :: "('a \<Rightarrow> string) \<Rightarrow> 'a option \<Rightarrow> string" where
  "opt_text f v = (case v of None \<Rightarrow> ''None'' | Some x \<Rightarrow> f x)"

section \<open>Test entries\<close>

definition TDS_RE :: regex where
  "TDS_RE = Seqs [Grp ''1'' (Plus (Cls (\<lambda>c. c \<noteq> CHR ''.''))), Str ''.'',
                  Grp ''2'' (Plus (Cls is_digit)), Eol]"

definition read_test_dot_seed :: "string \<Rightarrow> (string \<times> int) res" where
  "read_test_dot_seed arg =
     (case re_match TDS_RE arg of
        None \<Rightarrow> Inl (ArgumentTypeError (''Bad --test-dot-seed ('' @ arg @ ''): ''
                  @ ''should be of the form TEST.SEED.''))
      | Some m \<Rightarrow> bind_res (py_int 10 (group_str m ''2'')) (\<lambda>n. Inr (group_str m ''1'', n)))"

text \<open>The entries of the list of tests are dictionaries.\<close>

definition get_test_entry :: "string \<Rightarrow> (string, pyval) dict list \<Rightarrow> (string, pyval) dict res" where
  "get_test_entry testname entries =
     (case find (\<lambda>e. map_of e ''test'' = Some (PStr testname)) entries of
        Some e \<Rightarrow> Inr e
      | None \<Rightarrow> Inl (RuntimeError (''No matching test entry for '' @ repr_str testname)))"

section \<open>One run\<close>

text \<open>What an exception prints as.\<close>

fun exn_text :: "exn \<Rightarrow> string" where
  "exn_text (RuntimeError m) = m"
| "exn_text (OSError m) = m"
| "exn_text (ValueError m) = m"
| "exn_text (TypeError m) = m"
| "exn_text _ = []"

fun os_or_runtime :: "exn \<Rightarrow> bool" where
  "os_or_runtime (RuntimeError m) = True"
| "os_or_runtime (OSError m) = True"
| "os_or_runtime _ = False"

fun os_error :: "exn \<Rightarrow> bool" where
  "os_error (OSError m) = True"
| "os_error _ = False"

definition file_error :: "string \<Rightarrow> trr \<Rightarrow> trr" where
  "file_error msg t =
     t\<lparr>trr_passed := Some False, trr_failure_mode := Some FILE_ERROR, trr_failure_message := Some msg\<rparr>"

definition log_extract :: "string list \<Rightarrow> string" where
  "log_extract ls =
     (if ls = [] then []
      else ''---------------*LOG-EXTRACT*----------------'' @ newline
           @ py_join newline ls @ newline
           @ ''--------------------------------------------'' @ newline)"

definition log_failure :: "failure_mode \<Rightarrow> string list \<Rightarrow> trr \<Rightarrow> trr" where
  "log_failure m ls t =
     (let msg = (if m = TIMEOUT
                 then ''[FAILURE] Simulation ended gracefully due to timeout ''
                      @ ''['' @ opt_text py_str (trr_timeout_s t) @ ''s].'' @ newline
                 else newline @ ''[FAILED]: error seen in '' @ [CHR 0x27]
                      @ opt_text path_name (trr_rtl_log t) @ [CHR 0x27] @ newline)
      in t\<lparr>trr_failure_mode := Some m, trr_failure_message := Some (msg @ log_extract ls)\<rparr>)"


text \<open>
  \<open>trace\<close> is the trace of the run: not found, or its lines, or the error of opening it or the
  CSV file; \<open>log\<close> is the UVM log.  Exceptions that no handler names propagate.
\<close>

definition compare_test_run :: "string list option res \<Rightarrow> string list res \<Rightarrow> trr \<Rightarrow> trr res" where
  "compare_test_run trace log t =
     (if trr_failure_mode t = Some TIMEOUT then Inr (t\<lparr>trr_passed := Some False\<rparr>)
      else case bind_res trace (process_ibex_sim_log True (opt_text id (trr_rtl_trace t))) of
        Inl e \<Rightarrow>
          if os_or_runtime e
          then Inr (file_error (''[FAILED]: Processing the ibex trace failed: '' @ exn_text e @ newline) t)
          else Inl e
      | Inr csv \<Rightarrow>
          (case bind_res log check_ibex_uvm_log of
             Inl e \<Rightarrow>
               if os_error e
               then Inr (file_error (''[FAILED] Could not open simulation log: '' @ exn_text e @ newline) t)
               else Inl e
           | Inr (uvm_pass, uvm_log_lines, uvm_failure_mode) \<Rightarrow>
               if \<not> uvm_pass then Inr (log_failure uvm_failure_mode uvm_log_lines t)
               else Inr (t\<lparr>trr_passed := Some True\<rparr>)))"

section \<open>All runs\<close>

definition is_passing :: "trr \<Rightarrow> bool" where
  "is_passing t \<longleftrightarrow> trr_passed t = Some True"

definition tds_text :: "trr \<Rightarrow> string" where
  "tds_text t = opt_text id (trr_testname t) @ ''.'' @ opt_text str_int (trr_seed t)"

definition summary_text :: "trr \<Rightarrow> string" where
  "summary_text t =
     (if is_passing t then ''PASS''
      else ''FAILED'' @ (if trr_failure_mode t = Some TIMEOUT then '' {T}'' else []))"

record collected =
  summary_dict :: "(string, string) dict"
  passing_tests :: "trr list"
  failing_tests :: "trr list"

text \<open>
  The loop of \<open>main\<close> over the pickle files: each is a run, or the exception of loading it.  The
  handler of \<open>RuntimeError\<close> builds its record with a field \<open>name\<close> that the class does not have.
\<close>

definition collect_one :: "collected \<Rightarrow> trr res \<Rightarrow> collected res" where
  "collect_one c f =
     (case f of
        Inl (RuntimeError e) \<Rightarrow> Inl (TypeError ''__init__() got an unexpected keyword argument 'name' '')
      | Inl e \<Rightarrow> Inl e
      | Inr t \<Rightarrow>
          let c = c\<lparr>summary_dict := dict_set (tds_text t) (summary_text t) (summary_dict c)\<rparr>
          in Inr (if is_passing t then c\<lparr>passing_tests := passing_tests c @ [t]\<rparr>
                  else c\<lparr>failing_tests := failing_tests c @ [t]\<rparr>))"

definition collect_tests :: "trr res list \<Rightarrow> collected res" where
  "collect_tests fs = fold_res collect_one \<lparr>summary_dict = [], passing_tests = [], failing_tests = []\<rparr> fs"

definition exit_code :: "collected \<Rightarrow> int" where
  "exit_code c = (if failing_tests c \<noteq> [] then 1 else 0)"

text \<open>\<open>create_test_summary_dict\<close>: passing and failing runs per test name.\<close>

definition count_test :: "(string option, nat \<times> nat) dict \<Rightarrow> trr \<Rightarrow> (string option, nat \<times> nat) dict" where
  "count_test d t =
     (let d = (if trr_testname t \<notin> set (dict_keys d) then dict_set (trr_testname t) (0, 0) d else d);
          (p, f) = dict_get d (trr_testname t) (0, 0)
      in dict_set (trr_testname t) (if is_passing t then (p + 1, f) else (p, f + 1)) d)"

definition create_test_summary_dict :: "trr list \<Rightarrow> (string option, nat \<times> nat) dict" where
  "create_test_summary_dict tests = foldl count_test [] tests"

section \<open>The text report\<close>

text \<open>
  \<open>gen_test_run_result_text\<close>; \<open>rel\<close> is the path library's \<open>relative_to\<close>, which raises when the
  path is not below the directory.
\<close>

definition rel_field :: "(string \<Rightarrow> string option \<Rightarrow> string res) \<Rightarrow> trr \<Rightarrow> string option \<Rightarrow> string res" where
  "rel_field rel t v = (case v of None \<Rightarrow> Inr ''MISSING'' | Some p \<Rightarrow> rel p (trr_dir_test t))"

definition strip_newlines :: "string \<Rightarrow> string" where
  "strip_newlines s =
     rev (dropWhile (\<lambda>c. c = CHR 0x0A) (rev (dropWhile (\<lambda>c. c = CHR 0x0A) s)))"

definition read_lines :: "string \<Rightarrow> string list" where
  "read_lines s = (let ps = split_on (CHR 0x0A) s in if last ps = [] then butlast ps else ps)"

definition gen_test_run_result_text :: "(string \<Rightarrow> string option \<Rightarrow> string res) \<Rightarrow> trr \<Rightarrow> string res" where
  "gen_test_run_result_text rel t =
     (let idx = tds_text t in
      bind_res (map_res (\<lambda>(k, v). bind_res (rel_field rel t v) (\<lambda>s. Inr (k, IStr s)))
          [(''binary'', trr_binary t), (''rtl_log'', trr_rtl_log t),
           (''rtl_trace'', trr_rtl_trace t), (''iss_cosim_trace'', trr_iss_cosim_trace t)]) (\<lambda>lesskeys.
      bind_res (pprint_dict lesskeys) (\<lambda>yaml.
      let info_lines = [idx, replicate (length idx) (CHR ''-'')]
            @ map strip_newlines (read_lines yaml)
            @ [if is_passing t then newline @ ''[PASSED]'' else opt_text id (trr_failure_message t)]
      in Inr (newline @ py_join newline info_lines @ newline))))"

definition box_comment :: "string \<Rightarrow> string" where
  "box_comment line =
     (let hr = replicate 80 (CHR ''#'') in hr @ newline @ ''# '' @ line @ newline @ hr)"

text \<open>\<open>pct\<close> is the library's formatting of the percentage with two decimals.\<close>

definition gen_summary_line :: "(nat \<Rightarrow> nat \<Rightarrow> string) \<Rightarrow> trr list \<Rightarrow> trr list \<Rightarrow> string res" where
  "gen_summary_line pct passing failing =
     (let total = length passing + length failing
      in if total = 0 then Inl ZeroDivisionError
         else Inr (pct (length passing) total @ ''% PASS '' @ str_int (int (length passing)) @ '' PASSED, ''
                @ str_int (int (length failing)) @ '' FAILED''))"

definition details :: "(string \<Rightarrow> string option \<Rightarrow> string res) \<Rightarrow> string \<Rightarrow> string \<Rightarrow> trr list \<Rightarrow> string res" where
  "details rel title none ts =
     bind_res (map_res (gen_test_run_result_text rel) ts) (\<lambda>texts.
     Inr (newline @ box_comment title @ newline @ (if ts = [] then none @ newline else [])
          @ concat (map (\<lambda>s. s @ newline) texts)))"

definition output_results_text :: "(nat \<Rightarrow> nat \<Rightarrow> string) \<Rightarrow> (string \<Rightarrow> string option \<Rightarrow> string res)
    \<Rightarrow> collected \<Rightarrow> string res" where
  "output_results_text pct rel c =
     bind_res (gen_summary_line pct (passing_tests c) (failing_tests c)) (\<lambda>line.
     bind_res (pprint_dict (map (\<lambda>(k, s). (k, IStr s)) (summary_dict c))) (\<lambda>yaml.
     bind_res (details rel ''Details of failing tests'' ''No failing tests. Nice job!'' (failing_tests c)) (\<lambda>f.
     bind_res (details rel ''Details of passing tests'' ''No passing tests. Hmmmm...'' (passing_tests c)) (\<lambda>p.
     Inr (line @ newline @ yaml @ newline @ f @ p)))))"

section \<open>When a run passes\<close>

text \<open>
  A run that was not killed and has no verdict yet is marked as passed exactly when its
  trace could be converted and its log reports a pass, no failure and no early error.
\<close>
theorem run_passes:
  assumes "trr_passed t \<noteq> Some True" "trr_failure_mode t \<noteq> Some TIMEOUT"
  shows "(\<exists>t'. compare_test_run trace log t = Inr t' \<and> is_passing t') \<longleftrightarrow>
    (\<exists>ls csv uvm. trace = Inr (Some ls)
       \<and> process_ibex_sim_log True (opt_text id (trr_rtl_trace t)) (Some ls) = Inr csv
       \<and> log = Inr uvm \<and> list_ex is_pass_line uvm \<and> \<not> list_ex is_fail_line uvm \<and> \<not> early_error uvm)"
proof -
  let ?conv = "bind_res trace (process_ibex_sim_log True (opt_text id (trr_rtl_trace t)))"
  have conv: "?conv = Inr csv \<longleftrightarrow> (\<exists>ls. trace = Inr (Some ls)
      \<and> process_ibex_sim_log True (opt_text id (trr_rtl_trace t)) (Some ls) = Inr csv)" for csv
    by (cases trace) (auto simp: process_ibex_sim_log_def split: option.splits)
  have "(\<exists>t'. compare_test_run trace log t = Inr t' \<and> is_passing t') \<longleftrightarrow>
      (\<exists>csv. ?conv = Inr csv) \<and> (\<exists>out m. bind_res log check_ibex_uvm_log = Inr (True, out, m))"
    using assms
    by (cases ?conv; cases "bind_res log check_ibex_uvm_log")
       (auto simp: compare_test_run_def is_passing_def file_error_def log_failure_def Let_def split: if_splits)
  also have "(\<exists>out m. bind_res log check_ibex_uvm_log = Inr (True, out, m)) \<longleftrightarrow>
      (\<exists>uvm. log = Inr uvm \<and> list_ex is_pass_line uvm \<and> \<not> list_ex is_fail_line uvm \<and> \<not> early_error uvm)"
    using uvm_log_verdict by (cases log) auto
  finally show ?thesis unfolding conv by blast
qed

definition demo_trace :: "string list" where
  "demo_trace = [''12 3 80 00108093 addi x1,x1,1  x1=0x00000001'' @ newline]"

definition demo_uvm_log :: "string list" where
  "demo_uvm_log = [''--- RISC-V UVM TEST PASSED ---'' @ newline, ''UVM_ERROR : 0'' @ newline]"

lemma demo_converts: "\<exists>csv. process_ibex_sim_log True ''t.log'' (Some demo_trace) = Inr csv"
proof -
  have "case process_ibex_sim_log True ''t.log'' (Some demo_trace) of Inr csv \<Rightarrow> True | Inl e \<Rightarrow> False"
    by code_simp
  then show ?thesis by (cases "process_ibex_sim_log True ''t.log'' (Some demo_trace)") auto
qed

theorem run_passes_witness:
  "\<exists>t'. compare_test_run (Inr (Some demo_trace)) (Inr demo_uvm_log)
          (empty_trr\<lparr>trr_rtl_trace := Some ''t.log''\<rparr>) = Inr t' \<and> is_passing t'"
proof -
  have "list_ex is_pass_line demo_uvm_log \<and> \<not> list_ex is_fail_line demo_uvm_log \<and> \<not> early_error demo_uvm_log"
    by code_simp
  with demo_converts show ?thesis
    by (subst run_passes) (auto simp: empty_trr_def opt_text_def)
qed

text \<open>
  A failing log never takes a verdict back: a run that was marked as passed before and is
  checked again with a log that shows a failure keeps the mark, because the branch for a failed
  log sets the failure mode and message only.
\<close>
theorem stale_pass_kept:
  assumes "trr_passed t = Some True" "trr_failure_mode t \<noteq> Some TIMEOUT"
    and "process_ibex_sim_log True (opt_text id (trr_rtl_trace t)) (Some ls) = Inr csv"
    and "check_ibex_uvm_log uvm = Inr (False, out, m)"
  shows "\<exists>t'. compare_test_run (Inr (Some ls)) (Inr uvm) t = Inr t'
    \<and> is_passing t' \<and> trr_failure_mode t' = Some m"
  using assms by (simp add: compare_test_run_def log_failure_def is_passing_def Let_def)

theorem stale_pass_kept_witness:
  "\<exists>t'. compare_test_run (Inr (Some demo_trace)) (Inr [''UVM_ERROR @ 5: bad'' @ newline])
          (empty_trr\<lparr>trr_rtl_trace := Some ''t.log'', trr_passed := Some True\<rparr>) = Inr t'
    \<and> is_passing t' \<and> trr_failure_mode t' = Some LOG_ERROR"
proof -
  obtain csv where csv: "process_ibex_sim_log True ''t.log'' (Some demo_trace) = Inr csv"
    using demo_converts by blast
  have uvm: "check_ibex_uvm_log [''UVM_ERROR @ 5: bad'' @ newline]
      = Inr (False, [''[E] 1: UVM_ERROR @ 5: bad''], LOG_ERROR)" by code_simp
  show ?thesis
    by (rule stale_pass_kept [OF _ _ _ uvm, where csv = csv]) (simp_all add: empty_trr_def opt_text_def csv)
qed

section \<open>Collecting\<close>

lemma collect_fold:
  "\<exists>d'. fold_res collect_one \<lparr>summary_dict = d, passing_tests = ps, failing_tests = fs\<rparr> (map Inr ts) =
     Inr \<lparr>summary_dict = d', passing_tests = ps @ filter is_passing ts,
          failing_tests = fs @ filter (\<lambda>t. \<not> is_passing t) ts\<rparr>
   \<and> (\<forall>k. map_of d' k = (case find (\<lambda>t. tds_text t = k) (rev ts) of
         Some t \<Rightarrow> Some (summary_text t) | None \<Rightarrow> map_of d k))"
proof (induction ts arbitrary: d ps fs)
  case Nil
  then show ?case by simp
next
  case (Cons t ts)
  have find_snoc: "find P (xs @ [x]) = (case find P xs of Some y \<Rightarrow> Some y | None \<Rightarrow> if P x then Some x else None)"
    for P xs and x :: trr by (induction xs) auto
  let ?ps = "if is_passing t then ps @ [t] else ps"
  let ?fs = "if is_passing t then fs else fs @ [t]"
  have one: "collect_one \<lparr>summary_dict = d, passing_tests = ps, failing_tests = fs\<rparr> (Inr t)
      = Inr \<lparr>summary_dict = dict_set (tds_text t) (summary_text t) d, passing_tests = ?ps, failing_tests = ?fs\<rparr>"
    by (simp add: collect_one_def)
  from Cons.IH [of "dict_set (tds_text t) (summary_text t) d" ?ps ?fs] obtain d' where
    d': "fold_res collect_one \<lparr>summary_dict = dict_set (tds_text t) (summary_text t) d,
          passing_tests = ?ps, failing_tests = ?fs\<rparr> (map Inr ts)
        = Inr \<lparr>summary_dict = d', passing_tests = ?ps @ filter is_passing ts,
            failing_tests = ?fs @ filter (\<lambda>t. \<not> is_passing t) ts\<rparr>"
    and look: "\<And>k. map_of d' k = (case find (\<lambda>t. tds_text t = k) (rev ts) of
         Some t \<Rightarrow> Some (summary_text t)
       | None \<Rightarrow> map_of (dict_set (tds_text t) (summary_text t) d) k)" by blast
  have "map_of d' k = (case find (\<lambda>t. tds_text t = k) (rev (t # ts)) of
      Some t \<Rightarrow> Some (summary_text t) | None \<Rightarrow> map_of d k)" for k
    using look [of k] by (cases "find (\<lambda>t. tds_text t = k) (rev ts)") (auto simp: find_snoc)
  with d' one show ?case by (intro exI [of _ d']) simp
qed

text \<open>
  Collecting readable results splits them into passing and failing runs in their order, the
  summary shows for each test and seed the verdict of the last such run, and the exit code is 0
  exactly when no run failed.
\<close>
theorem collect_splits:
  "\<exists>c. collect_tests (map Inr ts) = Inr c
    \<and> passing_tests c = filter is_passing ts \<and> failing_tests c = filter (\<lambda>t. \<not> is_passing t) ts
    \<and> (\<forall>k. map_of (summary_dict c) k = map_option summary_text (find (\<lambda>t. tds_text t = k) (rev ts)))
    \<and> (exit_code c = 0 \<longleftrightarrow> list_all is_passing ts)"
  using collect_fold [of "[]" "[]" "[]" ts]
  by (fastforce simp: collect_tests_def exit_code_def filter_empty_conv list_all_iff split: option.splits)

lemma foldl_count_test:
  "map_of (foldl count_test d ts) n =
     (case map_of d n of
        Some (p, f) \<Rightarrow> Some (p + length (filter (\<lambda>t. trr_testname t = n \<and> is_passing t) ts),
                             f + length (filter (\<lambda>t. trr_testname t = n \<and> \<not> is_passing t) ts))
      | None \<Rightarrow> if list_ex (\<lambda>t. trr_testname t = n) ts
                then Some (length (filter (\<lambda>t. trr_testname t = n \<and> is_passing t) ts),
                           length (filter (\<lambda>t. trr_testname t = n \<and> \<not> is_passing t) ts))
                else None)"
proof (induction ts arbitrary: d)
  case Nil
  then show ?case by (simp split: option.splits)
next
  case (Cons t ts)
  have step: "map_of (count_test d t) n =
      (if trr_testname t = n
       then (let (p, f) = (case map_of d n of Some x \<Rightarrow> x | None \<Rightarrow> (0, 0))
             in Some (if is_passing t then (p + 1, f) else (p, f + 1)))
       else map_of d n)"
  proof (cases "map_of d (trr_testname t)")
    case None
    then have "trr_testname t \<notin> set (dict_keys d)" by (simp add: map_of_eq_None_iff)
    with None show ?thesis by (auto simp: count_test_def dict_get_def)
  next
    case (Some x)
    then have "trr_testname t \<in> set (dict_keys d)"
      using map_of_eq_None_iff [of d "trr_testname t"] by force
    with Some show ?thesis by (cases x) (auto simp: count_test_def dict_get_def)
  qed
  show ?case unfolding foldl_Cons Cons.IH step
    by (cases "map_of d n") (auto split: prod.splits)
qed

text \<open>
  The summary by test counts, for every name that occurs, its passing and its failing runs,
  and has no other name.
\<close>
theorem summary_counts:
  "map_of (create_test_summary_dict ts) n =
     (if list_ex (\<lambda>t. trr_testname t = n) ts
      then Some (length (filter (\<lambda>t. trr_testname t = n \<and> is_passing t) ts),
                 length (filter (\<lambda>t. trr_testname t = n \<and> \<not> is_passing t) ts))
      else None)"
  by (simp add: create_test_summary_dict_def foldl_count_test)

section \<open>Names of runs\<close>

lemma re_match_group_end:
  assumes "run_of P u" "class_then P []" "re_match r [] = Some d" "rejects r P"
  shows "re_match (Seq (Grp n (Plus (Cls P))) r) u = Some ((n, u) # d)"
  using re_match_field(2) [OF assms(1,2,4), of n] assms(3) by simp

text \<open>
  The name and seed that \<open>TEST.SEED\<close> is read as are the ones it was made of, for every
  test name without a dot.
\<close>
theorem test_dot_seed_roundtrip:
  assumes "name \<noteq> []" "CHR ''.'' \<notin> set name" "0 \<le> seed"
  shows "read_test_dot_seed (name @ ''.'' @ str_int seed) = Inr (name, seed)"
proof -
  let ?nd = "\<lambda>c. c \<noteq> CHR ''.''"
  have "run_of ?nd name" using assms(1,2) by (auto simp: run_of_def list_all_iff)
  moreover have "re_match Eol [] = Some []" by (simp add: re_match_def)
  moreover have "rejects Eol is_digit" by (simp add: rejects_def newline_def is_digit_def)
  ultimately have "re_match (Seq (Grp ''2'' (Plus (Cls is_digit))) Eol) (str_int seed)
      = Some [(''2'', str_int seed)]"
    using re_match_group_end [OF digit_str [OF assms(3)]] by (simp add: class_then_def)
  then have "re_match (Seq (Str ''.'') (Seq (Grp ''2'' (Plus (Cls is_digit))) Eol)) (''.'' @ str_int seed)
      = Some [(''2'', str_int seed)]" by (simp only: re_match_Str)
  moreover have "rejects (Seq (Str ''.'') (Seq (Grp ''2'' (Plus (Cls is_digit))) Eol)) ?nd"
    by (rule rejects_Str) simp_all
  ultimately have "re_match TDS_RE (name @ ''.'' @ str_int seed) = Some [(''1'', name), (''2'', str_int seed)]"
    unfolding TDS_RE_def Seqs.simps using \<open>run_of ?nd name\<close>
    by (subst re_match_field(2)) (simp_all add: class_then_def)
  then show ?thesis by (simp add: read_test_dot_seed_def group_str_def group_def int_str_int)
qed

theorem test_dot_seed_roundtrip_witness:
  "read_test_dot_seed (''riscv_rand_jump_test'' @ ''.'' @ str_int 32) = Inr (''riscv_rand_jump_test'', 32)"
  by (rule test_dot_seed_roundtrip) simp_all

end
