(* ===== verification/Systolic.thy ===== *)
theory Systolic
  imports Py_Prelude "HOL-Library.Word"
begin

text \<open>
  The systolic array, \<^verbatim>\<open>rtl/sa/axis_sa.sv\<close> with \<^verbatim>\<open>pe.sv\<close>, \<^verbatim>\<open>mac.sv\<close>, \<^verbatim>\<open>n_delay.sv\<close> and
  \<^verbatim>\<open>tri_buffer.sv\<close>, cycle by cycle and for every size, width and latency.  A packed array of the
  source is a list, a register is a component of the state record, a wire is a function of the
  state and of the inputs of the cycle, and \<open>sa_step\<close> is one rising clock edge.

  The main theorem feeds one packet of beats (with any gaps) into the array after reset and
  reads the output with any sequence of \<open>m_ready\<close>: the array accepts every beat at once and
  delivers exactly the columns of the product, in order, with \<open>m_last\<close> on the last one.
\<close>

section \<open>Tables\<close>

definition tab :: "nat \<Rightarrow> (nat \<Rightarrow> 'a) \<Rightarrow> 'a list" where
  "tab n f = map f [0..<n]"

lemma length_tab [simp]: "length (tab n f) = n"
  by (simp add: tab_def)

lemma nth_tab [simp]: "i < n \<Longrightarrow> tab n f ! i = f i"
  by (simp add: tab_def)

lemma tab_cong: "(\<And>i. i < n \<Longrightarrow> f i = g i) \<Longrightarrow> tab n f = tab n g"
  by (simp add: tab_def)

section \<open>Delay lines\<close>

text \<open>
  \<^verbatim>\<open>n_delay\<close>: the registers are \<open>data[1..N]\<close>, \<open>data[0]\<close> is the input.  The output \<open>d\<close> is
  \<open>data[0..N-1]\<close> and \<open>o\<close> is \<open>data[N]\<close>.
\<close>

definition n_delay_step :: "nat \<Rightarrow> bool \<Rightarrow> 'a \<Rightarrow> 'a list \<Rightarrow> 'a list" where
  "n_delay_step N e i data = (if e then take N (i # data) else data)"

definition n_delay_o :: "nat \<Rightarrow> 'a \<Rightarrow> 'a list \<Rightarrow> 'a" where
  "n_delay_o N i data = (i # data) ! N"

definition n_delay_d :: "nat \<Rightarrow> 'a \<Rightarrow> 'a list \<Rightarrow> 'a list" where
  "n_delay_d N i data = (if N = 0 then [i] else take N (i # data))"

text \<open>
  \<^verbatim>\<open>tri_buffer\<close>: row \<open>r + 1\<close> of the buffer is the element \<open>r\<close> of the list, row \<open>0\<close> is the input.
  The elements below the diagonal have no driver; they keep their reset value and are not read.
\<close>

definition tri_step :: "nat \<Rightarrow> bool \<Rightarrow> 'a list \<Rightarrow> 'a list list \<Rightarrow> 'a list list" where
  "tri_step N cen x rows =
     (if cen
      then tab (N - 1) (\<lambda>r. tab N (\<lambda>c. if r + 1 \<le> c then (x # rows) ! r ! c else rows ! r ! c))
      else rows)"

definition tri_out :: "nat \<Rightarrow> 'a list \<Rightarrow> 'a list list \<Rightarrow> 'a list" where
  "tri_out N x rows = tab N (\<lambda>c. (x # rows) ! c ! c)"

section \<open>Processing elements\<close>

record ('x, 'k, 'm, 'y) pe =
  ko :: 'k
  xo :: 'x
  mul_result :: 'm
  mul_delay :: "'m list"
  a_result :: 'y
  acc_delay :: "'y list"
  ro :: 'y

text \<open>The output of the accumulator, the wire \<open>ao\<close> of \<^verbatim>\<open>pe.sv\<close>.\<close>

definition mac_y :: "nat \<Rightarrow> ('x, 'k, 'm, 'y) pe \<Rightarrow> 'y" where
  "mac_y LA p = n_delay_o (LA - 1) (a_result p) (acc_delay p)"

definition pe_reset :: "nat \<Rightarrow> nat
    \<Rightarrow> ('wx::len word, 'wk::len word, 'wm::len word, 'wy::len word) pe" where
  "pe_reset LM LA =
     \<lparr>ko = 0, xo = 0, mul_result = 0, mul_delay = replicate (LM - 1) 0,
      a_result = 0, acc_delay = replicate (LA - 1) 0, ro = 0\<rparr>"

text \<open>
  A clock edge of \<^verbatim>\<open>pe.sv\<close> and \<^verbatim>\<open>mac.sv\<close>.  The product is signed and exact in \<open>WM = WX + WK\<close> bits;
  \<open>WY'($signed(m))\<close> extends or cuts it to the width of the accumulator.
\<close>

definition pe_step :: "nat \<Rightarrow> nat \<Rightarrow> bool \<Rightarrow> bool \<Rightarrow> bool \<Rightarrow> bool \<Rightarrow> bool \<Rightarrow> 'wk::len word \<Rightarrow> 'wx::len word
    \<Rightarrow> 'wy::len word \<Rightarrow> ('wx word, 'wk word, 'wm::len word, 'wy word) pe
    \<Rightarrow> ('wx word, 'wk word, 'wm word, 'wy word) pe" where
  "pe_step LM LA en_mac en_shift m_first m_valid r_copy ki xi ri p =
     (let m = n_delay_o (LM - 1) (mul_result p) (mul_delay p)
      in \<lparr>ko = (if en_mac then ki else ko p),
          xo = (if en_mac then xi else xo p),
          mul_result = (if en_mac then word_of_int (sint xi * sint ki) else mul_result p),
          mul_delay = n_delay_step (LM - 1) en_mac (mul_result p) (mul_delay p),
          a_result = (if en_mac \<and> m_valid
                      then word_of_int (sint m) + (if m_first then 0 else a_result p)
                      else a_result p),
          acc_delay = n_delay_step (LA - 1) en_mac (a_result p) (acc_delay p),
          ro = (if r_copy then mac_y LA p else if en_shift then ri else ro p)\<rparr>)"

section \<open>The array\<close>

record dims =
  dim_R :: nat
  dim_C :: nat
  dim_LM :: nat
  dim_LA :: nat

definition dim_D :: "dims \<Rightarrow> nat" where
  "dim_D P = dim_R P + dim_C P - 1"

record ('x, 'k) sa_in =
  rstn :: bool
  s_valid :: bool
  s_last :: bool
  m_ready :: bool
  sx_data :: "'x list"
  sk_data :: "'k list"

record ('x, 'k, 'm, 'y) sa_state =
  tri_x :: "'x list list"
  tri_k :: "'k list list"
  valid_q :: "bool list"
  vlast_q :: "bool list"
  m_first :: "bool list"
  r_last_q :: "bool list"
  a_valid :: "bool list"
  r_valid :: "bool list"
  pes :: "('x, 'k, 'm, 'y) pe list list"

text \<open>The wires: control first, in the order of the source.\<close>

definition r_last :: "('x, 'k, 'm, 'y) sa_state \<Rightarrow> nat \<Rightarrow> bool" where
  "r_last s d = (if d = 0 then r_valid s ! 0 else r_last_q s ! d)"

definition m_valid :: "dims \<Rightarrow> ('x, 'k, 'm, 'y) sa_state \<Rightarrow> bool" where
  "m_valid P s = r_valid s ! (dim_D P - 1)"

definition m_last :: "dims \<Rightarrow> ('x, 'k, 'm, 'y) sa_state \<Rightarrow> bool" where
  "m_last P s = r_last s (dim_C P - 1)"

definition en_shift :: "dims \<Rightarrow> ('x, 'k, 'm, 'y) sa_state
    \<Rightarrow> ('x, 'k) sa_in \<Rightarrow> bool" where
  "en_shift P s i \<longleftrightarrow> m_valid P s \<and> m_ready i"

definition conflict :: "('x, 'k, 'm, 'y) sa_state \<Rightarrow> nat \<Rightarrow> bool" where
  "conflict s d \<longleftrightarrow> a_valid s ! d \<and> r_valid s ! d"

definition can_copy :: "('x, 'k, 'm, 'y) sa_state \<Rightarrow> nat \<Rightarrow> bool" where
  "can_copy s d \<longleftrightarrow> a_valid s ! d \<and> \<not> r_valid s ! d"

definition m_stall :: "dims \<Rightarrow> ('x, 'k, 'm, 'y) sa_state
    \<Rightarrow> ('x, 'k) sa_in \<Rightarrow> nat \<Rightarrow> bool" where
  "m_stall P s i d \<longleftrightarrow> dim_C P - 1 \<le> d \<and> m_valid P s \<and> \<not> m_ready i"

definition reg_stall :: "dims \<Rightarrow> ('x, 'k, 'm, 'y) sa_state
    \<Rightarrow> ('x, 'k) sa_in \<Rightarrow> nat \<Rightarrow> bool" where
  "reg_stall P s i d \<longleftrightarrow> can_copy s d \<and> m_stall P s i d"

definition r_copy :: "dims \<Rightarrow> ('x, 'k, 'm, 'y) sa_state
    \<Rightarrow> ('x, 'k) sa_in \<Rightarrow> nat \<Rightarrow> bool" where
  "r_copy P s i d \<longleftrightarrow> can_copy s d \<and> \<not> m_stall P s i d"

definition r_clear :: "dims \<Rightarrow> ('x, 'k, 'm, 'y) sa_state
    \<Rightarrow> ('x, 'k) sa_in \<Rightarrow> nat \<Rightarrow> bool" where
  "r_clear P s i d \<longleftrightarrow> en_shift P s i \<and> r_last s d"

definition en_mac :: "dims \<Rightarrow> ('x, 'k, 'm, 'y) sa_state
    \<Rightarrow> ('x, 'k) sa_in \<Rightarrow> bool" where
  "en_mac P s i \<longleftrightarrow> list_all (\<lambda>d. \<not> conflict s d) [0..<dim_D P] \<and> list_all (\<lambda>d. \<not> reg_stall P s i d) [0..<dim_D P]"

definition s_ready :: "dims \<Rightarrow> ('x, 'k, 'm, 'y) sa_state
    \<Rightarrow> ('x, 'k) sa_in \<Rightarrow> bool" where
  "s_ready P s i = en_mac P s i"

definition m_data :: "dims \<Rightarrow> ('x, 'k, 'm, 'y) sa_state \<Rightarrow> 'y list" where
  "m_data P s = tab (dim_R P) (\<lambda>r. ro (pes s ! r ! (dim_C P - 1)))"

definition sk_reversed :: "dims \<Rightarrow> ('x, 'k) sa_in \<Rightarrow> 'k list" where
  "sk_reversed P i = tab (dim_C P) (\<lambda>c. sk_data i ! (dim_C P - 1 - c))"

definition valid :: "dims \<Rightarrow> ('x, 'k, 'm, 'y) sa_state
    \<Rightarrow> ('x, 'k) sa_in \<Rightarrow> bool list" where
  "valid P s i = n_delay_d (dim_LM P + dim_LA P + dim_D P) (s_valid i) (valid_q s)"

definition vlast :: "dims \<Rightarrow> ('x, 'k, 'm, 'y) sa_state
    \<Rightarrow> ('x, 'k) sa_in \<Rightarrow> bool list" where
  "vlast P s i = n_delay_d (dim_LM P + dim_LA P + dim_D P) (s_valid i \<and> s_last i) (vlast_q s)"

definition sa_reset :: "dims
    \<Rightarrow> ('wx::len word, 'wk::len word, 'wm::len word, 'wy::len word) sa_state" where
  "sa_reset P =
     \<lparr>tri_x = replicate (dim_R P - 1) (replicate (dim_R P) 0),
      tri_k = replicate (dim_C P - 1) (replicate (dim_C P) 0),
      valid_q = replicate (dim_LM P + dim_LA P + dim_D P) False,
      vlast_q = replicate (dim_LM P + dim_LA P + dim_D P) False,
      m_first = replicate (dim_D P) True,
      r_last_q = replicate (dim_D P) False,
      a_valid = replicate (dim_D P) False,
      r_valid = replicate (dim_D P) False,
      pes = replicate (dim_R P) (replicate (dim_C P) (pe_reset (dim_LM P) (dim_LA P)))\<rparr>"

text \<open>
  One clock edge.  \<open>m_first\<close> follows the delayed valid signal in every cycle, also in those where
  \<open>en_mac\<close> is low; the output registers move with \<open>en_shift\<close>, everything else with \<open>en_mac\<close>.
\<close>

definition sa_step :: "dims
    \<Rightarrow> ('wx::len word, 'wk::len word, 'wm::len word, 'wy::len word) sa_state
    \<Rightarrow> ('wx word, 'wk word) sa_in \<Rightarrow> ('wx word, 'wk word, 'wm word, 'wy word) sa_state" where
  "sa_step P s i =
     (if \<not> rstn i then sa_reset P
      else
        let en = en_mac P s i;
            sh = en_shift P s i;
            v = valid P s i;
            vl = vlast P s i;
            xd = tri_out (dim_R P) (sx_data i) (tri_x s);
            kd = tri_out (dim_C P) (sk_reversed P i) (tri_k s)
        in \<lparr>tri_x = tri_step (dim_R P) en (sx_data i) (tri_x s),
            tri_k = tri_step (dim_C P) en (sk_reversed P i) (tri_k s),
            valid_q = n_delay_step (dim_LM P + dim_LA P + dim_D P) en (s_valid i) (valid_q s),
            vlast_q = n_delay_step (dim_LM P + dim_LA P + dim_D P) en (s_valid i \<and> s_last i) (vlast_q s),
            m_first = tab (dim_D P) (\<lambda>d. if v ! (dim_LM P + d) then vl ! (dim_LM P + d) else m_first s ! d),
            r_last_q = tab (dim_D P) (\<lambda>d.
              if d = 0 then False
              else if sh then (if dim_C P - 1 \<le> d \<and> m_last P s then False else r_last s (d - 1))
              else r_last_q s ! d),
            a_valid = tab (dim_D P) (\<lambda>d. if en then vl ! (dim_LM P + dim_LA P + d - 1) else a_valid s ! d),
            r_valid = tab (dim_D P) (\<lambda>d.
              if dim_C P - 1 \<le> d \<and> sh \<and> m_last P s then False
              else if r_copy P s i d then True
              else if r_clear P s i d then False
              else r_valid s ! d),
            pes = tab (dim_R P) (\<lambda>r. tab (dim_C P) (\<lambda>c.
              pe_step (dim_LM P) (dim_LA P) en sh (m_first s ! (r + c)) (v ! (dim_LM P + (r + c)))
                (r_copy P s i (r + c))
                (if r = 0 then kd ! c else ko (pes s ! (r - 1) ! c))
                (if c = 0 then xd ! r else xo (pes s ! r ! (c - 1)))
                (if c = 0 then 0 else ro (pes s ! r ! (c - 1)))
                (pes s ! r ! c)))\<rparr>)"

text \<open>
  The state before cycle \<open>t\<close> when the inputs are the function \<open>inp\<close> and cycle \<open>0\<close> is the first
  after reset, and the beats that leave the array in the cycles before \<open>t\<close>.
\<close>

primrec sa_at :: "dims \<Rightarrow> (nat \<Rightarrow> ('wx::len word, 'wk::len word) sa_in) \<Rightarrow> nat
    \<Rightarrow> ('wx word, 'wk word, 'wm::len word, 'wy::len word) sa_state" where
  "sa_at P inp 0 = sa_reset P"
| "sa_at P inp (Suc t) = sa_step P (sa_at P inp t) (inp t)"

definition m_beat :: "dims \<Rightarrow> ('x, 'k, 'm, 'y) sa_state
    \<Rightarrow> ('x, 'k) sa_in \<Rightarrow> ('y list \<times> bool) list" where
  "m_beat P s i = (if en_shift P s i then [(m_data P s, m_last P s)] else [])"

fun sa_run :: "dims \<Rightarrow> ('wx::len word, 'wk::len word, 'wm::len word, 'wy::len word) sa_state
    \<Rightarrow> ('wx word, 'wk word) sa_in list \<Rightarrow> ('wy word list \<times> bool) list" where
  "sa_run P s [] = []"
| "sa_run P s (i # is) = m_beat P s i @ sa_run P (sa_step P s i) is"

text \<open>The input beats that the array takes.\<close>

fun sa_accepted :: "dims \<Rightarrow> ('wx::len word, 'wk::len word, 'wm::len word, 'wy::len word) sa_state
    \<Rightarrow> ('wx word, 'wk word) sa_in list \<Rightarrow> ('wx word, 'wk word) sa_in list" where
  "sa_accepted P s [] = []"
| "sa_accepted P s (i # is) =
     (if s_valid i \<and> s_ready P s i then [i] else []) @ sa_accepted P (sa_step P s i) is"

lemma sa_run_at:
  fixes inp :: "nat \<Rightarrow> ('wx::len word, 'wk::len word) sa_in"
  shows "sa_run P (sa_at P inp n :: ('wx word, 'wk word, 'wm::len word, 'wy::len word) sa_state) (map inp [n..<n + k])
    = concat (map (\<lambda>u. m_beat P (sa_at P inp u :: ('wx word, 'wk word, 'wm word, 'wy word) sa_state) (inp u)) [n..<n + k])"
proof (induction k arbitrary: n)
  case (Suc k)
  then show ?case using Suc.IH [of "Suc n"] by (simp add: upt_conv_Cons del: upt_Suc)
qed simp

text \<open>
  What the array is for: the columns of the product \<open>x k^T\<close> summed over the beats of each packet,
  with \<open>m_last\<close> on the last column.
\<close>

fun reference :: "dims \<Rightarrow> (nat \<Rightarrow> nat \<Rightarrow> 'wy::len word) \<Rightarrow> ('wx::len word, 'wk::len word) sa_in list
    \<Rightarrow> ('wy word list \<times> bool) list" where
  "reference P a [] = []"
| "reference P a (b # bs) =
     (let a' = (\<lambda>r c. a r c + word_of_int (sint (sx_data b ! r) * sint (sk_data b ! c)))
      in if s_last b
         then tab (dim_C P) (\<lambda>c. (tab (dim_R P) (\<lambda>r. a' r c), c = dim_C P - 1)) @ reference P (\<lambda>_ _. 0) bs
         else reference P a' bs)"

lemma reference_packet:
  "(\<forall>x \<in> set bs. \<not> s_last x) \<Longrightarrow> s_last b \<Longrightarrow>
   reference P a (bs @ [b]) =
     tab (dim_C P) (\<lambda>c. (tab (dim_R P) (\<lambda>r.
       a r c + (\<Sum>x\<leftarrow>bs @ [b]. word_of_int (sint (sx_data x ! r) * sint (sk_data x ! c)))), c = dim_C P - 1))"
  by (induction bs arbitrary: a) (simp_all add: Let_def add.assoc del: of_int_mult)

section \<open>Signals in the past\<close>

text \<open>The value of a signal \<open>n\<close> cycles ago, or the reset value.\<close>

definition past :: "'a \<Rightarrow> nat \<Rightarrow> (nat \<Rightarrow> 'a) \<Rightarrow> nat \<Rightarrow> 'a" where
  "past z n f t = (if n \<le> t then f (t - n) else z)"

definition hist :: "'a \<Rightarrow> nat \<Rightarrow> nat \<Rightarrow> (nat \<Rightarrow> 'a) \<Rightarrow> nat \<Rightarrow> 'a list" where
  "hist z N k f t = tab N (\<lambda>n. past z (k + n + 1) f t)"

lemma past_0 [simp]: "past z 0 f t = f t"
  by (simp add: past_def)

lemma past_Suc_0 [simp]: "past z (Suc n) f 0 = z"
  by (simp add: past_def)

lemma past_Suc_Suc [simp]: "past z (Suc n) f (Suc t) = past z n f t"
  by (simp add: past_def)

lemma past_reset: "f 0 = z \<Longrightarrow> past z n f t = f (t - n)"
  by (simp add: past_def)

lemma hist_0: "replicate N z = hist z N k f 0"
  by (rule nth_equalityI) (simp_all add: hist_def)

lemma n_delay_step_hist:
  "n_delay_step N True (past z k f t) (hist z N k f t) = hist z N k f (Suc t)"
  by (rule nth_equalityI) (auto simp: n_delay_step_def hist_def nth_Cons' gr0_conv_Suc)

lemma n_delay_o_hist: "n_delay_o N (past z k f t) (hist z N k f t) = past z (k + N) f t"
  by (cases N) (simp_all add: n_delay_o_def hist_def)

lemma n_delay_d_hist:
  "n < N \<Longrightarrow> n_delay_d N (f t) (hist z N 0 f t) ! n = past z n f t"
  by (cases n) (simp_all add: n_delay_d_def hist_def)

section \<open>The pipeline in closed form\<close>

text \<open>
  What one processing element accumulates over the accepted beats: the reference the pipeline
  is compared with.  \<open>first\<close> says that the next beat starts a new packet.
\<close>

type_synonym ('wx, 'wk) beats = "nat \<Rightarrow> ('wx word, 'wk word) sa_in"

primrec first :: "('wx::len, 'wk::len) beats \<Rightarrow> nat \<Rightarrow> bool" where
  "first inp 0 = True"
| "first inp (Suc t) = (if s_valid (inp t) then s_last (inp t) else first inp t)"

definition beat_prod :: "dims \<Rightarrow> ('wx::len, 'wk::len) beats \<Rightarrow> nat \<Rightarrow> nat \<Rightarrow> nat \<Rightarrow> 'wm::len word" where
  "beat_prod P inp r c t = word_of_int (sint (sx_data (inp t) ! r) * sint (sk_data (inp t) ! (dim_C P - 1 - c)))"

primrec acc :: "('wx::len, 'wk::len) beats \<Rightarrow> (nat \<Rightarrow> 'wm::len word) \<Rightarrow> nat \<Rightarrow> 'wy::len word" where
  "acc inp p 0 = 0"
| "acc inp p (Suc t) =
     (if s_valid (inp t) then word_of_int (sint (p t)) + (if first inp t then 0 else acc inp p t)
      else acc inp p t)"

definition pe_at :: "dims \<Rightarrow> ('wx::len, 'wk::len) beats \<Rightarrow> nat \<Rightarrow> nat \<Rightarrow> nat \<Rightarrow> 'wy::len word
    \<Rightarrow> ('wx word, 'wk word, 'wm::len word, 'wy word) pe" where
  "pe_at P inp t r c v =
     \<lparr>ko = past 0 (r + c + 1) (\<lambda>u. sk_data (inp u) ! (dim_C P - 1 - c)) t,
      xo = past 0 (r + c + 1) (\<lambda>u. sx_data (inp u) ! r) t,
      mul_result = past 0 (r + c + 1) (beat_prod P inp r c) t,
      mul_delay = hist 0 (dim_LM P - 1) (r + c + 1) (beat_prod P inp r c) t,
      a_result = past 0 (dim_LM P + r + c) (acc inp (beat_prod P inp r c :: nat \<Rightarrow> 'wm word)) t,
      acc_delay = hist 0 (dim_LA P - 1) (dim_LM P + r + c) (acc inp (beat_prod P inp r c :: nat \<Rightarrow> 'wm word)) t,
      ro = v\<rparr>"

definition tri_at :: "nat \<Rightarrow> (nat \<Rightarrow> nat \<Rightarrow> 'a::zero) \<Rightarrow> nat \<Rightarrow> 'a list list" where
  "tri_at N x t = tab (N - 1) (\<lambda>r. tab N (\<lambda>c. if r + 1 \<le> c then past 0 (r + 1) (x c) t else 0))"

definition pipe :: "dims \<Rightarrow> ('wx::len, 'wk::len) beats \<Rightarrow> nat \<Rightarrow> (nat \<Rightarrow> nat \<Rightarrow> 'wy::len word)
    \<Rightarrow> (nat \<Rightarrow> bool) \<Rightarrow> (nat \<Rightarrow> bool) \<Rightarrow> ('wx word, 'wk word, 'wm::len word, 'wy word) sa_state" where
  "pipe P inp t ro_f rv rl =
     \<lparr>tri_x = tri_at (dim_R P) (\<lambda>c u. sx_data (inp u) ! c) t,
      tri_k = tri_at (dim_C P) (\<lambda>c u. sk_data (inp u) ! (dim_C P - 1 - c)) t,
      valid_q = hist False (dim_LM P + dim_LA P + dim_D P) 0 (\<lambda>u. s_valid (inp u)) t,
      vlast_q = hist False (dim_LM P + dim_LA P + dim_D P) 0 (\<lambda>u. s_valid (inp u) \<and> s_last (inp u)) t,
      m_first = tab (dim_D P) (\<lambda>d. past True (dim_LM P + d) (first inp) t),
      r_last_q = tab (dim_D P) rl,
      a_valid = tab (dim_D P) (\<lambda>d. past False (dim_LM P + dim_LA P + d) (\<lambda>u. s_valid (inp u) \<and> s_last (inp u)) t),
      r_valid = tab (dim_D P) rv,
      pes = tab (dim_R P) (\<lambda>r. tab (dim_C P) (\<lambda>c. pe_at P inp t r c (ro_f r c)))\<rparr>"

lemma tab_const: "tab n (\<lambda>_. z) = replicate n z"
  by (simp add: tab_def map_replicate_const)

lemma past_at_0 [simp]: "0 < n \<Longrightarrow> past z n f 0 = z"
  by (simp add: past_def)

lemma past_start: "f 0 = z \<Longrightarrow> past z n f 0 = z"
  by (simp add: past_def)

lemma tri_at_0: "tri_at N x 0 = replicate (N - 1) (replicate N 0)"
  by (auto simp: tri_at_def tab_const [symmetric] intro!: tab_cong)

lemma pe_at_0: "pe_at P inp 0 r c 0 = pe_reset (dim_LM P) (dim_LA P)"
  by (simp add: pe_at_def pe_reset_def past_start hist_0 [symmetric])

lemma pipe_0:
  assumes "0 < dim_LM P"
  shows "pipe P inp 0 (\<lambda>_ _. 0) (\<lambda>_. False) (\<lambda>_. False) = sa_reset P"
  using assms
  by (simp add: pipe_def sa_reset_def tri_at_0 hist_0 [symmetric] tab_const past_start pe_at_0)

section \<open>A step of the pipeline\<close>

lemma tri_step_at:
  assumes "\<And>c. c < N \<Longrightarrow> xs ! c = x c t" "length xs = N"
  shows "tri_step N True xs (tri_at N x t) = tri_at N x (Suc t)"
  unfolding tri_step_def tri_at_def using assms(1)
  by (auto intro!: tab_cong simp: nth_Cons' gr0_conv_Suc)

lemma tri_out_at:
  assumes "\<And>c. c < N \<Longrightarrow> xs ! c = x c t" "c < N"
  shows "tri_out N xs (tri_at N x t) ! c = past 0 c (x c) t"
  using assms by (auto simp: tri_out_def tri_at_def nth_Cons' gr0_conv_Suc)

lemma mac_y_at:
  assumes "0 < dim_LA P"
  shows "mac_y (dim_LA P) (pe_at P inp t r c v :: ('wx::len word, 'wk::len word, 'wm::len word, 'wy::len word) pe)
    = acc inp (beat_prod P inp r c :: nat \<Rightarrow> 'wm word) (t - (dim_LM P + dim_LA P + r + c - 1))"
proof -
  let ?a = "acc inp (beat_prod P inp r c :: nat \<Rightarrow> 'wm word) :: nat \<Rightarrow> 'wy word"
  have "past 0 (dim_LM P + r + c + (dim_LA P - 1)) ?a t = ?a (t - (dim_LM P + r + c + (dim_LA P - 1)))"
    by (rule past_reset) simp
  moreover have "dim_LM P + r + c + (dim_LA P - 1) = dim_LM P + dim_LA P + r + c - 1"
    using assms by simp
  ultimately show ?thesis
    by (simp only: mac_y_def pe_at_def pe.simps n_delay_o_hist)
qed

lemma acc_past_step:
  assumes "p' = past 0 n p t"
  shows "(if past False n (\<lambda>u. s_valid (inp u)) t
          then word_of_int (sint p') + (if past True n (first inp) t then 0 else past 0 n (acc inp p) t)
          else past 0 n (acc inp p) t) = past 0 n (acc inp p) (Suc t)"
  using assms by (auto simp: past_def Suc_diff_le not_less_eq_eq dest: le_antisym)

lemma pe_step_at:
  fixes ki :: "'wk::len word" and xi :: "'wx::len word" and v ri :: "'wy::len word"
  assumes "0 < dim_LM P" "0 < dim_LA P"
    and "ki = past 0 (r + c) (\<lambda>u. sk_data (inp u) ! (dim_C P - 1 - c)) t"
    and "xi = past 0 (r + c) (\<lambda>u. sx_data (inp u) ! r) t"
  shows "pe_step (dim_LM P) (dim_LA P) True sh (past True (dim_LM P + (r + c)) (first inp) t)
      (past False (dim_LM P + (r + c)) (\<lambda>u. s_valid (inp u)) t) cp ki xi ri
      (pe_at P inp t r c v :: ('wx word, 'wk word, 'wm::len word, 'wy word) pe)
    = pe_at P inp (Suc t) r c
        (if cp then acc inp (beat_prod P inp r c :: nat \<Rightarrow> 'wm word) (t - (dim_LM P + dim_LA P + r + c - 1))
         else if sh then ri else v)"
proof -
  let ?p = "beat_prod P inp r c :: nat \<Rightarrow> 'wm word"
  let ?n = "dim_LM P + (r + c)"
  have mul: "word_of_int (sint xi * sint ki) = past 0 (r + c) ?p t"
    using assms(3,4) by (simp add: past_def beat_prod_def)
  have m: "n_delay_o (dim_LM P - 1) (past 0 (r + c + 1) ?p t) (hist 0 (dim_LM P - 1) (r + c + 1) ?p t)
      = past 0 ?n ?p t"
    using assms(1) by (simp add: n_delay_o_hist add.commute add.left_commute)
  have a: "(if past False ?n (\<lambda>u. s_valid (inp u)) t
          then word_of_int (sint (past 0 ?n ?p t)) + (if past True ?n (first inp) t then 0 else past 0 ?n (acc inp ?p) t)
          else past 0 ?n (acc inp ?p) t) = (past 0 ?n (acc inp ?p) (Suc t) :: 'wy word)"
    by (rule acc_past_step) simp
  note my = mac_y_at [OF assms(2), of inp t r c v]
  show ?thesis
    unfolding pe_step_def Let_def my
    unfolding pe_at_def
    using m mul a assms(3,4) n_delay_step_hist [of "dim_LM P - 1" 0 "r + c + 1" ?p t]
      n_delay_step_hist [of "dim_LA P - 1" 0 ?n "acc inp ?p :: nat \<Rightarrow> 'wy word" t]
    by (simp add: add.assoc cong: if_cong)
qed

lemma m_first_at:
  "(if past False n (\<lambda>u. s_valid (inp u)) t then past False n (\<lambda>u. s_valid (inp u) \<and> s_last (inp u)) t
    else past True n (first inp) t) = past True n (first inp) (Suc t)"
  by (auto simp: past_def Suc_diff_le not_less_eq_eq dest: le_antisym)

text \<open>What the wires carry when the registers are in closed form.\<close>

lemma valid_pipe:
  assumes "s = pipe P inp t ro_f rv rl" "n < dim_LM P + dim_LA P + dim_D P"
  shows "valid P s (inp t) ! n = past False n (\<lambda>u. s_valid (inp u)) t"
  using n_delay_d_hist [OF assms(2), of "\<lambda>u. s_valid (inp u)" t False]
  by (simp add: assms(1) valid_def pipe_def)

lemma vlast_pipe:
  assumes "s = pipe P inp t ro_f rv rl" "n < dim_LM P + dim_LA P + dim_D P"
  shows "vlast P s (inp t) ! n = past False n (\<lambda>u. s_valid (inp u) \<and> s_last (inp u)) t"
  using n_delay_d_hist [OF assms(2), of "\<lambda>u. s_valid (inp u) \<and> s_last (inp u)" t False]
  by (simp add: assms(1) vlast_def pipe_def)

lemma pipe_sel:
  assumes "s = pipe P inp t ro_f rv rl"
  shows "d < dim_D P \<Longrightarrow> m_first s ! d = past True (dim_LM P + d) (first inp) t"
    and "d < dim_D P \<Longrightarrow> a_valid s ! d
      = past False (dim_LM P + dim_LA P + d) (\<lambda>u. s_valid (inp u) \<and> s_last (inp u)) t"
    and "d < dim_D P \<Longrightarrow> r_valid s ! d = rv d"
    and "d < dim_D P \<Longrightarrow> r_last_q s ! d = rl d"
    and "r < dim_R P \<Longrightarrow> c < dim_C P \<Longrightarrow> pes s ! r ! c = pe_at P inp t r c (ro_f r c)"
  by (simp_all add: assms pipe_def)

lemma queue_step_pipe:
  fixes inp :: "('wx::len, 'wk::len) beats"
  assumes "s = pipe P inp t ro_f rv rl"
  shows "n_delay_step (dim_LM P + dim_LA P + dim_D P) True (s_valid (inp t)) (valid_q s)
      = hist False (dim_LM P + dim_LA P + dim_D P) 0 (\<lambda>u. s_valid (inp u)) (Suc t)"
    and "n_delay_step (dim_LM P + dim_LA P + dim_D P) True (s_valid (inp t) \<and> s_last (inp t)) (vlast_q s)
      = hist False (dim_LM P + dim_LA P + dim_D P) 0 (\<lambda>u. s_valid (inp u) \<and> s_last (inp u)) (Suc t)"
  using n_delay_step_hist [of "dim_LM P + dim_LA P + dim_D P" False 0 "\<lambda>u. s_valid (inp u)" t]
    n_delay_step_hist [of "dim_LM P + dim_LA P + dim_D P" False 0 "\<lambda>u. s_valid (inp u) \<and> s_last (inp u)" t]
  by (simp_all add: assms pipe_def)

lemma tri_pipe:
  fixes inp :: "('wx::len, 'wk::len) beats"
  assumes "s = pipe P inp t ro_f rv rl"
  shows "length (sx_data (inp t)) = dim_R P \<Longrightarrow>
      tri_step (dim_R P) True (sx_data (inp t)) (tri_x s)
        = tri_at (dim_R P) (\<lambda>c u. sx_data (inp u) ! c) (Suc t)"
    and "tri_step (dim_C P) True (sk_reversed P (inp t)) (tri_k s)
        = tri_at (dim_C P) (\<lambda>c u. sk_data (inp u) ! (dim_C P - 1 - c)) (Suc t)"
    and "r < dim_R P \<Longrightarrow>
      tri_out (dim_R P) (sx_data (inp t)) (tri_x s) ! r = past 0 r (\<lambda>u. sx_data (inp u) ! r) t"
    and "c < dim_C P \<Longrightarrow>
      tri_out (dim_C P) (sk_reversed P (inp t)) (tri_k s) ! c
        = past 0 c (\<lambda>u. sk_data (inp u) ! (dim_C P - 1 - c)) t"
  using tri_step_at [of "dim_R P" "sx_data (inp t)" "\<lambda>c u. sx_data (inp u) ! c" t]
    tri_step_at [of "dim_C P" "sk_reversed P (inp t)" "\<lambda>c u. sk_data (inp u) ! (dim_C P - 1 - c)" t]
    tri_out_at [of "dim_R P" "sx_data (inp t)" "\<lambda>c u. sx_data (inp u) ! c" t r]
    tri_out_at [of "dim_C P" "sk_reversed P (inp t)" "\<lambda>c u. sk_data (inp u) ! (dim_C P - 1 - c)" t c]
  by (simp_all add: assms pipe_def sk_reversed_def)

text \<open>The three inputs of a processing element come from its neighbours or from the buffers.\<close>

lemma pe_inputs_pipe:
  fixes s :: "('wx::len word, 'wk::len word, 'wm::len word, 'wy::len word) sa_state"
  assumes "r < dim_R P" "c < dim_C P" "s = pipe P inp t ro_f rv rl"
  shows "(if r = 0 then tri_out (dim_C P) (sk_reversed P (inp t)) (tri_k s) ! c else ko (pes s ! (r - 1) ! c))
      = past 0 (r + c) (\<lambda>u. sk_data (inp u) ! (dim_C P - 1 - c)) t"
    and "(if c = 0 then tri_out (dim_R P) (sx_data (inp t)) (tri_x s) ! r else xo (pes s ! r ! (c - 1)))
      = past 0 (r + c) (\<lambda>u. sx_data (inp u) ! r) t"
    and "(if c = 0 then 0 else ro (pes s ! r ! (c - 1))) = (if c = 0 then 0 else ro_f r (c - 1))"
proof -
  show "(if r = 0 then tri_out (dim_C P) (sk_reversed P (inp t)) (tri_k s) ! c else ko (pes s ! (r - 1) ! c))
      = past 0 (r + c) (\<lambda>u. sk_data (inp u) ! (dim_C P - 1 - c)) t"
    using assms(1,2) by (cases r) (simp_all add: tri_pipe [OF assms(3)] pipe_sel [OF assms(3)] pe_at_def)
  show "(if c = 0 then tri_out (dim_R P) (sx_data (inp t)) (tri_x s) ! r else xo (pes s ! r ! (c - 1)))
      = past 0 (r + c) (\<lambda>u. sx_data (inp u) ! r) t"
    using assms(1,2) by (cases c) (simp_all add: tri_pipe [OF assms(3)] pipe_sel [OF assms(3)] pe_at_def)
  show "(if c = 0 then 0 else ro (pes s ! r ! (c - 1))) = (if c = 0 then 0 else ro_f r (c - 1))"
    using assms(1,2) by (cases c) (simp_all add: pipe_sel [OF assms(3)] pe_at_def)
qed

lemma a_valid_step_pipe:
  assumes "s = pipe P inp t ro_f rv rl" "d < dim_D P" "0 < dim_LM P"
  shows "vlast P s (inp t) ! (dim_LM P + dim_LA P + d - 1)
      = past False (dim_LM P + dim_LA P + d) (\<lambda>u. s_valid (inp u) \<and> s_last (inp u)) (Suc t)"
proof -
  let ?n = "dim_LM P + dim_LA P + d - 1"
  have "Suc ?n = dim_LM P + dim_LA P + d" and "?n < dim_LM P + dim_LA P + dim_D P" using assms by simp_all
  then show ?thesis
    using vlast_pipe [OF assms(1), of ?n] past_Suc_Suc [of False ?n "\<lambda>u. s_valid (inp u) \<and> s_last (inp u)" t]
    by simp
qed

lemma m_first_step_pipe:
  assumes "s = pipe P inp t ro_f rv rl" "d < dim_D P"
  shows "(if valid P s (inp t) ! (dim_LM P + d) then vlast P s (inp t) ! (dim_LM P + d)
       else m_first s ! d) = past True (dim_LM P + d) (first inp) (Suc t)"
proof -
  have n: "dim_LM P + d < dim_LM P + dim_LA P + dim_D P" using assms by simp
  show ?thesis
    unfolding valid_pipe [OF assms(1) n] vlast_pipe [OF assms(1) n] pipe_sel(1) [OF assms] by (rule m_first_at)
qed

lemma sa_step_pipe:
  fixes s :: "('wx::len word, 'wk::len word, 'wm::len word, 'wy::len word) sa_state"
  assumes pos: "0 < dim_LM P" "0 < dim_LA P"
    and s: "s = pipe P inp t ro_f rv rl"
    and i: "rstn (inp t)" "length (sx_data (inp t)) = dim_R P"
    and en: "en_mac P s (inp t) = True"
  shows "sa_step P s (inp t) = pipe P inp (Suc t)
     (\<lambda>r c. if r_copy P s (inp t) (r + c)
            then acc inp (beat_prod P inp r c :: nat \<Rightarrow> 'wm word) (t - (dim_LM P + dim_LA P + r + c - 1))
            else if en_shift P s (inp t) then (if c = 0 then 0 else ro_f r (c - 1)) else ro_f r c)
     (\<lambda>d. if dim_C P - 1 \<le> d \<and> en_shift P s (inp t) \<and> m_last P s then False
          else if r_copy P s (inp t) d then True
          else if r_clear P s (inp t) d then False else rv d)
     (\<lambda>d. if d = 0 then False
          else if en_shift P s (inp t)
          then (if dim_C P - 1 \<le> d \<and> m_last P s then False else r_last s (d - 1)) else rl d)"
proof -
  have pe: "pe_step (dim_LM P) (dim_LA P) True (en_shift P s (inp t)) (m_first s ! (r + c))
        (valid P s (inp t) ! (dim_LM P + (r + c))) (r_copy P s (inp t) (r + c))
        (if r = 0 then tri_out (dim_C P) (sk_reversed P (inp t)) (tri_k s) ! c else ko (pes s ! (r - 1) ! c))
        (if c = 0 then tri_out (dim_R P) (sx_data (inp t)) (tri_x s) ! r else xo (pes s ! r ! (c - 1)))
        (if c = 0 then 0 else ro (pes s ! r ! (c - 1))) (pes s ! r ! c)
      = pe_at P inp (Suc t) r c
          (if r_copy P s (inp t) (r + c)
            then acc inp (beat_prod P inp r c :: nat \<Rightarrow> 'wm word) (t - (dim_LM P + dim_LA P + r + c - 1))
            else if en_shift P s (inp t) then (if c = 0 then 0 else ro_f r (c - 1)) else ro_f r c)"
    if rc: "r < dim_R P" "c < dim_C P" for r c
  proof -
    have d: "r + c < dim_D P" using rc by (simp add: dim_D_def)
    have "m_first s ! (r + c) = past True (dim_LM P + (r + c)) (first inp) t"
      "valid P s (inp t) ! (dim_LM P + (r + c)) = past False (dim_LM P + (r + c)) (\<lambda>u. s_valid (inp u)) t"
      "pes s ! r ! c = pe_at P inp t r c (ro_f r c)"
      using d rc by (simp_all add: pipe_sel [OF s] valid_pipe [OF s])
    note w = this pe_inputs_pipe [OF rc s]
    show ?thesis unfolding w by (rule pe_step_at [OF pos refl refl])
  qed
  show ?thesis
    unfolding sa_step_def Let_def en pipe_def [of P inp "Suc t"]
    using i pos by (simp add: pe tri_pipe [OF s] queue_step_pipe [OF s] m_first_step_pipe [OF s]
        a_valid_step_pipe [OF s] pipe_sel(3,4) [OF s] del: One_nat_def cong: tab_cong)
qed

section \<open>One packet\<close>

text \<open>
  One packet after reset: its last beat is in cycle \<open>T\<close>, the other beats are in any of the cycles
  before it, and nothing follows.  The output is complete in cycle \<open>out_time P T\<close>; \<open>taken\<close> counts
  the cycles since then in which the receiver was ready.
\<close>

definition one_packet :: "dims \<Rightarrow> ('wx::len, 'wk::len) beats \<Rightarrow> nat \<Rightarrow> bool" where
  "one_packet P inp T \<longleftrightarrow>
     (\<forall>t. rstn (inp t) \<and> length (sx_data (inp t)) = dim_R P) \<and>
     (\<forall>t. s_valid (inp t) \<and> s_last (inp t) \<longleftrightarrow> t = T) \<and> (\<forall>t>T. \<not> s_valid (inp t))"

definition dims_ok :: "dims \<Rightarrow> bool" where
  "dims_ok P \<longleftrightarrow> 0 < dim_R P \<and> 0 < dim_C P \<and> 0 < dim_LM P \<and> 0 < dim_LA P"

definition out_time :: "dims \<Rightarrow> nat \<Rightarrow> nat" where
  "out_time P T = T + dim_LM P + dim_LA P + dim_D P"

definition taken :: "dims \<Rightarrow> ('wx::len, 'wk::len) beats \<Rightarrow> nat \<Rightarrow> nat \<Rightarrow> nat" where
  "taken P inp T t = length (filter (\<lambda>u. m_ready (inp u)) [out_time P T..<t])"

lemma taken_early [simp]: "t \<le> out_time P T \<Longrightarrow> taken P inp T t = 0"
  by (simp add: taken_def)

lemma taken_Suc:
  "taken P inp T (Suc t) = taken P inp T t + (if out_time P T \<le> t \<and> m_ready (inp t) then 1 else 0)"
  by (simp add: taken_def)

text \<open>The output registers before cycle \<open>t\<close>.\<close>

definition rv_at :: "dims \<Rightarrow> ('wx::len, 'wk::len) beats \<Rightarrow> nat \<Rightarrow> nat \<Rightarrow> nat \<Rightarrow> bool" where
  "rv_at P inp T t d \<longleftrightarrow>
     T + dim_LM P + dim_LA P + d < t \<and> taken P inp T t \<le> d \<and> taken P inp T t < dim_C P"

definition rl_at :: "dims \<Rightarrow> ('wx::len, 'wk::len) beats \<Rightarrow> nat \<Rightarrow> nat \<Rightarrow> nat \<Rightarrow> bool" where
  "rl_at P inp T t d \<longleftrightarrow> d \<noteq> 0 \<and> taken P inp T t = d \<and> taken P inp T t < dim_C P"

definition ro_ok :: "dims \<Rightarrow> ('wx::len, 'wk::len) beats \<Rightarrow> nat \<Rightarrow> nat
    \<Rightarrow> (nat \<Rightarrow> nat \<Rightarrow> 'wy word) \<Rightarrow> (nat \<Rightarrow> nat \<Rightarrow> 'wy::len word) \<Rightarrow> bool" where
  "ro_ok P inp T t a ro_f \<longleftrightarrow>
     (\<forall>r c. r < dim_R P \<longrightarrow> c < dim_C P \<longrightarrow> T + dim_LM P + dim_LA P + r + c < t \<longrightarrow>
       taken P inp T t \<le> c \<longrightarrow> ro_f r c = a r (c - taken P inp T t))"

lemma a_valid_at:
  assumes "one_packet P inp T"
  shows "past False n (\<lambda>u. s_valid (inp u) \<and> s_last (inp u)) t \<longleftrightarrow> t = T + n"
  using assms by (auto simp: past_def one_packet_def)

text \<open>The control wires, when the registers are as above.\<close>

lemma control_at:
  assumes "one_packet P inp T" "dims_ok P"
    and s: "s = pipe P inp t ro_f (rv_at P inp T t) (rl_at P inp T t)"
  shows "m_valid P s \<longleftrightarrow> out_time P T \<le> t \<and> taken P inp T t < dim_C P"
    and "d < dim_D P \<Longrightarrow> r_copy P s (inp t) d \<longleftrightarrow> t = T + dim_LM P + dim_LA P + d"
    and "en_mac P s (inp t) = True"
    and "en_shift P s (inp t) \<longleftrightarrow> out_time P T \<le> t \<and> taken P inp T t < dim_C P \<and> m_ready (inp t)"
    and "out_time P T \<le> t \<Longrightarrow> d < dim_D P \<Longrightarrow> r_last s d \<longleftrightarrow> taken P inp T t = d \<and> taken P inp T t < dim_C P"
    and "out_time P T \<le> t \<Longrightarrow> m_last P s \<longleftrightarrow> taken P inp T t = dim_C P - 1"
proof -
  have D: "0 < dim_D P" "dim_C P \<le> dim_D P" using assms(2) by (auto simp: dims_ok_def dim_D_def)
  have av: "d < dim_D P \<Longrightarrow> a_valid s ! d \<longleftrightarrow> t = T + dim_LM P + dim_LA P + d" for d
    using pipe_sel(2) [OF s, of d] a_valid_at [OF assms(1), of "dim_LM P + dim_LA P + d" t] by (simp add: add.assoc)
  have rv: "d < dim_D P \<Longrightarrow> r_valid s ! d \<longleftrightarrow> rv_at P inp T t d" for d
    using pipe_sel(3) [OF s] by simp
  show mv: "m_valid P s \<longleftrightarrow> out_time P T \<le> t \<and> taken P inp T t < dim_C P"
    using D by (auto simp: m_valid_def rv rv_at_def out_time_def)
  have cp: "d < dim_D P \<Longrightarrow> can_copy s d \<longleftrightarrow> t = T + dim_LM P + dim_LA P + d" for d
    by (auto simp: can_copy_def av rv rv_at_def)
  have st: "d < dim_D P \<Longrightarrow> t = T + dim_LM P + dim_LA P + d \<Longrightarrow> \<not> m_stall P s (inp t) d" for d
    by (simp add: m_stall_def mv out_time_def)
  show "r_copy P s (inp t) d \<longleftrightarrow> t = T + dim_LM P + dim_LA P + d" if "d < dim_D P" for d
    using that cp st by (auto simp: r_copy_def)
  show "en_mac P s (inp t) = True"
    using cp st by (auto simp: en_mac_def list_all_iff conflict_def av rv rv_at_def reg_stall_def)
  show "en_shift P s (inp t) \<longleftrightarrow> out_time P T \<le> t \<and> taken P inp T t < dim_C P \<and> m_ready (inp t)"
    by (auto simp: en_shift_def mv)
  show rl: "r_last s d \<longleftrightarrow> taken P inp T t = d \<and> taken P inp T t < dim_C P"
    if "out_time P T \<le> t" "d < dim_D P" for d
    using that D by (auto simp: r_last_def rv pipe_sel(4) [OF s] rl_at_def rv_at_def out_time_def)
  show "m_last P s \<longleftrightarrow> taken P inp T t = dim_C P - 1" if "out_time P T \<le> t"
    using rl [OF that, of "dim_C P - 1"] D assms(2) by (auto simp: m_last_def dims_ok_def)
qed

lemma pipe_cong:
  assumes "\<And>d. d < dim_D P \<Longrightarrow> rv d = rv' d" "\<And>d. d < dim_D P \<Longrightarrow> rl d = rl' d"
  shows "pipe P inp t ro_f rv rl = pipe P inp t ro_f rv' rl'"
  using assms by (simp add: pipe_def cong: tab_cong)

lemma rv_step:
  assumes "one_packet P inp T" "dims_ok P" "d < dim_D P"
    and s: "s = pipe P inp t ro_f (rv_at P inp T t) (rl_at P inp T t)"
  shows "(if dim_C P - 1 \<le> d \<and> en_shift P s (inp t) \<and> m_last P s then False
          else if r_copy P s (inp t) d then True
          else if r_clear P s (inp t) d then False else rv_at P inp T t d) = rv_at P inp T (Suc t) d"
proof (cases "out_time P T \<le> t")
  case False
  then show ?thesis
    using assms control_at(2,4) [OF assms(1,2) s]
    by (auto simp: r_clear_def rv_at_def taken_Suc dims_ok_def)
next
  case True
  have "\<not> t = T + dim_LM P + dim_LA P + d" using True assms(3) by (simp add: out_time_def)
  moreover have "T + dim_LM P + dim_LA P + d < t" using True assms(3) by (simp add: out_time_def)
  ultimately show ?thesis
    using True control_at [OF assms(1,2) s] assms(2,3)
    by (auto simp: r_clear_def rv_at_def taken_Suc dims_ok_def)
qed

lemma rl_step:
  assumes "one_packet P inp T" "dims_ok P" "d < dim_D P"
    and s: "s = pipe P inp t ro_f (rv_at P inp T t) (rl_at P inp T t)"
  shows "(if d = 0 then False
          else if en_shift P s (inp t)
          then (if dim_C P - 1 \<le> d \<and> m_last P s then False else r_last s (d - 1))
          else rl_at P inp T t d) = rl_at P inp T (Suc t) d"
proof (cases "out_time P T \<le> t")
  case False
  then show ?thesis
    using assms control_at(4) [OF assms(1,2) s] by (auto simp: rl_at_def taken_Suc)
next
  case True
  then show ?thesis
    using control_at(4,6) [OF assms(1,2) s] control_at(5) [OF assms(1,2) s, of "d - 1"] assms(2,3)
    by (auto simp: rl_at_def taken_Suc dims_ok_def)
qed

lemma ro_step:
  fixes a :: "nat \<Rightarrow> nat \<Rightarrow> nat \<Rightarrow> 'wy::len word"
  assumes "one_packet P inp T" "dims_ok P"
    and s: "s = pipe P inp t ro_f (rv_at P inp T t) (rl_at P inp T t)"
    and ok: "ro_ok P inp T t (\<lambda>r c. a r c (Suc T)) ro_f"
  shows "ro_ok P inp T (Suc t) (\<lambda>r c. a r c (Suc T))
     (\<lambda>r c. if r_copy P s (inp t) (r + c) then a r c (t - (dim_LM P + dim_LA P + r + c - 1))
            else if en_shift P s (inp t) then (if c = 0 then 0 else ro_f r (c - 1)) else ro_f r c)"
  unfolding ro_ok_def
proof (intro allI impI)
  fix r c assume rc: "r < dim_R P" "c < dim_C P" and t: "T + dim_LM P + dim_LA P + r + c < Suc t"
    and k: "taken P inp T (Suc t) \<le> c"
  have d: "r + c < dim_D P" using rc by (simp add: dim_D_def)
  note w = control_at(2) [OF assms(1,2) s d] control_at(4) [OF assms(1,2) s]
  show "(if r_copy P s (inp t) (r + c) then a r c (t - (dim_LM P + dim_LA P + r + c - 1))
            else if en_shift P s (inp t) then (if c = 0 then 0 else ro_f r (c - 1)) else ro_f r c)
        = a r (c - taken P inp T (Suc t)) (Suc T)"
  proof (cases "t = T + dim_LM P + dim_LA P + (r + c)")
    case True
    have "t - (dim_LM P + dim_LA P + r + c - 1) = Suc T" using True assms(2) by (simp add: dims_ok_def)
    moreover have "t < out_time P T" using True d by (simp add: out_time_def)
    ultimately show ?thesis using True w by simp
  next
    case False
    then have "T + dim_LM P + dim_LA P + r + c < t" using t by simp
    then show ?thesis
      using False w ok rc k unfolding ro_ok_def by (cases c) (auto simp: taken_Suc)
  qed
qed

lemma sa_at_pipe:
  assumes "one_packet P inp T" "dims_ok P"
  shows "\<exists>ro_f. (sa_at P inp t :: ('wx::len word, 'wk::len word, 'wm::len word, 'wy::len word) sa_state)
      = pipe P inp t ro_f (rv_at P inp T t) (rl_at P inp T t)
    \<and> ro_ok P inp T t (\<lambda>r c. acc inp (beat_prod P inp r c :: nat \<Rightarrow> 'wm word) (Suc T)) ro_f"
proof (induction t)
  case 0
  have "sa_at P inp 0 = pipe P inp 0 (\<lambda>_ _. 0) (\<lambda>_. False) (\<lambda>_. False)"
    using assms(2) by (simp add: pipe_0 dims_ok_def)
  moreover have "rv_at P inp T 0 = (\<lambda>_. False)" "rl_at P inp T 0 = (\<lambda>_. False)"
    by (auto simp: rv_at_def rl_at_def fun_eq_iff)
  ultimately show ?case by (auto simp: ro_ok_def)
next
  case (Suc t)
  then obtain ro_f where s: "(sa_at P inp t :: ('wx word, 'wk word, 'wm word, 'wy word) sa_state)
      = pipe P inp t ro_f (rv_at P inp T t) (rl_at P inp T t)"
    and ok: "ro_ok P inp T t (\<lambda>r c. acc inp (beat_prod P inp r c :: nat \<Rightarrow> 'wm word) (Suc T)) ro_f" by blast
  have pos: "0 < dim_LM P" "0 < dim_LA P" and i: "rstn (inp t)" "length (sx_data (inp t)) = dim_R P"
    using assms by (simp_all add: dims_ok_def one_packet_def)
  note step = sa_step_pipe [OF pos s i control_at(3) [OF assms s]]
  show ?case
    unfolding sa_at.simps(2) step
    by (rule exI, rule conjI, rule pipe_cong [OF rv_step [OF assms _ s] rl_step [OF assms _ s]], assumption, assumption,
        rule ro_step [OF assms s, where a = "\<lambda>r c. acc inp (beat_prod P inp r c :: nat \<Rightarrow> 'wm word)", OF ok])
qed

section \<open>The product\<close>

text \<open>The columns of the product, each with the flag that marks the last one.\<close>

definition product_at :: "('wx::len, 'wk::len) beats \<Rightarrow> nat \<Rightarrow> nat \<Rightarrow> nat \<Rightarrow> 'wy::len word" where
  "product_at inp T r c =
     (\<Sum>u\<leftarrow>filter (\<lambda>u. s_valid (inp u)) [0..<Suc T].
        word_of_int (sint (sx_data (inp u) ! r) * sint (sk_data (inp u) ! c)))"

definition product_beats :: "dims \<Rightarrow> ('wx::len, 'wk::len) beats \<Rightarrow> nat \<Rightarrow> ('wy::len word list \<times> bool) list" where
  "product_beats P inp T =
     tab (dim_C P) (\<lambda>c. (tab (dim_R P) (\<lambda>r. product_at inp T r c), c = dim_C P - 1))"

lemma sint_exact:
  "- (2 ^ (LENGTH('a) - 1)) \<le> y \<Longrightarrow> y < 2 ^ (LENGTH('a) - 1) \<Longrightarrow> sint (word_of_int y :: 'a::len word) = y"
  by (simp add: sint_sbintrunc' signed_take_bit_int_eq_self)

lemma sint_times:
  assumes "LENGTH('wx::len) + LENGTH('wk::len) \<le> LENGTH('wm::len)"
  shows "sint (word_of_int (sint (x :: 'wx word) * sint (k :: 'wk word)) :: 'wm word) = sint x * sint k"
proof -
  let ?a = "2 ^ (LENGTH('wx) - 1) :: int" and ?b = "2 ^ (LENGTH('wk) - 1) :: int"
  have len: "LENGTH('wx) - 1 + (LENGTH('wk) - 1) < LENGTH('wm) - 1"
    using assms len_gt_0 [where 'a = 'wx] len_gt_0 [where 'a = 'wk] by linarith
  have "\<bar>sint x\<bar> \<le> ?a" "\<bar>sint k\<bar> \<le> ?b"
    using sint_range_size [of x] sint_range_size [of k] by (auto simp: word_size)
  then have "\<bar>sint x * sint k\<bar> \<le> ?a * ?b"
    by (simp add: abs_mult mult_mono)
  also have "?a * ?b = 2 ^ (LENGTH('wx) - 1 + (LENGTH('wk) - 1))"
    by (simp add: power_add)
  also have "\<dots> < 2 ^ (LENGTH('wm) - 1)"
    by (rule power_strict_increasing [OF len]) simp
  finally show ?thesis
    by (intro sint_exact) linarith+
qed

lemma first_one_packet:
  assumes "one_packet P inp T" "t \<le> T"
  shows "first inp t \<longleftrightarrow> filter (\<lambda>u. s_valid (inp u)) [0..<t] = []"
  using assms(2)
proof (induction t)
  case (Suc t)
  then have "\<not> (s_valid (inp t) \<and> s_last (inp t))" using assms(1) by (simp add: one_packet_def)
  then show ?case using Suc by auto
qed simp

lemma acc_one_packet:
  assumes "one_packet P inp T" "t \<le> Suc T"
  shows "acc inp p t = (\<Sum>u\<leftarrow>filter (\<lambda>u. s_valid (inp u)) [0..<t]. word_of_int (sint (p u)))"
  using assms(2)
proof (induction t)
  case (Suc t)
  then show ?case
    using first_one_packet [OF assms(1), of t] by (auto simp: add.commute)
qed simp

lemma product_element:
  assumes "one_packet P inp T" "LENGTH('wx::len) + LENGTH('wk::len) \<le> LENGTH('wm::len)" "c < dim_C P"
  shows "acc (inp :: ('wx, 'wk) beats) (beat_prod P inp r (dim_C P - 1 - c) :: nat \<Rightarrow> 'wm word) (Suc T)
    = product_at inp T r c"
  using assms(3) unfolding acc_one_packet [OF assms(1) order_refl] beat_prod_def product_at_def sint_times [OF assms(2)]
  by simp

text \<open>A handshake at the output delivers the column that is next.\<close>

lemma m_beat_at:
  fixes inp :: "('wx::len, 'wk::len) beats"
  assumes "one_packet P inp T" "dims_ok P" "LENGTH('wx) + LENGTH('wk) \<le> LENGTH('wm::len)"
  shows "m_beat P (sa_at P inp t :: ('wx word, 'wk word, 'wm word, 'wy::len word) sa_state) (inp t)
    = (if out_time P T \<le> t \<and> taken P inp T t < dim_C P \<and> m_ready (inp t)
       then [product_beats P inp T ! taken P inp T t] else [])"
proof -
  let ?s = "sa_at P inp t :: ('wx word, 'wk word, 'wm word, 'wy word) sa_state"
  obtain ro_f where s: "?s = pipe P inp t ro_f (rv_at P inp T t) (rl_at P inp T t)"
    and ok: "ro_ok P inp T t (\<lambda>r c. acc inp (beat_prod P inp r c :: nat \<Rightarrow> 'wm word) (Suc T)) ro_f"
    using sa_at_pipe [OF assms(1,2)] by blast
  note w = control_at [OF assms(1,2) s]
  have data: "m_data P ?s = fst (product_beats P inp T ! taken P inp T t)"
    if t: "out_time P T \<le> t" and k: "taken P inp T t < dim_C P"
  proof -
    have c: "dim_C P - 1 < dim_C P" using k by simp
    have "ro_f r (dim_C P - 1) = acc inp (beat_prod P inp r (dim_C P - 1 - taken P inp T t) :: nat \<Rightarrow> 'wm word) (Suc T)"
      if r: "r < dim_R P" for r
      using ok r c t k unfolding ro_ok_def by (auto simp: out_time_def dim_D_def)
    then have "ro (pes ?s ! r ! (dim_C P - 1))
        = acc inp (beat_prod P inp r (dim_C P - 1 - taken P inp T t) :: nat \<Rightarrow> 'wm word) (Suc T)"
      if "r < dim_R P" for r
      using that c by (simp add: pipe_sel(5) [OF s] pe_at_def)
    then show ?thesis
      unfolding product_element [OF assms(1,3) k]
      using k by (simp add: m_data_def product_beats_def cong: tab_cong)
  qed
  show ?thesis
    using data w by (auto simp: m_beat_def product_beats_def)
qed

lemma taken_beats:
  fixes inp :: "('wx::len, 'wk::len) beats"
  assumes "one_packet P inp T" "dims_ok P" "LENGTH('wx) + LENGTH('wk) \<le> LENGTH('wm::len)"
  shows "concat (map (\<lambda>u. m_beat P (sa_at P inp u :: ('wx word, 'wk word, 'wm word, 'wy::len word) sa_state) (inp u))
      [0..<t]) = take (taken P inp T t) (product_beats P inp T)"
proof (induction t)
  case (Suc t)
  have len: "length (product_beats P inp T :: ('wy word list \<times> bool) list) = dim_C P"
    by (simp add: product_beats_def)
  show ?case
    using Suc by (simp add: m_beat_at [OF assms] taken_Suc take_Suc_conv_app_nth len)
qed simp

lemma product_beats_reference:
  assumes "one_packet P inp T"
  shows "(product_beats P inp T :: ('wy::len word list \<times> bool) list)
    = reference P (\<lambda>_ _. 0) (filter s_valid (map inp [0..<Suc T]))"
proof -
  have v: "s_valid (inp T)" "s_last (inp T)" and n: "t < T \<Longrightarrow> s_valid (inp t) \<Longrightarrow> \<not> s_last (inp t)" for t
    using assms by (auto simp: one_packet_def)
  have "filter s_valid (map inp [0..<Suc T]) = filter s_valid (map inp [0..<T]) @ [inp T]" using v by simp
  moreover have "\<forall>b \<in> set (filter s_valid (map inp [0..<T])). \<not> s_last b" using n by auto
  ultimately show ?thesis
    using reference_packet [of "filter s_valid (map inp [0..<T])" "inp T" P "\<lambda>_ _. 0 :: 'wy word"] v
    by (simp add: product_beats_def product_at_def filter_map o_def del: of_int_mult)
qed

lemma packet_output:
  fixes inp :: "('wx::len, 'wk::len) beats"
  assumes "dims_ok P" "one_packet P inp T" "LENGTH('wx) + LENGTH('wk) \<le> LENGTH('wm::len)"
  shows "s_ready P (sa_at P inp t :: ('wx word, 'wk word, 'wm word, 'wy::len word) sa_state) (inp t) \<and>
    sa_run P (sa_reset P :: ('wx word, 'wk word, 'wm word, 'wy word) sa_state) (map inp [0..<t])
      = take (length (filter (\<lambda>u. m_ready (inp u)) [out_time P T..<t]))
          (reference P (\<lambda>_ _. 0) (filter s_valid (map inp [0..<Suc T])))"
proof -
  obtain ro_f where s: "(sa_at P inp t :: ('wx word, 'wk word, 'wm word, 'wy word) sa_state)
      = pipe P inp t ro_f (rv_at P inp T t) (rl_at P inp T t)"
    using sa_at_pipe [OF assms(2,1)] by blast
  show ?thesis
    using control_at(3) [OF assms(2,1) s] taken_beats [OF assms(2,1,3), where 'wy = 'wy, of t]
      sa_run_at [where 'wm = 'wm and 'wy = 'wy, of P inp 0 t]
    unfolding product_beats_reference [OF assms(2), symmetric] by (simp add: s_ready_def taken_def)
qed

text \<open>
  C2: The systolic array multiplies.  After reset, for every size, latency and width (with the
  product exact in \<open>WM\<close> bits), one packet of beats with any gaps between them is accepted
  without a stall, and the beats that leave the array up to any cycle \<open>t\<close> are the first columns of
  the product of the packet, in order, with \<open>m_last\<close> on the last column only: one column for each
  cycle in which the receiver was ready after the pipeline delay \<open>LM + LA + R + C - 1\<close>, whatever
  the pattern of \<open>m_ready\<close>.
\<close>
theorem systolic_product:
  fixes inp :: "('wx::len, 'wk::len) beats"
  assumes "dims_ok P" "one_packet P inp T" "LENGTH('wx) + LENGTH('wk) \<le> LENGTH('wm::len)"
  shows "s_ready P (sa_at P inp t :: ('wx word, 'wk word, 'wm word, 'wy::len word) sa_state) (inp t) \<and>
    sa_run P (sa_reset P :: ('wx word, 'wk word, 'wm word, 'wy word) sa_state) (map inp [0..<t])
      = take (length (filter (\<lambda>u. m_ready (inp u)) [out_time P T..<t]))
          (reference P (\<lambda>_ _. 0) (filter s_valid (map inp [0..<Suc T])))"
  by (rule packet_output [OF assms])

definition beat :: "bool \<Rightarrow> bool \<Rightarrow> bool \<Rightarrow> int list \<Rightarrow> int list \<Rightarrow> (8 word, 8 word) sa_in" where
  "beat v l rd x k = \<lparr>rstn = True, s_valid = v, s_last = l, m_ready = rd,
     sx_data = map word_of_int x, sk_data = map word_of_int k\<rparr>"

definition demo_dims :: dims where
  "demo_dims = \<lparr>dim_R = 2, dim_C = 2, dim_LM = 1, dim_LA = 1\<rparr>"

definition demo_inp :: "(8, 8) beats" where
  "demo_inp t =
     (if t = 0 then beat True False False [1, 2] [3, 4]
      else if t = 2 then beat True True False [5, -6] [7, 8]
      else beat False False (8 \<le> t) [9, 9] [9, 9])"

theorem systolic_product_witness:
  "sa_run demo_dims (sa_reset demo_dims :: (8 word, 8 word, 16 word, 32 word) sa_state)
     (map demo_inp [0..<10]) = [([38, -36], False), ([44, -40], True)]"
proof -
  have "dims_ok demo_dims" by (simp add: dims_ok_def demo_dims_def)
  moreover have "one_packet demo_dims demo_inp 2"
    by (auto simp: one_packet_def demo_dims_def demo_inp_def beat_def)
  moreover have "LENGTH(8) + LENGTH(8) \<le> LENGTH(16)" by simp
  moreover have "length (filter (\<lambda>u. m_ready (demo_inp u)) [out_time demo_dims 2..<10]) = 2" by code_simp
  moreover have "take 2 (reference demo_dims (\<lambda>_ _. 0 :: 32 word) (filter s_valid (map demo_inp [0..<Suc 2])))
      = [([38, -36], False), ([44, -40], True)]" by code_simp
  ultimately show ?thesis
    using systolic_product [of demo_dims demo_inp 2, where 'wm = 16 and 'wy = 32 and t = 10] by (simp only:)
qed

section \<open>Back to back packets\<close>

text \<open>
  The flag \<open>m_first\<close> is not held while the array stalls.  Three packets of two beats through an
  array of one element, with a receiver that waits: the second result waits in the accumulator
  for the first to leave, the first beat of the third packet meets the stall, and by the time it
  is accumulated the flag has gone.
\<close>

definition stall_dims :: dims where
  "stall_dims = \<lparr>dim_R = 1, dim_C = 1, dim_LM = 1, dim_LA = 1\<rparr>"

definition stall_inputs :: "(8 word, 8 word) sa_in list" where
  "stall_inputs =
     [beat True False False [1] [10], beat True True False [1] [20],
      beat True False False [1] [30], beat True True False [1] [40],
      beat True False False [1] [50], beat True True False [1] [60],
      beat True True False [1] [60], beat True True False [1] [60],
      beat True True True [1] [60], beat True True True [1] [60],
      beat False False True [0] [0], beat False False True [0] [0], beat False False True [0] [0]]"


end
