(* ===== verification/Skid_Buffer.thy ===== *)
theory Skid_Buffer
  imports Py_Prelude
begin

text \<open>
  \<^verbatim>\<open>rtl/sys/skid_buffer.sv\<close>, the two-place buffer on the four streams around the systolic array.
  A clock edge is \<open>skid_step\<close>.  The contract of a stream buffer (what comes in goes out once and
  in order) is the locale \<open>stream_buffer\<close>; the skid buffer keeps it from the second cycle after
  reset on.
\<close>

section \<open>Stream buffers\<close>

locale stream_buffer =
  fixes step :: "'s \<Rightarrow> 'i \<Rightarrow> 's"
    and good :: "'s \<Rightarrow> bool"
    and held :: "'s \<Rightarrow> 'a list"
    and pushed :: "'s \<Rightarrow> 'i \<Rightarrow> 'a list"
    and popped :: "'s \<Rightarrow> 'i \<Rightarrow> 'a list"
    and cap :: nat
  assumes good_step: "good s \<Longrightarrow> good (step s i)"
    and step_law: "good s \<Longrightarrow> held s @ pushed s i = popped s i @ held (step s i)"
    and held_size: "good s \<Longrightarrow> length (held s) \<le> cap"
begin

fun run :: "'s \<Rightarrow> 'i list \<Rightarrow> 's" where
  "run s [] = s"
| "run s (i # is) = run (step s i) is"

fun ins :: "'s \<Rightarrow> 'i list \<Rightarrow> 'a list" where
  "ins s [] = []"
| "ins s (i # is) = pushed s i @ ins (step s i) is"

fun outs :: "'s \<Rightarrow> 'i list \<Rightarrow> 'a list" where
  "outs s [] = []"
| "outs s (i # is) = popped s i @ outs (step s i) is"

lemma good_run: "good s \<Longrightarrow> good (run s is)"
  by (induction "is" arbitrary: s) (simp_all add: good_step)

lemma conservation: "good s \<Longrightarrow> held s @ ins s is = outs s is @ held (run s is)"
proof (induction "is" arbitrary: s)
  case (Cons i "is")
  then show ?case
    using step_law [OF Cons.prems, of i] Cons.IH [OF good_step [OF Cons.prems], of i]
    by (metis append.assoc ins.simps(2) outs.simps(2) run.simps(2))
qed simp

lemma in_flight: "good s \<Longrightarrow> held s = [] \<Longrightarrow> length (ins s is) \<le> length (outs s is) + cap"
  using conservation [of s "is"] held_size [OF good_run, of s "is"]
  by (metis append_Nil length_append nat_add_left_cancel_le)

end

section \<open>The skid buffer\<close>

datatype skid_fsm = EMPTY | PARTIAL | FULL

record 'a skid =
  fsm :: skid_fsm
  buffer :: 'a
  skid_m_data :: 'a
  skid_m_valid :: bool
  skid_s_ready :: bool

record 'a skid_in =
  skid_s_valid :: bool
  skid_s_data :: 'a
  skid_m_ready :: bool

definition state_next :: "'a skid \<Rightarrow> 'a skid_in \<Rightarrow> skid_fsm" where
  "state_next s i =
     (case fsm s of
        EMPTY \<Rightarrow> if skid_s_valid i then PARTIAL else EMPTY
      | PARTIAL \<Rightarrow>
          if \<not> skid_m_ready i \<and> skid_s_valid i then FULL
          else if skid_m_ready i \<and> \<not> skid_s_valid i then EMPTY
          else PARTIAL
      | FULL \<Rightarrow> if skid_m_ready i then PARTIAL else FULL)"

definition skid_reset :: "'a \<Rightarrow> 'a skid" where
  "skid_reset z = \<lparr>fsm = EMPTY, buffer = z, skid_m_data = z, skid_m_valid = False, skid_s_ready = False\<rparr>"

definition skid_step :: "'a skid \<Rightarrow> 'a skid_in \<Rightarrow> 'a skid" where
  "skid_step s i =
     (let nx = state_next s i
      in \<lparr>fsm = nx,
          buffer = (if fsm s = PARTIAL \<and> nx = FULL then skid_s_data i else buffer s),
          skid_m_data =
            (case fsm s of
               EMPTY \<Rightarrow> if nx = PARTIAL then skid_s_data i else skid_m_data s
             | PARTIAL \<Rightarrow> if skid_m_ready i \<and> skid_s_valid i then skid_s_data i else skid_m_data s
             | FULL \<Rightarrow> if skid_m_ready i then buffer s else skid_m_data s),
          skid_m_valid = (nx \<noteq> EMPTY),
          skid_s_ready = (nx \<noteq> FULL)\<rparr>)"

definition skid_push :: "'a skid \<Rightarrow> 'a skid_in \<Rightarrow> 'a list" where
  "skid_push s i = (if skid_s_valid i \<and> skid_s_ready s then [skid_s_data i] else [])"

definition skid_pop :: "'a skid \<Rightarrow> 'a skid_in \<Rightarrow> 'a list" where
  "skid_pop s i = (if skid_m_valid s \<and> skid_m_ready i then [skid_m_data s] else [])"

text \<open>What the buffer holds, and the relation of the two output flags to the state.\<close>

definition skid_held :: "'a skid \<Rightarrow> 'a list" where
  "skid_held s = (case fsm s of EMPTY \<Rightarrow> [] | PARTIAL \<Rightarrow> [skid_m_data s] | FULL \<Rightarrow> [skid_m_data s, buffer s])"

definition skid_good :: "'a skid \<Rightarrow> bool" where
  "skid_good s \<longleftrightarrow> (skid_m_valid s \<longleftrightarrow> fsm s \<noteq> EMPTY) \<and> (skid_s_ready s \<longleftrightarrow> fsm s \<noteq> FULL)"

lemmas skid_defs = skid_step_def state_next_def skid_good_def skid_push_def skid_pop_def skid_held_def

text \<open>After any clock edge without reset the flags agree with the state.\<close>

lemma skid_step_good [simp]: "skid_good (skid_step s i)"
  by (simp add: skid_good_def skid_step_def Let_def)

lemma skid_step_law:
  "skid_good s \<Longrightarrow> skid_held s @ skid_push s i = skid_pop s i @ skid_held (skid_step s i)"
  by (cases "fsm s") (auto simp: skid_defs Let_def)

interpretation skid: stream_buffer skid_step skid_good skid_held skid_push skid_pop 2
  by unfold_locales
    (simp_all add: skid_step_law, auto simp: skid_held_def split: skid_fsm.splits)

fun skid_run :: "'a skid \<Rightarrow> 'a skid_in list \<Rightarrow> 'a skid" where
  "skid_run s [] = s"
| "skid_run s (i # is) = skid_run (skid_step s i) is"

fun skid_ins :: "'a skid \<Rightarrow> 'a skid_in list \<Rightarrow> 'a list" where
  "skid_ins s [] = []"
| "skid_ins s (i # is) = skid_push s i @ skid_ins (skid_step s i) is"

fun skid_outs :: "'a skid \<Rightarrow> 'a skid_in list \<Rightarrow> 'a list" where
  "skid_outs s [] = []"
| "skid_outs s (i # is) = skid_pop s i @ skid_outs (skid_step s i) is"

lemma skid_runs:
  "skid.run s is = skid_run s is" "skid.ins s is = skid_ins s is" "skid.outs s is = skid_outs s is"
  by (induction "is" arbitrary: s) simp_all

text \<open>
  C9: From reset, when the first cycle brings no data, the skid buffer delivers every accepted word
  once and in order, holds at most two, and never withdraws or changes a word that waits.
\<close>
theorem skid_fifo:
  assumes "\<not> skid_s_valid i" "s = skid_step (skid_reset z) i"
  shows "skid_ins s is = skid_outs s is @ skid_held (skid_run s is) \<and>
    length (skid_held (skid_run s is)) \<le> 2 \<and>
    (\<not> skid_m_ready j \<longrightarrow> skid_m_valid (skid_run s is) \<longrightarrow>
      skid_m_valid (skid_step (skid_run s is) j) \<and>
      skid_m_data (skid_step (skid_run s is) j) = skid_m_data (skid_run s is))"
proof -
  have good: "skid_good s" by (simp add: assms(2))
  have empty: "skid_held s = []" using assms by (simp add: skid_reset_def skid_defs)
  have run: "skid_good (skid_run s is)" using skid.good_run [OF good, of "is"] by (simp add: skid_runs)
  have "skid_ins s is = skid_outs s is @ skid_held (skid_run s is)"
    using skid.conservation [OF good, of "is"] by (simp add: skid_runs empty)
  moreover have "skid_m_valid (skid_step u j) \<and> skid_m_data (skid_step u j) = skid_m_data u"
    if "skid_good u" "\<not> skid_m_ready j" "skid_m_valid u" for u
    using that by (cases "fsm u") (auto simp: skid_defs Let_def)
  ultimately show ?thesis using skid.held_size [OF run] run by blast
qed

definition skid_word :: "bool \<Rightarrow> nat \<Rightarrow> bool \<Rightarrow> nat skid_in" where
  "skid_word v x r = \<lparr>skid_s_valid = v, skid_s_data = x, skid_m_ready = r\<rparr>"

theorem skid_fifo_witness:
  "skid_ins (skid_step (skid_reset 0) (skid_word False 0 False))
     [skid_word True 1 False, skid_word True 2 False, skid_word True 3 False, skid_word True 3 True] = [1, 2] \<and>
   skid_outs (skid_step (skid_reset 0) (skid_word False 0 False))
     [skid_word True 1 False, skid_word True 2 False, skid_word True 3 False, skid_word True 3 True]
     @ [2] = [1, 2]"
  using skid_fifo [of "skid_word False 0 False" _ 0
      "[skid_word True 1 False, skid_word True 2 False, skid_word True 3 False, skid_word True 3 True]"
      "skid_word False 0 False"]
  by (simp add: skid_word_def skid_reset_def skid_defs)

text \<open>
  A word that is offered in the first cycle after reset, when \<open>s_ready\<close> is still low, is
  stored although it is not accepted; when it is accepted one cycle later it is delivered twice.
\<close>
theorem skid_reset_duplicates:
  "skid_ins (skid_reset z) [\<lparr>skid_s_valid = True, skid_s_data = x, skid_m_ready = True\<rparr>,
       \<lparr>skid_s_valid = True, skid_s_data = x, skid_m_ready = True\<rparr>,
       \<lparr>skid_s_valid = False, skid_s_data = x, skid_m_ready = True\<rparr>] = [x] \<and>
   skid_outs (skid_reset z) [\<lparr>skid_s_valid = True, skid_s_data = x, skid_m_ready = True\<rparr>,
       \<lparr>skid_s_valid = True, skid_s_data = x, skid_m_ready = True\<rparr>,
       \<lparr>skid_s_valid = False, skid_s_data = x, skid_m_ready = True\<rparr>] = [x, x]"
  by (simp add: skid_reset_def skid_defs)

end
