(* ===== verification/Accelerator.thy ===== *)
theory Accelerator
  imports Systolic Golden
begin

text \<open>
  The stream side of \<^verbatim>\<open>rtl/sys/top_axi_int.v\<close>: the K and X streams are joined into the input of the
  systolic array, the output of the array is joined with the A stream, and the sum is the Y
  stream.  The last theorem follows the data from \<^verbatim>\<open>run/golden.py\<close> through the hardware and back:
  the bytes that leave on the Y stream are the file \<^verbatim>\<open>y_exp.bin\<close>.
\<close>

record ('x, 'k, 'y) top_in =
  t_rstn :: bool
  k_tvalid :: bool
  k_tlast :: bool
  k_tdata :: "'k list"
  x_tvalid :: bool
  x_tlast :: bool
  x_tdata :: "'x list"
  a_tvalid :: bool
  a_tdata :: "'y list"
  y_tready :: bool

text \<open>What the array sees: \<open>m_ready\<close> is high when the A stream has a word and Y takes one.\<close>

definition sa_of :: "('x, 'k, 'y) top_in \<Rightarrow> ('x, 'k) sa_in" where
  "sa_of i =
     \<lparr>rstn = t_rstn i, s_valid = (k_tvalid i \<and> x_tvalid i), s_last = (k_tlast i \<and> x_tlast i),
      m_ready = (y_tready i \<and> a_tvalid i), sx_data = x_tdata i, sk_data = k_tdata i\<rparr>"

definition k_tready :: "dims \<Rightarrow> ('x, 'k, 'm, 'y) sa_state \<Rightarrow> ('x, 'k, 'y) top_in \<Rightarrow> bool" where
  "k_tready P s i \<longleftrightarrow> s_ready P s (sa_of i) \<and> x_tvalid i"

definition x_tready :: "dims \<Rightarrow> ('x, 'k, 'm, 'y) sa_state \<Rightarrow> ('x, 'k, 'y) top_in \<Rightarrow> bool" where
  "x_tready P s i \<longleftrightarrow> s_ready P s (sa_of i) \<and> k_tvalid i"

text \<open>Both streams hand over a beat in exactly the cycles in which the array takes one.\<close>

lemma streams_joined:
  "(k_tvalid i \<and> k_tready P s i) = (s_valid (sa_of i) \<and> s_ready P s (sa_of i))"
  "(x_tvalid i \<and> x_tready P s i) = (s_valid (sa_of i) \<and> s_ready P s (sa_of i))"
  by (auto simp: k_tready_def x_tready_def sa_of_def)

definition y_tdata :: "dims \<Rightarrow> ('x, 'k, 'm, 'y) sa_state \<Rightarrow> ('x, 'k, 'y::plus) top_in \<Rightarrow> 'y list" where
  "y_tdata P s i = tab (dim_R P) (\<lambda>r. m_data P s ! r + a_tdata i ! r)"

definition y_tlast :: "dims \<Rightarrow> ('x, 'k, 'm, 'y) sa_state \<Rightarrow> ('x, 'k, 'y) top_in \<Rightarrow> bool" where
  "y_tlast P s i \<longleftrightarrow> s_last (sa_of i) \<and> m_last P s"

definition y_beat :: "dims \<Rightarrow> ('x, 'k, 'm, 'y) sa_state \<Rightarrow> ('x, 'k, 'y::plus) top_in \<Rightarrow> ('y list \<times> bool) list" where
  "y_beat P s i =
     (if a_tvalid i \<and> m_valid P s \<and> y_tready i then [(y_tdata P s i, y_tlast P s i)] else [])"

definition a_beat :: "dims \<Rightarrow> ('x, 'k, 'm, 'y) sa_state \<Rightarrow> ('x, 'k, 'y) top_in \<Rightarrow> 'y list list" where
  "a_beat P s i = (if a_tvalid i \<and> y_tready i \<and> m_valid P s then [a_tdata i] else [])"

fun y_run :: "dims \<Rightarrow> ('wx::len word, 'wk::len word, 'wm::len word, 'wy::len word) sa_state
    \<Rightarrow> ('wx word, 'wk word, 'wy word) top_in list \<Rightarrow> ('wy word list \<times> bool) list" where
  "y_run P s [] = []"
| "y_run P s (i # is) = y_beat P s i @ y_run P (sa_step P s (sa_of i)) is"

fun a_run :: "dims \<Rightarrow> ('wx::len word, 'wk::len word, 'wm::len word, 'wy::len word) sa_state
    \<Rightarrow> ('wx word, 'wk word, 'wy word) top_in list \<Rightarrow> 'wy word list list" where
  "a_run P s [] = []"
| "a_run P s (i # is) = a_beat P s i @ a_run P (sa_step P s (sa_of i)) is"

text \<open>The Y stream is the output of the array plus the A words taken, one for one.\<close>

lemma y_run_add:
  "map fst (y_run P s is) =
     map2 (\<lambda>m a. tab (dim_R P) (\<lambda>r. m ! r + a ! r)) (map fst (sa_run P s (map sa_of is))) (a_run P s is)
   \<and> length (a_run P s is) = length (sa_run P s (map sa_of is))"
  by (induction "is" arbitrary: s)
    (auto simp: y_beat_def a_beat_def m_beat_def en_shift_def y_tdata_def sa_of_def)

section \<open>From golden.py through the array\<close>

text \<open>The rows of a matrix as the words of a stream.\<close>

definition stream_rows :: "nat \<Rightarrow> nat \<Rightarrow> (nat \<Rightarrow> nat \<Rightarrow> int) \<Rightarrow> 'w::len word list list" where
  "stream_rows n m f = map (\<lambda>i. map (\<lambda>j. word_of_int (f i j)) [0..<m]) [0..<n]"

lemma concat_stream_rows: "concat (stream_rows n m f) = row_major n m (\<lambda>i j. word_of_int (f i j))"
  by (simp add: stream_rows_def row_major_def)

lemma reference_rows:
  fixes bs :: "(8 word, 8 word) sa_in list" and rnd :: randint
  assumes rnd: "randint_ok rnd" and K: "0 < K"
    and x: "map sx_data bs = stream_rows K R (x_of rnd)"
    and k: "map sk_data bs = stream_rows K C (k_of rnd)"
    and last: "\<forall>b \<in> set (butlast bs). \<not> s_last b" "s_last (last bs)"
    and P: "dim_R P = R" "dim_C P = C"
  shows "map fst (reference P (\<lambda>_ _. 0 :: 32 word) bs)
    = map (\<lambda>c. map (\<lambda>r. word_of_int (dot K (k_of rnd) (x_of rnd) c r)) [0..<R]) [0..<C]"
proof -
  have len: "length bs = K" using arg_cong [OF x, of length] by (simp add: stream_rows_def)
  then have "bs \<noteq> []" using K by auto
  have xk: "sx_data (bs ! l) ! r = word_of_int (x_of rnd l r)" "sk_data (bs ! l) ! c = word_of_int (k_of rnd l c)"
    if "l < K" "r < R" "c < C" for l r c
    using that len arg_cong [OF x, of "\<lambda>m. m ! l ! r"] arg_cong [OF k, of "\<lambda>m. m ! l ! c"]
    by (simp_all add: stream_rows_def)
  have s8: "sint (word_of_int (x_of rnd l r) :: 8 word) = x_of rnd l r"
      "sint (word_of_int (k_of rnd l r) :: 8 word) = k_of rnd l r" for l r
    using x_of_range [OF rnd, of l r] k_of_range [OF rnd, of l r] by (simp_all add: sint_of_int_8)
  have sum: "(\<Sum>b\<leftarrow>bs. word_of_int (sint (sx_data b ! r) * sint (sk_data b ! c)))
      = (word_of_int (dot K (k_of rnd) (x_of rnd) c r) :: 32 word)" if rc: "r < R" "c < C" for r c
  proof -
    have "map (\<lambda>b. word_of_int (sint (sx_data b ! r) * sint (sk_data b ! c)) :: 32 word) bs
        = map (\<lambda>l. word_of_int (k_of rnd l c) * word_of_int (x_of rnd l r)) [0..<K]"
    proof (rule nth_equalityI)
      fix l assume "l < length (map (\<lambda>b. word_of_int (sint (sx_data b ! r) * sint (sk_data b ! c)) :: 32 word) bs)"
      then have "l < K" using len by simp
      then show "map (\<lambda>b. word_of_int (sint (sx_data b ! r) * sint (sk_data b ! c)) :: 32 word) bs ! l
          = map (\<lambda>l. word_of_int (k_of rnd l c) * word_of_int (x_of rnd l r)) [0..<K] ! l"
        using len rc by (simp only: nth_map nth_upt xk s8 of_int_mult mult.commute length_upt) simp
    qed (simp add: len)
    then show ?thesis by (simp add: sum_list_word_of_int_mult dot_def)
  qed
  have "reference P (\<lambda>_ _. 0 :: 32 word) bs = tab C (\<lambda>c. (tab R (\<lambda>r.
      \<Sum>b\<leftarrow>bs. word_of_int (sint (sx_data b ! r) * sint (sk_data b ! c))), c = C - 1))"
    using reference_packet [of "butlast bs" "last bs" P "\<lambda>_ _. 0 :: 32 word"] last \<open>bs \<noteq> []\<close> P
    by (simp del: of_int_mult map_append)
  then show ?thesis
    using sum by (simp add: tab_def del: of_int_mult)
qed

lemma packet_beats:
  assumes "one_packet P inp T"
  defines "bs \<equiv> filter s_valid (map inp [0..<Suc T])"
  shows "\<forall>b \<in> set (butlast bs). \<not> s_last b" and "s_last (last bs)"
proof -
  have v: "s_valid (inp T)" "s_last (inp T)" using assms(1) by (auto simp: one_packet_def)
  have n: "t < T \<Longrightarrow> s_valid (inp t) \<Longrightarrow> \<not> s_last (inp t)" for t
    using assms(1) unfolding one_packet_def by (metis less_irrefl)
  have "bs = filter s_valid (map inp [0..<T]) @ [inp T]" using v by (simp add: bs_def)
  then show "\<forall>b \<in> set (butlast bs). \<not> s_last b" "s_last (last bs)" using n v by auto
qed

text \<open>
  The accelerator computes what \<^verbatim>\<open>run/golden.py\<close> expects.  When the K and X streams carry the
  drawn matrices row by row as one packet (with any gaps), and the A words that were taken up to
  cycle \<open>t\<close> are the rows of the third matrix (with any pattern of valid and ready on A and Y), the
  bytes that left on the Y stream are exactly the file \<^verbatim>\<open>y_exp.bin\<close>.
\<close>
theorem accelerator_golden:
  fixes inp :: "nat \<Rightarrow> (8 word, 8 word, 32 word) top_in"
    and s0 :: "(8 word, 8 word, 16 word, 32 word) sa_state"
  assumes gold: "golden_main rnd R K C = Inr f" "randint_ok rnd" "0 < K"
    and P: "P = \<lparr>dim_R = R, dim_C = C, dim_LM = LM, dim_LA = LA\<rparr>" "dims_ok P" and s0: "s0 = sa_reset P"
    and packet: "one_packet P (\<lambda>t. sa_of (inp t)) T"
    and x: "map sx_data (filter s_valid (map (\<lambda>t. sa_of (inp t)) [0..<Suc T])) = stream_rows K R (x_of rnd)"
    and k: "map sk_data (filter s_valid (map (\<lambda>t. sa_of (inp t)) [0..<Suc T])) = stream_rows K C (k_of rnd)"
    and a: "a_run P s0 (map inp [0..<t]) = stream_rows C R (a_of rnd)"
  shows "concat (map enc_i32 (concat (map fst (y_run P s0 (map inp [0..<t]))))) = y_exp_bin f"
proof -
  let ?bs = "filter s_valid (map (\<lambda>t. sa_of (inp t)) [0..<Suc T])"
  let ?out = "sa_run P s0 (map (\<lambda>t. sa_of (inp t)) [0..<t])"
  have dims: "dim_R P = R" "dim_C P = C" by (simp_all add: P)
  have len: "length ?out = C"
    using y_run_add [of P s0 "map inp [0..<t]"] a by (simp add: o_def stream_rows_def)
  have cols: "map fst (reference P (\<lambda>_ _. 0 :: 32 word) ?bs)
      = map (\<lambda>c. map (\<lambda>r. word_of_int (dot K (k_of rnd) (x_of rnd) c r)) [0..<R]) [0..<C]"
    by (rule reference_rows [OF gold(2,3) x k packet_beats [OF packet] dims])
  have "?out = take (length (filter (\<lambda>u. m_ready (sa_of (inp u))) [out_time P T..<t])) (reference P (\<lambda>_ _. 0) ?bs)"
    using packet_output [OF P(2) packet, where 'wm = 16 and 'wy = 32, of t] by (simp add: s0)
  moreover have "length (reference P (\<lambda>_ _. 0 :: 32 word) ?bs) = C"
    using arg_cong [OF cols, of length] by simp
  ultimately have "?out = reference P (\<lambda>_ _. 0) ?bs" using len by simp
  then have m: "map fst ?out = map (\<lambda>c. map (\<lambda>r. word_of_int (dot K (k_of rnd) (x_of rnd) c r)) [0..<R]) [0..<C]"
    using cols by (simp only:)
  have "map fst (y_run P s0 (map inp [0..<t]))
      = map2 (\<lambda>m a. tab R (\<lambda>r. m ! r + a ! r)) (map fst ?out) (a_run P s0 (map inp [0..<t]))"
    using y_run_add [of P s0 "map inp [0..<t]"] by (simp add: o_def dims)
  also have "\<dots> = map (\<lambda>c. map (\<lambda>r. word_of_int (y_spec rnd K c r)) [0..<R]) [0..<C]"
    unfolding m a by (simp add: stream_rows_def tab_def y_spec_def zip_map_map zip_same_conv_map)
  finally show ?thesis
    using gold(1) by (auto simp: golden_main_eq row_major_def)
qed

text \<open>A run: the draws are distinct numbers, the A stream starts late, Y waits in some cycles.\<close>

definition rnd_demo :: randint where
  "rnd_demo call lo hi i j = lo + (2 * int i + int j - int call - lo) mod (hi - lo)"

lemma rnd_demo_ok: "randint_ok rnd_demo"
  by (auto simp: randint_ok_def rnd_demo_def) (smt (verit) pos_mod_bound)

definition top_dims :: dims where
  "top_dims = \<lparr>dim_R = 2, dim_C = 2, dim_LM = 1, dim_LA = 1\<rparr>"

definition demo_top :: "nat \<Rightarrow> (8 word, 8 word, 32 word) top_in" where
  "demo_top t =
     \<lparr>t_rstn = True, k_tvalid = (t = 0 \<or> t = 2), k_tlast = (t = 2),
      k_tdata = (if t = 0 then [0, 1] else [2, 3]),
      x_tvalid = (t \<le> 2), x_tlast = (t = 2),
      x_tdata = (if t = 0 then [-1, 0] else [1, 2]),
      a_tvalid = (8 < t), a_tdata = (if t = 9 then [-2, -1] else [0, 1]), y_tready = (t \<noteq> 10)\<rparr>"

theorem accelerator_golden_witness:
  "\<exists>f. golden_main rnd_demo 2 2 2 = Inr f \<and>
     concat (map enc_i32 (concat (map fst (y_run top_dims
       (sa_reset top_dims :: (8 word, 8 word, 16 word, 32 word) sa_state) (map demo_top [0..<12]))))) = y_exp_bin f"
proof -
  obtain f where f: "golden_main rnd_demo 2 2 2 = Inr f" using golden_main_eq by blast
  have d: "dims_ok top_dims" by (simp add: dims_ok_def top_dims_def)
  have p: "one_packet top_dims (\<lambda>t. sa_of (demo_top t)) 2"
    by (auto simp: one_packet_def top_dims_def demo_top_def sa_of_def)
  have x: "map sx_data (filter s_valid (map (\<lambda>t. sa_of (demo_top t)) [0..<Suc 2])) = stream_rows 2 2 (x_of rnd_demo)"
    by code_simp
  have k: "map sk_data (filter s_valid (map (\<lambda>t. sa_of (demo_top t)) [0..<Suc 2])) = stream_rows 2 2 (k_of rnd_demo)"
    by code_simp
  have a: "a_run top_dims (sa_reset top_dims :: (8 word, 8 word, 16 word, 32 word) sa_state) (map demo_top [0..<12])
      = stream_rows 2 2 (a_of rnd_demo)"
    by code_simp
  show ?thesis
    using f accelerator_golden [OF f rnd_demo_ok zero_less_numeral top_dims_def d refl p x k a] by blast
qed

text \<open>
  The last flag of the Y stream is not the last flag of the array alone: it also needs the
  input streams to show their last flags in the very cycle in which the last column leaves.  In
  the run above the array is driven without the skid buffers and the streams have moved on by
  then, so no word of Y is marked as last.  Stream_Top shows the other side: a skid buffer holds
  its last beat, so that with one packet in flight the flag is kept.
\<close>
theorem y_tlast_lost:
  "map snd (y_run top_dims (sa_reset top_dims :: (8 word, 8 word, 16 word, 32 word) sa_state)
     (map demo_top [0..<12])) = [False, False] \<and>
   map snd (sa_run top_dims (sa_reset top_dims :: (8 word, 8 word, 16 word, 32 word) sa_state)
     (map (\<lambda>t. sa_of (demo_top t)) [0..<12])) = [False, True]"
  by (rule conjI; code_simp)

end
