(* ===== verification/Tool_Req.thy ===== *)
theory Tool_Req
  imports Regex Shlex "HOL-Library.List_Lexorder" "HOL-Library.Char_ord"
begin

text \<open>
  \<^verbatim>\<open>ibex-soc/util/check_tool_requirements.py\<close>: the tools a repository needs, how their installed
  versions are found and converted, and the verdict and exit code of the check.  The parameters
  are what the script calls: running a command (\<open>host\<close>), \<open>importlib.metadata.version\<close>, and the
  class \<open>packaging.version.Version\<close> as a parser with an order (\<open>parse_ver\<close>, \<open>ver_less\<close>).
\<close>

section \<open>Requirements\<close>

datatype tool_class = ToolReq | VerilatorToolReq | VeribleToolReq | VcsToolReq | PyModuleToolReq

record tool_req =
  tr_class :: tool_class
  tr_tool :: string
  tr_min_version :: string
  tr_as_needed :: bool

text \<open>The class attributes \<open>tool_cmd\<close> and \<open>tool_env\<close>.\<close>

fun tool_cmd :: "tool_class \<Rightarrow> string list option" where
  "tool_cmd VeribleToolReq = Some [''verible-verilog-lint'', ''--version'']"
| "tool_cmd VcsToolReq = Some [''vcs'', ''-full64'', ''-ID'']"
| "tool_cmd _ = None"

fun tool_env :: "tool_class \<Rightarrow> (string, string) dict option" where
  "tool_env VcsToolReq = Some [(''VCS_ARCH_OVERRIDE'', ''linux'')]"
| "tool_env _ = None"

text \<open>\<open>Compiler version = VCS [A-Z]-(.*)\<close>\<close>

definition is_upper :: "char \<Rightarrow> bool" where
  "is_upper c \<longleftrightarrow> c \<in> set ''ABCDEFGHIJKLMNOPQRSTUVWXYZ''"

fun version_regex :: "tool_class \<Rightarrow> regex option" where
  "version_regex VcsToolReq =
     Some (Seqs [Str ''Compiler version = VCS '', Cls is_upper, Str ''-'', Grp ''1'' (Star (Cls (\<lambda>c. c \<noteq> CHR 0x0A)))])"
| "version_regex _ = None"

definition get_tool_cmd :: "tool_req \<Rightarrow> string list" where
  "get_tool_cmd t = (case tool_cmd (tr_class t) of Some c \<Rightarrow> c | None \<Rightarrow> [tr_tool t, ''--version''])"

section \<open>Reading a version\<close>

text \<open>\<open>stdout.split(NL, 1)[0]\<close>; its last word; or the first line that matches.\<close>

definition first_line :: "string \<Rightarrow> string" where
  "first_line s = takeWhile (\<lambda>c. c \<noteq> CHR 0x0A) s"

fun first_group :: "regex \<Rightarrow> string list \<Rightarrow> string res" where
  "first_group r [] = Inl (ValueError ''No line matched version regex.'')"
| "first_group r (line # ls) =
     (case re_match r (py_rstrip line) of
        Some m \<Rightarrow> Inr (group_str m ''1'')
      | None \<Rightarrow> first_group r ls)"

definition parse_version_output :: "tool_class \<Rightarrow> string \<Rightarrow> string res" where
  "parse_version_output cls stdout =
     (case version_regex cls of
        None \<Rightarrow>
          (let words = split_ws (first_line stdout)
           in if words = [] then Inl (ValueError ''Empty first line.'') else Inr (last words))
      | Some r \<Rightarrow> first_group r (split_on (CHR 0x0A) stdout))"

text \<open>What running a command can do; an error carries its \<open>str\<close>.\<close>

datatype proc = Stdout string | CalledProcessError string | FileNotFoundError string

record host =
  os_environ :: "(string, string) dict"
  run_cmd :: "string list \<Rightarrow> (string, string) dict option \<Rightarrow> proc"
  run_shell :: "string \<Rightarrow> proc"
  module_version :: "string \<Rightarrow> string res"

definition cmd_env :: "(string, string) dict \<Rightarrow> tool_class \<Rightarrow> (string, string) dict option" where
  "cmd_env environ cls = map_option (\<lambda>e. fold (\<lambda>(k, v). dict_set k v) e environ) (tool_env cls)"

definition env_msg :: "tool_class \<Rightarrow> string" where
  "env_msg cls =
     (case tool_env cls of
        None \<Rightarrow> []
      | Some e \<Rightarrow> '' (with environment overrides: ''
          @ py_join '', '' (map (\<lambda>(k, v). k @ ''='' @ v) e) @ '')'')"

definition failed_run :: "tool_req \<Rightarrow> string \<Rightarrow> exn" where
  "failed_run t err =
     RuntimeError (''Failed to run '' @ repr_str (shlex_join (get_tool_cmd t)) @ env_msg (tr_class t)
       @ '' to check version: '' @ err)"

definition base_get_version :: "host \<Rightarrow> tool_req \<Rightarrow> string res" where
  "base_get_version h t =
     (let cmd_txt = shlex_join (get_tool_cmd t)
      in case run_cmd h (get_tool_cmd t) (cmd_env (os_environ h) (tr_class t)) of
           CalledProcessError err \<Rightarrow> Inl (failed_run t err)
         | FileNotFoundError err \<Rightarrow> Inl (failed_run t err)
         | Stdout s \<Rightarrow>
             if s = [] then Inl (RuntimeError (''No output from running '' @ repr_str cmd_txt @ '' to check version.''))
             else on_value_error (\<lambda>err. RuntimeError (''Bad output from running '' @ repr_str cmd_txt
                    @ '' to check version: '' @ err)) (parse_version_output (tr_class t) s))"

text \<open>The method as the subclasses override it.\<close>

definition get_version :: "host \<Rightarrow> tool_req \<Rightarrow> string res" where
  "get_version h t =
     (case tr_class t of
        VerilatorToolReq \<Rightarrow>
          (case run_shell h ''verilator --version'' of
             CalledProcessError err \<Rightarrow> Inl (RuntimeError (''Unable to call Verilator to check version: '' @ err))
           | FileNotFoundError err \<Rightarrow> Inl (OSError err)
           | Stdout s \<Rightarrow>
               (case split_on (CHR '' '') s of _ # w # _ \<Rightarrow> Inr (py_strip w) | _ \<Rightarrow> Inl IndexError))
      | PyModuleToolReq \<Rightarrow> module_version h (tr_tool t)
      | _ \<Rightarrow> base_get_version h t)"

section \<open>Semantic versions\<close>

text \<open>\<open>re.fullmatch\<close>: the first way of matching that leaves nothing.\<close>

definition re_fullmatch :: "regex \<Rightarrow> string \<Rightarrow> caps option" where
  "re_fullmatch r s = (case filter (\<lambda>(t, _). t = []) (mtch r s) of [] \<Rightarrow> None | m # _ \<Rightarrow> Some (snd m))"

definition is_hex_lower :: "char \<Rightarrow> bool" where
  "is_hex_lower c \<longleftrightarrow> c \<in> set ''0123456789abcdef''"

definition VERIBLE_RE :: regex where
  "VERIBLE_RE = Seqs [Str ''v'', Grp ''1'' (Plus (Cls is_digit)), Str ''.'', Grp ''2'' (Plus (Cls is_digit)), Str ''-'',
     Grp ''3'' (Plus (Cls is_digit)), Str ''-g'', Plus (Cls is_hex_lower), Eol]"

text \<open>The dot between year and month is not escaped in the source: it matches any character.\<close>

definition VCS_RE :: "bool \<Rightarrow> regex" where
  "VCS_RE from_req = Seqs ([Grp ''1'' (Plus (Cls is_digit)), Cls (\<lambda>c. c \<noteq> CHR 0x0A), Grp ''2'' (Plus (Cls is_digit)),
     Opt (Seq (Str ''-SP'') (Grp ''3'' (Plus (Cls is_digit)))),
     Opt (Seq (Str ''-'') (Grp ''4'' (Plus (Cls is_digit))))] @ (if from_req then [Eol] else [Eps]))"

text \<open>\<open>int(match.group(n) or 0)\<close>\<close>

definition int_or_0 :: "string option \<Rightarrow> int res" where
  "int_or_0 g = (case g of None \<Rightarrow> Inr 0 | Some s \<Rightarrow> if s = [] then Inr 0 else py_int 10 s)"

definition vcs_semver :: "string \<Rightarrow> bool \<Rightarrow> string res" where
  "vcs_semver version from_req =
     (case re_match (VCS_RE from_req) version of
        None \<Rightarrow> Inl (ValueError (repr_str version @ '' is not a recognised VCS version string.''))
      | Some m \<Rightarrow>
          bind_res (int_or_0 (group m ''3'')) (\<lambda>sp.
          bind_res (int_or_0 (group m ''4'')) (\<lambda>patch.
          Inr (group_str m ''1'' @ ''.'' @ group_str m ''2'' @ str_int (sp * 100 + patch)))))"

definition verible_semver :: "string \<Rightarrow> string res" where
  "verible_semver version =
     (case re_fullmatch VERIBLE_RE version of
        None \<Rightarrow> Inl (ValueError (version @ '' has invalid version string format.''))
      | Some m \<Rightarrow> Inr (py_join ''.'' [group_str m ''1'', group_str m ''2'', group_str m ''3'']))"

fun to_semver :: "tool_class \<Rightarrow> string \<Rightarrow> bool \<Rightarrow> string res" where
  "to_semver VeribleToolReq version from_req = verible_semver version"
| "to_semver VcsToolReq version from_req = vcs_semver version from_req"
| "to_semver _ version from_req = Inr version"

section \<open>The check of one tool\<close>

text \<open>\<open>try: r except ValueError as err: return (False, g(err))\<close>, and the same for \<open>RuntimeError\<close>.\<close>

definition try_value :: "'a res \<Rightarrow> (string \<Rightarrow> string) \<Rightarrow> ('a \<Rightarrow> (bool \<times> string) res) \<Rightarrow> (bool \<times> string) res" where
  "try_value r g k =
     (case r of Inr v \<Rightarrow> k v | Inl (ValueError err) \<Rightarrow> Inr (False, g err) | Inl e \<Rightarrow> Inl e)"

definition try_runtime :: "'a res \<Rightarrow> ('a \<Rightarrow> (bool \<times> string) res) \<Rightarrow> (bool \<times> string) res" where
  "try_runtime r k = (case r of Inr v \<Rightarrow> k v | Inl (RuntimeError err) \<Rightarrow> Inr (False, err) | Inl e \<Rightarrow> Inl e)"

definition check :: "(string \<Rightarrow> 'v res) \<Rightarrow> ('v \<Rightarrow> 'v \<Rightarrow> bool) \<Rightarrow> host \<Rightarrow> tool_req \<Rightarrow> (bool \<times> string) res" where
  "check parse_ver ver_less h t =
     try_value (to_semver (tr_class t) (tr_min_version t) True)
       (\<lambda>err. ''Failed to convert requirement to semantic version: '' @ err) (\<lambda>min_semver.
     try_value (parse_ver min_semver)
       (\<lambda>err. ''Bad semver inferred from required version ('' @ min_semver @ ''): '' @ err) (\<lambda>min_sv.
     try_runtime (get_version h t) (\<lambda>actual_version.
     try_value (to_semver (tr_class t) actual_version False)
       (\<lambda>err. ''Failed to convert installed to semantic version: '' @ err) (\<lambda>actual_semver.
     try_value (parse_ver actual_semver)
       (\<lambda>err. ''Bad semver inferred from installed version ('' @ actual_semver @ ''): '' @ err) (\<lambda>actual_sv.
     if ver_less actual_sv min_sv
     then Inr (False, ''Installed version is too old: found version '' @ actual_version
            @ '', but need at least '' @ tr_min_version t)
     else Inr (True, ''Sufficiently recent version (found '' @ actual_version @ ''; needed ''
            @ tr_min_version t @ '')''))))))"

section \<open>The requirements file\<close>

definition classes :: "(string, tool_class) dict" where
  "classes = [(''edalize'', PyModuleToolReq), (''vcs'', VcsToolReq), (''verible'', VeribleToolReq),
     (''verilator'', VerilatorToolReq)]"

text \<open>\<open>', '.join(raw.keys())\<close> raises for a key that is not a string.\<close>

fun str_keys :: "(pyval \<times> pyval) list \<Rightarrow> string list res" where
  "str_keys [] = Inr []"
| "str_keys ((PStr k, _) # d) = bind_res (str_keys d) (\<lambda>ks. Inr (k # ks))"
| "str_keys (_ # d) = Inl (TypeError ''sequence item: expected str instance'')"

definition del_key :: "string \<Rightarrow> (pyval \<times> pyval) list \<Rightarrow> (pyval \<times> pyval) list" where
  "del_key k d = filter (\<lambda>(k', _). k' \<noteq> PStr k) d"

definition read_as_needed :: "string \<Rightarrow> string \<Rightarrow> (pyval \<times> pyval) list \<Rightarrow> bool res" where
  "read_as_needed path dict_name raw =
     (case lookup_str raw ''as_needed'' of
        None \<Rightarrow> Inr False
      | Some (PBool b) \<Rightarrow> Inr b
      | Some _ \<Rightarrow> Inl (ReqErr path (dict_name @ '' has as_needed that is not a bool.'')))"

definition dict_to_tool_req :: "string \<Rightarrow> string \<Rightarrow> (pyval \<times> pyval) list \<Rightarrow> tool_req res" where
  "dict_to_tool_req path tool raw =
     (let dict_name = ''Dict for '' @ tool @ '' in __TOOL_REQUIREMENTS__''
      in case lookup_str raw ''min_version'' of
           None \<Rightarrow> Inl (ReqErr path (dict_name @ '' is missing required key: \"min_version\".''))
         | Some (PStr min_version) \<Rightarrow>
             bind_res (read_as_needed path dict_name (del_key ''min_version'' raw)) (\<lambda>as_needed.
             let rest = del_key ''as_needed'' (del_key ''min_version'' raw)
             in if rest \<noteq> []
                then bind_res (str_keys rest) (\<lambda>ks.
                  Inl (ReqErr path (dict_name @ '' has unexpected keys: '' @ py_join '', '' ks @ ''.'')))
                else Inr \<lparr>tr_class = dict_get classes tool ToolReq, tr_tool = tool,
                          tr_min_version = min_version, tr_as_needed = as_needed\<rparr>)
         | Some _ \<Rightarrow> Inl (ReqErr path (dict_name @ '' has min_version that is not a string.'')))"

text \<open>One entry of the dictionary; a string is shorthand for a minimum version.\<close>

definition read_entry :: "string \<Rightarrow> (string, tool_req) dict \<Rightarrow> pyval \<times> pyval \<Rightarrow> (string, tool_req) dict res" where
  "read_entry path reqs = (\<lambda>(tool, raw_val).
     case tool of
       PStr t \<Rightarrow>
         (case (case raw_val of PStr v \<Rightarrow> PDict [(PStr ''min_version'', PStr v)] | _ \<Rightarrow> raw_val) of
            PDict d \<Rightarrow> bind_res (dict_to_tool_req path t d) (\<lambda>r. Inr (dict_set t r reqs))
          | _ \<Rightarrow> Inl (ReqErr path (''Value for '' @ t @ '' in __TOOL_REQUIREMENTS__ is not a string or dict.'')))
     | _ \<Rightarrow> Inl (ReqErr path (''Invalid key in __TOOL_REQUIREMENTS__: '' @ py_repr tool)))"

text \<open>\<open>exec_file\<close> opens and executes the file and gives the variable it defines, if any.\<close>

definition read_tool_requirements :: "(string \<Rightarrow> pyval option res) \<Rightarrow> string \<Rightarrow> (string, tool_req) dict res" where
  "read_tool_requirements exec_file path =
     bind_res (exec_file path) (\<lambda>raw.
     case raw of
       None \<Rightarrow> Inl (ReqErr path ''The Python file at did not define __TOOL_REQUIREMENTS__.'')
     | Some PNone \<Rightarrow> Inl (ReqErr path ''The Python file at did not define __TOOL_REQUIREMENTS__.'')
     | Some (PDict d) \<Rightarrow> fold_res (read_entry path) [] d
     | Some _ \<Rightarrow> Inl (ReqErr path ''__TOOL_REQUIREMENTS__ is not a dict.''))"

text \<open>
  The file of the repository, \<^verbatim>\<open>tool_requirements.py\<close>, and the substitutions that the documentation's
  \<^verbatim>\<open>doc/conf.py\<close> makes of the versions in it.
\<close>

definition TOOL_REQUIREMENTS :: pyval where
  "TOOL_REQUIREMENTS = PDict
     [(PStr ''verilator'', PStr ''4.210''), (PStr ''edalize'', PStr ''0.2.0''),
      (PStr ''vcs'', PDict [(PStr ''min_version'', PStr ''2020.03-SP2''), (PStr ''as_needed'', PBool True)]),
      (PStr ''vivado'', PDict [(PStr ''min_version'', PStr ''2020.2''), (PStr ''as_needed'', PBool True)])]"

definition rst_epilog :: "(string, tool_req) dict \<Rightarrow> string" where
  "rst_epilog tool_reqs =
     concat (map (\<lambda>(t, req). ''.. |tool_requirements.'' @ t @ ''| replace:: '' @ tr_min_version req @ newline) tool_reqs)"

lemma shipped_requirements:
  "read_tool_requirements (\<lambda>p. Inr (Some TOOL_REQUIREMENTS)) path = Inr
     [(''verilator'', \<lparr>tr_class = VerilatorToolReq, tr_tool = ''verilator'', tr_min_version = ''4.210'', tr_as_needed = False\<rparr>),
      (''edalize'', \<lparr>tr_class = PyModuleToolReq, tr_tool = ''edalize'', tr_min_version = ''0.2.0'', tr_as_needed = False\<rparr>),
      (''vcs'', \<lparr>tr_class = VcsToolReq, tr_tool = ''vcs'', tr_min_version = ''2020.03-SP2'', tr_as_needed = True\<rparr>),
      (''vivado'', \<lparr>tr_class = ToolReq, tr_tool = ''vivado'', tr_min_version = ''2020.2'', tr_as_needed = True\<rparr>)]"
  by code_simp

section \<open>\<open>main\<close>\<close>

datatype log_line = Info string | Error string

record run =
  pending_tools :: "string list"
  missing_tools :: "string list"
  log_lines :: "log_line list"

definition relevant :: "string list \<Rightarrow> string \<times> tool_req \<Rightarrow> bool" where
  "relevant pending = (\<lambda>(tool, req). \<not> (tr_as_needed req \<and> tool \<notin> set pending))"

definition check_tool :: "(string \<Rightarrow> 'v res) \<Rightarrow> ('v \<Rightarrow> 'v \<Rightarrow> bool) \<Rightarrow> host \<Rightarrow> run \<Rightarrow> string \<times> tool_req \<Rightarrow> run res" where
  "check_tool parse_ver ver_less h s = (\<lambda>(tool, req).
     if \<not> relevant (pending_tools s) (tool, req) then Inr s
     else bind_res (check parse_ver ver_less h req) (\<lambda>(good, msg).
       let s = s\<lparr>pending_tools := removeAll tool (pending_tools s)\<rparr>
       in Inr (if \<not> good
               then s\<lparr>log_lines := log_lines s @ [Error (''Failed tool requirement for '' @ tool @ '': '' @ msg)],
                      missing_tools := missing_tools s @ [tool]\<rparr>
               else s\<lparr>log_lines := log_lines s @ [Info (''Tool '' @ tool @ '' present: '' @ msg)]\<rparr>)))"

definition finish :: "run \<Rightarrow> int \<times> log_line list" where
  "finish s =
     (let l1 = (if missing_tools s \<noteq> []
                then [Error (''Tool requirements not fulfilled. Please update tools (''
                       @ py_join '', '' (missing_tools s) @ '') and retry.'')] else []);
          l2 = (if pending_tools s \<noteq> []
                then [Error (''Some tools specified on command line don'' @ [CHR 0x27] @ ''t appear in tool requirements file: ''
                       @ py_join '', '' (sort (pending_tools s)))] else [])
      in (if missing_tools s = [] \<and> pending_tools s = [] then 0 else 1, log_lines s @ l1 @ l2))"

text \<open>\<open>str(err)\<close> of a \<open>ReqErr\<close>.\<close>

definition req_err_text :: "string \<Rightarrow> string \<Rightarrow> string" where
  "req_err_text path msg = ''Error parsing tool requirements from '' @ repr_str path @ '': '' @ msg"

definition check_main :: "(string \<Rightarrow> pyval option res) \<Rightarrow> (string \<Rightarrow> 'v res) \<Rightarrow> ('v \<Rightarrow> 'v \<Rightarrow> bool) \<Rightarrow> host
    \<Rightarrow> string \<Rightarrow> string list \<Rightarrow> (int \<times> log_line list) res" where
  "check_main exec_file parse_ver ver_less h path tools =
     (case read_tool_requirements exec_file path of
        Inl (ReqErr p msg) \<Rightarrow> Inr (1, [Error (req_err_text p msg)])
      | Inl e \<Rightarrow> Inl e
      | Inr reqs \<Rightarrow>
          bind_res (fold_res (check_tool parse_ver ver_less h)
              \<lparr>pending_tools = remdups tools, missing_tools = [], log_lines = []\<rparr> reqs)
            (\<lambda>s. Inr (finish s)))"

section \<open>The exit code\<close>

lemma read_entry_keys:
  "read_entry path reqs e = Inr reqs' \<Longrightarrow> distinct (dict_keys reqs) \<Longrightarrow> distinct (dict_keys reqs')"
  by (auto simp: read_entry_def res_simps dict_set_distinct split: prod.splits pyval.splits)

lemma read_requirements_keys:
  assumes "read_tool_requirements exec_file path = Inr reqs"
  shows "distinct (dict_keys reqs)"
proof -
  obtain d where "fold_res (read_entry path) [] d = Inr reqs"
    using assms unfolding read_tool_requirements_def
    by (cases "exec_file path") (auto split: option.splits pyval.splits)
  then show ?thesis
    by (rule fold_res_invariant [where I = "\<lambda>r. distinct (dict_keys r)"]) (simp, rule read_entry_keys)
qed

lemma fold_check_tool:
  assumes "distinct (dict_keys reqs)"
    and "\<And>t r. (t, r) \<in> set reqs \<Longrightarrow> relevant (pending_tools s) (t, r) \<Longrightarrow> \<exists>v. check parse_ver ver_less h r = Inr v"
  shows "\<exists>s'. fold_res (check_tool parse_ver ver_less h) s reqs = Inr s' \<and>
    set (pending_tools s') = set (pending_tools s) - set (dict_keys reqs) \<and>
    (missing_tools s' = [] \<longleftrightarrow> missing_tools s = [] \<and>
      (\<forall>t r. (t, r) \<in> set reqs \<longrightarrow> relevant (pending_tools s) (t, r) \<longrightarrow>
        (\<exists>msg. check parse_ver ver_less h r = Inr (True, msg))))"
  using assms
proof (induction reqs arbitrary: s)
  case (Cons e reqs)
  obtain t r where e: "e = (t, r)" by (cases e)
  have d: "distinct (dict_keys reqs)" and t: "t \<notin> set (dict_keys reqs)" using Cons.prems(1) e by auto
  have rel: "relevant (pending_tools s') (t', r') = relevant (pending_tools s) (t', r')"
    if "(t', r') \<in> set reqs" "set (pending_tools s') = set (pending_tools s) - {t}" for s' :: run and t' r'
    using that t by (force simp: relevant_def)
  have "\<exists>v. check_tool parse_ver ver_less h s e = Inr v \<and> set (pending_tools v) = set (pending_tools s) - {t} \<and>
    (missing_tools v = [] \<longleftrightarrow> missing_tools s = [] \<and>
      (relevant (pending_tools s) (t, r) \<longrightarrow> (\<exists>msg. check parse_ver ver_less h r = Inr (True, msg))))"
  proof (cases "relevant (pending_tools s) (t, r)")
    case False
    then show ?thesis by (auto simp: e check_tool_def relevant_def)
  next
    case True
    obtain good msg where c: "check parse_ver ver_less h r = Inr (good, msg)"
      using Cons.prems(2) [of t r] True e by auto
    then show ?thesis using True by (simp add: e check_tool_def Let_def)
  qed
  then obtain v where step: "check_tool parse_ver ver_less h s e = Inr v"
    and p: "set (pending_tools v) = set (pending_tools s) - {t}"
    and m: "missing_tools v = [] \<longleftrightarrow> missing_tools s = [] \<and>
      (relevant (pending_tools s) (t, r) \<longrightarrow> (\<exists>msg. check parse_ver ver_less h r = Inr (True, msg)))" by blast
  have ex: "\<exists>w. check parse_ver ver_less h r' = Inr w"
    if "(t', r') \<in> set reqs" "relevant (pending_tools v) (t', r')" for t' r'
    using Cons.prems(2) [of t' r'] that rel [OF that(1) p] by simp
  note ih = Cons.IH [of v, OF d]
  have "\<exists>s'. fold_res (check_tool parse_ver ver_less h) v reqs = Inr s' \<and>
    set (pending_tools s') = set (pending_tools v) - set (dict_keys reqs) \<and>
    (missing_tools s' = [] \<longleftrightarrow> missing_tools v = [] \<and>
      (\<forall>t r. (t, r) \<in> set reqs \<longrightarrow> relevant (pending_tools v) (t, r) \<longrightarrow>
        (\<exists>msg. check parse_ver ver_less h r = Inr (True, msg))))"
    by (rule ih) (rule ex, assumption+)
  then obtain s' where
    f: "fold_res (check_tool parse_ver ver_less h) v reqs = Inr s'"
    and q: "set (pending_tools s') = set (pending_tools v) - set (dict_keys reqs)"
    and n: "missing_tools s' = [] \<longleftrightarrow> missing_tools v = [] \<and>
    (\<forall>t r. (t, r) \<in> set reqs \<longrightarrow> relevant (pending_tools v) (t, r) \<longrightarrow>
      (\<exists>msg. check parse_ver ver_less h r = Inr (True, msg)))" by blast
  have "missing_tools s' = [] \<longleftrightarrow> missing_tools s = [] \<and>
    (\<forall>t' r'. (t', r') \<in> set (e # reqs) \<longrightarrow> relevant (pending_tools s) (t', r') \<longrightarrow>
      (\<exists>msg. check parse_ver ver_less h r' = Inr (True, msg)))"
    using n m rel [OF _ p] by (auto simp: e)
  then show ?case using f q p step by (auto simp: e)
qed simp


text \<open>
  An entry of the requirements is accepted exactly when it has a minimum version that is a
  string, \<open>as_needed\<close> is absent or a boolean, and it has no other key.
\<close>
theorem requirement_accepted:
  "(\<exists>r. dict_to_tool_req path tool raw = Inr r) \<longleftrightarrow>
     (\<exists>v. lookup_str raw ''min_version'' = Some (PStr v)) \<and>
     (lookup_str raw ''as_needed'' = None \<or> (\<exists>b. lookup_str raw ''as_needed'' = Some (PBool b))) \<and>
     set (dict_keys raw) \<subseteq> {PStr ''min_version'', PStr ''as_needed''}"
proof -
  have other: "lookup_str (del_key ''min_version'' raw) ''as_needed'' = lookup_str raw ''as_needed''"
    by (induction raw) (auto simp: del_key_def)
  have rest: "del_key ''as_needed'' (del_key ''min_version'' raw) = [] \<longleftrightarrow>
      set (dict_keys raw) \<subseteq> {PStr ''min_version'', PStr ''as_needed''}"
    by (induction raw) (auto simp: del_key_def)
  show ?thesis
  proof (cases "lookup_str raw ''min_version''")
    case (Some v)
    show ?thesis
      using rest Some
      by (cases v)
        (auto simp: dict_to_tool_req_def read_as_needed_def other Let_def bind_res_ok split: option.splits pyval.splits)
  qed (simp add: dict_to_tool_req_def)
qed

text \<open>Versions as packaging compares them when they are dotted numbers.\<close>

definition release :: "string \<Rightarrow> int list res" where
  "release s = map_res (py_int 10) (split_on (CHR ''.'') s)"

fun rel_less :: "int list \<Rightarrow> int list \<Rightarrow> bool" where
  "rel_less [] [] = False"
| "rel_less [] (y # ys) = (0 < y \<or> 0 = y \<and> rel_less [] ys)"
| "rel_less (x # xs) [] = (x < 0 \<or> x = 0 \<and> rel_less xs [])"
| "rel_less (x # xs) (y # ys) = (x < y \<or> x = y \<and> rel_less xs ys)"

definition demo_tools :: "string \<Rightarrow> pyval option res" where
  "demo_tools path = Inr (Some (PDict
     [(PStr ''verilator'', PStr ''4.210''),
      (PStr ''vcs'', PDict [(PStr ''min_version'', PStr ''2020.03-SP2''), (PStr ''as_needed'', PBool True)])]))"

definition demo_tool_host :: host where
  "demo_tool_host = \<lparr>os_environ = [], run_cmd = (\<lambda>_ _. FileNotFoundError ''no such file''),
     run_shell = (\<lambda>_. Stdout ''Verilator 4.228 2022-01-17''), module_version = (\<lambda>_. Inl (ImportError []))\<rparr>"


section \<open>Version strings\<close>

lemma fullmatch_before:
  "mtch r s = before c (mtch q t) \<Longrightarrow> re_fullmatch r s = map_option (\<lambda>d. c @ d) (re_fullmatch q t)"
  by (auto simp: re_fullmatch_def before_def filter_map o_def split_def split: list.splits)

text \<open>A Verible version \<open>va.b-c-ghash\<close> becomes \<open>a.b.c\<close>.\<close>

lemma verible_semver_parts:
  assumes "run_of is_digit a" "run_of is_digit b" "run_of is_digit c" "run_of is_hex_lower h"
  shows "verible_semver (''v'' @ a @ ''.'' @ b @ ''-'' @ c @ ''-g'' @ h) = Inr (a @ ''.'' @ b @ ''.'' @ c)"
proof -
  have digit: "\<not> is_digit (CHR ''.'')" "\<not> is_digit (CHR ''-'')" by (simp_all add: is_digit_def)
  have hexnl: "is_hex_lower x \<Longrightarrow> x \<noteq> CHR 0x0A" for x by (auto simp: is_hex_lower_def)
  have eol: "rejects Eol is_hex_lower" using hexnl by (auto simp: rejects_def newline_def)
  have "mtch (Seq (Plus (Cls is_hex_lower)) Eol) h = mtch Eol []"
    using field_run(1) [of is_hex_lower h "[]" Eol, OF _ _ _ eol] assms(4) by (simp add: run_of_def class_then_def)
  then have h: "re_fullmatch (Seq (Plus (Cls is_hex_lower)) Eol) h = Some []"
    by (simp add: re_fullmatch_def)
  have field: "re_fullmatch (Seq (Grp n (Plus (Cls is_digit))) (Seq (Str p) r)) (u @ p @ s)
      = map_option (\<lambda>d. (n, u) # d) (re_fullmatch r s)"
    if "run_of is_digit u" "p \<noteq> []" "\<not> is_digit (hd p)" for n u p r s
  proof -
    have "class_then is_digit (p @ s)" using that(2,3) by (simp add: class_then_def)
    then have "mtch (Seq (Grp n (Plus (Cls is_digit))) (Seq (Str p) r)) (u @ p @ s) = before [(n, u)] (mtch r s)"
      using field_run(2) [of is_digit u "p @ s" "Seq (Str p) r" n] that rejects_Str [of p is_digit r, OF that(2,3)]
      by (simp add: run_of_def mtch_Str del: mtch.simps)
    from fullmatch_before [OF this] show ?thesis by simp
  qed
  have lit: "re_fullmatch (Seq (Str p) r) (p @ s) = re_fullmatch r s" for p r s
    by (simp add: re_fullmatch_def mtch_Str del: mtch.simps)
  have "re_fullmatch VERIBLE_RE (''v'' @ a @ ''.'' @ b @ ''-'' @ c @ ''-g'' @ h) = Some [(''1'', a), (''2'', b), (''3'', c)]"
    unfolding VERIBLE_RE_def Seqs.simps lit
    by (subst field [OF assms(1)], simp, simp add: digit, subst field [OF assms(2)], simp, simp add: digit,
        subst field [OF assms(3)], simp, simp add: digit) (simp add: h)
  then show ?thesis by (simp add: verible_semver_def group_str_def group_def)
qed

text \<open>
  A VCS version has a year and a month, and may have a service pack and a patch number; the
  source glues the month and the combined number together.
\<close>

definition sp_text :: "int option \<Rightarrow> string" where
  "sp_text n = (case n of None \<Rightarrow> [] | Some i \<Rightarrow> ''-SP'' @ str_int i)"

definition patch_text :: "int option \<Rightarrow> string" where
  "patch_text n = (case n of None \<Rightarrow> [] | Some i \<Rightarrow> ''-'' @ str_int i)"

definition num_or_0 :: "int option \<Rightarrow> int" where
  "num_or_0 n = (case n of None \<Rightarrow> 0 | Some i \<Rightarrow> i)"

lemma int_or_0_printed: "int_or_0 (map_option str_int n) = Inr (num_or_0 n)"
proof -
  have "str_int i \<noteq> []" for i by (simp add: str_int_def)
  then show ?thesis by (cases n) (simp_all add: int_or_0_def num_or_0_def int_str_int)
qed

definition opt_group :: "string \<Rightarrow> int option \<Rightarrow> caps" where
  "opt_group g n = (case n of None \<Rightarrow> [] | Some i \<Rightarrow> [(g, str_int i)])"

lemma re_match_Cls: "P c \<Longrightarrow> re_match (Seq (Cls P) r) (c # s) = re_match r s"
  by (simp add: re_match_def)

lemma patch_match:
  assumes "T = Eol \<or> T = Eps" "\<forall>i. n = Some i \<longrightarrow> 0 \<le> i"
  shows "re_match (Seq (Opt (Seq (Str ''-'') (Grp ''4'' (Plus (Cls is_digit))))) T) (patch_text n) = Some (opt_group ''4'' n)"
proof -
  have T: "re_match T [] = Some []" using assms(1) by (auto simp: re_match_def)
  show ?thesis
  proof (cases n)
    case None
    have "re_match (Seq (Seq (Str ''-'') (Grp ''4'' (Plus (Cls is_digit)))) T) [] = None"
      by (simp add: re_match_def Str_def)
    then show ?thesis using T None by (simp add: re_match_opt patch_text_def opt_group_def del: mtch.simps)
  next
    case (Some i)
    have "re_match (Seq (Grp ''4'' (Plus (Cls is_digit))) T) (str_int i @ []) = Some [(''4'', str_int i)]"
      by (rule re_match_greedy_group [OF digit_str]) (use assms Some T in \<open>simp_all add: class_then_def\<close>)
    then have "re_match (Seq (Seq (Str ''-'') (Grp ''4'' (Plus (Cls is_digit)))) T) (''-'' @ str_int i) = Some [(''4'', str_int i)]"
      unfolding re_match_assoc re_match_Str by simp
    then show ?thesis using Some by (simp add: re_match_opt patch_text_def opt_group_def)
  qed
qed

lemma sp_match:
  assumes "re_match r (patch_text m) = Some d" "\<forall>i. n = Some i \<longrightarrow> 0 \<le> i" "\<forall>i. m = Some i \<longrightarrow> 0 \<le> i"
  shows "re_match (Seq (Opt (Seq (Str ''-SP'') (Grp ''3'' (Plus (Cls is_digit))))) r) (sp_text n @ patch_text m)
    = Some (opt_group ''3'' n @ d)"
proof (cases n)
  case None
  have "re_match (Seq (Seq (Str ''-SP'') (Grp ''3'' (Plus (Cls is_digit)))) r) (patch_text m) = None"
  proof (cases m)
    case None
    then show ?thesis by (simp add: re_match_def Str_def patch_text_def)
  next
    case (Some i)
    then obtain c cs where "str_int i = c # cs" "is_digit c"
      using digit_str [of i] assms(3) by (cases "str_int i") (auto simp: run_of_def)
    moreover have "\<not> is_digit (CHR ''S'')" by (simp add: is_digit_def)
    ultimately show ?thesis using Some by (auto simp: re_match_def Str_def patch_text_def)
  qed
  then show ?thesis using None assms(1) by (simp add: re_match_opt sp_text_def opt_group_def)
next
  case (Some i)
  have "class_then is_digit (patch_text m)"
    by (cases m) (simp_all add: patch_text_def class_then_def is_digit_def)
  then have "re_match (Seq (Grp ''3'' (Plus (Cls is_digit))) r) (str_int i @ patch_text m) = Some ((''3'', str_int i) # d)"
    using re_match_greedy_group [OF digit_str, of i "patch_text m" r d] assms(1,2) Some by simp
  then have "re_match (Seq (Seq (Str ''-SP'') (Grp ''3'' (Plus (Cls is_digit)))) r) (''-SP'' @ str_int i @ patch_text m)
      = Some ((''3'', str_int i) # d)"
    unfolding re_match_assoc re_match_Str .
  then show ?thesis using Some by (simp add: re_match_opt sp_text_def opt_group_def)
qed

text \<open>
  A VCS version (year, separator, month, and optionally a service pack and a patch number)
  converts to the year, a dot, and the month followed without a separator by the number
  \<open>100 * sp + patch\<close>.
\<close>
theorem vcs_semver_parts:
  assumes "run_of is_digit major" "run_of is_digit minor" "\<not> is_digit sep" "sep \<noteq> CHR 0x0A"
    and "\<forall>i. sp = Some i \<longrightarrow> 0 \<le> i" "\<forall>i. patch = Some i \<longrightarrow> 0 \<le> i"
  shows "to_semver VcsToolReq (major @ sep # minor @ sp_text sp @ patch_text patch) from_req
    = Inr (major @ ''.'' @ minor @ str_int (num_or_0 sp * 100 + num_or_0 patch))"
proof -
  define T where "T = (if from_req then Eol else Eps)"
  have T: "T = Eol \<or> T = Eps" by (simp add: T_def)
  let ?p = "Seq (Opt (Seq (Str ''-'') (Grp ''4'' (Plus (Cls is_digit))))) T"
  let ?s = "Seq (Opt (Seq (Str ''-SP'') (Grp ''3'' (Plus (Cls is_digit))))) ?p"
  have re: "VCS_RE from_req = Seq (Grp ''1'' (Plus (Cls is_digit))) (Seq (Cls (\<lambda>c. c \<noteq> CHR 0x0A))
      (Seq (Grp ''2'' (Plus (Cls is_digit))) ?s))"
    by (simp add: VCS_RE_def T_def)
  have "class_then is_digit (sp_text sp @ patch_text patch)"
    by (cases sp; cases patch) (simp_all add: sp_text_def patch_text_def class_then_def is_digit_def)
  then have "re_match (Seq (Grp ''2'' (Plus (Cls is_digit))) ?s) (minor @ sp_text sp @ patch_text patch)
      = Some ((''2'', minor) # opt_group ''3'' sp @ opt_group ''4'' patch)"
    using re_match_greedy_group [OF assms(2)] sp_match [OF patch_match [OF T assms(6)] assms(5,6)] by blast
  then have "re_match (Seq (Cls (\<lambda>c. c \<noteq> CHR 0x0A)) (Seq (Grp ''2'' (Plus (Cls is_digit))) ?s))
      (sep # minor @ sp_text sp @ patch_text patch) = Some ((''2'', minor) # opt_group ''3'' sp @ opt_group ''4'' patch)"
    using re_match_Cls [of "\<lambda>c. c \<noteq> CHR 0x0A" sep] assms(4) by simp
  then have m: "re_match (VCS_RE from_req) (major @ sep # minor @ sp_text sp @ patch_text patch)
      = Some ((''1'', major) # (''2'', minor) # opt_group ''3'' sp @ opt_group ''4'' patch)"
    unfolding re using assms(1,3) by (intro re_match_greedy_group) (simp_all add: class_then_def)
  let ?caps = "(''1'', major) # (''2'', minor) # opt_group ''3'' sp @ opt_group ''4'' patch"
  have g: "group ?caps ''1'' = Some major" "group ?caps ''2'' = Some minor"
      "group ?caps ''3'' = map_option str_int sp" "group ?caps ''4'' = map_option str_int patch"
    by (cases sp; cases patch; simp add: group_def opt_group_def)+
  show ?thesis by (simp add: vcs_semver_def m g group_str_def int_or_0_printed)
qed

theorem vcs_semver_parts_witness:
  "to_semver VcsToolReq ''2020.03-SP2-1'' True = Inr ''2020.03201''"
proof -
  have "sp_text (Some 2) = ''-SP2''" "patch_text (Some 1) = ''-1''" "str_int (num_or_0 (Some 2) * 100 + num_or_0 (Some 1)) = ''201''"
    by code_simp+
  then show ?thesis
    using vcs_semver_parts [of "''2020''" "''03''" "CHR ''.''" "Some 2" "Some 1" True]
    by (simp add: run_of_def is_digit_def del: to_semver.simps)
qed

text \<open>
  Because of that, a VCS of December 2020 without a service pack is refused where one of
  March 2020 with service pack 2 is required, for every comparison that puts \<open>2020.120\<close> before
  \<open>2020.3200\<close>, as the numbers do.
\<close>
theorem vcs_newer_rejected:
  assumes "parse_ver ''2020.03200'' = Inr need" "parse_ver ''2020.120'' = Inr have_ver" "ver_less have_ver need"
    and "tr_class t = VcsToolReq" "tr_min_version t = ''2020.03-SP2''"
    and "run_cmd h (get_tool_cmd t) (cmd_env (os_environ h) VcsToolReq) = Stdout ''Compiler version = VCS R-2020.12''"
  shows "check parse_ver ver_less h t
    = Inr (False, ''Installed version is too old: found version 2020.12, but need at least 2020.03-SP2'')"
proof -
  have "vcs_semver ''2020.03-SP2'' True = Inr ''2020.03200''" "vcs_semver ''2020.12'' False = Inr ''2020.120''"
    "parse_version_output VcsToolReq ''Compiler version = VCS R-2020.12'' = Inr ''2020.12''" by code_simp+
  then show ?thesis
    using assms by (simp add: check_def try_value_def try_runtime_def get_version_def base_get_version_def)
qed

theorem vcs_newer_rejected_witness:
  "check release rel_less
     \<lparr>os_environ = [], run_cmd = (\<lambda>_ _. Stdout ''Compiler version = VCS R-2020.12''),
      run_shell = (\<lambda>_. FileNotFoundError []), module_version = (\<lambda>_. Inl (ImportError []))\<rparr>
     \<lparr>tr_class = VcsToolReq, tr_tool = ''vcs'', tr_min_version = ''2020.03-SP2'', tr_as_needed = True\<rparr>
   = Inr (False, ''Installed version is too old: found version 2020.12, but need at least 2020.03-SP2'')"
proof -
  have r: "release ''2020.03200'' = Inr [2020, 3200]" "release ''2020.120'' = Inr [2020, 120]" by code_simp+
  have l: "rel_less [2020, 120] [2020, 3200]" by code_simp
  show ?thesis
    by (rule vcs_newer_rejected [where parse_ver = release and ver_less = rel_less, OF r l]) simp_all
qed

end
