(* ===== verification/Py_Path.thy ===== *)
theory Py_Path
  imports Py_Values
begin

text \<open>
  Paths of Python's path library on POSIX, as the scripts under \<^verbatim>\<open>dv/uvm/core_ibex\<close> use them.
  A path is held as its text; \<open>py_path\<close> is \<open>str(pathlib.Path(s))\<close>: repeated slashes and \<open>.\<close>
  components go away, two leading slashes are kept and three or more become one.
  \<open>path_div\<close> is the operator \<open>/\<close>, \<open>path_parent\<close>, \<open>path_last\<close>, \<open>with_suffix\<close> and \<open>relative_to\<close> the
  attribute and methods of those names (\<open>path_last\<close> is \<open>name\<close>).
\<close>

section \<open>Roots and components\<close>

definition path_root :: "string \<Rightarrow> string" where
  "path_root s =
     (if starts_with ''//'' s \<and> \<not> starts_with ''///'' s then ''//''
      else if starts_with ''/'' s then ''/'' else [])"

definition path_parts :: "string \<Rightarrow> string list" where
  "path_parts s = filter (\<lambda>w. w \<noteq> [] \<and> w \<noteq> ''.'') (split_on (CHR ''/'') s)"

definition path_str :: "string \<Rightarrow> string list \<Rightarrow> string" where
  "path_str root ps = (if root = [] \<and> ps = [] then ''.'' else root @ py_join ''/'' ps)"

definition py_path :: "string \<Rightarrow> string" where
  "py_path s = path_str (path_root s) (path_parts s)"

definition path_div :: "string \<Rightarrow> string \<Rightarrow> string" where
  "path_div a b =
     (if path_root b \<noteq> [] then py_path b else path_str (path_root a) (path_parts a @ path_parts b))"

definition path_parent :: "string \<Rightarrow> string" where
  "path_parent s = path_str (path_root s) (butlast (path_parts s))"

definition path_last :: "string \<Rightarrow> string" where
  "path_last s = (if path_parts s = [] then [] else last (path_parts s))"

definition relative_to :: "string \<Rightarrow> string \<Rightarrow> string option" where
  "relative_to p base =
     (if path_root p = path_root base \<and> prefix (path_parts base) (path_parts p)
      then Some (path_str [] (drop (length (path_parts base)) (path_parts p))) else None)"

text \<open>The stem and suffix of a file name: a leading or a trailing dot starts no suffix.\<close>

definition name_split :: "string \<Rightarrow> string \<times> string" where
  "name_split n =
     (case rfind_char (CHR ''.'') n of
        Some i \<Rightarrow> if 0 < i \<and> i < length n - 1 then (take i n, drop i n) else (n, [])
      | None \<Rightarrow> (n, []))"

definition path_suffix :: "string \<Rightarrow> string" where
  "path_suffix s = snd (name_split (path_last s))"

definition with_suffix :: "string \<Rightarrow> string \<Rightarrow> string res" where
  "with_suffix s sfx =
     (if path_parts s = [] then Inl (ValueError (''PosixPath('' @ repr_str (py_path s) @ '') has an empty name''))
      else Inr (path_str (path_root s)
             (butlast (path_parts s) @ [fst (name_split (last (path_parts s))) @ sfx])))"

section \<open>Normalised paths\<close>

definition proper :: "string \<Rightarrow> bool" where
  "proper w \<longleftrightarrow> w \<noteq> [] \<and> w \<noteq> ''.'' \<and> CHR ''/'' \<notin> set w"

definition root_ok :: "string \<Rightarrow> bool" where
  "root_ok r \<longleftrightarrow> r \<in> set [[], ''/'', ''//'']"

lemma root_ok_path_root [simp]: "root_ok (path_root s)"
  by (simp add: root_ok_def path_root_def)

lemma root_ok_Nil [simp]: "root_ok []"
  by (simp add: root_ok_def)

lemma path_parts_proper: "w \<in> set (path_parts s) \<Longrightarrow> proper w"
  using split_on_pieces by (auto simp: path_parts_def proper_def)

lemma all_proper_path_parts [simp]: "list_all proper (path_parts s)"
  by (simp add: list_all_iff path_parts_proper)

lemma split_join_proper:
  "list_all proper ps \<Longrightarrow> ps \<noteq> [] \<Longrightarrow> split_on (CHR ''/'') (py_join ''/'' ps) = ps"
  by (rule split_on_join) (auto simp: list_all_iff proper_def)

lemma filter_proper:
  "list_all proper ps \<Longrightarrow> filter (\<lambda>w. w \<noteq> [] \<and> w \<noteq> ''.'') ps = ps"
  by (induction ps) (auto simp: proper_def)

lemma path_parts_slash [simp]: "path_parts (CHR ''/'' # s) = path_parts s"
  by (simp add: path_parts_def split_on_simps)

lemma path_parts_join: "list_all proper ps \<Longrightarrow> path_parts (py_join ''/'' ps) = ps"
  by (cases "ps = []") (simp_all add: path_parts_def split_join_proper filter_proper, simp add: split_on_def)

lemma path_parts_dot [simp]: "path_parts ''.'' = []"
  by (simp add: path_parts_def split_on_def)

lemma path_parts_str [simp]:
  assumes "list_all proper ps" and "root_ok r"
  shows "path_parts (path_str r ps) = ps"
proof (cases "r = [] \<and> ps = []")
  case True
  then show ?thesis by (simp add: path_str_def)
next
  case False
  then have "path_str r ps = r @ py_join ''/'' ps" by (auto simp: path_str_def)
  then show ?thesis using assms by (auto simp: root_ok_def path_parts_join)
qed

lemma join_proper_hd: "list_all proper ps \<Longrightarrow> \<not> starts_with ''/'' (py_join ''/'' ps)"
proof (cases ps)
  case (Cons p qs)
  assume "list_all proper ps"
  then obtain c w where "p = c # w" and "c \<noteq> CHR ''/''" using Cons
    by (cases p) (auto simp: proper_def)
  then show ?thesis using Cons by (cases qs) (auto simp: starts_with_def)
qed (simp add: starts_with_def)

lemma path_root_str [simp]:
  assumes "list_all proper ps" and "root_ok r"
  shows "path_root (path_str r ps) = r"
proof (cases "r = [] \<and> ps = []")
  case True
  then show ?thesis by (simp add: path_str_def path_root_def starts_with_def)
next
  case False
  then have "path_str r ps = r @ py_join ''/'' ps" by (auto simp: path_str_def)
  moreover have "\<not> starts_with ''/'' (py_join ''/'' ps)" using assms(1) by (rule join_proper_hd)
  ultimately show ?thesis using assms(2)
    by (cases "py_join ''/'' ps") (auto simp: root_ok_def path_root_def starts_with_def)
qed

lemma list_all_butlast: "list_all P xs \<Longrightarrow> list_all P (butlast xs)"
  by (auto simp: list_all_iff dest: in_set_butlastD)

lemma py_path_idem [simp]: "py_path (py_path s) = py_path s"
  by (simp add: py_path_def)

lemma path_parts_py [simp]: "path_parts (py_path s) = path_parts s"
  by (simp add: py_path_def)

lemma path_root_py [simp]: "path_root (py_path s) = path_root s"
  by (simp add: py_path_def)

lemma path_parts_div [simp]:
  "path_root b = [] \<Longrightarrow> path_parts (path_div a b) = path_parts a @ path_parts b"
  by (simp add: path_div_def)

lemma path_root_div [simp]: "path_root b = [] \<Longrightarrow> path_root (path_div a b) = path_root a"
  by (simp add: path_div_def)

lemma py_path_div [simp]: "py_path (path_div a b) = path_div a b"
  by (simp add: path_div_def) (simp add: py_path_def)

lemma path_div_assoc:
  "path_root b = [] \<Longrightarrow> path_root c = [] \<Longrightarrow> path_div (path_div a b) c = path_div a (path_div b c)"
  by (simp add: path_div_def)

lemma path_eq_iff: "py_path p = py_path q \<longleftrightarrow> path_root p = path_root q \<and> path_parts p = path_parts q"
  by (metis path_parts_py path_root_py py_path_def)

lemma proper_parts: "proper w \<Longrightarrow> path_parts w = [w]"
  using path_parts_join [of "[w]"] by simp

lemma proper_root: "proper w \<Longrightarrow> path_root w = []"
  by (cases w) (auto simp: path_root_def starts_with_def proper_def)

lemma path_div_proper_inj:
  assumes "proper v" and "proper w"
  shows "path_div a v = path_div a w \<longleftrightarrow> v = w"
  using assms path_parts_div [of v a] path_parts_div [of w a]
  by (metis append_same_eq list.inject proper_parts proper_root same_append_eq)

lemma path_last_div: "proper w \<Longrightarrow> path_last (path_div a w) = w"
  by (simp add: path_last_def proper_parts proper_root)

lemma path_parent_div: "proper w \<Longrightarrow> path_parent (path_div a w) = py_path a"
  by (simp add: path_parent_def py_path_def proper_parts proper_root)

lemma relative_to_div: "path_root b = [] \<Longrightarrow> relative_to (path_div a b) a = Some (py_path b)"
  by (simp add: relative_to_def py_path_def)

section \<open>Textual normalisation\<close>

text \<open>
  \<open>os.path.normpath\<close> and \<open>os.path.abspath\<close>: \<open>..\<close> removes the component before it, without asking
  the file system; \<open>cwd\<close> is the current directory.
\<close>

definition norm_step :: "string \<Rightarrow> string list \<Rightarrow> string \<Rightarrow> string list" where
  "norm_step root acc c =
     (if c \<noteq> ''..'' \<or> (root = [] \<and> acc = []) \<or> (acc \<noteq> [] \<and> last acc = ''..'') then acc @ [c]
      else butlast acc)"

definition os_normpath :: "string \<Rightarrow> string" where
  "os_normpath s = path_str (path_root s) (foldl (norm_step (path_root s)) [] (path_parts s))"

definition os_abspath :: "string \<Rightarrow> string \<Rightarrow> string" where
  "os_abspath cwd s = os_normpath (if starts_with ''/'' s then s else path_join cwd s)"

definition no_dotdot :: "string list \<Rightarrow> bool" where
  "no_dotdot ps \<longleftrightarrow> ''..'' \<notin> set ps"

lemma norm_plain: "no_dotdot ps \<Longrightarrow> foldl (norm_step r) acc ps = acc @ ps"
  by (induction ps arbitrary: acc) (auto simp: no_dotdot_def norm_step_def)

lemma starts_with_root: "starts_with ''/'' s \<longleftrightarrow> path_root s \<noteq> []"
  by (auto simp: path_root_def starts_with_iff)

lemma os_abspath_plain:
  "path_root s \<noteq> [] \<Longrightarrow> no_dotdot (path_parts s) \<Longrightarrow> os_abspath cwd s = py_path s"
  by (simp add: os_abspath_def starts_with_root os_normpath_def norm_plain py_path_def)

text \<open>The textual join against the components.\<close>

lemma split_on_append_sep: "split_on c (s @ c # t) = split_on c s @ split_on c t"
proof (induction s)
  case (Cons x s)
  obtain w ws where "split_on c s = w # ws" by (cases "split_on c s") (simp_all add: split_on_def)
  then show ?case using Cons by (cases "x = c") (simp_all add: split_on_simps)
qed (simp add: split_on_simps)

lemma path_parts_slash_mid: "path_parts (a @ CHR ''/'' # b) = path_parts a @ path_parts b"
  by (simp add: path_parts_def split_on_append_sep)

lemma path_parts_Nil [simp]: "path_parts [] = []"
  by (simp add: path_parts_def split_on_simps)

lemma path_parts_path_join:
  assumes "path_root b = []"
  shows "path_parts (path_join a b) = path_parts a @ path_parts b"
proof -
  have b: "\<not> starts_with ''/'' b" using assms by (simp add: path_root_def split: if_splits)
  show ?thesis
  proof (cases "ends_with ''/'' a")
    case True
    then obtain a' where "a = a' @ ''/''" by (auto simp: ends_with_iff)
    then show ?thesis using b True path_parts_slash_mid [of a' "[]"]
      by (simp add: path_join_def path_parts_slash_mid)
  next
    case False
    with b show ?thesis
      by (cases "a = []") (simp_all add: path_join_def path_parts_slash_mid)
  qed
qed

lemma path_root_path_join:
  assumes "path_root b = []" and "path_root a \<noteq> []"
  shows "path_root (path_join a b) = path_root a"
proof -
  have b: "\<not> starts_with ''/'' b" using assms(1) by (simp add: path_root_def split: if_splits)
  from assms(2) obtain a1 where a: "a = CHR ''/'' # a1"
    by (auto simp: path_root_def starts_with_iff split: if_splits)
  show ?thesis
  proof (cases "a1 = [] \<or> a1 = ''/''")
    case True
    then show ?thesis using a b
      by (cases b) (auto simp: path_join_def ends_with_def path_root_def starts_with_def)
  next
    case False
    then obtain x y where "a1 = x # y" by (cases a1) auto
    then show ?thesis using False a b
      by (cases y) (auto simp: path_join_def path_root_def starts_with_def)
  qed
qed

end
