(* ===== verification/Directed_Schema.thy ===== *)
theory Directed_Schema
  imports Py_Path Scripts_Lib
begin

text \<open>
  \<^verbatim>\<open>dv/uvm/core_ibex/scripts/directed_test_schema.py\<close>: the list of directed tests.  The YAML file
  is a flat list of configurations and tests; \<open>import_model\<close> joins every test with the
  configuration it names and validates the result against the classes \<open>DConfig\<close>, \<open>DTest\<close> and
  \<open>DirectedTestsYaml\<close>.  The validation library is outside the sources: how it reads a string, an
  integer and a dictionary is the record \<open>validators\<close>; the validators that the classes define
  themselves are modelled.  A path object is held as its text.
\<close>

section \<open>Iterating over loaded data\<close>

text \<open>What a \<open>for\<close> loop sees of a loaded value.\<close>

definition py_iter :: "pyval \<Rightarrow> pyval list res" where
  "py_iter v =
     (case v of
        PList xs \<Rightarrow> Inr xs
      | PDict d \<Rightarrow> Inr (map fst d)
      | PStr s \<Rightarrow> Inr (map (\<lambda>c. PStr [c]) s)
      | _ \<Rightarrow> Inl (TypeError ''object is not iterable''))"

definition as_dict :: "exn \<Rightarrow> pyval \<Rightarrow> (pyval \<times> pyval) list res" where
  "as_dict e v = (case v of PDict d \<Rightarrow> Inr d | _ \<Rightarrow> Inl e)"

text \<open>\<open>d.get(k)\<close> and \<open>{**a, **b}\<close>.\<close>

definition get_key :: "(pyval \<times> pyval) list \<Rightarrow> string \<Rightarrow> pyval" where
  "get_key d k = (case lookup_str d k of None \<Rightarrow> PNone | Some v \<Rightarrow> v)"

definition dict_merge :: "('k, 'v) dict \<Rightarrow> ('k, 'v) dict \<Rightarrow> ('k, 'v) dict" where
  "dict_merge a b = foldl (\<lambda>d (k, v). dict_set k v d) a b"

lemma dict_merge_lookup:
  "distinct (dict_keys b) \<Longrightarrow> map_of (dict_merge a b) = map_of a ++ map_of b"
proof (induction b arbitrary: a)
  case Nil
  then show ?case by (simp add: dict_merge_def)
next
  case (Cons kv b)
  obtain k v where kv: "kv = (k, v)" by fastforce
  have "dict_merge a (kv # b) = dict_merge (dict_set k v a) b" by (simp add: dict_merge_def kv)
  also have "map_of \<dots> = (map_of a)(k \<mapsto> v) ++ map_of b" using Cons by (simp add: AList.update_conv')
  also have "\<dots> = map_of a ++ map_of (kv # b)"
  proof -
    have "map_of b k = None" using Cons.prems by (simp add: kv map_of_eq_None_iff)
    then show ?thesis by (auto simp: kv map_add_def fun_eq_iff split: option.splits)
  qed
  finally show ?case .
qed

section \<open>The classes\<close>

record validators =
  v_str :: "pyval \<Rightarrow> string option"
  v_int :: "pyval \<Rightarrow> int option"
  v_dict :: "pyval \<Rightarrow> (pyval \<times> pyval) list option"

text \<open>The pre-converter of the path fields: the path library takes strings only.\<close>

definition make_valid_pathlib_path :: "pyval \<Rightarrow> string option" where
  "make_valid_pathlib_path v = (case v of PStr s \<Rightarrow> Some (py_path s) | _ \<Rightarrow> None)"

definition validate_path_exists :: "(string \<Rightarrow> bool) \<Rightarrow> string \<Rightarrow> string \<Rightarrow> string option" where
  "validate_path_exists path_exists v dt =
     (let p = path_div (path_parent dt) v in if path_exists p then Some p else None)"

definition conint_gt0 :: "validators \<Rightarrow> pyval \<Rightarrow> int option" where
  "conint_gt0 V v = (case v_int V v of Some i \<Rightarrow> if 0 < i then Some i else None | None \<Rightarrow> None)"

text \<open>A required field: absent is an error, otherwise its validator decides.\<close>

definition required :: "(pyval \<times> pyval) list \<Rightarrow> string \<Rightarrow> (pyval \<Rightarrow> 'a option) \<Rightarrow> 'a option" where
  "required d k f = Option.bind (lookup_str d k) f"

record dconfig =
  d_config :: string
  d_rtl_test :: string
  d_rtl_params :: "(pyval \<times> pyval) list"
  d_timeout_s :: int
  d_gcc_opts :: string
  d_ld_script :: string
  d_includes :: string

record dtest = dconfig +
  d_test :: string
  d_desc :: string
  d_test_srcs :: string
  d_iterations :: int

definition DConfig :: "validators \<Rightarrow> (pyval \<times> pyval) list \<Rightarrow> dconfig option" where
  "DConfig V d =
     Option.bind (required d ''config'' (v_str V)) (\<lambda>f1.
     Option.bind (required d ''rtl_test'' (v_str V)) (\<lambda>f2.
     Option.bind (required d ''rtl_params'' (v_dict V)) (\<lambda>f3.
     Option.bind (required d ''timeout_s'' (conint_gt0 V)) (\<lambda>f4.
     Option.bind (required d ''gcc_opts'' (v_str V)) (\<lambda>f5.
     Option.bind (required d ''ld_script'' make_valid_pathlib_path) (\<lambda>f6.
     Option.bind (required d ''includes'' make_valid_pathlib_path) (\<lambda>f7.
     Some \<lparr>d_config = f1, d_rtl_test = f2, d_rtl_params = f3, d_timeout_s = f4, d_gcc_opts = f5,
           d_ld_script = f6, d_includes = f7\<rparr>)))))))"

definition DTest :: "validators \<Rightarrow> (pyval \<times> pyval) list \<Rightarrow> dtest option" where
  "DTest V d =
     Option.bind (DConfig V d) (\<lambda>c.
     Option.bind (required d ''test'' (v_str V)) (\<lambda>f1.
     Option.bind (required d ''desc'' (v_str V)) (\<lambda>f2.
     Option.bind (required d ''test_srcs'' make_valid_pathlib_path) (\<lambda>f3.
     Option.bind (required d ''iterations'' (conint_gt0 V)) (\<lambda>f4.
     Some (dconfig.extend c (dtest.fields f1 f2 f3 f4)))))))"

record directed_model =
  m_yaml :: string
  m_configs :: "dconfig list"
  m_tests :: "dtest list"

fun map_opt :: "('a \<Rightarrow> 'b option) \<Rightarrow> 'a list \<Rightarrow> 'b list option" where
  "map_opt f [] = Some []"
| "map_opt f (x # xs) = Option.bind (f x) (\<lambda>y. Option.bind (map_opt f xs) (\<lambda>ys. Some (y # ys)))"

text \<open>The path fields are replaced by the paths found, relative to the YAML file.\<close>

definition check_config_paths :: "(string \<Rightarrow> bool) \<Rightarrow> string \<Rightarrow> 'a dconfig_scheme \<Rightarrow> 'a dconfig_scheme option" where
  "check_config_paths path_exists yaml c =
     Option.bind (validate_path_exists path_exists (d_ld_script c) yaml) (\<lambda>p1.
     Option.bind (validate_path_exists path_exists (d_includes c) yaml) (\<lambda>p2.
     Some (c\<lparr>d_ld_script := p1, d_includes := p2\<rparr>)))"

definition check_test_paths :: "(string \<Rightarrow> bool) \<Rightarrow> string \<Rightarrow> dtest \<Rightarrow> dtest option" where
  "check_test_paths path_exists yaml t =
     Option.bind (check_config_paths path_exists yaml t) (\<lambda>t.
     Option.bind (validate_path_exists path_exists (d_test_srcs t) yaml) (\<lambda>p.
     Some (t\<lparr>d_test_srcs := p\<rparr>)))"

definition yaml_file_must_exist :: "(string \<Rightarrow> bool) \<Rightarrow> string \<Rightarrow> string option" where
  "yaml_file_must_exist path_exists v = (if path_exists v then Some v else None)"

definition test_config_must_exist :: "directed_model \<Rightarrow> directed_model option" where
  "test_config_must_exist m =
     (let config_names = map d_config (m_configs m)
      in if list_all (\<lambda>t. d_config t \<in> set config_names) (m_tests m) then Some m else None)"

definition all_paths_must_exist :: "(string \<Rightarrow> bool) \<Rightarrow> directed_model \<Rightarrow> directed_model option" where
  "all_paths_must_exist path_exists m =
     Option.bind (map_opt (check_config_paths path_exists (m_yaml m)) (m_configs m)) (\<lambda>cs.
     Option.bind (map_opt (check_test_paths path_exists (m_yaml m)) (m_tests m)) (\<lambda>ts.
     Some (m\<lparr>m_configs := cs, m_tests := ts\<rparr>)))"

definition DirectedTestsYaml :: "validators \<Rightarrow> (string \<Rightarrow> bool) \<Rightarrow> string \<Rightarrow> (pyval \<times> pyval) list list
    \<Rightarrow> (pyval \<times> pyval) list list \<Rightarrow> directed_model option" where
  "DirectedTestsYaml V path_exists yaml configs tests =
     Option.bind (yaml_file_must_exist path_exists yaml) (\<lambda>y.
     Option.bind (map_opt (DConfig V) configs) (\<lambda>cs.
     Option.bind (map_opt (DTest V) tests) (\<lambda>ts.
     Option.bind (test_config_must_exist \<lparr>m_yaml = y, m_configs = cs, m_tests = ts\<rparr>)
       (all_paths_must_exist path_exists))))"

section \<open>Importing the file\<close>

definition is_test :: "(pyval \<times> pyval) list \<Rightarrow> bool" where
  "is_test i \<longleftrightarrow> get_key i ''test'' \<noteq> PNone"

definition missing_config :: "string \<Rightarrow> (pyval \<times> pyval) list \<Rightarrow> exn" where
  "missing_config yaml t =
     (case lookup_str t ''config'' of
        None \<Rightarrow> KeyError ''config''
      | Some c \<Rightarrow> ValueError (''Test '' @ [CHR 0x27] @ py_str (get_key t ''test'') @ [CHR 0x27]
                  @ '' gave the config '' @ [CHR 0x27] @ py_str c @ [CHR 0x27] @ '', but ''
                  @ ''this config does not exist in the file ''
                  @ [CHR 0x27] @ yaml @ [CHR 0x27] @ ''.'' @ newline))"

definition join_config :: "string \<Rightarrow> (pyval \<times> pyval) list list \<Rightarrow> (pyval \<times> pyval) list
    \<Rightarrow> (pyval \<times> pyval) list res" where
  "join_config yaml configs t =
     (case find (\<lambda>i. py_eq (get_key i ''config'') (get_key t ''config'')) configs of
        None \<Rightarrow> Inl (missing_config yaml t)
      | Some t_config \<Rightarrow> Inr (dict_merge t_config t))"

definition import_model :: "validators \<Rightarrow> (string \<Rightarrow> bool) \<Rightarrow> (string \<Rightarrow> string res)
    \<Rightarrow> (string \<Rightarrow> string + pyval) \<Rightarrow> string \<Rightarrow> directed_model res" where
  "import_model V path_exists read_file yaml_load directed_test_yaml =
     bind_res (read_yaml read_file yaml_load directed_test_yaml) (\<lambda>yaml_data.
     bind_res (py_iter yaml_data) (\<lambda>items.
     bind_res (map_res (as_dict (AttributeError ''get'')) items) (\<lambda>ds.
     let configs = filter (\<lambda>i. \<not> is_test i) ds
     in bind_res (map_res (join_config directed_test_yaml configs) (filter is_test ds)) (\<lambda>tests.
        case DirectedTestsYaml V path_exists directed_test_yaml configs tests of
          None \<Rightarrow> Inl (SystemExit 1)
        | Some m \<Rightarrow> Inr m))))"

text \<open>\<open>m.dict()\<close> of a test, in the order of the fields.\<close>

definition dtest_dict :: "dtest \<Rightarrow> (string, pyval) dict" where
  "dtest_dict t =
     [(''config'', PStr (d_config t)), (''rtl_test'', PStr (d_rtl_test t)),
      (''rtl_params'', PDict (d_rtl_params t)), (''timeout_s'', PInt (d_timeout_s t)),
      (''gcc_opts'', PStr (d_gcc_opts t)), (''ld_script'', PStr (d_ld_script t)),
      (''includes'', PStr (d_includes t)), (''test'', PStr (d_test t)), (''desc'', PStr (d_desc t)),
      (''test_srcs'', PStr (d_test_srcs t)), (''iterations'', PInt (d_iterations t))]"

section \<open>What an imported list satisfies\<close>

lemma map_opt_all2: "map_opt f xs = Some ys \<longleftrightarrow> list_all2 (\<lambda>x y. f x = Some y) xs ys"
  by (induction xs arbitrary: ys) (auto simp: bind_eq_Some_conv list_all2_Cons1)

lemma map_res_all2_iff: "map_res f xs = Inr ys \<longleftrightarrow> list_all2 (\<lambda>x y. f x = Inr y) xs ys"
  by (induction xs arbitrary: ys) (auto simp: res_simps list_all2_Cons1)

lemmas schema_defs = check_test_paths_def check_config_paths_def validate_path_exists_def
  all_paths_must_exist_def test_config_must_exist_def yaml_file_must_exist_def

lemma required_Some: "required d k f = Some y \<longleftrightarrow> (\<exists>v. lookup_str d k = Some v \<and> f v = Some y)"
  by (simp add: required_def bind_eq_Some_conv)

lemma conint_Some: "conint_gt0 V v = Some i \<longleftrightarrow> v_int V v = Some i \<and> 0 < i"
  by (auto simp: conint_gt0_def split: option.splits if_splits)

text \<open>The fields of a test, with the value that each was read from.\<close>

definition text_fields :: "dtest \<Rightarrow> (string \<times> string) list" where
  "text_fields t =
     [(''config'', d_config t), (''rtl_test'', d_rtl_test t), (''gcc_opts'', d_gcc_opts t),
      (''test'', d_test t), (''desc'', d_desc t)]"

definition count_fields :: "dtest \<Rightarrow> (string \<times> int) list" where
  "count_fields t = [(''timeout_s'', d_timeout_s t), (''iterations'', d_iterations t)]"

definition reads_fields :: "validators \<Rightarrow> (string \<Rightarrow> pyval option) \<Rightarrow> dtest \<Rightarrow> bool" where
  "reads_fields V look t \<longleftrightarrow>
     list_all (\<lambda>(k, s). Option.bind (look k) (v_str V) = Some s) (text_fields t)
   \<and> list_all (\<lambda>(k, i). Option.bind (look k) (v_int V) = Some i \<and> 0 < i) (count_fields t)"

lemma DTest_reads: "DTest V d = Some t \<Longrightarrow> reads_fields V (lookup_str d) t"
  by (auto simp: DTest_def DConfig_def bind_eq_Some_conv required_Some conint_Some reads_fields_def
      text_fields_def count_fields_def dconfig.extend_def dtest.fields_def)

lemma check_test_paths_fields:
  "check_test_paths ex y t = Some t' \<Longrightarrow>
     text_fields t' = text_fields t \<and> count_fields t' = count_fields t
   \<and> ex (d_ld_script t') \<and> ex (d_includes t') \<and> ex (d_test_srcs t')"
  by (auto simp: schema_defs Let_def bind_eq_Some_conv text_fields_def count_fields_def split: if_splits)

lemma check_config_paths_name: "check_config_paths ex y c = Some c' \<Longrightarrow> d_config c' = d_config c"
  by (auto simp: schema_defs Let_def bind_eq_Some_conv split: if_splits)

lemma DirectedTestsYaml_Some:
  assumes "DirectedTestsYaml V ex y configs tests = Some m"
  shows "m_yaml m = y" and "ex y"
    and "list_all2 (\<lambda>c c'. \<exists>d. DConfig V c = Some d \<and> check_config_paths ex y d = Some c') configs (m_configs m)"
    and "list_all2 (\<lambda>t t'. \<exists>d. DTest V t = Some d \<and> check_test_paths ex y d = Some t') tests (m_tests m)"
    and "\<forall>t\<in>set (m_tests m). d_config t \<in> d_config ` set (m_configs m)"
proof -
  from assms obtain cs ts cs' ts' where ex: "ex y"
    and cs: "list_all2 (\<lambda>x y. DConfig V x = Some y) configs cs"
    and ts: "list_all2 (\<lambda>x y. DTest V x = Some y) tests ts"
    and names: "\<forall>t\<in>set ts. d_config t \<in> d_config ` set cs"
    and cs': "list_all2 (\<lambda>x z. check_config_paths ex y x = Some z) cs cs'"
    and ts': "list_all2 (\<lambda>x z. check_test_paths ex y x = Some z) ts ts'"
    and m: "m = \<lparr>m_yaml = y, m_configs = cs', m_tests = ts'\<rparr>"
    by (auto simp: DirectedTestsYaml_def yaml_file_must_exist_def test_config_must_exist_def
        all_paths_must_exist_def bind_eq_Some_conv map_opt_all2 list_all_iff Let_def split: if_splits)
  show "m_yaml m = y" and "ex y" using m ex by simp_all
  show "list_all2 (\<lambda>c c'. \<exists>d. DConfig V c = Some d \<and> check_config_paths ex y d = Some c') configs (m_configs m)"
    using list_all2_trans [OF _ cs cs', of "\<lambda>c c'. \<exists>d. DConfig V c = Some d \<and> check_config_paths ex y d = Some c'"] m
    by auto
  show "list_all2 (\<lambda>t t'. \<exists>d. DTest V t = Some d \<and> check_test_paths ex y d = Some t') tests (m_tests m)"
    using list_all2_trans [OF _ ts ts', of "\<lambda>t t'. \<exists>d. DTest V t = Some d \<and> check_test_paths ex y d = Some t'"] m
    by auto
  have "map d_config cs' = map d_config cs"
    using cs' by (induction rule: list_all2_induct) (auto dest: check_config_paths_name)
  then have same: "d_config ` set cs' = d_config ` set cs" by (metis list.set_map)
  show "\<forall>t\<in>set (m_tests m). d_config t \<in> d_config ` set (m_configs m)"
  proof
    fix t' assume "t' \<in> set (m_tests m)"
    then obtain i where i: "i < length ts'" "t' = ts' ! i" using m by (auto simp: in_set_conv_nth)
    with ts' have "check_test_paths ex y (ts ! i) = Some t'" and "ts ! i \<in> set ts"
      by (auto simp: list_all2_conv_all_nth)
    from check_test_paths_fields [OF this(1)] this(2) names show "d_config t' \<in> d_config ` set (m_configs m)"
      using m same by (simp add: text_fields_def)
  qed
qed

lemma import_model_Inr:
  assumes "import_model V ex rf yl f = Inr m"
  obtains yaml_data items ds tests
  where "read_yaml rf yl f = Inr yaml_data" "py_iter yaml_data = Inr items"
    "map_res (as_dict (AttributeError ''get'')) items = Inr ds"
    "map_res (join_config f (filter (\<lambda>i. \<not> is_test i) ds)) (filter is_test ds) = Inr tests"
    "DirectedTestsYaml V ex f (filter (\<lambda>i. \<not> is_test i) ds) tests = Some m"
  using assms by (auto simp: import_model_def Let_def bind_res_Inr split: option.splits)

text \<open>
  C24: Whatever file is imported, every test of the result names one of its configurations, has
  a positive timeout and number of iterations, and its linker script, include directory and
  sources exist on disk; the file itself exists.
\<close>
theorem import_model_valid:
  assumes "import_model V ex rf yl f = Inr m"
  shows "m_yaml m = f \<and> ex f
       \<and> (\<forall>t\<in>set (m_tests m). d_config t \<in> d_config ` set (m_configs m)
            \<and> 0 < d_timeout_s t \<and> 0 < d_iterations t
            \<and> ex (d_ld_script t) \<and> ex (d_includes t) \<and> ex (d_test_srcs t))"
proof -
  from import_model_Inr [OF assms] obtain configs tests
    where D: "DirectedTestsYaml V ex f configs tests = Some m" by metis
  note facts = DirectedTestsYaml_Some [OF D]
  have "0 < d_timeout_s t \<and> 0 < d_iterations t \<and> ex (d_ld_script t) \<and> ex (d_includes t) \<and> ex (d_test_srcs t)"
    if "t \<in> set (m_tests m)" for t
  proof -
    from that facts(4) obtain x d where "DTest V x = Some d" and p: "check_test_paths ex f d = Some t"
      by (auto simp: list_all2_conv_all_nth in_set_conv_nth)
    from DTest_reads [OF this(1)] check_test_paths_fields [OF p] show ?thesis
      by (simp add: reads_fields_def count_fields_def)
  qed
  with facts show ?thesis by blast
qed

text \<open>
  The tests of the result are the test entries of the file in order; each field of a test
  is read from the entry where the entry gives it and otherwise from the first configuration of
  the name it gives: the test's own option takes priority.
\<close>
theorem test_option_priority:
  assumes "import_model V ex rf yl f = Inr m"
    and "read_yaml rf yl f = Inr (PList (map PDict ds))"
    and "\<forall>d\<in>set ds. distinct (dict_keys d)"
  shows "list_all2 (\<lambda>t dt. \<exists>c. find (\<lambda>i. py_eq (get_key i ''config'') (get_key t ''config''))
                                  (filter (\<lambda>i. \<not> is_test i) ds) = Some c
            \<and> reads_fields V (\<lambda>k. case lookup_str t k of Some v \<Rightarrow> Some v | None \<Rightarrow> lookup_str c k) dt)
          (filter is_test ds) (m_tests m)"
proof -
  let ?configs = "filter (\<lambda>i. \<not> is_test i) ds"
  have ds: "map_res (as_dict (AttributeError ''get'')) (map PDict xs) = Inr xs" for xs
    by (induction xs) (simp_all add: as_dict_def)
  from import_model_Inr [OF assms(1)] obtain yd items ds' tests
    where "read_yaml rf yl f = Inr yd" "py_iter yd = Inr items"
      "map_res (as_dict (AttributeError ''get'')) items = Inr ds'"
      and j': "map_res (join_config f (filter (\<lambda>i. \<not> is_test i) ds')) (filter is_test ds') = Inr tests"
      and D': "DirectedTestsYaml V ex f (filter (\<lambda>i. \<not> is_test i) ds') tests = Some m" .
  with assms(2) ds have "ds' = ds" by (auto simp: py_iter_def)
  with j' D' have j: "list_all2 (\<lambda>t u. join_config f ?configs t = Inr u) (filter is_test ds) tests"
    and D: "DirectedTestsYaml V ex f ?configs tests = Some m"
    by (simp_all add: map_res_all2_iff)
  show ?thesis
  proof (rule list_all2_all_nthI)
    show len: "length (filter is_test ds) = length (m_tests m)"
      using list_all2_lengthD [OF j] list_all2_lengthD [OF DirectedTestsYaml_Some(4) [OF D]] by simp
    fix n assume n: "n < length (filter is_test ds)"
    let ?t = "filter is_test ds ! n" and ?dt = "m_tests m ! n"
    from n j have "join_config f ?configs ?t = Inr (tests ! n)" by (simp add: list_all2_conv_all_nth)
    then obtain c where c: "find (\<lambda>i. py_eq (get_key i ''config'') (get_key ?t ''config'')) ?configs = Some c"
      and u: "tests ! n = dict_merge c ?t"
      by (auto simp: join_config_def split: option.splits)
    from nth_mem [OF n] have "?t \<in> set ds" by auto
    with assms(3) have "distinct (dict_keys ?t)" by blast
    from dict_merge_lookup [OF this, of c]
    have look: "lookup_str (tests ! n) = (\<lambda>k. case lookup_str ?t k of Some v \<Rightarrow> Some v | None \<Rightarrow> lookup_str c k)"
      by (simp add: u lookup_str_map_of map_add_def fun_eq_iff split: option.split)
    from n len DirectedTestsYaml_Some(4) [OF D] obtain d
      where d: "DTest V (tests ! n) = Some d" and p: "check_test_paths ex f d = Some ?dt"
      by (auto simp: list_all2_conv_all_nth)
    from DTest_reads [OF d] check_test_paths_fields [OF p]
    have "reads_fields V (lookup_str (tests ! n)) ?dt" by (simp add: reads_fields_def)
    with c look show "\<exists>c. find (\<lambda>i. py_eq (get_key i ''config'') (get_key ?t ''config'')) ?configs = Some c
            \<and> reads_fields V (\<lambda>k. case lookup_str ?t k of Some v \<Rightarrow> Some v | None \<Rightarrow> lookup_str c k) ?dt"
      by auto
  qed
qed

text \<open>A file with one configuration and a test that overrides its timeout.\<close>

definition demo_validators :: validators where
  "demo_validators =
     \<lparr>v_str = (\<lambda>v. case v of PStr s \<Rightarrow> Some s | _ \<Rightarrow> None), v_int = num_of,
      v_dict = (\<lambda>v. case v of PDict d \<Rightarrow> Some d | _ \<Rightarrow> None)\<rparr>"

definition demo_entries :: "(pyval \<times> pyval) list list" where
  "demo_entries =
     [[(PStr ''config'', PStr ''riscv-tests''), (PStr ''ld_script'', PStr ''link.ld''),
       (PStr ''includes'', PStr ''.''), (PStr ''gcc_opts'', PStr ''-static''),
       (PStr ''rtl_test'', PStr ''core_ibex_base_test''),
       (PStr ''rtl_params'', PDict [(PStr ''PMPEnable'', PInt 1)]), (PStr ''timeout_s'', PInt 300)],
      [(PStr ''test'', PStr ''empty''), (PStr ''desc'', PStr ''Empty directed test''),
       (PStr ''iterations'', PInt 1), (PStr ''test_srcs'', PStr ''empty/empty.S''),
       (PStr ''config'', PStr ''riscv-tests''), (PStr ''timeout_s'', PInt 60)]]"

definition demo_model :: directed_model where
  "demo_model =
     \<lparr>m_yaml = ''/t/list.yaml'',
      m_configs = [\<lparr>d_config = ''riscv-tests'', d_rtl_test = ''core_ibex_base_test'',
                    d_rtl_params = [(PStr ''PMPEnable'', PInt 1)], d_timeout_s = 300,
                    d_gcc_opts = ''-static'', d_ld_script = ''/t/link.ld'', d_includes = ''/t''\<rparr>],
      m_tests = [\<lparr>d_config = ''riscv-tests'', d_rtl_test = ''core_ibex_base_test'',
                  d_rtl_params = [(PStr ''PMPEnable'', PInt 1)], d_timeout_s = 60,
                  d_gcc_opts = ''-static'', d_ld_script = ''/t/link.ld'', d_includes = ''/t'',
                  d_test = ''empty'', d_desc = ''Empty directed test'',
                  d_test_srcs = ''/t/empty/empty.S'', d_iterations = 1\<rparr>]\<rparr>"

lemma demo_import:
  "import_model demo_validators (\<lambda>p. True) (\<lambda>f. Inr []) (\<lambda>t. Inr (PList (map PDict demo_entries)))
     ''/t/list.yaml'' = Inr demo_model"
  by code_simp

lemma demo_read:
  "read_yaml (\<lambda>f. Inr []) (\<lambda>t. Inr (PList (map PDict demo_entries))) ''/t/list.yaml'' =
     Inr (PList (map PDict demo_entries))"
  by (simp add: read_yaml_def)

theorem import_model_valid_witness:
  "list_all (\<lambda>t. d_config t \<in> d_config ` set (m_configs demo_model)
     \<and> 0 < d_timeout_s t \<and> 0 < d_iterations t) (m_tests demo_model)"
  using import_model_valid [OF demo_import] unfolding list_all_iff by blast

theorem test_option_priority_witness:
  "list_all2 (\<lambda>t dt. \<exists>c. find (\<lambda>i. py_eq (get_key i ''config'') (get_key t ''config''))
                            (filter (\<lambda>i. \<not> is_test i) demo_entries) = Some c
      \<and> reads_fields demo_validators
          (\<lambda>k. case lookup_str t k of Some v \<Rightarrow> Some v | None \<Rightarrow> lookup_str c k) dt)
    (filter is_test demo_entries) (m_tests demo_model)"
proof (rule test_option_priority [OF demo_import demo_read])
  show "\<forall>d\<in>set demo_entries. distinct (dict_keys d)" by code_simp
qed

end
