(* ===== verification/Metadata.thy ===== *)
theory Metadata
  imports Check_Logs Ibex_Cmd Directed_Schema
begin

text \<open>
  \<^verbatim>\<open>dv/uvm/core_ibex/scripts/metadata.py\<close> and \<^verbatim>\<open>setup_imports.py\<close>: the record of a regression, the
  command that creates it from the arguments of the makefile, the selection of the tests to
  run with their numbers of iterations, the record of each run, and the fields printed back to
  the makefile.  The test list of the instruction generator is read by
  \<open>process_regression_list\<close> of \<^verbatim>\<open>vendor/google_riscv-dv/scripts/lib.py\<close>.
  The file system, the YAML parser, the validation library, the clock and the version control
  are the record \<open>world\<close>.
\<close>

section \<open>Project directories\<close>

text \<open>\<open>pathlib.Path(__file__).resolve().parents[4]\<close>, of the resolved path of the script.\<close>

definition get_project_root :: "string \<Rightarrow> string res" where
  "get_project_root file =
     (if length (path_parts file) < 5 then Inl IndexError
      else Inr (path_parent (path_parent (path_parent (path_parent (path_parent file))))))"

definition IBEX_UTIL :: "string \<Rightarrow> string" where
  "IBEX_UTIL root = path_div root ''util''"

definition CORE_IBEX :: "string \<Rightarrow> string" where
  "CORE_IBEX root = path_div (path_div (path_div root ''dv'') ''uvm'') ''core_ibex''"

definition CORE_IBEX_SCRIPTS :: "string \<Rightarrow> string" where
  "CORE_IBEX_SCRIPTS root = path_div (CORE_IBEX root) ''scripts''"

definition CORE_IBEX_RISCV_DV_EXTENSION :: "string \<Rightarrow> string" where
  "CORE_IBEX_RISCV_DV_EXTENSION root = path_div (CORE_IBEX root) ''riscv_dv_extension''"

definition CORE_IBEX_YAML :: "string \<Rightarrow> string" where
  "CORE_IBEX_YAML root = path_div (CORE_IBEX root) ''yaml''"

definition RISCV_DV :: "string \<Rightarrow> string" where
  "RISCV_DV root = path_div (path_div root ''vendor'') ''google_riscv-dv''"

definition RISCV_DV_SCRIPTS :: "string \<Rightarrow> string" where
  "RISCV_DV_SCRIPTS root = path_div (RISCV_DV root) ''scripts''"

definition OT_LOWRISC_IP :: "string \<Rightarrow> string" where
  "OT_LOWRISC_IP root = path_div (path_div root ''vendor'') ''lowrisc_ip''"

definition get_pythonpath :: "string \<Rightarrow> string" where
  "get_pythonpath root =
     py_join '':'' [root, IBEX_UTIL root, CORE_IBEX_SCRIPTS root, CORE_IBEX_RISCV_DV_EXTENSION root,
                  CORE_IBEX_YAML root, RISCV_DV_SCRIPTS root]"

section \<open>The record of a regression\<close>

record world =
  w_host :: host
  w_exists :: "string \<Rightarrow> bool"
  w_resolve :: "string \<Rightarrow> string"
  w_validators :: validators
  w_git :: "string res"
  w_now :: string
  w_cfg_text :: "config \<Rightarrow> string"
  w_depth :: nat

text \<open>The type hint of a field, as the initializer distinguishes them; others show the type of their default.\<close>

datatype hint = HStr | HInt | HBool | HPath | HOptInt | HOther string

record regression_metadata =
  md_dir_out :: string
  md_dir_metadata :: string
  md_git_commit :: string
  md_creation_datetime :: string
  md_pickle_file :: string
  md_yaml_file :: string
  md_raw_args_str :: string
  md_raw_args_dict :: "(string, string) dict"
  md_seed :: int
  md_waves :: bool
  md_cov :: bool
  md_cosim :: bool
  md_simulator :: string
  md_iss :: string
  md_test :: string
  md_verbose :: bool
  md_iterations :: "int option"
  md_signature_addr :: string
  md_ibex_config :: string
  md_dut_cov_rtl_path :: string
  md_tests_and_counts :: "(string \<times> int \<times> test_type) list"
  md_isa_ibex :: "string option"
  md_isa_iss :: "string option"
  md_run_rtl_timeout_s :: int
  md_ibex_configs :: string
  md_ibex_riscvdv_simulator_yaml :: string
  md_ibex_riscvdv_customtarget :: string
  md_ibex_riscvdv_testlist :: string
  md_ibex_riscvdv_csr :: string
  md_directed_test_dir :: string
  md_directed_test_data :: string
  md_riscvdv_build_log :: "string option"
  md_riscvdv_build_stdout :: "string option"
  md_riscvdv_build_cmds :: "string list list option"
  md_tb_build_log :: "string option"
  md_tb_build_stdout :: "string option"
  md_tb_build_cmds :: "string list list option"
  md_riscvdv_fcov_log :: "string option"
  md_riscvdv_fcov_stdout :: "string option"
  md_riscvdv_fcov_cmds :: "string list list option"
  md_cov_merge_db_list :: "string option"
  md_cov_merge_log :: "string option"
  md_cov_merge_stdout :: "string option"
  md_cov_merge_cmds :: "string list list option"
  md_cov_report_log :: "string option"
  md_cov_report_stdout :: "string option"
  md_cov_report_cmds :: "string list list option"
  md_regr_log :: "string option"
  md_regr_log_junit :: "string option"
  md_regr_log_junit_merged :: "string option"
  md_environment_variables :: "(string, string) dict"
  md_ibex_root :: string
  md_riscvdv_root :: string
  md_ot_lowrisc_ip :: string
  md_ot_xcelium_cov_scripts :: string
  md_ibex_dv_root :: string
  md_dir_build :: string
  md_dir_instruction_generator :: string
  md_dir_tb :: string
  md_dir_run :: string
  md_dir_cov :: string
  md_dir_fcov :: string
  md_dir_shared_cov :: string
  md_dir_cov_merged :: string
  md_dir_cov_report :: string
  md_tests_pickle_files :: "string list"
  md_dir_tests :: string

definition dummy_obj :: "string \<Rightarrow> regression_metadata" where
  "dummy_obj now =
     \<lparr>md_dir_out = ''.'', md_dir_metadata = ''.'', md_git_commit = [],
      md_creation_datetime = now, md_pickle_file = ''.'', md_yaml_file = ''.'',
      md_raw_args_str = '' '', md_raw_args_dict = [], md_seed = 1, md_waves = False,
      md_cov = False, md_cosim = True, md_simulator = '' '', md_iss = '' '', md_test = '' '',
      md_verbose = False, md_iterations = None, md_signature_addr = '' '',
      md_ibex_config = '' '', md_dut_cov_rtl_path = [], md_tests_and_counts = [],
      md_isa_ibex = None, md_isa_iss = None, md_run_rtl_timeout_s = 1800,
      md_ibex_configs = ''.'', md_ibex_riscvdv_simulator_yaml = ''.'',
      md_ibex_riscvdv_customtarget = ''.'', md_ibex_riscvdv_testlist = ''.'',
      md_ibex_riscvdv_csr = ''.'', md_directed_test_dir = ''.'', md_directed_test_data = ''.'',
      md_riscvdv_build_log = None, md_riscvdv_build_stdout = None, md_riscvdv_build_cmds = None,
      md_tb_build_log = None, md_tb_build_stdout = None, md_tb_build_cmds = None,
      md_riscvdv_fcov_log = None, md_riscvdv_fcov_stdout = None, md_riscvdv_fcov_cmds = None,
      md_cov_merge_db_list = None, md_cov_merge_log = None, md_cov_merge_stdout = None,
      md_cov_merge_cmds = None, md_cov_report_log = None, md_cov_report_stdout = None,
      md_cov_report_cmds = None, md_regr_log = None, md_regr_log_junit = None,
      md_regr_log_junit_merged = None, md_environment_variables = [], md_ibex_root = ''.'',
      md_riscvdv_root = ''.'', md_ot_lowrisc_ip = ''.'', md_ot_xcelium_cov_scripts = ''.'',
      md_ibex_dv_root = ''.'', md_dir_build = ''.'', md_dir_instruction_generator = ''.'',
      md_dir_tb = ''.'', md_dir_run = ''.'', md_dir_cov = ''.'', md_dir_fcov = ''.'',
      md_dir_shared_cov = ''.'', md_dir_cov_merged = ''.'', md_dir_cov_report = ''.'',
      md_tests_pickle_files = [], md_dir_tests = ''.''\<rparr>"

text \<open>The fields in the order of the class: name, hint, and whether the constructor takes it.\<close>

definition dc_fields :: "(string \<times> hint \<times> bool) list" where
  "dc_fields =
     [(''dir_out'', HPath, True), (''dir_metadata'', HPath, True), (''git_commit'', HStr, True),
      (''creation_datetime'', HOther ''datetime.datetime'', True),
      (''pickle_file'', HPath, False), (''yaml_file'', HPath, False),
      (''raw_args_str'', HStr, True), (''raw_args_dict'', HOther ''dict'', True),
      (''seed'', HInt, True), (''waves'', HBool, True), (''cov'', HBool, True),
      (''cosim'', HBool, True), (''simulator'', HStr, True), (''iss'', HStr, True),
      (''test'', HStr, True), (''verbose'', HBool, True), (''iterations'', HOptInt, True),
      (''signature_addr'', HStr, True), (''ibex_config'', HStr, True),
      (''dut_cov_rtl_path'', HStr, True), (''tests_and_counts'', HOther ''list'', True),
      (''isa_ibex'', HOther ''NoneType'', True), (''isa_iss'', HOther ''NoneType'', True),
      (''run_rtl_timeout_s'', HInt, True), (''ibex_configs'', HPath, False),
      (''ibex_riscvdv_simulator_yaml'', HPath, False),
      (''ibex_riscvdv_customtarget'', HPath, False), (''ibex_riscvdv_testlist'', HPath, False),
      (''ibex_riscvdv_csr'', HPath, False), (''directed_test_dir'', HPath, False),
      (''directed_test_data'', HPath, False),
      (''riscvdv_build_log'', HOther ''NoneType'', True),
      (''riscvdv_build_stdout'', HOther ''NoneType'', True),
      (''riscvdv_build_cmds'', HOther ''NoneType'', True),
      (''tb_build_log'', HOther ''NoneType'', True),
      (''tb_build_stdout'', HOther ''NoneType'', True),
      (''tb_build_cmds'', HOther ''NoneType'', True),
      (''riscvdv_fcov_log'', HOther ''NoneType'', True),
      (''riscvdv_fcov_stdout'', HOther ''NoneType'', True),
      (''riscvdv_fcov_cmds'', HOther ''NoneType'', True),
      (''cov_merge_db_list'', HOther ''NoneType'', True),
      (''cov_merge_log'', HOther ''NoneType'', True),
      (''cov_merge_stdout'', HOther ''NoneType'', True),
      (''cov_merge_cmds'', HOther ''NoneType'', True),
      (''cov_report_log'', HOther ''NoneType'', True),
      (''cov_report_stdout'', HOther ''NoneType'', True),
      (''cov_report_cmds'', HOther ''NoneType'', True),
      (''regr_log'', HOther ''NoneType'', True),
      (''regr_log_junit'', HOther ''NoneType'', True),
      (''regr_log_junit_merged'', HOther ''NoneType'', True),
      (''environment_variables'', HOther ''dict'', False), (''ibex_root'', HPath, False),
      (''riscvdv_root'', HPath, False), (''ot_lowrisc_ip'', HPath, False),
      (''ot_xcelium_cov_scripts'', HPath, False), (''ibex_dv_root'', HPath, False),
      (''dir_build'', HPath, False), (''dir_instruction_generator'', HPath, False),
      (''dir_tb'', HPath, False), (''dir_run'', HPath, False), (''dir_cov'', HPath, False),
      (''dir_fcov'', HPath, False), (''dir_shared_cov'', HPath, False),
      (''dir_cov_merged'', HPath, False), (''dir_cov_report'', HPath, False),
      (''tests_pickle_files'', HOther ''list'', False)]"

text \<open>The values of the fields, as \<open>dataclasses.asdict\<close> lists them.\<close>

definition text_dict :: "(string, string) dict \<Rightarrow> item" where
  "text_dict d = IDict (map (\<lambda>(k, v). (IStr k, IStr v)) d)"

definition opt_item :: "('a \<Rightarrow> item) \<Rightarrow> 'a option \<Rightarrow> item" where
  "opt_item f v = (case v of None \<Rightarrow> INone | Some x \<Rightarrow> f x)"

definition cmds_item :: "string list list \<Rightarrow> item" where
  "cmds_item cmds = IList (map (\<lambda>c. IList (map IStr c)) cmds)"

definition test_type_repr :: "test_type \<Rightarrow> string" where
  "test_type_repr tt = (case tt of RISCVDV \<Rightarrow> ''<TestType.RISCVDV: 0>'' | DIRECTED \<Rightarrow> ''<TestType.DIRECTED: 1>'')"

definition count_item :: "string \<times> int \<times> test_type \<Rightarrow> item" where
  "count_item tct =
     (case tct of (t, c, tt) \<Rightarrow> IObj (''('' @ repr_str t @ '', '' @ str_int c @ '', '' @ test_type_repr tt @ '')''))"

definition md_items :: "regression_metadata \<Rightarrow> (string, item) dict" where
  "md_items m =
     [(''dir_out'', IPath (md_dir_out m)), (''dir_metadata'', IPath (md_dir_metadata m)),
      (''git_commit'', IStr (md_git_commit m)),
      (''creation_datetime'', IObj (md_creation_datetime m)),
      (''pickle_file'', IPath (md_pickle_file m)), (''yaml_file'', IPath (md_yaml_file m)),
      (''raw_args_str'', IStr (md_raw_args_str m)),
      (''raw_args_dict'', text_dict (md_raw_args_dict m)), (''seed'', IInt (md_seed m)),
      (''waves'', IBool (md_waves m)), (''cov'', IBool (md_cov m)),
      (''cosim'', IBool (md_cosim m)), (''simulator'', IStr (md_simulator m)),
      (''iss'', IStr (md_iss m)), (''test'', IStr (md_test m)),
      (''verbose'', IBool (md_verbose m)), (''iterations'', opt_item IInt (md_iterations m)),
      (''signature_addr'', IStr (md_signature_addr m)),
      (''ibex_config'', IStr (md_ibex_config m)),
      (''dut_cov_rtl_path'', IStr (md_dut_cov_rtl_path m)),
      (''tests_and_counts'', IList (map count_item (md_tests_and_counts m))),
      (''isa_ibex'', opt_item IStr (md_isa_ibex m)),
      (''isa_iss'', opt_item IStr (md_isa_iss m)),
      (''run_rtl_timeout_s'', IInt (md_run_rtl_timeout_s m)),
      (''ibex_configs'', IPath (md_ibex_configs m)),
      (''ibex_riscvdv_simulator_yaml'', IPath (md_ibex_riscvdv_simulator_yaml m)),
      (''ibex_riscvdv_customtarget'', IPath (md_ibex_riscvdv_customtarget m)),
      (''ibex_riscvdv_testlist'', IPath (md_ibex_riscvdv_testlist m)),
      (''ibex_riscvdv_csr'', IPath (md_ibex_riscvdv_csr m)),
      (''directed_test_dir'', IPath (md_directed_test_dir m)),
      (''directed_test_data'', IPath (md_directed_test_data m)),
      (''riscvdv_build_log'', opt_item IPath (md_riscvdv_build_log m)),
      (''riscvdv_build_stdout'', opt_item IPath (md_riscvdv_build_stdout m)),
      (''riscvdv_build_cmds'', opt_item cmds_item (md_riscvdv_build_cmds m)),
      (''tb_build_log'', opt_item IPath (md_tb_build_log m)),
      (''tb_build_stdout'', opt_item IPath (md_tb_build_stdout m)),
      (''tb_build_cmds'', opt_item cmds_item (md_tb_build_cmds m)),
      (''riscvdv_fcov_log'', opt_item IPath (md_riscvdv_fcov_log m)),
      (''riscvdv_fcov_stdout'', opt_item IPath (md_riscvdv_fcov_stdout m)),
      (''riscvdv_fcov_cmds'', opt_item cmds_item (md_riscvdv_fcov_cmds m)),
      (''cov_merge_db_list'', opt_item IPath (md_cov_merge_db_list m)),
      (''cov_merge_log'', opt_item IPath (md_cov_merge_log m)),
      (''cov_merge_stdout'', opt_item IPath (md_cov_merge_stdout m)),
      (''cov_merge_cmds'', opt_item cmds_item (md_cov_merge_cmds m)),
      (''cov_report_log'', opt_item IPath (md_cov_report_log m)),
      (''cov_report_stdout'', opt_item IPath (md_cov_report_stdout m)),
      (''cov_report_cmds'', opt_item cmds_item (md_cov_report_cmds m)),
      (''regr_log'', opt_item IPath (md_regr_log m)),
      (''regr_log_junit'', opt_item IPath (md_regr_log_junit m)),
      (''regr_log_junit_merged'', opt_item IPath (md_regr_log_junit_merged m)),
      (''environment_variables'', text_dict (md_environment_variables m)),
      (''ibex_root'', IPath (md_ibex_root m)), (''riscvdv_root'', IPath (md_riscvdv_root m)),
      (''ot_lowrisc_ip'', IPath (md_ot_lowrisc_ip m)),
      (''ot_xcelium_cov_scripts'', IPath (md_ot_xcelium_cov_scripts m)),
      (''ibex_dv_root'', IPath (md_ibex_dv_root m)), (''dir_build'', IPath (md_dir_build m)),
      (''dir_instruction_generator'', IPath (md_dir_instruction_generator m)),
      (''dir_tb'', IPath (md_dir_tb m)), (''dir_run'', IPath (md_dir_run m)),
      (''dir_cov'', IPath (md_dir_cov m)), (''dir_fcov'', IPath (md_dir_fcov m)),
      (''dir_shared_cov'', IPath (md_dir_shared_cov m)),
      (''dir_cov_merged'', IPath (md_dir_cov_merged m)),
      (''dir_cov_report'', IPath (md_dir_cov_report m)),
      (''tests_pickle_files'', IList (map IPath (md_tests_pickle_files m)))]"

text \<open>\<open>_setup_directories\<close> and \<open>__post_init__\<close>.\<close>

definition setup_directories :: "string \<Rightarrow> regression_metadata \<Rightarrow> regression_metadata" where
  "setup_directories root m =
     (let m = m\<lparr>md_ibex_root := root, md_riscvdv_root := RISCV_DV root,
               md_ot_lowrisc_ip := OT_LOWRISC_IP root, md_ibex_dv_root := CORE_IBEX root,
               md_dir_build := path_div (md_dir_out m) ''build''\<rparr>;
          m = m\<lparr>md_dir_instruction_generator := path_div (md_dir_build m) ''instr_gen'',
               md_dir_tb := path_div (md_dir_build m) ''tb'', md_dir_run := path_div (md_dir_out m) ''run''\<rparr>;
          m = m\<lparr>md_dir_tests := path_div (md_dir_run m) ''tests'',
               md_dir_cov := path_div (md_dir_run m) ''coverage''\<rparr>
      in m\<lparr>md_dir_fcov := path_div (md_dir_cov m) ''fcov'',
           md_dir_shared_cov := path_div (md_dir_cov m) ''shared_cov'',
           md_dir_cov_merged := path_div (md_dir_cov m) ''merged'',
           md_dir_cov_report := path_div (md_dir_cov m) ''report''\<rparr>)"

definition post_init :: "world \<Rightarrow> regression_metadata \<Rightarrow> regression_metadata" where
  "post_init w m =
     (let m = setup_directories (ibex_root (w_host w)) m;
          m = m\<lparr>md_pickle_file := path_div (md_dir_metadata m) ''metadata.pickle'',
               md_yaml_file := path_div (md_dir_metadata m) ''metadata.yaml'',
               md_ibex_configs := path_div (md_ibex_root m) ''ibex_configs.yaml'',
               md_ot_xcelium_cov_scripts :=
                 path_div (path_div (path_div (md_ot_lowrisc_ip m) ''dv'') ''tools'') ''xcelium'',
               md_ibex_riscvdv_simulator_yaml :=
                 path_div (path_div (md_ibex_dv_root m) ''yaml'') ''rtl_simulation.yaml'',
               md_ibex_riscvdv_customtarget := path_div (md_ibex_dv_root m) ''riscv_dv_extension''\<rparr>;
          m = m\<lparr>md_ibex_riscvdv_testlist := path_div (md_ibex_riscvdv_customtarget m) ''testlist.yaml'',
               md_ibex_riscvdv_csr := path_div (md_ibex_riscvdv_customtarget m) ''csr_description.yaml'',
               md_directed_test_dir := path_div (md_ibex_dv_root m) ''directed_tests''\<rparr>
      in m\<lparr>md_directed_test_data := path_div (md_directed_test_dir m) ''directed_testlist.yaml'',
           md_environment_variables := env_vars (w_host w)\<rparr>)"

text \<open>\<open>_get_ibex_metadata\<close>\<close>

definition get_ibex_metadata :: "world \<Rightarrow> regression_metadata \<Rightarrow> regression_metadata res" where
  "get_ibex_metadata w m =
     (if (case md_iterations m of Some i \<Rightarrow> i \<le> 0 | None \<Rightarrow> False)
      then Inl (RuntimeError ''Bad --iterations argument: must be positive'')
      else if md_seed m < 0 then Inl (RuntimeError ''Bad --start_seed argument: must be non-negative'')
      else bind_res (get_config (w_host w) (md_ibex_config m)) (\<lambda>cfg.
           bind_res (get_isas_for_config cfg) (\<lambda>(isa, iss).
           Inr (m\<lparr>md_isa_ibex := Some isa, md_isa_iss := Some iss\<rparr>))))"

section \<open>Arguments of the makefile\<close>

text \<open>\<open>pair.split('=', maxsplit=1)\<close>, unpacked into two names.\<close>

definition split_pair :: "string \<Rightarrow> (string \<times> string) res" where
  "split_pair pair =
     (if CHR ''='' \<in> set pair
      then Inr (takeWhile (\<lambda>c. c \<noteq> CHR ''='') pair, tl (dropWhile (\<lambda>c. c \<noteq> CHR ''='') pair))
      else Inl (ValueError ''not enough values to unpack (expected 2, got 1)''))"

definition kv_dict :: "(string \<Rightarrow> string) \<Rightarrow> (string \<times> string) list \<Rightarrow> (string, string) dict" where
  "kv_dict f kvs = foldl (\<lambda>d (k, v). dict_set (f k) v d) [] kvs"

definition typed_arg :: "string \<Rightarrow> hint \<Rightarrow> string \<Rightarrow> item res" where
  "typed_arg key h val =
     (case h of
        HStr \<Rightarrow> Inr (IStr val)
      | HInt \<Rightarrow> bind_res (py_int 10 val) (\<lambda>i. Inr (IInt i))
      | HBool \<Rightarrow> bind_res (py_int 10 val) (\<lambda>i. Inr (IBool (i \<noteq> 0)))
      | HPath \<Rightarrow> Inr (IPath (py_path val))
      | HOptInt \<Rightarrow> if val \<noteq> [] then bind_res (py_int 10 val) (\<lambda>i. Inr (IInt i)) else Inr INone
      | HOther t \<Rightarrow> Inl (RuntimeError (''Couldn't set key '' @ [CHR 0x27] @ key @ [CHR 0x27]
                     @ '' in metadata object! '' @ ''Expected type : '' @ ''<class '' @ [CHR 0x27] @ t
                     @ [CHR 0x27] @ ''>'')))"

definition typed_args :: "(string, string) dict \<Rightarrow> (string, item) dict \<Rightarrow> (string, item) dict res" where
  "typed_args kv args =
     fold_res (\<lambda>args (name, h, init).
       case map_of kv name of
         None \<Rightarrow> Inr args
       | Some val \<Rightarrow> bind_res (typed_arg name h val) (\<lambda>v. Inr (dict_set name v args))) args dc_fields"

text \<open>The keyword arguments that reach a field; the values have the type that the hint admits.\<close>

definition set_field :: "string \<Rightarrow> item \<Rightarrow> regression_metadata \<Rightarrow> regression_metadata" where
  "set_field key v m =
     (case v of
        IStr s \<Rightarrow>
          if key = ''raw_args_str'' then m\<lparr>md_raw_args_str := s\<rparr>
          else if key = ''simulator'' then m\<lparr>md_simulator := s\<rparr>
          else if key = ''iss'' then m\<lparr>md_iss := s\<rparr>
          else if key = ''test'' then m\<lparr>md_test := s\<rparr>
          else if key = ''signature_addr'' then m\<lparr>md_signature_addr := s\<rparr>
          else if key = ''ibex_config'' then m\<lparr>md_ibex_config := s\<rparr>
          else if key = ''dut_cov_rtl_path'' then m\<lparr>md_dut_cov_rtl_path := s\<rparr> else m
      | IInt i \<Rightarrow>
          if key = ''seed'' then m\<lparr>md_seed := i\<rparr>
          else if key = ''run_rtl_timeout_s'' then m\<lparr>md_run_rtl_timeout_s := i\<rparr>
          else if key = ''iterations'' then m\<lparr>md_iterations := Some i\<rparr> else m
      | IBool b \<Rightarrow>
          if key = ''waves'' then m\<lparr>md_waves := b\<rparr>
          else if key = ''cov'' then m\<lparr>md_cov := b\<rparr>
          else if key = ''cosim'' then m\<lparr>md_cosim := b\<rparr>
          else if key = ''verbose'' then m\<lparr>md_verbose := b\<rparr> else m
      | INone \<Rightarrow> if key = ''iterations'' then m\<lparr>md_iterations := None\<rparr> else m
      | _ \<Rightarrow> m)"

definition reserved_args :: "string list" where
  "reserved_args = [''dir_out'', ''dir_metadata'', ''git_commit'', ''creation_datetime'']"

definition no_init_args :: "string list" where
  "no_init_args = map fst (filter (\<lambda>(name, h, init). \<not> init) dc_fields)"

text \<open>
  The call of the class: a keyword given twice is an error, then one that the constructor does
  not take.
\<close>

definition construct :: "world \<Rightarrow> string \<Rightarrow> string \<Rightarrow> string \<Rightarrow> (string, string) dict
    \<Rightarrow> (string, item) dict \<Rightarrow> regression_metadata res" where
  "construct w dir_out dir_metadata git_commit raw args =
     (case find (\<lambda>k. k \<in> set reserved_args) (dict_keys args) of
        Some k \<Rightarrow> Inl (TypeError (''got multiple values for keyword argument '' @ repr_str k))
      | None \<Rightarrow>
     (case find (\<lambda>k. k \<in> set no_init_args) (dict_keys args) of
        Some k \<Rightarrow> Inl (TypeError (''__init__() got an unexpected keyword argument '' @ repr_str k))
      | None \<Rightarrow>
          Inr (post_init w
            (foldl (\<lambda>m (k, v). set_field k v m)
               ((dummy_obj (w_now w))\<lparr>md_dir_out := w_resolve w dir_out,
                  md_dir_metadata := w_resolve w dir_metadata, md_git_commit := git_commit,
                  md_raw_args_dict := raw\<rparr>) args))))"

definition arg_list_initializer :: "world \<Rightarrow> string \<Rightarrow> string option \<Rightarrow> string \<Rightarrow> string
    \<Rightarrow> regression_metadata res" where
  "arg_list_initializer w dir_metadata dir_out git_commit args_list =
     bind_res (shlex_split args_list) (\<lambda>words.
     bind_res (map_res split_pair words) (\<lambda>pairs.
     bind_res (typed_args (kv_dict py_lower pairs) [(''raw_args_str'', IStr args_list)]) (\<lambda>args.
     case dir_out of
       None \<Rightarrow> Inl (AttributeError ''resolve'')
     | Some d \<Rightarrow> construct w d dir_metadata git_commit (kv_dict (\<lambda>k. k) pairs) args)))"

section \<open>Selecting tests\<close>

definition entry_of :: "(pyval \<times> pyval) list \<Rightarrow> test_entry" where
  "entry_of d = List.map_filter (\<lambda>(k, v). case k of PStr s \<Rightarrow> Some (s, v) | _ \<Rightarrow> None) d"

definition get_item :: "test_entry \<Rightarrow> string \<Rightarrow> pyval res" where
  "get_item e k = (case map_of e k of None \<Rightarrow> Inl (KeyError k) | Some v \<Rightarrow> Inr v)"

text \<open>\<open>v > 0\<close> on a loaded value.\<close>

definition positive :: "pyval \<Rightarrow> bool res" where
  "positive v =
     (case num_of v of None \<Rightarrow> Inl (TypeError '''>' not supported between instances'') | Some i \<Rightarrow> Inr (0 < i))"

text \<open>
  \<open>re.sub('<riscv_dv_root>', riscv_dv_root, entry['import'])\<close>: the replacement is a template,
  \<open>expand\<close> is what it denotes; a path object is refused.
\<close>

definition import_target :: "(string \<Rightarrow> string) \<Rightarrow> subst_value \<Rightarrow> pyval \<Rightarrow> string res" where
  "import_target expand riscv_dv_root v =
     (case (riscv_dv_root, v) of
        (SStr r, PStr s) \<Rightarrow> Inr (replace_all ''<riscv_dv_root>'' (expand r) s)
      | _ \<Rightarrow> Inl (TypeError ''decoding to str: need a bytes-like object''))"

definition match_entry :: "string \<Rightarrow> int \<Rightarrow> test_entry list \<Rightarrow> test_entry \<Rightarrow> test_entry list res" where
  "match_entry test iterations matched_list entry =
     bind_res (get_item entry ''test'') (\<lambda>name.
     if \<not> (list_ex (\<lambda>t. name = PStr t) (split_on (CHR '','') test) \<or> test = ''all'') then Inr matched_list
     else bind_res (if 0 < iterations
                    then bind_res (get_item entry ''iterations'') (\<lambda>n. bind_res (positive n) (\<lambda>b.
                      Inr (if b then dict_set ''iterations'' (PInt iterations) entry else entry)))
                    else Inr entry) (\<lambda>entry.
          bind_res (get_item entry ''iterations'') (\<lambda>n. bind_res (positive n) (\<lambda>b.
          Inr (if b then matched_list @ [entry] else matched_list)))))"

text \<open>
  The test list may import others; \<open>depth\<close> is how many nested calls the interpreter admits
  before it raises its recursion error.
\<close>

fun process_regression_list :: "(string \<Rightarrow> string) \<Rightarrow> (string \<Rightarrow> pyval res) \<Rightarrow> subst_value \<Rightarrow> string \<Rightarrow> int
    \<Rightarrow> nat \<Rightarrow> string \<Rightarrow> test_entry list \<Rightarrow> test_entry list res" where
  "process_regression_list expand load root test iterations 0 testlist matched_list =
     Inl RecursionError"
| "process_regression_list expand load root test iterations (Suc depth) testlist matched_list =
     bind_res (load testlist) (\<lambda>yaml_data.
     bind_res (py_iter yaml_data) (\<lambda>items.
     fold_res (\<lambda>ml item.
       bind_res (as_dict (TypeError ''indices must be integers'') item) (\<lambda>d.
         case lookup_str d ''import'' of
           Some v \<Rightarrow> bind_res (import_target expand root v) (\<lambda>sub_list.
                      process_regression_list expand load root test iterations depth sub_list ml)
         | None \<Rightarrow> match_entry test iterations ml (entry_of d))) matched_list items))"

definition w_load :: "world \<Rightarrow> string \<Rightarrow> pyval res" where
  "w_load w = read_yaml (fs_read (w_host w)) (yaml_parse (w_host w))"

definition process_riscvdv_testlist :: "world \<Rightarrow> regression_metadata \<Rightarrow> test_entry list res" where
  "process_riscvdv_testlist w m =
     (let names = split_on (CHR '','') (md_test m)
      in process_regression_list id (w_load w) (SPath (md_riscvdv_root m))
           (if list_ex (\<lambda>x. x \<in> set names) [''all_riscvdv'', ''all''] then ''all'' else md_test m)
           (case md_iterations m of Some i \<Rightarrow> i | None \<Rightarrow> 0) (w_depth w) (md_ibex_riscvdv_testlist m) [])"

text \<open>\<open>self.iterations or entry['iterations']\<close>\<close>

definition or_iterations :: "int option \<Rightarrow> int \<Rightarrow> int" where
  "or_iterations it n = (case it of Some i \<Rightarrow> if i \<noteq> 0 then i else n | None \<Rightarrow> n)"

definition select_directed :: "string \<Rightarrow> int option \<Rightarrow> dtest \<Rightarrow> test_entry option" where
  "select_directed test it t =
     (if list_ex (\<lambda>x. x \<in> set (split_on (CHR '','') test)) [''all_directed'', d_test t]
      then (let n = or_iterations it (d_iterations t)
            in if 0 < n then Some (dict_set ''iterations'' (PInt n) (dtest_dict t)) else None)
      else None)"

definition w_import :: "world \<Rightarrow> string \<Rightarrow> directed_model res" where
  "w_import w = import_model (w_validators w) (w_exists w) (fs_read (w_host w)) (yaml_parse (w_host w))"

definition process_directed_testlist :: "world \<Rightarrow> regression_metadata \<Rightarrow> test_entry list res" where
  "process_directed_testlist w m =
     bind_res (w_import w (md_directed_test_data m)) (\<lambda>dm.
       Inr (List.map_filter (select_directed (md_test m) (md_iterations m)) (m_tests dm)))"

definition test_count :: "test_type \<Rightarrow> test_entry \<Rightarrow> ((string \<times> int \<times> test_type) \<times> test_entry) res" where
  "test_count tt test =
     bind_res (get_item test ''test'') (\<lambda>name. bind_res (get_item test ''iterations'') (\<lambda>iterations.
       case (name, num_of iterations) of
         (PStr n, Some i) \<Rightarrow> if 0 < i then Inr ((n, i, tt), test) else Inl AssertionError
       | _ \<Rightarrow> Inl AssertionError))"

definition filter_for :: "world \<Rightarrow> regression_metadata \<Rightarrow> test_entry list \<Rightarrow> test_entry list res" where
  "filter_for w m tests =
     bind_res (parse_config (fs_read (w_host w)) (yaml_parse (w_host w)) (md_ibex_config m)
                 (md_ibex_configs m) (repr_str (md_ibex_configs m))) (\<lambda>cfg.
     filter_tests_by_config (w_cfg_text w cfg) cfg tests)"

definition get_tests_and_counts :: "world \<Rightarrow> regression_metadata
    \<Rightarrow> ((string \<times> int \<times> test_type) \<times> test_entry) list res" where
  "get_tests_and_counts w m =
     bind_res (process_riscvdv_testlist w m) (\<lambda>riscvdv_matched.
     bind_res (process_directed_testlist w m) (\<lambda>directed_matched.
     if riscvdv_matched = [] \<and> directed_matched = []
     then Inl (RuntimeError ''No matching tests found in testlists.'')
     else bind_res (filter_for w m riscvdv_matched) (\<lambda>riscvdv_filtered.
          bind_res (filter_for w m directed_matched) (\<lambda>directed_filtered.
          bind_res (map_res (test_count RISCVDV) riscvdv_filtered) (\<lambda>rs.
          bind_res (map_res (test_count DIRECTED) directed_filtered) (\<lambda>ds.
          Inr (rs @ ds)))))))"

section \<open>Creating the metadata\<close>

definition tds_str :: "string \<Rightarrow> int \<Rightarrow> string" where
  "tds_str test seed = test @ ''.'' @ str_int seed"

text \<open>\<open>shlex.split(obj.get(field) or "")\<close>: what is neither a string nor false has no \<open>read\<close>.\<close>

definition shlex_if_not_empty :: "test_entry \<Rightarrow> string \<Rightarrow> string list res" where
  "shlex_if_not_empty obj field =
     (case map_of obj field of
        Some (PStr s) \<Rightarrow> shlex_split s
      | Some v \<Rightarrow> if truthy v then Inl (AttributeError ''read'') else shlex_split []
      | None \<Rightarrow> shlex_split [])"

text \<open>The option that enables the external debug module; every option must be \<open>NAME=VALUE\<close>.\<close>

definition debug_module_opt :: "bool option \<Rightarrow> string \<Rightarrow> bool option res" where
  "debug_module_opt b opt =
     (case split_on (CHR ''='') opt of
        [plusarg, val] \<Rightarrow>
          if plusarg = ''+discrete_debug_module'' then bind_res (py_int 10 val) (\<lambda>i. Inr (Some (i \<noteq> 0)))
          else Inr b
      | [_] \<Rightarrow> Inl (ValueError ''not enough values to unpack (expected 2, got 1)'')
      | _ \<Rightarrow> Inl (ValueError ''too many values to unpack (expected 2)''))"

definition base_trr :: "regression_metadata \<Rightarrow> test_type \<Rightarrow> string \<Rightarrow> int \<Rightarrow> trr" where
  "base_trr m testtype test testseed =
     (let tds = tds_str test testseed
      in empty_trr\<lparr>trr_testtype := Some testtype, trr_testdotseed := Some tds, trr_testname := Some test,
           trr_seed := Some testseed, trr_rtl_simulator := Some (md_simulator m),
           trr_iss_cosim := Some (md_iss m), trr_dir_test := Some (path_div (md_dir_tests m) tds),
           trr_metadata_pickle_file := Some (md_pickle_file m),
           trr_pickle_file := Some (path_div (md_dir_metadata m) (tds @ ''.pickle'')),
           trr_yaml_file := Some (path_div (path_div (md_dir_tests m) tds) ''trr.yaml'')\<rparr>)"

definition create_trr :: "world \<Rightarrow> regression_metadata \<Rightarrow> test_entry \<Rightarrow> test_type \<Rightarrow> string \<Rightarrow> int \<Rightarrow> trr res" where
  "create_trr w m obj testtype test testseed =
     (let t = base_trr m testtype test testseed
      in case testtype of
        RISCVDV \<Rightarrow>
          bind_res (shlex_if_not_empty obj ''gen_test'') (\<lambda>gt.
          bind_res (shlex_if_not_empty obj ''gen_opts'') (\<lambda>go.
          bind_res (shlex_if_not_empty obj ''rtl_test'') (\<lambda>rt.
          bind_res (shlex_if_not_empty obj ''sim_opts'') (\<lambda>so.
          bind_res (fold_res debug_module_opt (trr_is_discrete_debug_module t) so) (\<lambda>ddm.
          Inr (t\<lparr>trr_gen_test := Some gt, trr_gen_opts := Some go, trr_rtl_test := Some (PList (map PStr rt)),
                trr_sim_opts := Some so, trr_is_discrete_debug_module := ddm\<rparr>))))))
      | DIRECTED \<Rightarrow>
          bind_res (w_import w (md_directed_test_data m)) (\<lambda>dm.
          case find (\<lambda>i. d_test i = test) (m_tests dm) of
            None \<Rightarrow> Inl StopIteration
          | Some i \<Rightarrow> Inr (t\<lparr>trr_directed_data := Some (dtest_dict i)\<rparr>)))"

type_synonym job = "test_entry \<times> test_type \<times> string \<times> int"

definition jobs :: "int \<Rightarrow> ((string \<times> int \<times> test_type) \<times> test_entry) list \<Rightarrow> job list" where
  "jobs seed tests_and_counts =
     concat (map (\<lambda>((test, count, testtype), obj).
       map (\<lambda>testseed. (obj, testtype, test, testseed)) [seed..seed + count - 1]) tests_and_counts)"

text \<open>The loop: the runs exported to disk so far, and the metadata or the exception raised.\<close>

fun create_runs :: "world \<Rightarrow> regression_metadata \<Rightarrow> job list \<Rightarrow> trr list \<times> regression_metadata res" where
  "create_runs w m [] = ([], Inr m)"
| "create_runs w m ((obj, testtype, test, testseed) # js) =
     (case create_trr w m obj testtype test testseed of
        Inl e \<Rightarrow> ([], Inl e)
      | Inr t \<Rightarrow>
          let m = m\<lparr>md_tests_pickle_files := md_tests_pickle_files m
                     @ [path_div (md_dir_metadata m) (tds_str test testseed @ ''.pickle'')]\<rparr>;
              (ts, r) = create_runs w m js
          in (t # ts, r))"

datatype create_result =
    AlreadyExists
  | Created "trr list" "regression_metadata res"

definition prepare :: "world \<Rightarrow> string \<Rightarrow> string option \<Rightarrow> string
    \<Rightarrow> (regression_metadata \<times> ((string \<times> int \<times> test_type) \<times> test_entry) list) res" where
  "prepare w dir_metadata dir_out args_list =
     bind_res (w_git w) (\<lambda>git_commit.
     bind_res (arg_list_initializer w dir_metadata dir_out git_commit args_list) (\<lambda>m.
     bind_res (get_ibex_metadata w m) (\<lambda>m.
     bind_res (get_tests_and_counts w m) (\<lambda>tc.
       let m = m\<lparr>md_tests_and_counts := map fst tc\<rparr>
       in if md_tests_and_counts m = []
          then Inl (RuntimeError ''md.tests_and_counts is empty, cannot get TEST.SEED strings.'')
          else Inr (m, tc)))))"

definition create_metadata :: "world \<Rightarrow> string \<Rightarrow> string option \<Rightarrow> string \<Rightarrow> create_result" where
  "create_metadata w dir_metadata dir_out args_list =
     (if w_exists w (path_div dir_metadata ''metadata.pickle'') then AlreadyExists
      else case prepare w dir_metadata dir_out args_list of
        Inl e \<Rightarrow> Created [] (Inl e)
      | Inr (m, tc) \<Rightarrow> (case create_runs w m (jobs (md_seed m) tc) of (ts, r) \<Rightarrow> Created ts r))"

section \<open>Printing a field\<close>

definition tds_list :: "regression_metadata \<Rightarrow> test_type \<Rightarrow> string list" where
  "tds_list m tt =
     concat (map (\<lambda>(test, count, testtype).
       concat (map (\<lambda>testseed. if testtype = tt then [tds_str test testseed] else [])
         [md_seed m..md_seed m + count - 1])) (md_tests_and_counts m))"

definition getattr :: "regression_metadata \<Rightarrow> string \<Rightarrow> item option" where
  "getattr m field = (if field = ''dir_tests'' then Some (IPath (md_dir_tests m)) else map_of (md_items m) field)"

definition print_field :: "regression_metadata \<Rightarrow> string \<Rightarrow> string res" where
  "print_field m field =
     (if field = ''riscvdv_tds'' then Inr (py_join '' '' (tds_list m RISCVDV) @ newline)
      else if field = ''directed_tds'' then Inr (py_join '' '' (tds_list m DIRECTED) @ newline)
      else case getattr m field of
        None \<Rightarrow> Inl (AttributeError field)
      | Some INone \<Rightarrow>
          Inl (RuntimeError ''Field requested is not present or not set in the regression metadata object'')
      | Some v \<Rightarrow> Inr (item_str v @ newline))"

end
