(* ===== verification/Test_Selection.thy ===== *)
theory Test_Selection
  imports Metadata
begin

text \<open>
  Which tests a regression runs: the lemmas on the selection of \<^verbatim>\<open>metadata.py\<close> and on the reader
  of the test list, \<open>process_regression_list\<close>, which may import other lists.
\<close>

section \<open>The reader of the test list\<close>

text \<open>What every entry it keeps satisfies.\<close>

definition kept_ok :: "string \<Rightarrow> int \<Rightarrow> test_entry \<Rightarrow> bool" where
  "kept_ok test iterations e \<longleftrightarrow>
     (\<exists>name v i. map_of e ''test'' = Some name \<and> map_of e ''iterations'' = Some v \<and> num_of v = Some i
        \<and> 0 < i \<and> (0 < iterations \<longrightarrow> i = iterations)
        \<and> (test = ''all'' \<or> (\<exists>t\<in>set (split_on (CHR '','') test). name = PStr t)))"

lemma get_item_Inr: "get_item e k = Inr v \<longleftrightarrow> map_of e k = Some v"
  by (simp add: get_item_def split: option.split)

lemma positive_Inr: "positive v = Inr b \<longleftrightarrow> (\<exists>i. num_of v = Some i \<and> b = (0 < i))"
  by (auto simp: positive_def split: option.split)

lemma dict_set_same: "dict_set k v d = d \<Longrightarrow> map_of d k = Some v"
  by (metis dict_set_lookup fun_upd_same)

lemma match_entry_keeps:
  assumes "match_entry test it ml e = Inr ml'" and "list_all (kept_ok test it) ml"
  shows "list_all (kept_ok test it) ml'"
  using assms
  by (auto simp: match_entry_def bind_res_Inr get_item_Inr positive_Inr kept_ok_def list_ex_iff
      dest!: dict_set_same split: if_splits)

lemma process_keeps:
  "process_regression_list expand load root test it n f ml = Inr ml' \<Longrightarrow> list_all (kept_ok test it) ml \<Longrightarrow>
     list_all (kept_ok test it) ml'"
proof (induction n arbitrary: f ml ml')
  case 0
  then show ?case by simp
next
  case (Suc n)
  from Suc.prems(1) obtain items where
    "fold_res (\<lambda>ml item. bind_res (as_dict (TypeError ''indices must be integers'') item) (\<lambda>d.
         case lookup_str d ''import'' of
           Some v \<Rightarrow> bind_res (import_target expand root v) (\<lambda>sub_list.
                      process_regression_list expand load root test it n sub_list ml)
         | None \<Rightarrow> match_entry test it ml (entry_of d))) ml items = Inr ml'"
    by (auto simp: bind_res_Inr)
  then show ?case
  proof (rule fold_res_invariant [where I = "list_all (kept_ok test it)"])
    show "list_all (kept_ok test it) ml" by (rule Suc.prems)
    show "list_all (kept_ok test it) t"
      if "list_all (kept_ok test it) s" and
        "bind_res (as_dict (TypeError ''indices must be integers'') x) (\<lambda>d.
         case lookup_str d ''import'' of
           Some v \<Rightarrow> bind_res (import_target expand root v) (\<lambda>sub_list.
                      process_regression_list expand load root test it n sub_list s)
         | None \<Rightarrow> match_entry test it s (entry_of d)) = Inr t" for s x t
      using that Suc.IH match_entry_keeps
      by (auto simp: bind_res_Inr split: option.splits)
  qed
qed

lemma match_entry_no_recursion: "match_entry test it ml e \<noteq> Inl RecursionError"
  by (auto simp: match_entry_def bind_res_Inl get_item_def positive_def split: option.splits if_splits)

lemma fold_res_cong_step:
  assumes "\<And>s x. x \<in> set xs \<Longrightarrow> f s x = g s x" and "\<And>s x. x \<in> set xs \<Longrightarrow> g s x \<noteq> Inl e"
  shows "fold_res f s xs = fold_res g s xs" and "fold_res g s xs \<noteq> Inl e"
  using assms
proof (induction xs arbitrary: s)
  case (Cons x xs)
  { case 1 with Cons.IH(1) show ?case by (cases "g s x") auto }
  { case 2 with Cons.IH(2) show ?case by (cases "g s x") auto }
qed simp_all

text \<open>
  C17: Reading the test list ends: when the lists import each other without a cycle, as a rank
  that falls along every import witnesses, any nesting limit above the rank gives the same
  result, and it is never the recursion error.
\<close>
theorem testlist_terminates:
  assumes falls: "\<And>f yaml_data items d v g. load f = Inr yaml_data \<Longrightarrow> py_iter yaml_data = Inr items \<Longrightarrow>
      PDict d \<in> set items \<Longrightarrow> lookup_str d ''import'' = Some v \<Longrightarrow>
      import_target expand root v = Inr g \<Longrightarrow> rank g < (rank f :: nat)"
    and loads: "\<And>f. load f \<noteq> Inl RecursionError"
    and "rank f < n" and "rank f < k"
  shows "process_regression_list expand load root test it n f ml
         = process_regression_list expand load root test it k f ml
       \<and> process_regression_list expand load root test it n f ml \<noteq> Inl RecursionError"
  using assms(3,4)
proof (induction n arbitrary: k f ml)
  case 0
  then show ?case by simp
next
  case (Suc n)
  from Suc.prems(2) obtain k' where k: "k = Suc k'" by (cases k) auto
  show ?case
  proof (cases "bind_res (load f) py_iter")
    case (Inl e)
    then have "e \<noteq> RecursionError"
      using loads [of f] by (cases "load f") (auto simp: py_iter_def split: pyval.splits)
    with Inl show ?thesis by (auto simp: k bind_res_Inl)
  next
    case (Inr items)
    then obtain yd where yd: "load f = Inr yd" "py_iter yd = Inr items" by (auto simp: bind_res_Inr)
    let ?step = "\<lambda>n ml item. bind_res (as_dict (TypeError ''indices must be integers'') item) (\<lambda>d.
         case lookup_str d ''import'' of
           Some v \<Rightarrow> bind_res (import_target expand root v) (\<lambda>sub_list.
                      process_regression_list expand load root test it n sub_list ml)
         | None \<Rightarrow> match_entry test it ml (entry_of d))"
    have step: "?step n s x = ?step k' s x \<and> ?step k' s x \<noteq> Inl RecursionError" if x: "x \<in> set items" for s x
    proof (cases x)
      case (PDict d)
      show ?thesis
      proof (cases "lookup_str d ''import''")
        case None
        then show ?thesis by (simp add: PDict as_dict_def match_entry_no_recursion)
      next
        case (Some v)
        show ?thesis
        proof (cases "import_target expand root v")
          case (Inl e)
          then show ?thesis
            by (auto simp: PDict Some as_dict_def import_target_def split: subst_value.splits pyval.splits)
        next
          case (Inr g)
          from falls [OF yd _ Some Inr] x PDict have "rank g < rank f" by simp
          with Suc.prems k have "rank g < n" "rank g < k'" by simp_all
          from Suc.IH [OF this, of s] show ?thesis by (auto simp: PDict Some Inr as_dict_def)
        qed
      qed
    qed (simp_all add: as_dict_def)
    have "fold_res (?step n) ml items = fold_res (?step k') ml items"
      and "fold_res (?step k') ml items \<noteq> Inl RecursionError"
      by (rule fold_res_cong_step; use step in blast)+
    then show ?thesis by (simp add: k yd)
  qed
qed

text \<open>Two lists, the first importing the second.\<close>

definition demo_lists :: "string \<Rightarrow> pyval res" where
  "demo_lists f =
     (if f = ''a.yaml'' then Inr (PList [PDict [(PStr ''import'', PStr ''<riscv_dv_root>/b.yaml'')]])
      else if f = ''rv/b.yaml'' then Inr (PList [PDict [(PStr ''test'', PStr ''t''), (PStr ''iterations'', PInt 2)]])
      else Inl (OSError f))"

theorem testlist_terminates_witness:
  "process_regression_list id demo_lists (SStr ''rv'') ''all'' 0 2 ''a.yaml'' []
     = process_regression_list id demo_lists (SStr ''rv'') ''all'' 0 900 ''a.yaml'' []
   \<and> process_regression_list id demo_lists (SStr ''rv'') ''all'' 0 2 ''a.yaml'' [] \<noteq> Inl RecursionError"
proof (rule testlist_terminates [where rank = "\<lambda>f. if f = ''a.yaml'' then 1 else 0"])
  fix f yd items d v g
  assume l: "demo_lists f = Inr yd" and "py_iter yd = Inr items" and "PDict d \<in> set items"
    and "lookup_str d ''import'' = Some v" and "import_target id (SStr ''rv'') v = Inr g"
  then have "f = ''a.yaml'' \<and> v = PStr ''<riscv_dv_root>/b.yaml''"
    by (auto simp: demo_lists_def py_iter_def split: if_splits)
  moreover have "import_target id (SStr ''rv'') (PStr ''<riscv_dv_root>/b.yaml'') = Inr ''rv/b.yaml''"
    by code_simp
  ultimately show "(if g = ''a.yaml'' then 1 else 0) < (if f = ''a.yaml'' then 1 else (0::nat))"
    using \<open>import_target id (SStr ''rv'') v = Inr g\<close> by auto
qed (simp_all add: demo_lists_def)

section \<open>The selected tests\<close>

lemma filter_params_subset:
  "filter_params s cfg test ps acc = Inr r \<Longrightarrow> set r \<subseteq> insert test (set acc)"
proof (induction ps arbitrary: acc)
  case Nil
  then show ?case by auto
next
  case (Cons x ps)
  obtain p v where x: "x = (p, v)" by (cases x)
  from Cons.prems consider "r = acc" | "filter_params s cfg test ps (acc @ [test]) = Inr r"
    by (auto simp: x bind_res_Inr split: option.splits pyval.splits if_splits)
  then show ?case
  proof cases
    case 2
    from Cons.IH [OF this] show ?thesis by auto
  qed auto
qed

lemma filter_tests_subset: "filter_tests_by_config s cfg ts = Inr rs \<Longrightarrow> set rs \<subseteq> set ts"
  unfolding filter_tests_by_config_def
proof (erule fold_res_invariant [where I = "\<lambda>acc. set acc \<subseteq> set ts"])
  fix acc x r
  assume x: "x \<in> set ts" and acc: "set acc \<subseteq> set ts" and "filter_test s cfg acc x = Inr r"
  then have "r = acc @ [x] \<or> (\<exists>d. filter_params s cfg x d acc = Inr r)"
    by (auto simp: filter_test_def split: option.splits pyval.splits)
  then show "set r \<subseteq> set ts" using x acc filter_params_subset by fastforce
qed simp

lemma select_directed_ok:
  assumes "select_directed test it t = Some e"
  shows "map_of e ''test'' = Some (PStr (d_test t))"
    and "\<exists>i. map_of e ''iterations'' = Some (PInt i) \<and> (\<forall>n. it = Some n \<and> 0 < n \<longrightarrow> i = n)"
    and "''all_directed'' \<in> set (split_on (CHR '','') test) \<or> d_test t \<in> set (split_on (CHR '','') test)"
  using assms
  by (auto simp: select_directed_def Let_def dtest_dict_def or_iterations_def split: if_splits)

lemma test_counts: "map_res (test_count tt) es = Inr tc \<Longrightarrow>
    (\<forall>((t, c, tt'), e)\<in>set tc. tt' = tt \<and> 0 < c \<and> e \<in> set es
       \<and> map_of e ''test'' = Some (PStr t) \<and> (\<exists>v. map_of e ''iterations'' = Some v \<and> num_of v = Some c))"
  by (induction es arbitrary: tc)
     (fastforce simp: res_simps test_count_def get_item_def split: option.splits pyval.splits if_splits)+

lemma get_tests_and_counts_Inr:
  assumes "get_tests_and_counts w m = Inr tc"
  obtains rm dm rf df rs ds
  where "process_riscvdv_testlist w m = Inr rm" "process_directed_testlist w m = Inr dm"
    "filter_for w m rm = Inr rf" "filter_for w m dm = Inr df"
    "map_res (test_count RISCVDV) rf = Inr rs" "map_res (test_count DIRECTED) df = Inr ds" "tc = rs @ ds"
  using assms by (auto simp: get_tests_and_counts_def res_simps split: if_splits)

lemma filter_for_subset: "filter_for w m es = Inr rs \<Longrightarrow> set rs \<subseteq> set es"
  by (auto simp: filter_for_def bind_res_Inr dest!: filter_tests_subset)

lemma split_all: "split_on (CHR '','') ''all'' = [''all'']"
  by (simp add: split_on_def)

lemma riscvdv_kept:
  assumes "process_riscvdv_testlist w m = Inr rm" and "e \<in> set rm" and "map_of e ''test'' = Some (PStr t)"
  shows "\<exists>x\<in>{t, ''all'', ''all_riscvdv''}. x \<in> set (split_on (CHR '','') (md_test m))"
    and "map_of e ''iterations'' = Some v \<Longrightarrow> num_of v = Some c \<Longrightarrow> md_iterations m = Some n \<Longrightarrow> 0 < n \<Longrightarrow> c = n"
proof -
  let ?names = "set (split_on (CHR '','') (md_test m))"
  let ?test = "if list_ex (\<lambda>x. x \<in> ?names) [''all_riscvdv'', ''all''] then ''all'' else md_test m"
  let ?it = "case md_iterations m of Some i \<Rightarrow> i | None \<Rightarrow> 0"
  have "list_all (kept_ok ?test ?it) rm"
    using process_keeps [OF assms(1) [unfolded process_riscvdv_testlist_def Let_def]] by simp
  with assms(2) have k: "kept_ok ?test ?it e" by (simp add: list_all_iff)
  show "\<exists>x\<in>{t, ''all'', ''all_riscvdv''}. x \<in> ?names"
  proof (rule ccontr)
    assume none: "\<not> ?thesis"
    then have "?test = md_test m" by simp
    with k assms(3) have "md_test m = ''all'' \<or> t \<in> ?names" by (auto simp: kept_ok_def)
    with none split_all show False by auto
  qed
  show "c = n" if "map_of e ''iterations'' = Some v" "num_of v = Some c" "md_iterations m = Some n" "0 < n"
    using k that by (auto simp: kept_ok_def)
qed

lemma directed_kept:
  assumes "process_directed_testlist w m = Inr dm" and "e \<in> set dm" and "map_of e ''test'' = Some (PStr t)"
  shows "\<exists>x\<in>{t, ''all_directed''}. x \<in> set (split_on (CHR '','') (md_test m))"
    and "map_of e ''iterations'' = Some v \<Longrightarrow> num_of v = Some c \<Longrightarrow> md_iterations m = Some n \<Longrightarrow> 0 < n \<Longrightarrow> c = n"
proof -
  from assms obtain d where "select_directed (md_test m) (md_iterations m) d = Some e"
    by (auto simp: process_directed_testlist_def bind_res_Inr List.map_filter_def)
  note ok = select_directed_ok [OF this]
  show "\<exists>x\<in>{t, ''all_directed''}. x \<in> set (split_on (CHR '','') (md_test m))"
    using ok(1,3) assms(3) by auto
  show "c = n" if "map_of e ''iterations'' = Some v" "num_of v = Some c" "md_iterations m = Some n" "0 < n"
    using ok(2) that by auto
qed

text \<open>
  C18: Only tests that were asked for are run: a test of the generator only if its name or one of
  \<open>all\<close> and \<open>all_riscvdv\<close> is in the comma-separated argument, a directed test only if its name or
  \<open>all_directed\<close> is - \<open>all\<close> alone selects no directed test.  Every number of runs is positive, and
  is the number of iterations given on the command line where there is one.
\<close>
theorem selected_as_asked:
  assumes "get_tests_and_counts w m = Inr tc" and "((t, c, tt), e) \<in> set tc"
  shows "(tt = RISCVDV \<longrightarrow> (\<exists>x\<in>{t, ''all'', ''all_riscvdv''}. x \<in> set (split_on (CHR '','') (md_test m))))
       \<and> (tt = DIRECTED \<longrightarrow> (\<exists>x\<in>{t, ''all_directed''}. x \<in> set (split_on (CHR '','') (md_test m))))
       \<and> 0 < c \<and> (\<forall>n. md_iterations m = Some n \<and> 0 < n \<longrightarrow> c = n)"
proof -
  from get_tests_and_counts_Inr [OF assms(1)] obtain rm dm rf df rs ds where
    r: "process_riscvdv_testlist w m = Inr rm" "filter_for w m rm = Inr rf" "map_res (test_count RISCVDV) rf = Inr rs"
    and d: "process_directed_testlist w m = Inr dm" "filter_for w m dm = Inr df" "map_res (test_count DIRECTED) df = Inr ds"
    and "tc = rs @ ds" by metis
  with assms(2) consider "((t, c, tt), e) \<in> set rs" | "((t, c, tt), e) \<in> set ds" by auto
  then show ?thesis
  proof cases
    case 1
    with test_counts [OF r(3)] obtain v where f: "tt = RISCVDV" "0 < c" "e \<in> set rf"
      "map_of e ''test'' = Some (PStr t)" "map_of e ''iterations'' = Some v" "num_of v = Some c" by fastforce
    from filter_for_subset [OF r(2)] f(3) have "e \<in> set rm" by blast
    note k = riscvdv_kept [OF r(1) this f(4)]
    show ?thesis using f k(1) k(2) [OF f(5,6)] by blast
  next
    case 2
    with test_counts [OF d(3)] obtain v where f: "tt = DIRECTED" "0 < c" "e \<in> set df"
      "map_of e ''test'' = Some (PStr t)" "map_of e ''iterations'' = Some v" "num_of v = Some c" by fastforce
    from filter_for_subset [OF d(2)] f(3) have "e \<in> set dm" by blast
    note k = directed_kept [OF d(1) this f(4)]
    show ?thesis using f k(1) k(2) [OF f(5,6)] by blast
  qed
qed

text \<open>A world with an empty environment, the OpenTitan configuration and one directed test.\<close>

definition demo_read_file :: "string \<Rightarrow> string res" where
  "demo_read_file f =
     (if f = ''/ibex/ibex_configs.yaml'' then Inr ''configs''
      else if f = ''/ibex/dv/uvm/core_ibex/riscv_dv_extension/testlist.yaml'' then Inr ''testlist''
      else if f = ''/ibex/dv/uvm/core_ibex/directed_tests/directed_testlist.yaml'' then Inr ''directed''
      else Inl (OSError f))"

definition demo_parse :: "string \<Rightarrow> string + pyval" where
  "demo_parse t =
     (if t = ''configs'' then Inr (PDict [(PStr ''opentitan'', PDict opentitan)])
      else if t = ''testlist'' then Inr (PList [PDict
        [(PStr ''test'', PStr ''riscv_arithmetic_basic_test''), (PStr ''iterations'', PInt 10),
         (PStr ''gen_test'', PStr ''riscv_instr_base_test''), (PStr ''sim_opts'', PStr ''+a=1 +b=2'')]])
      else Inr (PList (map PDict demo_entries)))"

definition demo_world :: world where
  "demo_world =
     \<lparr>w_host = \<lparr>fs_read = demo_read_file, yaml_parse = demo_parse, env_vars = [],
                ibex_root = ''/ibex'', err_text = (\<lambda>e. [])\<rparr>,
      w_exists = (\<lambda>p. p \<noteq> ''/out/metadata/metadata.pickle''), w_resolve = py_path,
      w_validators = demo_validators, w_git = Inr ''cafe'', w_now = ''now'',
      w_cfg_text = (\<lambda>c. ''cfg''), w_depth = 900\<rparr>"

text \<open>The metadata of a regression that asks for \<open>all\<close> and the directed test, twice each.\<close>

definition demo_md :: regression_metadata where
  "demo_md = (post_init demo_world (dummy_obj ''now''))
     \<lparr>md_test := ''all,empty'', md_iterations := Some 2, md_ibex_config := ''opentitan''\<rparr>"

lemma demo_counts:
  "case get_tests_and_counts demo_world demo_md of
     Inr tc \<Rightarrow> map fst tc = [(''riscv_arithmetic_basic_test'', 2, RISCVDV), (''empty'', 2, DIRECTED)]
   | Inl e \<Rightarrow> False"
  by code_simp

theorem selected_as_asked_witness:
  "\<exists>tc e. get_tests_and_counts demo_world demo_md = Inr tc
     \<and> ((''empty'', 2, DIRECTED), e) \<in> set tc
     \<and> (\<exists>x\<in>{''empty'', ''all_directed''}. x \<in> set (split_on (CHR '','') (md_test demo_md)))"
proof -
  from demo_counts obtain tc where tc: "get_tests_and_counts demo_world demo_md = Inr tc"
    and "map fst tc = [(''riscv_arithmetic_basic_test'', 2, RISCVDV), (''empty'', 2, DIRECTED)]"
    by (auto split: sum.splits)
  then have "(''empty'', 2, DIRECTED) \<in> set (map fst tc)" by simp
  then obtain e where e: "((''empty'', 2, DIRECTED), e) \<in> set tc" by auto
  from selected_as_asked [OF tc e] tc e show ?thesis by blast
qed

end
