(* ===== verification/Metadata_Props.thy ===== *)
theory Metadata_Props
  imports Test_Selection
begin

text \<open>
  What the metadata of a regression guarantees: the arguments of the makefile reach the fields
  they name, the exported runs are the ones the makefile asks for, every run has a file of its
  own, and the test list is read in a bounded number of nested calls.
\<close>

section \<open>Arguments reach their fields\<close>

definition settable :: "(string \<times> hint) list" where
  "settable =
     [(''raw_args_str'', HStr), (''seed'', HInt), (''waves'', HBool), (''cov'', HBool),
      (''cosim'', HBool), (''simulator'', HStr), (''iss'', HStr), (''test'', HStr),
      (''verbose'', HBool), (''iterations'', HOptInt), (''signature_addr'', HStr),
      (''ibex_config'', HStr), (''dut_cov_rtl_path'', HStr), (''run_rtl_timeout_s'', HInt)]"

text \<open>These are the fields with a settable hint that the call does not reserve.\<close>

lemma settable_fields:
  "settable = map (\<lambda>(n, h, i). (n, h))
     (filter (\<lambda>(n, h, i). i \<and> (case h of HOther _ \<Rightarrow> False | _ \<Rightarrow> True) \<and> n \<notin> set reserved_args) dc_fields)"
  by code_simp

lemma distinct_fields: "distinct (map fst dc_fields)"
  by code_simp

lemma settable_in_fields: "(n, h) \<in> set settable \<Longrightarrow> (n, h, True) \<in> set dc_fields"
  by (subst (asm) settable_fields) (auto simp del: filter.simps list.simps)

lemma split_pair_eq: "CHR ''='' \<notin> set k \<Longrightarrow> split_pair (k @ CHR ''='' # v) = Inr (k, v)"
  by (induction k) (auto simp: split_pair_def)

lemma kv_dict_lookup:
  "distinct (map (f \<circ> fst) kvs) \<Longrightarrow> map_of (kv_dict f kvs) = map_of (map (\<lambda>(k, v). (f k, v)) kvs)"
proof -
  assume d: "distinct (map (f \<circ> fst) kvs)"
  have "kv_dict f kvs = dict_merge [] (map (\<lambda>(k, v). (f k, v)) kvs)"
    by (simp add: kv_dict_def dict_merge_def foldl_map case_prod_unfold)
  moreover have "dict_keys (map (\<lambda>(k, v). (f k, v)) kvs) = map (f \<circ> fst) kvs"
    by (simp add: comp_def case_prod_unfold)
  ultimately show ?thesis using d by (simp only: dict_merge_lookup map_of.simps map_add_empty) simp
qed

text \<open>What the loop over the fields makes of the arguments.\<close>

definition typed_step :: "(string, string) dict \<Rightarrow> (string, item) dict \<Rightarrow> string \<times> hint \<times> bool
    \<Rightarrow> (string, item) dict res" where
  "typed_step kv args =
     (\<lambda>(name, h, init). case map_of kv name of
         None \<Rightarrow> Inr args
       | Some val \<Rightarrow> bind_res (typed_arg name h val) (\<lambda>v. Inr (dict_set name v args)))"

lemma typed_args_step: "typed_args kv args = fold_res (typed_step kv) args dc_fields"
  by (simp add: typed_args_def typed_step_def [abs_def])

lemma typed_step_ok:
  "(\<And>val. map_of kv n = Some val \<Longrightarrow> typed_arg n h val = Inr (g n)) \<Longrightarrow>
     typed_step kv args (n, h, i) = Inr (if map_of kv n = None then args else dict_set n (g n) args)"
  by (cases "map_of kv n") (simp_all add: typed_step_def)

lemma typed_args_fold:
  assumes "distinct (map fst fs)"
    and "\<And>n h i val. (n, h, i) \<in> set fs \<Longrightarrow> map_of kv n = Some val \<Longrightarrow> typed_arg n h val = Inr (g n)"
  shows "\<exists>args'. fold_res (typed_step kv) args fs = Inr args'
       \<and> (\<forall>n. map_of args' n = (if n \<in> fst ` set fs \<and> map_of kv n \<noteq> None then Some (g n) else map_of args n))
       \<and> (distinct (dict_keys args) \<longrightarrow> distinct (dict_keys args'))"
  using assms
proof (induction fs arbitrary: args)
  case Nil
  then show ?case by simp
next
  case (Cons x fs)
  obtain n h i where x: "x = (n, h, i)" by (cases x) auto
  define a1 where "a1 = (if map_of kv n = None then args else dict_set n (g n) args)"
  have step: "typed_step kv args x = Inr a1"
    unfolding x a1_def by (rule typed_step_ok) (use Cons.prems(2) x in auto)
  have d1: "distinct (dict_keys args) \<longrightarrow> distinct (dict_keys a1)"
    by (simp add: a1_def dict_set_distinct)
  have l1: "map_of a1 k = (if k = n \<and> map_of kv n \<noteq> None then Some (g n) else map_of args k)" for k
    by (auto simp: a1_def)
  have nin: "n \<notin> fst ` set fs" using Cons.prems(1) x by auto
  have "\<exists>args'. fold_res (typed_step kv) a1 fs = Inr args'
       \<and> (\<forall>k. map_of args' k = (if k \<in> fst ` set fs \<and> map_of kv k \<noteq> None then Some (g k) else map_of a1 k))
       \<and> (distinct (dict_keys a1) \<longrightarrow> distinct (dict_keys args'))"
    by (rule Cons.IH) (use Cons.prems in auto)
  then obtain args' where "fold_res (typed_step kv) a1 fs = Inr args'"
    and l2: "\<And>k. map_of args' k = (if k \<in> fst ` set fs \<and> map_of kv k \<noteq> None then Some (g k) else map_of a1 k)"
    and "distinct (dict_keys a1) \<longrightarrow> distinct (dict_keys args')" by blast
  moreover have "map_of args' k = (if k \<in> fst ` set (x # fs) \<and> map_of kv k \<noteq> None
                                   then Some (g k) else map_of args k)" for k
    unfolding l2 l1 using nin x by auto
  ultimately show ?case using step d1 by (intro exI [of _ args']) simp
qed

lemma typed_arg_shape:
  "typed_arg k h val = Inr it \<Longrightarrow>
     (case h of HStr \<Rightarrow> \<exists>s. it = IStr s | HInt \<Rightarrow> \<exists>i. it = IInt i | HBool \<Rightarrow> \<exists>b. it = IBool b
      | HPath \<Rightarrow> \<exists>p. it = IPath p | HOptInt \<Rightarrow> it = INone \<or> (\<exists>i. it = IInt i) | HOther _ \<Rightarrow> False)"
  by (auto simp: typed_arg_def res_simps split: hint.splits if_splits)

lemma items_lookup:
  "map_of (md_items m) ''raw_args_str'' = Some (IStr (md_raw_args_str m))"
  "map_of (md_items m) ''seed'' = Some (IInt (md_seed m))"
  "map_of (md_items m) ''waves'' = Some (IBool (md_waves m))"
  "map_of (md_items m) ''cov'' = Some (IBool (md_cov m))"
  "map_of (md_items m) ''cosim'' = Some (IBool (md_cosim m))"
  "map_of (md_items m) ''simulator'' = Some (IStr (md_simulator m))"
  "map_of (md_items m) ''iss'' = Some (IStr (md_iss m))"
  "map_of (md_items m) ''test'' = Some (IStr (md_test m))"
  "map_of (md_items m) ''verbose'' = Some (IBool (md_verbose m))"
  "map_of (md_items m) ''iterations'' = Some (opt_item IInt (md_iterations m))"
  "map_of (md_items m) ''signature_addr'' = Some (IStr (md_signature_addr m))"
  "map_of (md_items m) ''ibex_config'' = Some (IStr (md_ibex_config m))"
  "map_of (md_items m) ''dut_cov_rtl_path'' = Some (IStr (md_dut_cov_rtl_path m))"
  "map_of (md_items m) ''run_rtl_timeout_s'' = Some (IInt (md_run_rtl_timeout_s m))"
  by (simp_all add: md_items_def)

lemma post_init_fields:
  "md_raw_args_str (post_init w m) = md_raw_args_str m"
  "md_seed (post_init w m) = md_seed m"
  "md_waves (post_init w m) = md_waves m"
  "md_cov (post_init w m) = md_cov m"
  "md_cosim (post_init w m) = md_cosim m"
  "md_simulator (post_init w m) = md_simulator m"
  "md_iss (post_init w m) = md_iss m"
  "md_test (post_init w m) = md_test m"
  "md_verbose (post_init w m) = md_verbose m"
  "md_iterations (post_init w m) = md_iterations m"
  "md_signature_addr (post_init w m) = md_signature_addr m"
  "md_ibex_config (post_init w m) = md_ibex_config m"
  "md_dut_cov_rtl_path (post_init w m) = md_dut_cov_rtl_path m"
  "md_run_rtl_timeout_s (post_init w m) = md_run_rtl_timeout_s m"
  by (simp_all add: post_init_def setup_directories_def Let_def)

lemma set_field_lookup:
  assumes "(k, h) \<in> set settable" and "typed_arg k h val = Inr it" and "(k', h') \<in> set settable"
  shows "map_of (md_items (set_field k it m)) k' = (if k' = k then Some it else map_of (md_items m) k')"
  using assms(1,3) typed_arg_shape [OF assms(2)]
  by (simp add: settable_def)
     (elim disjE conjE; clarsimp simp: set_field_def items_lookup opt_item_def;
      elim disjE exE; simp add: items_lookup opt_item_def)

lemma set_fields_lookup:
  assumes "\<And>k v. (k, v) \<in> set args \<Longrightarrow> \<exists>h val. (k, h) \<in> set settable \<and> typed_arg k h val = Inr v"
    and "distinct (dict_keys args)" and "(k, h) \<in> set settable"
  shows "map_of (md_items (foldl (\<lambda>m (k, v). set_field k v m) m args)) k =
    (case map_of args k of Some v \<Rightarrow> Some v | None \<Rightarrow> map_of (md_items m) k)"
  using assms(1,2)
proof (induction args arbitrary: m)
  case Nil
  then show ?case by simp
next
  case (Cons kv args)
  obtain j v where kv: "kv = (j, v)" by fastforce
  from Cons.prems(1) [of j v] kv obtain h' val where j: "(j, h') \<in> set settable" "typed_arg j h' val = Inr v"
    by auto
  have "map_of (md_items (foldl (\<lambda>m (k, v). set_field k v m) (set_field j v m) args)) k =
    (case map_of args k of Some v \<Rightarrow> Some v | None \<Rightarrow> map_of (md_items (set_field j v m)) k)"
    by (rule Cons.IH) (use Cons.prems in auto)
  moreover have "map_of args j = None" using Cons.prems(2) kv by (simp add: map_of_eq_None_iff)
  ultimately show ?case using set_field_lookup [OF j assms(3), of m] by (auto simp: kv split: option.splits)
qed

lemma settable_init: "(k, h) \<in> set settable \<Longrightarrow> k \<notin> set no_init_args \<and> k \<notin> set reserved_args"
proof -
  have "list_all (\<lambda>(k, h). k \<notin> set no_init_args \<and> k \<notin> set reserved_args) settable" by code_simp
  then show "(k, h) \<in> set settable \<Longrightarrow> k \<notin> set no_init_args \<and> k \<notin> set reserved_args"
    by (auto simp: list_all_iff)
qed

lemma post_init_lookup:
  "(k, h) \<in> set settable \<Longrightarrow> map_of (md_items (post_init w m)) k = map_of (md_items m) k"
  by (simp add: settable_def) (elim disjE; simp add: items_lookup post_init_fields)

lemma getattr_settable: "(k, h) \<in> set settable \<Longrightarrow> getattr m k = map_of (md_items m) k"
  by (simp add: settable_def) (elim disjE; simp add: getattr_def)

lemma base_lookup:
  "(k, h) \<in> set settable \<Longrightarrow>
     map_of (md_items (m\<lparr>md_dir_out := a, md_dir_metadata := b, md_git_commit := c, md_raw_args_dict := d\<rparr>)) k
     = map_of (md_items m) k"
  by (simp add: settable_def) (elim disjE; simp add: items_lookup)

text \<open>The typed value of an argument, where it has one.\<close>

definition arg_value :: "string \<Rightarrow> string \<Rightarrow> item option" where
  "arg_value k val =
     (case map_of settable k of
        None \<Rightarrow> None
      | Some h \<Rightarrow> (case typed_arg k h val of Inl _ \<Rightarrow> None | Inr it \<Rightarrow> Some it))"

lemma arg_value_Some:
  "arg_value k val = Some it \<longleftrightarrow> (\<exists>h. (k, h) \<in> set settable \<and> typed_arg k h val = Inr it)"
proof -
  have "distinct (map fst settable)" by code_simp
  then have "(k, h) \<in> set settable \<longleftrightarrow> map_of settable k = Some h" for h by simp
  then show ?thesis by (auto simp: arg_value_def split: option.splits sum.splits)
qed

text \<open>The words of the argument string: \<open>KEY=VALUE\<close>, quoted for the shell.\<close>

definition args_text :: "(string \<times> string) list \<Rightarrow> string" where
  "args_text kvs = shlex_join (map (\<lambda>(k, v). k @ ''='' @ v) kvs)"

lemma args_text_pairs:
  assumes "\<forall>(k, v)\<in>set kvs. CHR ''='' \<notin> set k"
  shows "bind_res (shlex_split (args_text kvs)) (map_res split_pair) = Inr kvs"
proof -
  have "map_res split_pair (map (\<lambda>(k, v). k @ ''='' @ v) xs) = Inr xs"
    if "\<forall>(k, v)\<in>set xs. CHR ''='' \<notin> set k" for xs
    using that by (induction xs) (auto simp: split_pair_eq)
  with assms show ?thesis by (simp add: args_text_def shlex_split_join)
qed

text \<open>What \<open>typed_args\<close> makes of pairs whose values all have their types.\<close>

definition good_pairs :: "(string \<times> string) list \<Rightarrow> bool" where
  "good_pairs kvs \<longleftrightarrow> (\<forall>(k, v)\<in>set kvs. CHR ''='' \<notin> set k \<and> arg_value (py_lower k) v \<noteq> None)
     \<and> distinct (map (py_lower \<circ> fst) kvs)"

lemma kv_dict_pairs:
  assumes "good_pairs kvs"
  shows "(k, v) \<in> set kvs \<Longrightarrow> map_of (kv_dict py_lower kvs) (py_lower k) = Some v"
    and "map_of (kv_dict py_lower kvs) n = Some val \<Longrightarrow>
           arg_value n val \<noteq> None \<and> n \<in> set (map (py_lower \<circ> fst) kvs)"
proof -
  have kv: "map_of (kv_dict py_lower kvs) = map_of (map (\<lambda>(k, v). (py_lower k, v)) kvs)"
    using assms by (simp add: kv_dict_lookup good_pairs_def)
  show "map_of (kv_dict py_lower kvs) (py_lower k) = Some v" if "(k, v) \<in> set kvs"
    unfolding kv
  proof (rule map_of_is_SomeI)
    show "distinct (map fst (map (\<lambda>(k, v). (py_lower k, v)) kvs))"
      using assms by (simp add: comp_def case_prod_unfold good_pairs_def)
    show "(py_lower k, v) \<in> set (map (\<lambda>(k, v). (py_lower k, v)) kvs)" using that by force
  qed
  show "arg_value n val \<noteq> None \<and> n \<in> set (map (py_lower \<circ> fst) kvs)"
    if "map_of (kv_dict py_lower kvs) n = Some val"
  proof -
    from map_of_SomeD [OF that [unfolded kv]] obtain j where j: "(j, val) \<in> set kvs" "n = py_lower j" by auto
    then have "n \<in> set (map (py_lower \<circ> fst) kvs)" by force
    with j assms show ?thesis by (auto simp: good_pairs_def)
  qed
qed

lemma typed_args_good:
  assumes "good_pairs kvs"
  obtains args where "typed_args (kv_dict py_lower kvs) [(''raw_args_str'', IStr txt)] = Inr args"
    "distinct (dict_keys args)"
    "\<And>k v. (k, v) \<in> set kvs \<Longrightarrow> map_of args (py_lower k) = arg_value (py_lower k) v"
    "\<And>n. n \<notin> set (map (py_lower \<circ> fst) kvs) \<Longrightarrow> n \<noteq> ''raw_args_str'' \<Longrightarrow> map_of args n = None"
    "\<And>k v. (k, v) \<in> set args \<Longrightarrow> \<exists>h val. (k, h) \<in> set settable \<and> typed_arg k h val = Inr v"
proof -
  define kv where "kv = kv_dict py_lower kvs"
  define args0 :: "(string, item) dict" where "args0 = [(''raw_args_str'', IStr txt)]"
  define g where "g n = the (arg_value n (the (map_of kv n)))" for n
  note pairs = kv_dict_pairs [OF assms, folded kv_def]
  have val: "arg_value n val = Some (g n)" if "map_of kv n = Some val" for n val
    using pairs(2) [OF that] that by (auto simp: g_def)
  have ty: "typed_arg n h val = Inr (g n)" if "(n, h, i) \<in> set dc_fields" "map_of kv n = Some val" for n h i val
  proof -
    from val [OF that(2)] obtain h' where s: "(n, h') \<in> set settable" "typed_arg n h' val = Inr (g n)"
      by (auto simp: arg_value_Some)
    from settable_in_fields [OF s(1)] that(1) distinct_fields have "h' = h"
      by (metis eq_key_imp_eq_value fst_conv)
    with s show ?thesis by simp
  qed
  from typed_args_fold [OF distinct_fields, of kv g args0] ty obtain args where
    args: "typed_args kv args0 = Inr args" and dist: "distinct (dict_keys args)"
    and look: "\<And>n. map_of args n = (if n \<in> fst ` set dc_fields \<and> map_of kv n \<noteq> None then Some (g n)
                                      else map_of args0 n)"
    unfolding typed_args_step by (auto simp: args0_def)
  have in_fields: "n \<in> fst ` set dc_fields" if "map_of kv n = Some val" for n val
    using val [OF that] settable_in_fields by (force simp: arg_value_Some)
  show ?thesis
  proof (rule that [OF args [unfolded kv_def args0_def] dist])
    show "map_of args (py_lower k) = arg_value (py_lower k) v" if "(k, v) \<in> set kvs" for k v
      using look [of "py_lower k"] pairs(1) [OF that] val in_fields by auto
    show "map_of args n = None" if "n \<notin> set (map (py_lower \<circ> fst) kvs)" "n \<noteq> ''raw_args_str''" for n
      using look [of n] pairs(2) [of n] that by (cases "map_of kv n") (auto simp: args0_def)
    show "\<exists>h val. (k, h) \<in> set settable \<and> typed_arg k h val = Inr v" if "(k, v) \<in> set args" for k v
    proof -
      from that dist have "map_of args k = Some v" by simp
      with look [of k] show ?thesis using val [of k]
        by (auto simp: args0_def typed_arg_def settable_def arg_value_Some split: if_splits)
    qed
  qed
qed

text \<open>
  C19: The makefile passes \<open>KEY=VALUE\<close> words, the keys in any case.  When every key names a settable
  field and every value has its type, the metadata is created, every named field holds the typed
  value, and every other settable field but the raw argument text keeps its default.
\<close>
theorem arguments_reach_fields:
  assumes "\<forall>(k, v)\<in>set kvs. CHR ''='' \<notin> set k \<and> arg_value (py_lower k) v \<noteq> None"
    and "distinct (map (py_lower \<circ> fst) kvs)"
  shows "\<exists>m. arg_list_initializer w dir_metadata (Some dir_out) git_commit (args_text kvs) = Inr m
    \<and> (\<forall>(k, v)\<in>set kvs. getattr m (py_lower k) = arg_value (py_lower k) v)
    \<and> (\<forall>(f, h)\<in>set settable. f \<notin> set (map (py_lower \<circ> fst) kvs) \<and> f \<noteq> ''raw_args_str'' \<longrightarrow>
         getattr m f = getattr (dummy_obj (w_now w)) f)"
proof -
  from assms have good: "good_pairs kvs" by (simp add: good_pairs_def)
  obtain args
    where args: "typed_args (kv_dict py_lower kvs) [(''raw_args_str'', IStr (args_text kvs))] = Inr args"
    and dist: "distinct (dict_keys args)"
    and given: "\<And>k v. (k, v) \<in> set kvs \<Longrightarrow> map_of args (py_lower k) = arg_value (py_lower k) v"
    and absent: "\<And>n. n \<notin> set (map (py_lower \<circ> fst) kvs) \<Longrightarrow> n \<noteq> ''raw_args_str'' \<Longrightarrow> map_of args n = None"
    and ok: "\<And>k v. (k, v) \<in> set args \<Longrightarrow> \<exists>h val. (k, h) \<in> set settable \<and> typed_arg k h val = Inr v"
    by (rule typed_args_good [OF good, of "args_text kvs"]) blast
  have "find (\<lambda>k. k \<in> set reserved_args) (dict_keys args) = None"
    and "find (\<lambda>k. k \<in> set no_init_args) (dict_keys args) = None"
    using ok settable_init by (force simp: find_None_iff)+
  then obtain m0 where c: "construct w dir_out dir_metadata git_commit (kv_dict (\<lambda>k. k) kvs) args =
      Inr (post_init w (foldl (\<lambda>m (k, v). set_field k v m) m0 args))"
    and m0: "\<And>k h. (k, h) \<in> set settable \<Longrightarrow> map_of (md_items m0) k = map_of (md_items (dummy_obj (w_now w))) k"
    by (simp add: construct_def base_lookup)
  let ?m = "post_init w (foldl (\<lambda>m (k, v). set_field k v m) m0 args)"
  have "bind_res (shlex_split (args_text kvs)) (map_res split_pair) = Inr kvs"
    by (rule args_text_pairs) (use assms(1) in auto)
  then have init: "arg_list_initializer w dir_metadata (Some dir_out) git_commit (args_text kvs) = Inr ?m"
    using args c by (auto simp: arg_list_initializer_def bind_res_Inr)
  have final: "getattr ?m k = (case map_of args k of Some v \<Rightarrow> Some v | None \<Rightarrow> getattr (dummy_obj (w_now w)) k)"
    if "(k, h) \<in> set settable" for k h
    by (simp only: getattr_settable [OF that] post_init_lookup [OF that]
        set_fields_lookup [OF ok dist that] m0 [OF that])
  have "getattr ?m (py_lower k) = arg_value (py_lower k) v" if "(k, v) \<in> set kvs" for k v
  proof -
    from assms(1) that obtain it where it: "arg_value (py_lower k) v = Some it" by fastforce
    then obtain h where "(py_lower k, h) \<in> set settable" by (auto simp: arg_value_Some)
    from final [OF this] given [OF that] it show ?thesis by simp
  qed
  moreover have "getattr ?m f = getattr (dummy_obj (w_now w)) f"
    if "(f, h) \<in> set settable" "f \<notin> set (map (py_lower \<circ> fst) kvs)" "f \<noteq> ''raw_args_str''" for f h
    using absent [OF that(2,3)] final [OF that(1)] by simp
  ultimately show ?thesis using init by (intro exI [of _ ?m]) auto
qed

definition demo_args :: "(string \<times> string) list" where
  "demo_args =
     [(''SEED'', ''7''), (''WAVES'', ''1''), (''ITERATIONS'', ''2''), (''TEST'', ''all,empty''),
      (''IBEX_CONFIG'', ''opentitan''), (''SIMULATOR'', ''xlm'')]"

theorem arguments_reach_fields_witness:
  "\<exists>m. arg_list_initializer demo_world ''/out/metadata'' (Some ''/out'') ''cafe'' (args_text demo_args) = Inr m
     \<and> getattr m ''seed'' = Some (IInt 7) \<and> getattr m ''waves'' = Some (IBool True)
     \<and> getattr m ''test'' = Some (IStr ''all,empty'') \<and> getattr m ''cosim'' = Some (IBool True)"
proof -
  have g: "\<forall>(k, v)\<in>set demo_args. CHR ''='' \<notin> set k \<and> arg_value (py_lower k) v \<noteq> None"
    and d: "distinct (map (py_lower \<circ> fst) demo_args)" by code_simp+
  have vals: "py_lower ''SEED'' = ''seed''" "py_lower ''WAVES'' = ''waves''" "py_lower ''TEST'' = ''test''"
    "arg_value ''seed'' ''7'' = Some (IInt 7)" "arg_value ''waves'' ''1'' = Some (IBool True)"
    "arg_value ''test'' ''all,empty'' = Some (IStr ''all,empty'')" by code_simp+
  have cosim: "(''cosim'', HBool) \<in> set settable" "''cosim'' \<notin> set (map (py_lower \<circ> fst) demo_args)"
    "getattr (dummy_obj ''now'') ''cosim'' = Some (IBool True)" by code_simp+
  have ins: "(''SEED'', ''7'') \<in> set demo_args" "(''WAVES'', ''1'') \<in> set demo_args"
    "(''TEST'', ''all,empty'') \<in> set demo_args" by code_simp+
  have now: "w_now demo_world = ''now''" by (simp add: demo_world_def)
  from arguments_reach_fields [OF g d, of demo_world "''/out/metadata''" "''/out''" "''cafe''"]
  obtain m where m: "arg_list_initializer demo_world ''/out/metadata'' (Some ''/out'') ''cafe'' (args_text demo_args) = Inr m"
    and given: "\<And>k v. (k, v) \<in> set demo_args \<Longrightarrow> getattr m (py_lower k) = arg_value (py_lower k) v"
    and rest: "\<And>f h. (f, h) \<in> set settable \<Longrightarrow> f \<notin> set (map (py_lower \<circ> fst) demo_args) \<Longrightarrow>
       f \<noteq> ''raw_args_str'' \<Longrightarrow> getattr m f = getattr (dummy_obj (w_now demo_world)) f" by blast
  show ?thesis using m given [OF ins(1)] given [OF ins(2)] given [OF ins(3)] rest [OF cosim(1,2)] cosim(3)
    by (simp add: vals now)
qed

section \<open>The runs\<close>

lemma create_trr_fields:
  assumes "create_trr w m obj tt test seed = Inr t"
  shows "trr_passed t = None" and "trr_testdotseed t = Some (tds_str test seed)"
    and "trr_testname t = Some test" and "trr_seed t = Some seed" and "trr_testtype t = Some tt"
    and "trr_pickle_file t = Some (path_div (md_dir_metadata m) (tds_str test seed @ ''.pickle''))"
  using assms
  by (auto simp: create_trr_def base_trr_def empty_trr_def Let_def res_simps split: test_type.splits option.splits)

definition job_tds :: "job \<Rightarrow> string" where
  "job_tds j = (case j of (obj, tt, test, seed) \<Rightarrow> tds_str test seed)"

definition pickle_of :: "regression_metadata \<Rightarrow> string \<Rightarrow> string" where
  "pickle_of m tds = path_div (md_dir_metadata m) (tds @ ''.pickle'')"

lemma create_runs_result:
  assumes "create_runs w m js = (ts, Inr m')"
  shows "m' = m\<lparr>md_tests_pickle_files := md_tests_pickle_files m @ map (pickle_of m \<circ> job_tds) js\<rparr>
       \<and> map trr_testdotseed ts = map (Some \<circ> job_tds) js
       \<and> map trr_pickle_file ts = map (Some \<circ> pickle_of m \<circ> job_tds) js
       \<and> (\<forall>t\<in>set ts. trr_passed t = None)"
  using assms
proof (induction js arbitrary: m ts)
  case Nil
  then show ?case by simp
next
  case (Cons j js)
  obtain obj tt test seed where j: "j = (obj, tt, test, seed)" by (cases j)
  from Cons.prems j obtain t where t: "create_trr w m obj tt test seed = Inr t"
    by (auto split: sum.splits)
  define m1 where "m1 = m\<lparr>md_tests_pickle_files := md_tests_pickle_files m
      @ [path_div (md_dir_metadata m) (tds_str test seed @ ''.pickle'')]\<rparr>"
  obtain ts' r where r: "create_runs w m1 js = (ts', r)" by fastforce
  with Cons.prems j t have ts: "ts = t # ts'" and "r = Inr m'"
    by (simp_all add: m1_def [symmetric] Let_def)
  with Cons.IH r have ih: "m' = m1\<lparr>md_tests_pickle_files := md_tests_pickle_files m1 @ map (pickle_of m1 \<circ> job_tds) js\<rparr>"
    "map trr_testdotseed ts' = map (Some \<circ> job_tds) js"
    "map trr_pickle_file ts' = map (Some \<circ> pickle_of m1 \<circ> job_tds) js" "\<forall>t\<in>set ts'. trr_passed t = None"
    by blast+
  have p: "pickle_of m1 = pickle_of m" by (simp add: pickle_of_def m1_def fun_eq_iff)
  have "path_div (md_dir_metadata m) (tds_str test seed @ ''.pickle'') = pickle_of m (job_tds j)"
    by (simp add: pickle_of_def job_tds_def j)
  then have m1: "m1 = m\<lparr>md_tests_pickle_files := md_tests_pickle_files m @ [pickle_of m (job_tds j)]\<rparr>"
    and pt: "trr_pickle_file t = Some (pickle_of m (job_tds j))"
    using create_trr_fields(6) [OF t] by (simp_all only: m1_def)
  have "m' = m\<lparr>md_tests_pickle_files := md_tests_pickle_files m @ map (pickle_of m \<circ> job_tds) (j # js)\<rparr>"
    using ih(1) unfolding p by (simp add: m1)
  moreover have "map trr_testdotseed ts = map (Some \<circ> job_tds) (j # js)"
    using ih(2) create_trr_fields(2) [OF t] by (simp add: ts j job_tds_def)
  moreover have "map trr_pickle_file ts = map (Some \<circ> pickle_of m \<circ> job_tds) (j # js)"
    using ih(3) pt by (simp add: ts p)
  moreover have "\<forall>t\<in>set ts. trr_passed t = None" using ih(4) create_trr_fields(1) [OF t] by (simp add: ts)
  ultimately show ?case by blast
qed

text \<open>The names that the makefile reads back are the names of the jobs.\<close>

definition tds_of :: "int \<Rightarrow> test_type \<Rightarrow> (string \<times> int \<times> test_type) list \<Rightarrow> string list" where
  "tds_of seed tt tcs =
     concat (map (\<lambda>(test, count, testtype).
       concat (map (\<lambda>s. if testtype = tt then [tds_str test s] else []) [seed..seed + count - 1])) tcs)"

lemma tds_list_of: "tds_list m tt = tds_of (md_seed m) tt (md_tests_and_counts m)"
  by (simp add: tds_list_def tds_of_def)

lemma tds_of_append [simp]: "tds_of s tt (xs @ ys) = tds_of s tt xs @ tds_of s tt ys"
  by (simp add: tds_of_def)

lemma tds_of_jobs:
  "\<forall>((t, c, tt'), e)\<in>set tc. tt' = tt \<Longrightarrow> map job_tds (jobs s tc) = tds_of s tt (map fst tc)"
  by (induction tc) (auto simp: jobs_def tds_of_def job_tds_def comp_def)

lemma tds_of_other: "\<forall>((t, c, tt'), e)\<in>set tc. tt' \<noteq> tt \<Longrightarrow> tds_of s tt (map fst tc) = []"
  by (induction tc) (auto simp: tds_of_def)

lemma jobs_append [simp]: "jobs s (xs @ ys) = jobs s xs @ jobs s ys"
  by (simp add: jobs_def)

lemma jobs_tds:
  assumes "get_tests_and_counts w m = Inr tc"
  shows "map job_tds (jobs s tc) = tds_of s RISCVDV (map fst tc) @ tds_of s DIRECTED (map fst tc)"
proof -
  from get_tests_and_counts_Inr [OF assms] obtain rf df rs ds where
    r: "map_res (test_count RISCVDV) rf = Inr rs" and d: "map_res (test_count DIRECTED) df = Inr ds"
    and tc: "tc = rs @ ds" by metis
  from test_counts [OF r] have rs: "\<forall>((t, c, tt'), e)\<in>set rs. tt' = RISCVDV" by fastforce
  from test_counts [OF d] have ds: "\<forall>((t, c, tt'), e)\<in>set ds. tt' = DIRECTED" by fastforce
  have "tds_of s DIRECTED (map fst rs) = []" and "tds_of s RISCVDV (map fst ds) = []"
    by (rule tds_of_other; use rs ds in fastforce)+
  with tds_of_jobs [OF rs, of s] tds_of_jobs [OF ds, of s] show ?thesis by (simp add: tc)
qed

lemma set_field_frame:
  "md_tests_pickle_files (set_field k v m) = md_tests_pickle_files m"
  "md_dir_metadata (set_field k v m) = md_dir_metadata m"
  by (cases v; simp add: set_field_def)+

lemma set_fields_frame:
  "md_tests_pickle_files (foldl (\<lambda>m (k, v). set_field k v m) m args) = md_tests_pickle_files m"
  "md_dir_metadata (foldl (\<lambda>m (k, v). set_field k v m) m args) = md_dir_metadata m"
  by (induction args arbitrary: m) (auto simp: set_field_frame)

lemma post_init_frame:
  "md_tests_pickle_files (post_init w m) = md_tests_pickle_files m"
  "md_dir_metadata (post_init w m) = md_dir_metadata m"
  by (simp_all add: post_init_def setup_directories_def Let_def)

lemma initializer_frame:
  assumes "arg_list_initializer w dir_metadata dir_out git_commit args = Inr m"
  shows "md_tests_pickle_files m = [] \<and> md_dir_metadata m = w_resolve w dir_metadata"
proof -
  from assms obtain m0 as where "m = post_init w (foldl (\<lambda>m (k, v). set_field k v m) m0 as)"
    and "md_tests_pickle_files m0 = []" "md_dir_metadata m0 = w_resolve w dir_metadata"
    by (auto simp: arg_list_initializer_def bind_res_Inr construct_def dummy_obj_def split: option.splits)
  then show ?thesis by (simp add: post_init_frame set_fields_frame)
qed

lemma ibex_metadata_frame:
  "get_ibex_metadata w m = Inr m' \<Longrightarrow>
     md_tests_pickle_files m' = md_tests_pickle_files m \<and> md_dir_metadata m' = md_dir_metadata m"
  by (auto simp: get_ibex_metadata_def res_simps split: if_splits)

lemma prepare_Inr:
  assumes "prepare w dir_metadata dir_out args = Inr (m, tc)"
  shows "md_tests_pickle_files m = []" and "md_dir_metadata m = w_resolve w dir_metadata"
    and "md_tests_and_counts m = map fst tc" and "tc \<noteq> []"
    and "\<exists>m0. get_tests_and_counts w m0 = Inr tc \<and> m = m0\<lparr>md_tests_and_counts := map fst tc\<rparr>"
proof -
  from assms obtain g m1 m2 where
    1: "arg_list_initializer w dir_metadata dir_out g args = Inr m1" and 2: "get_ibex_metadata w m1 = Inr m2"
    and 3: "get_tests_and_counts w m2 = Inr tc" "tc \<noteq> []" "m = m2\<lparr>md_tests_and_counts := map fst tc\<rparr>"
    by (auto simp: prepare_def bind_res_Inr Let_def split: if_splits)
  from initializer_frame [OF 1] ibex_metadata_frame [OF 2] 3
  show "md_tests_pickle_files m = []" "md_dir_metadata m = w_resolve w dir_metadata"
    "md_tests_and_counts m = map fst tc" "tc \<noteq> []"
    "\<exists>m0. get_tests_and_counts w m0 = Inr tc \<and> m = m0\<lparr>md_tests_and_counts := map fst tc\<rparr>" by auto
qed

lemma create_metadata_ok:
  assumes "create_metadata w dir_metadata dir_out args = Created ts (Inr m)"
  obtains m0 tc where "prepare w dir_metadata dir_out args = Inr (m0, tc)"
    "create_runs w m0 (jobs (md_seed m0) tc) = (ts, Inr m)"
  using assms by (auto simp: create_metadata_def split: if_splits sum.splits prod.splits)

text \<open>
  C10: When the metadata is created, the runs exported to disk are exactly the ones that the
  makefile reads back as its two lists of \<open>TEST.SEED\<close> names, in that order; each is stored where
  a later script looks it up, \<open>NAME.pickle\<close> in the metadata directory, and none is passed yet.
\<close>
theorem created_runs_match:
  assumes "create_metadata w dir_metadata dir_out args = Created ts (Inr m)"
  shows "map trr_testdotseed ts = map Some (tds_list m RISCVDV @ tds_list m DIRECTED)
       \<and> map trr_pickle_file ts =
           map (\<lambda>tds. Some (path_div (w_resolve w dir_metadata) (tds @ ''.pickle'')))
             (tds_list m RISCVDV @ tds_list m DIRECTED)
       \<and> map Some (md_tests_pickle_files m) = map trr_pickle_file ts
       \<and> (\<forall>t\<in>set ts. trr_passed t = None)"
proof -
  from create_metadata_ok [OF assms] obtain m0 tc where p: "prepare w dir_metadata dir_out args = Inr (m0, tc)"
    and r: "create_runs w m0 (jobs (md_seed m0) tc) = (ts, Inr m)" .
  from create_runs_result [OF r] prepare_Inr(1) [OF p]
  have m: "m = m0\<lparr>md_tests_pickle_files := map (pickle_of m0 \<circ> job_tds) (jobs (md_seed m0) tc)\<rparr>"
    and t: "map trr_testdotseed ts = map Some (map job_tds (jobs (md_seed m0) tc))"
    and f: "map trr_pickle_file ts = map Some (map (pickle_of m0) (map job_tds (jobs (md_seed m0) tc)))"
    and n: "\<forall>t\<in>set ts. trr_passed t = None" by simp_all
  from prepare_Inr(5) [OF p] obtain mg where "get_tests_and_counts w mg = Inr tc" by blast
  from jobs_tds [OF this, of "md_seed m0"]
  have j: "map job_tds (jobs (md_seed m0) tc) = tds_list m RISCVDV @ tds_list m DIRECTED"
    using prepare_Inr(3) [OF p] by (simp add: m tds_list_of)
  have "pickle_of m0 = (\<lambda>tds. path_div (w_resolve w dir_metadata) (tds @ ''.pickle''))"
    by (simp add: pickle_of_def prepare_Inr(2) [OF p] fun_eq_iff)
  moreover have "md_tests_pickle_files m = map (pickle_of m0) (map job_tds (jobs (md_seed m0) tc))"
    by (simp add: m)
  ultimately show ?thesis using t f n unfolding j by (simp add: comp_def)
qed

section \<open>Every run has a file of its own\<close>

lemma tds_str_inj: "tds_str t s = tds_str t' s' \<longleftrightarrow> t = t' \<and> s = s'"
proof
  assume "tds_str t s = tds_str t' s'"
  then have "rsplit1 (CHR ''.'') (t @ CHR ''.'' # str_int s) = rsplit1 (CHR ''.'') (t' @ CHR ''.'' # str_int s')"
    by (simp add: tds_str_def)
  then show "t = t' \<and> s = s'" by (simp add: rsplit1_append str_int_plain str_int_inj)
qed simp

lemma job_names_distinct:
  assumes "distinct (map (fst \<circ> fst) tc)"
  shows "distinct (map job_tds (jobs s tc))"
  using assms
proof (induction tc)
  case Nil
  then show ?case by (simp add: jobs_def)
next
  case (Cons x tc)
  obtain t c tt e where x: "x = ((t, c, tt), e)" by (metis surj_pair)
  have one: "map job_tds (jobs s [x]) = map (tds_str t) [s..s + c - 1]"
    by (simp add: jobs_def x job_tds_def comp_def)
  have "distinct (map (tds_str t) [s..s + c - 1])"
    by (simp add: distinct_map inj_on_def tds_str_inj)
  moreover have "tds_str t i \<notin> set (map job_tds (jobs s tc))" for i
    using Cons.prems by (force simp: x jobs_def job_tds_def tds_str_inj)
  ultimately show ?case using Cons.IH Cons.prems one jobs_append [of s "[x]" tc]
    by (auto simp del: jobs_append)
qed

lemma proper_pickle: "CHR ''/'' \<notin> set t \<Longrightarrow> proper (tds_str t s @ ''.pickle'')"
  by (auto simp: proper_def tds_str_def str_int_plain)

text \<open>
  When the selected tests have different names without slashes, no two runs share a
  metadata file: no result overwrites another.
\<close>
theorem run_files_distinct:
  assumes "create_metadata w dir_metadata dir_out args = Created ts (Inr m)"
    and "distinct (map fst (md_tests_and_counts m))"
    and "\<forall>(t, c, tt)\<in>set (md_tests_and_counts m). CHR ''/'' \<notin> set t"
  shows "distinct (map trr_pickle_file ts)"
proof -
  from create_metadata_ok [OF assms(1)] obtain m0 tc where p: "prepare w dir_metadata dir_out args = Inr (m0, tc)"
    and r: "create_runs w m0 (jobs (md_seed m0) tc) = (ts, Inr m)" .
  from create_runs_result [OF r] have f: "map trr_pickle_file ts = map (Some \<circ> pickle_of m0 \<circ> job_tds) (jobs (md_seed m0) tc)"
    and m: "md_tests_and_counts m = map fst tc" using prepare_Inr(3) [OF p] by simp_all
  have d: "distinct (map job_tds (jobs (md_seed m0) tc))"
    using assms(2) m by (intro job_names_distinct) (simp add: comp_def)
  have "proper (x @ ''.pickle'')" if "x \<in> set (map job_tds (jobs (md_seed m0) tc))" for x
  proof -
    from that obtain t c tt e s where "((t, c, tt), e) \<in> set tc" and x: "x = tds_str t s"
      by (auto simp: jobs_def job_tds_def)
    with assms(3) m have "CHR ''/'' \<notin> set t" by force
    with proper_pickle x show ?thesis by simp
  qed
  then have "inj_on (pickle_of m0) (set (map job_tds (jobs (md_seed m0) tc)))"
    by (intro inj_onI) (simp add: pickle_of_def path_div_proper_inj)
  with d have "distinct (map (pickle_of m0) (map job_tds (jobs (md_seed m0) tc)))"
    by (simp only: distinct_map)
  then show ?thesis unfolding f by (simp add: distinct_map inj_on_def)
qed

lemma demo_created:
  "case create_metadata demo_world ''/out/metadata'' (Some ''/out'') (args_text demo_args) of
     Created ts (Inr m) \<Rightarrow>
       map fst (md_tests_and_counts m) = [''riscv_arithmetic_basic_test'', ''empty''] \<and> length ts = 4
   | _ \<Rightarrow> False"
  by code_simp

lemma demo_create_ok:
  obtains ts m where
    "create_metadata demo_world ''/out/metadata'' (Some ''/out'') (args_text demo_args) = Created ts (Inr m)"
    "map fst (md_tests_and_counts m) = [''riscv_arithmetic_basic_test'', ''empty'']" "length ts = 4"
  using demo_created by (auto split: create_result.splits sum.splits)

theorem created_runs_match_witness:
  "\<exists>ts m. create_metadata demo_world ''/out/metadata'' (Some ''/out'') (args_text demo_args) = Created ts (Inr m)
     \<and> length ts = 4 \<and> map trr_testdotseed ts = map Some (tds_list m RISCVDV @ tds_list m DIRECTED)"
proof -
  obtain ts m where c: "create_metadata demo_world ''/out/metadata'' (Some ''/out'') (args_text demo_args) =
      Created ts (Inr m)" and n: "length ts = 4" by (rule demo_create_ok) blast
  from created_runs_match [OF c] c n show ?thesis by blast
qed

theorem run_files_distinct_witness:
  "\<exists>ts m. create_metadata demo_world ''/out/metadata'' (Some ''/out'') (args_text demo_args) = Created ts (Inr m)
     \<and> length ts = 4 \<and> distinct (map trr_pickle_file ts)"
proof -
  obtain ts m where c: "create_metadata demo_world ''/out/metadata'' (Some ''/out'') (args_text demo_args) =
      Created ts (Inr m)" and t: "map fst (md_tests_and_counts m) = [''riscv_arithmetic_basic_test'', ''empty'']"
    and n: "length ts = 4" by (rule demo_create_ok)
  have "list_all (\<lambda>n. CHR ''/'' \<notin> set n) (map fst (md_tests_and_counts m))" unfolding t by simp
  then have plain: "\<forall>x\<in>set (md_tests_and_counts m). CHR ''/'' \<notin> set (fst x)"
    by (simp add: list_all_iff)
  have dist: "distinct (map fst (md_tests_and_counts m))" unfolding t by simp
  have "distinct (map trr_pickle_file ts)"
    by (rule run_files_distinct [OF c dist]) (use plain in \<open>simp add: case_prod_unfold\<close>)
  with c n show ?thesis by blast
qed

end
