(* ===== verification/Metadata_Lock.thy ===== *)
theory Metadata_Lock
  imports Metadata
begin

text \<open>
  The class \<open>LockedMetadata\<close> of \<^verbatim>\<open>dv/uvm/core_ibex/scripts/metadata.py\<close>: scripts that run at the same
  time change one metadata file, each inside a \<open>with\<close> block that holds an exclusive lock.  A
  state is the content of the file, the owner of the lock and the place of every process; a step
  is one action of one process.  \<open>construct_from_metadata_dir\<close>, which most scripts use, reads the
  file without the lock.  \<open>upd p m\<close> is what the block of process \<open>p\<close> makes of the object that was
  loaded, also when it raises: \<open>__exit__\<close> exports the object in either case.
\<close>

section \<open>States and steps\<close>

text \<open>Opening a file for writing truncates it; the dump follows as an action of its own.\<close>

datatype content = Missing | Truncated | Saved regression_metadata

datatype phase =
    Idle
  | Waiting
  | Locked
  | Holding regression_metadata
  | Exiting regression_metadata
  | Dumping regression_metadata
  | Dumped
  | Finished
  | Failed exn

record lock_state =
  l_file :: content
  l_owner :: "nat option"
  l_phase :: "nat \<Rightarrow> phase"
  l_log :: "nat list"

definition goto :: "nat \<Rightarrow> phase \<Rightarrow> lock_state \<Rightarrow> lock_state" where
  "goto p ph s = s\<lparr>l_phase := (l_phase s)(p := ph)\<rparr>"

text \<open>The process ends, and with it its hold on the lock.\<close>

definition give_up :: "nat \<Rightarrow> exn \<Rightarrow> lock_state \<Rightarrow> lock_state" where
  "give_up p e s = (goto p (Failed e) s)\<lparr>l_owner := (if l_owner s = Some p then None else l_owner s)\<rparr>"

definition timed_out :: exn where
  "timed_out = OSError ''Couldn't open regression metadata file before we were timed out!''"

text \<open>
  \<open>__enter__\<close>: open the file, wait for the lock, load the object, all before the alarm rings;
  then the block; then \<open>__exit__\<close>: export the object and release the lock.  The ghost field \<open>l_log\<close>
  records the processes that exported, in order.
\<close>

inductive lock_step :: "(nat \<Rightarrow> regression_metadata \<Rightarrow> regression_metadata) \<Rightarrow> lock_state \<Rightarrow> lock_state \<Rightarrow> bool"
  for upd where
  open_file: "l_phase s p = Idle \<Longrightarrow> l_file s \<noteq> Missing \<Longrightarrow> lock_step upd s (goto p Waiting s)"
| open_missing: "l_phase s p = Idle \<Longrightarrow> l_file s = Missing \<Longrightarrow>
    lock_step upd s (give_up p (OSError ''No such file or directory'') s)"
| take_lock: "l_phase s p = Waiting \<Longrightarrow> l_owner s = None \<Longrightarrow>
    lock_step upd s ((goto p Locked s)\<lparr>l_owner := Some p\<rparr>)"
| alarm_rings: "l_phase s p \<in> {Waiting, Locked} \<Longrightarrow> lock_step upd s (give_up p timed_out s)"
| load_file: "l_phase s p = Locked \<Longrightarrow> l_file s = Saved m \<Longrightarrow> lock_step upd s (goto p (Holding m) s)"
| load_empty: "l_phase s p = Locked \<Longrightarrow> l_file s = Truncated \<Longrightarrow>
    lock_step upd s (give_up p (EOFError ''Ran out of input'') s)"
| run_block: "l_phase s p = Holding m \<Longrightarrow> lock_step upd s (goto p (Exiting (upd p m)) s)"
| open_write: "l_phase s p = Exiting m \<Longrightarrow>
    lock_step upd s ((goto p (Dumping m) s)\<lparr>l_file := Truncated\<rparr>)"
| dump_object: "l_phase s p = Dumping m \<Longrightarrow>
    lock_step upd s ((goto p Dumped s)\<lparr>l_file := Saved m, l_log := l_log s @ [p]\<rparr>)"
| unlock_file: "l_phase s p = Dumped \<Longrightarrow> lock_step upd s ((goto p Finished s)\<lparr>l_owner := None\<rparr>)"

inductive_cases lock_stepE: "lock_step upd s t"

definition lock_init :: "regression_metadata \<Rightarrow> lock_state" where
  "lock_init m = \<lparr>l_file = Saved m, l_owner = None, l_phase = (\<lambda>p. Idle), l_log = []\<rparr>"

text \<open>What a script without the lock makes of the file.\<close>

definition read_unlocked :: "lock_state \<Rightarrow> regression_metadata res" where
  "read_unlocked s =
     (case l_file s of
        Saved m \<Rightarrow> Inr m
      | Truncated \<Rightarrow> Inl (EOFError ''Ran out of input'')
      | Missing \<Rightarrow> Inl (OSError ''No such file or directory''))"

section \<open>No update is lost\<close>

text \<open>The object after the exports of the processes in the list.\<close>

definition serial :: "(nat \<Rightarrow> regression_metadata \<Rightarrow> regression_metadata) \<Rightarrow> regression_metadata \<Rightarrow> nat list
    \<Rightarrow> regression_metadata" where
  "serial upd m0 ps = foldl (\<lambda>m p. upd p m) m0 ps"

fun critical :: "phase \<Rightarrow> bool" where
  "critical Idle = False" | "critical Waiting = False" | "critical Finished = False"
| "critical (Failed e) = False" | "critical ph = True"

fun exported :: "phase \<Rightarrow> bool" where
  "exported Dumped = True" | "exported Finished = True" | "exported ph = False"

text \<open>What the owner of the lock knows of the file and of its own object.\<close>

fun phase_ok :: "(nat \<Rightarrow> regression_metadata \<Rightarrow> regression_metadata) \<Rightarrow> regression_metadata \<Rightarrow> nat
    \<Rightarrow> content \<Rightarrow> phase \<Rightarrow> bool" where
  "phase_ok upd m p f (Holding x) = (f = Saved m \<and> x = m)"
| "phase_ok upd m p f (Exiting x) = (f = Saved m \<and> x = upd p m)"
| "phase_ok upd m p f (Dumping x) = (f = Truncated \<and> x = upd p m)"
| "phase_ok upd m p f ph = (f = Saved m)"

definition lock_inv :: "(nat \<Rightarrow> regression_metadata \<Rightarrow> regression_metadata) \<Rightarrow> regression_metadata
    \<Rightarrow> lock_state \<Rightarrow> bool" where
  "lock_inv upd m0 s \<longleftrightarrow>
     (\<forall>p. critical (l_phase s p) \<longleftrightarrow> l_owner s = Some p)
   \<and> distinct (l_log s) \<and> (\<forall>p. p \<in> set (l_log s) \<longleftrightarrow> exported (l_phase s p))
   \<and> (case l_owner s of
        None \<Rightarrow> l_file s = Saved (serial upd m0 (l_log s))
      | Some p \<Rightarrow> phase_ok upd (serial upd m0 (l_log s)) p (l_file s) (l_phase s p))"

lemma serial_snoc [simp]: "serial upd m0 (ps @ [p]) = upd p (serial upd m0 ps)"
  by (simp add: serial_def)

lemma lock_inv_init: "lock_inv upd m0 (lock_init m0)"
  by (simp add: lock_inv_def lock_init_def serial_def)

lemma owner_phase:
  assumes "lock_inv upd m0 s" and "critical (l_phase s p)"
  shows "l_owner s = Some p" and "phase_ok upd (serial upd m0 (l_log s)) p (l_file s) (l_phase s p)"
  using assms by (auto simp: lock_inv_def)

lemma not_owner:
  "lock_inv upd m0 s \<Longrightarrow> \<not> critical (l_phase s p) \<Longrightarrow> l_owner s \<noteq> Some p"
  by (auto simp: lock_inv_def)

lemma lock_inv_step:
  assumes "lock_step upd s t" and "lock_inv upd m0 s"
  shows "lock_inv upd m0 t"
  using assms(1)
proof cases
  case (open_file p)
  then show ?thesis using assms(2) not_owner [OF assms(2), of p] by (auto simp: lock_inv_def goto_def split: option.splits)
next
  case (open_missing p)
  then show ?thesis using assms(2) not_owner [OF assms(2), of p] by (auto simp: lock_inv_def goto_def give_up_def split: option.splits)
next
  case (take_lock p)
  then show ?thesis using assms(2) by (auto simp: lock_inv_def goto_def)
next
  case (alarm_rings p)
  then show ?thesis using assms(2) by (auto simp: lock_inv_def goto_def give_up_def split: option.splits)
next
  case (load_file p m)
  then show ?thesis using assms(2) owner_phase [OF assms(2), of p] by (auto simp: lock_inv_def goto_def)
next
  case (load_empty p)
  then show ?thesis using owner_phase [OF assms(2), of p] by auto
next
  case (run_block p m)
  then show ?thesis using assms(2) owner_phase [OF assms(2), of p] by (auto simp: lock_inv_def goto_def)
next
  case (open_write p m)
  then show ?thesis using assms(2) owner_phase [OF assms(2), of p] by (auto simp: lock_inv_def goto_def)
next
  case (dump_object p m)
  then show ?thesis using assms(2) owner_phase [OF assms(2), of p] by (auto simp: lock_inv_def goto_def)
next
  case (unlock_file p)
  then show ?thesis using assms(2) owner_phase [OF assms(2), of p] by (auto simp: lock_inv_def goto_def)
qed

lemma lock_inv_reachable:
  assumes "(lock_step upd)\<^sup>*\<^sup>* (lock_init m0) s"
  shows "lock_inv upd m0 s"
  using assms by (induction rule: rtranclp_induct) (auto intro: lock_inv_init lock_inv_step)

text \<open>
  C12: However the scripts interleave, at most one is inside the lock; and whenever the lock is
  free, the file holds the object that the scripts that exported so far make of the initial one,
  one after the other, each counted once: no update is lost and none is applied to stale data.
\<close>
theorem updates_are_serial:
  assumes "(lock_step upd)\<^sup>*\<^sup>* (lock_init m0) s"
  shows "(critical (l_phase s p) \<and> critical (l_phase s q) \<longrightarrow> p = q)
       \<and> (l_owner s = None \<longrightarrow> l_file s = Saved (serial upd m0 (l_log s)))
       \<and> distinct (l_log s) \<and> (l_phase s p = Finished \<longrightarrow> p \<in> set (l_log s))"
  using lock_inv_reachable [OF assms] by (auto simp: lock_inv_def)

text \<open>A run of one script up to the point where it has opened the file for writing.\<close>

lemma lock_step_at: "lock_step upd s t \<Longrightarrow> t = u \<Longrightarrow> lock_step upd s u"
  by simp

definition writing :: "(nat \<Rightarrow> regression_metadata \<Rightarrow> regression_metadata) \<Rightarrow> regression_metadata \<Rightarrow> nat \<Rightarrow> lock_state" where
  "writing upd m0 p =
     \<lparr>l_file = Truncated, l_owner = Some p, l_phase = (\<lambda>q. if q = p then Dumping (upd p m0) else Idle), l_log = []\<rparr>"

lemma writing_reachable: "(lock_step upd)\<^sup>*\<^sup>* (lock_init m0) (writing upd m0 p)"
proof -
  let ?s = "\<lambda>ph own f. \<lparr>l_file = f, l_owner = own, l_phase = (\<lambda>q. if q = p then ph else Idle), l_log = []\<rparr>"
  note [trans] = rtranclp.rtrancl_into_rtrancl
  have "(lock_step upd)\<^sup>*\<^sup>* (lock_init m0) (lock_init m0)" by simp
  also have "lock_step upd (lock_init m0) (?s Waiting None (Saved m0))"
    by (rule lock_step_at [OF open_file [of _ p]]) (auto simp: lock_init_def goto_def)
  also have "lock_step upd \<dots> (?s Locked (Some p) (Saved m0))"
    by (rule lock_step_at [OF take_lock [of _ p]]) (auto simp: goto_def)
  also have "lock_step upd \<dots> (?s (Holding m0) (Some p) (Saved m0))"
    by (rule lock_step_at [OF load_file [of _ p]]) (auto simp: goto_def)
  also have "lock_step upd \<dots> (?s (Exiting (upd p m0)) (Some p) (Saved m0))"
    by (rule lock_step_at [OF run_block [of _ p m0]]) (auto simp: goto_def)
  also have "lock_step upd \<dots> (?s (Dumping (upd p m0)) (Some p) Truncated)"
    by (rule lock_step_at [OF open_write [of _ p "upd p m0"]]) (auto simp: goto_def)
  finally show ?thesis by (simp add: writing_def)
qed

text \<open>
  The lock protects only the scripts that take it: while one of them exports the object, a
  script that reads the metadata without the lock, as most do, finds the file truncated and
  fails to load it.
\<close>
theorem unlocked_reader_race:
  "\<exists>s. (lock_step upd)\<^sup>*\<^sup>* (lock_init m0) s \<and> l_owner s = Some p
     \<and> read_unlocked s = Inl (EOFError ''Ran out of input'')"
  using writing_reachable [of upd m0 p] by (intro exI [of _ "writing upd m0 p"]) (simp add: writing_def read_unlocked_def)

theorem updates_are_serial_witness:
  "l_file (lock_init (dummy_obj ''now'')) = Saved (dummy_obj ''now'')
     \<and> critical (l_phase (writing (\<lambda>p m. m) (dummy_obj ''now'') 3) 3)
     \<and> \<not> critical (l_phase (writing (\<lambda>p m. m) (dummy_obj ''now'') 3) 4)"
proof -
  have "l_file (lock_init (dummy_obj ''now'')) = Saved (dummy_obj ''now'')"
    using updates_are_serial [of "\<lambda>p m. m" "dummy_obj ''now''" "lock_init (dummy_obj ''now'')"]
    by (simp add: lock_init_def serial_def)
  moreover have crit: "critical (l_phase (writing (\<lambda>p m. m) (dummy_obj ''now'') 3) 3)"
    by (simp add: writing_def)
  moreover have "\<not> critical (l_phase (writing (\<lambda>p m. m) (dummy_obj ''now'') 3) 4)"
    using updates_are_serial [OF writing_reachable [of "\<lambda>p m. m" "dummy_obj ''now''" 3], of 3 4] crit by auto
  ultimately show ?thesis by blast
qed

end
