(* ===== verification/Gen_Testlist.thy ===== *)
theory Gen_Testlist
  imports Py_Values
begin

text \<open>
  \<^verbatim>\<open>dv/uvm/core_ibex/directed_tests/gen_testlist.py\<close>: writes the list of directed tests, the
  hand-written ones and one entry for every source file of the test suites asked for.  The
  commands run through the shell and the order in which a set of group names is iterated are
  parameters.  A text is the list of its lines: \<open>unlines\<close> ends each with a newline.
\<close>

section \<open>Text as lines\<close>

definition unlines :: "string list \<Rightarrow> string" where
  "unlines ls = concat (map (\<lambda>l. l @ newline) ls)"

lemma unlines_Nil [simp]: "unlines [] = []"
  by (simp add: unlines_def)

lemma unlines_append [simp]: "unlines (xs @ ys) = unlines xs @ unlines ys"
  by (simp add: unlines_def)

lemma split_unlines:
  "\<forall>l\<in>set ls. CHR 0x0A \<notin> set l \<Longrightarrow> split_on (CHR 0x0A) (unlines ls) = ls @ [[]]"
proof (induction ls)
  case Nil
  then show ?case by (simp add: unlines_def split_on_def)
next
  case (Cons l ls)
  then have "split_on (CHR 0x0A) (l @ CHR 0x0A # unlines ls) = l # split_on (CHR 0x0A) (unlines ls)"
    unfolding split_on_def by (intro split_by_append_sep) auto
  with Cons show ?case by (simp add: unlines_def newline_def)
qed

section \<open>Configurations and hand-written tests\<close>

definition header_lines :: "string list" where
  "header_lines =
     [''# Copyright lowRISC contributors.'',
      ''# Licensed under the Apache License, Version 2.0, see LICENSE for details.'',
      ''# SPDX-License-Identifier: Apache-2.0'',
      [],
      ''##########################################################'',
      [],
      ''# This file is generated by gen_testlist.py script and largely copies'',
      ''# the formatting of the testlist.yaml used by riscv-dv, but only specifies'',
      ''# directed tests.'',
      ''#'',
      ''# - All paths are relative to THIS FILE.'',
      ''# - Each 'test' can specify a config by name to re-use common configuration'',
      ''# - If a test redefines a key already in the config, the test option takes priority.'',
      [],
      ''##########################################################'',
      []]"

definition config_lines :: "string list" where
  "config_lines =
     [''- config: riscv-tests'',
      ''  ld_script: link.ld'',
      ''  includes: .'',
      ''  gcc_opts: -static -mcmodel=medany -fvisibility=hidden -nostdlib -nostartfiles'',
      ''            -I../../../vendor/riscv-test-env/'',
      ''            -I../../../vendor/riscv-test-env/p/'',
      ''            -I../../../vendor/riscv-tests/isa/macros/scalar/'',
      ''  rtl_test: core_ibex_base_test'',
      ''  rtl_params:'',
      ''    PMPEnable: 1'',
      ''  timeout_s: 300'',
      [],
      ''- config: riscv-arch-tests'',
      ''  ld_script: link.ld'',
      ''  includes: .'',
      ''  gcc_opts: -static -mcmodel=medany -fvisibility=hidden -nostdlib -nostartfiles'',
      ''            -I../../../vendor/riscv-arch-tests/riscv-test-suite/env/'',
      ''            -I../../../vendor/riscv-isa-sim/arch_test_target/spike/'',
      ''  rtl_test: core_ibex_base_test'',
      ''  rtl_params:'',
      ''    PMPEnable: 1'',
      ''  timeout_s: 300'',
      [],
      ''- config: epmp-tests'',
      ''  ld_script: ../../../../vendor/riscv-isa-sim/tests/mseccfg/mseccfg_test.ld'',
      ''  includes: .'',
      ''  gcc_opts: -march=rv32imc -O2 -I . -I ./. -I ../softfloat -I ../riscv -fno-builtin-printf'',
      ''            -fdata-sections -fno-section-anchors -DPRINTF_SUPPORTED=1'',
      ''            ../../../vendor/riscv-isa-sim/tests/mseccfg/crt.S'',
      ''            ../../../vendor/riscv-isa-sim/tests/mseccfg/syscalls.c'',
      ''            -mcmodel=medany -static -nostdlib -nostartfiles -lm -lgcc'',
      ''            -Wl,-M -Wl,-Map=link.log'',
      ''  rtl_test: core_ibex_base_test'',
      ''  rtl_params:'',
      ''    PMPEnable: 1'',
      ''  timeout_s: 300'']"

text \<open>A test built from its own source file.\<close>

definition plain_test :: "string \<Rightarrow> string \<Rightarrow> string list" where
  "plain_test name desc =
     [''- test: '' @ name, ''  desc: >'', ''    '' @ desc, ''  iterations: 1'',
      ''  test_srcs: '' @ name @ ''/'' @ name @ ''.S'', ''  config: riscv-tests'']"

text \<open>A variant of the PMP test, by the suffix of its name and its preprocessor options.\<close>

definition pmp_test :: "string \<times> string \<Rightarrow> string list" where
  "pmp_test v =
     [''- test: pmp_mseccfg_test_'' @ fst v, ''  desc: >'', ''    mseccfg test'', ''  iterations: 1'',
      ''  test_srcs: pmp_mseccfg_test/pmp_mseccfg_test.S'', ''  config: riscv-tests'',
      ''  gcc_opts: -static -mcmodel=medany -fvisibility=hidden -nostdlib -nostartfiles'',
      ''            -I../../../vendor/riscv-test-env/'',
      ''            -I../../../vendor/riscv-test-env/p/'',
      ''            -I../../../vendor/riscv-tests/isa/macros/scalar/'',
      ''            '' @ snd v, []]"

definition pmp_u0 :: "(string \<times> string) list" where
  "pmp_u0 =
     [(''rlb1_l0_0_u0'', ''-DPMP_REGION=4 -DRLB -DSET_PMP_L=0 -DSET_PMP_L_PREV=0''),
      (''rlb1_l0_1_u0'', ''-DPMP_REGION=4 -DRLB -DSET_PMP_L=1 -DSET_PMP_L_PREV=0''),
      (''rlb1_l1_0_u0'', ''-DPMP_REGION=4 -DRLB -DSET_PMP_L=0 -DSET_PMP_L_PREV=1''),
      (''rlb1_l1_1_u0'', ''-DPMP_REGION=4 -DRLB -DSET_PMP_L=1 -DSET_PMP_L_PREV=1''),
      (''rlb0_l0_0_u0'', ''-DPMP_REGION=4 -DSET_PMP_L=0 -DSET_PMP_L_PREV=0''),
      (''rlb0_l0_1_next_l1_u0'', ''-DSET_PMP_L=1 -DSET_PMP_L_PREV=0 -DPMP_NEXT_L1''),
      (''rlb0_l0_1_next_l1_r1_u0'', ''-DSET_PMP_L=1 -DSET_PMP_L_PREV=0 -DPMP_NEXT_L1_R1''),
      (''rlb0_l0_1_next_l1_w1_u0'', ''-DSET_PMP_L=1 -DSET_PMP_L_PREV=0 -DPMP_NEXT_L1_W1''),
      (''rlb0_l0_1_next_l1_x1_u0'', ''-DSET_PMP_L=1 -DSET_PMP_L_PREV=0 -DPMP_NEXT_L1_X1''),
      (''rlb0_l0_1_next_l1_r1_w1_u0'', ''-DSET_PMP_L=1 -DSET_PMP_L_PREV=0 -DPMP_NEXT_L1_R1_W1''),
      (''rlb0_l0_1_next_l1_r1_x1_u0'', ''-DSET_PMP_L=1 -DSET_PMP_L_PREV=0 -DPMP_NEXT_L1_R1_X1''),
      (''rlb0_l0_1_next_l1_w1_x1_u0'', ''-DSET_PMP_L=1 -DSET_PMP_L_PREV=0 -DPMP_NEXT_L1_W1_X1''),
      (''rlb0_l0_1_next_l1_r1_w1_x1_u0'', ''-DSET_PMP_L=1 -DSET_PMP_L_PREV=0 -DPMP_NEXT_L1_R1_W1_X1'')]"

definition pmp_u1 :: "(string \<times> string) list" where
  "pmp_u1 =
     [(''rlb1_l0_0_u1'', ''-DPMP_REGION=4 -DRLB -DSET_PMP_L=0 -DSET_PMP_L_PREV=0 -DU_MODE''),
      (''rlb1_l0_1_u1'', ''-DPMP_REGION=4 -DRLB -DSET_PMP_L=1 -DSET_PMP_L_PREV=0 -DU_MODE''),
      (''rlb1_l1_0_u1'', ''-DPMP_REGION=4 -DRLB -DSET_PMP_L=0 -DSET_PMP_L_PREV=1 -DU_MODE''),
      (''rlb1_l1_1_u1'', ''-DPMP_REGION=4 -DRLB -DSET_PMP_L=1 -DSET_PMP_L_PREV=1 -DU_MODE''),
      (''rlb0_l0_0_u1'', ''-DPMP_REGION=4 -DSET_PMP_L=0 -DSET_PMP_L_PREV=0 -DU_MODE''),
      (''rlb0_l0_1_next_l1_u1'', ''-DSET_PMP_L=1 -DSET_PMP_L_PREV=0 -DPMP_NEXT_L1 -DU_MODE''),
      (''rlb0_l0_1_next_l1_r1_u1'', ''-DSET_PMP_L=1 -DSET_PMP_L_PREV=0 -DPMP_NEXT_L1_R1 -DU_MODE''),
      (''rlb0_l0_1_next_l1_w1_u1'', ''-DSET_PMP_L=1 -DSET_PMP_L_PREV=0 -DPMP_NEXT_L1_W1 -DU_MODE''),
      (''rlb0_l0_1_next_l1_x1_u1'', ''-DSET_PMP_L=1 -DSET_PMP_L_PREV=0 -DPMP_NEXT_L1_X1 -DU_MODE''),
      (''rlb0_l0_1_next_l1_r1_w1_u1'', ''-DSET_PMP_L=1 -DSET_PMP_L_PREV=0 -DPMP_NEXT_L1_R1_W1 -DU_MODE''),
      (''rlb0_l0_1_next_l1_r1_x1_u1'', ''-DSET_PMP_L=1 -DSET_PMP_L_PREV=0 -DPMP_NEXT_L1_R1_X1 -DU_MODE''),
      (''rlb0_l0_1_next_l1_w1_x1_u1'', ''-DSET_PMP_L=1 -DSET_PMP_L_PREV=0 -DPMP_NEXT_L1_W1_X1 -DU_MODE''),
      (''rlb0_l0_1_next_l1_r1_w1_x1_u1'', ''-DSET_PMP_L=1 -DSET_PMP_L_PREV=0 -DPMP_NEXT_L1_R1_W1_X1 -DU_MODE'')]"

definition handwritten_lines :: "string list" where
  "handwritten_lines =
     [[], ''# Custom directed tests'', []]
     @ plain_test ''empty'' ''Empty directed test'' @ [[]]
     @ concat (map pmp_test (pmp_u0 @ pmp_u1))
     @ plain_test ''access_pmp_overlap'' ''PMP access basic test'' @ [[]]
     @ plain_test ''u_mode_exec_test'' ''PMP U mode exec test''"

definition add_configs_and_handwritten_directed_tests :: "string \<Rightarrow> string" where
  "add_configs_and_handwritten_directed_tests file =
     file @ unlines (header_lines @ config_lines @ handwritten_lines)"

section \<open>Test suites\<close>

text \<open>\<open>s.split(sep)[0]\<close>\<close>

definition before_sub :: "string \<Rightarrow> string \<Rightarrow> string" where
  "before_sub sep s = (case find_sub sep s of None \<Rightarrow> s | Some i \<Rightarrow> take i s)"

definition extension :: "bool \<Rightarrow> string" where
  "extension is_assembly = (if is_assembly then ''.S'' else ''.c'')"

definition extension_grep :: "bool \<Rightarrow> string" where
  "extension_grep is_assembly = (if is_assembly then '' | egrep .S'' else '' | egrep .c'')"

definition list_files :: "(string \<Rightarrow> string) \<Rightarrow> string \<Rightarrow> string list" where
  "list_files popen cmd = butlast (split_on (CHR 0x0A) (popen cmd))"

definition suite_test :: "string \<Rightarrow> string \<Rightarrow> string \<Rightarrow> string \<Rightarrow> string \<Rightarrow> string list" where
  "suite_test test_suite config ext grp test_name =
     [[], ''- test: '' @ test_name, ''  desc: >'', ''    riscv test - '' @ test_name, ''  iterations: 1'',
      ''  test_srcs: '' @ test_suite @ grp @ ''/'' @ test_name @ ext, ''  config: '' @ config]"

definition group_files :: "(string \<Rightarrow> string) \<Rightarrow> string \<Rightarrow> bool \<Rightarrow> string \<Rightarrow> string list" where
  "group_files popen test_suite is_assembly grp =
     list_files popen (''ls '' @ test_suite @ grp @ extension_grep is_assembly)"

definition suite_lines :: "(string \<Rightarrow> string) \<Rightarrow> string list \<Rightarrow> string \<Rightarrow> string \<Rightarrow> bool \<Rightarrow> string list" where
  "suite_lines popen tests test_suite name is_assembly =
     [[], ''# Test-suite: '' @ name]
     @ concat (map (\<lambda>grp. concat (map (\<lambda>f. suite_test test_suite name (extension is_assembly) grp
           (before_sub (extension is_assembly) f))
         (group_files popen test_suite is_assembly grp))) tests)"

definition append_directed_testlist :: "(string \<Rightarrow> string) \<Rightarrow> string list \<Rightarrow> string \<Rightarrow> string \<Rightarrow> bool
    \<Rightarrow> string \<Rightarrow> string" where
  "append_directed_testlist popen tests test_suite name is_assembly file =
     file @ unlines (suite_lines popen tests test_suite name is_assembly)"

text \<open>\<open>list_tests\<close>: the list, and the lists it prints on the way.\<close>

definition list_tests :: "(string \<Rightarrow> string) \<Rightarrow> string \<Rightarrow> string list \<times> string list list" where
  "list_tests popen dir =
     (let testlist = list_files popen (''ls '' @ dir)
      in (testlist, map (\<lambda>i. take (Suc i) testlist) [0..<length testlist]))"

section \<open>The program\<close>

definition isa_tests :: "string list" where
  "isa_tests = [''rv32mi'', ''rv32uc'', ''rv32ui'', ''rv32um'']"

definition arch_tests :: "string list" where
  "arch_tests = [''rv32i_m/B/src'', ''rv32i_m/C/src'', ''rv32i_m/I/src'', ''rv32i_m/M/src'',
                 ''rv32i_m/Zifencei/src'']"

text \<open>
  \<open>order\<close> is the iteration order of a set, \<open>old\<close> the previous content of the file, which must
  exist; the result is its new content (the exit status is 0).
\<close>

definition gen_testlist_main :: "(string \<Rightarrow> string) \<Rightarrow> (string list \<Rightarrow> string list) \<Rightarrow> string option \<Rightarrow> string
    \<Rightarrow> string res" where
  "gen_testlist_main popen order old test_suite =
     (let test_suite_list = split_on (CHR '','') test_suite;
          wanted = (\<lambda>s. s \<in> set test_suite_list \<or> test_suite = ''all'')
      in case old of
        None \<Rightarrow> Inl (OSError ''directed_testlist.yaml'')
      | Some _ \<Rightarrow>
          let file = add_configs_and_handwritten_directed_tests [];
              file = (if wanted ''riscv-tests''
                then append_directed_testlist popen (order isa_tests)
                       ''../../../../vendor/riscv-tests/isa/'' ''riscv-tests'' True file else file);
              file = (if wanted ''riscv-arch-tests''
                then append_directed_testlist popen (order arch_tests)
                       ''../../../../vendor/riscv-arch-tests/riscv-test-suite/'' ''riscv-arch-tests'' True file
                else file);
              file = (if wanted ''epmp-tests''
                then append_directed_testlist popen (order [''outputs''])
                       ''../../../../vendor/riscv-isa-sim/tests/mseccfg/gengen_src/'' ''epmp-tests'' False file
                else file)
          in Inr file)"

section \<open>The generated list\<close>

definition plain_line :: "string \<Rightarrow> bool" where
  "plain_line l \<longleftrightarrow> CHR 0x0A \<notin> set l"

definition fixed_lines :: "string list" where
  "fixed_lines = header_lines @ config_lines @ handwritten_lines"

lemma fixed_plain: "list_all plain_line fixed_lines"
  by code_simp

lemma list_files_plain: "f \<in> set (list_files popen cmd) \<Longrightarrow> plain_line f"
  using split_on_pieces by (auto simp: list_files_def plain_line_def dest!: in_set_butlastD)

lemma before_sub_subset: "set (before_sub sep s) \<subseteq> set s"
  by (auto simp: before_sub_def dest: in_set_takeD split: option.splits)

lemma suite_test_plain:
  "plain_line suite \<Longrightarrow> plain_line config \<Longrightarrow> plain_line ext \<Longrightarrow> plain_line g \<Longrightarrow> plain_line n \<Longrightarrow>
     l \<in> set (suite_test suite config ext g n) \<Longrightarrow> plain_line l"
  by (auto simp: suite_test_def plain_line_def)

lemma suite_lines_cases:
  assumes "l \<in> set (suite_lines popen groups suite name asm)"
  obtains "l = []" | "l = ''# Test-suite: '' @ name"
  | g f where "g \<in> set groups" "f \<in> set (group_files popen suite asm g)"
      "l \<in> set (suite_test suite name (extension asm) g (before_sub (extension asm) f))"
  using assms unfolding suite_lines_def
  by (auto simp only: set_append set_concat set_map list.set Un_iff UN_iff insert_iff empty_iff)

lemma suite_lines_plain:
  assumes "plain_line suite" "plain_line name" "\<forall>g\<in>set groups. plain_line g"
    and "l \<in> set (suite_lines popen groups suite name asm)"
  shows "plain_line l"
  using assms(4)
proof (cases rule: suite_lines_cases)
  case (3 g f)
  have "plain_line f" using 3(2) list_files_plain unfolding group_files_def by blast
  then have "plain_line (before_sub (extension asm) f)"
    using before_sub_subset unfolding plain_line_def by blast
  moreover have "plain_line (extension asm)" by (simp add: plain_line_def extension_def)
  ultimately show ?thesis using suite_test_plain assms(1-3) 3(1,3) by blast
qed (use assms(2) in \<open>simp_all add: plain_line_def\<close>)

text \<open>The configuration that a line of a test names, and the lines that declare it.\<close>

definition names_config :: "string \<Rightarrow> bool" where
  "names_config l \<longleftrightarrow> starts_with ''  config: '' l"

definition declares :: "string list \<Rightarrow> string \<Rightarrow> bool" where
  "declares ls l \<longleftrightarrow> ''- config: '' @ drop 10 l \<in> set ls"

lemma fixed_configs: "set (filter names_config fixed_lines) = {''  config: riscv-tests''}"
  by code_simp

lemma riscv_tests_declared: "''- config: riscv-tests'' \<in> set fixed_lines"
  by code_simp

lemma fixed_declares:
  assumes "l \<in> set fixed_lines" and "names_config l"
  shows "declares fixed_lines l"
proof -
  from assms have "l \<in> set (filter names_config fixed_lines)" by simp
  then have "l = ''  config: riscv-tests''" unfolding fixed_configs by blast
  then show ?thesis using riscv_tests_declared by (simp add: declares_def)
qed

lemma suite_test_config:
  "l \<in> set (suite_test suite config ext g n) \<Longrightarrow> names_config l \<Longrightarrow> l = ''  config: '' @ config"
  unfolding suite_test_def names_config_def starts_with_def
  by (simp, elim disjE; simp)

lemma suite_declares:
  assumes "''- config: '' @ name \<in> set fixed_lines" and "l \<in> set (suite_lines popen groups suite name asm)"
    and "names_config l"
  shows "declares fixed_lines l"
  using assms(2)
proof (cases rule: suite_lines_cases)
  case (3 g f)
  from suite_test_config [OF 3(3) assms(3)] assms(1) show ?thesis by (simp add: declares_def)
qed (use assms(3) in \<open>simp_all add: names_config_def starts_with_def\<close>)

text \<open>The file as its lines: the fixed part and the suites asked for.\<close>

definition suites :: "(string list \<times> string \<times> string \<times> bool) list" where
  "suites =
     [(isa_tests, ''../../../../vendor/riscv-tests/isa/'', ''riscv-tests'', True),
      (arch_tests, ''../../../../vendor/riscv-arch-tests/riscv-test-suite/'', ''riscv-arch-tests'', True),
      ([''outputs''], ''../../../../vendor/riscv-isa-sim/tests/mseccfg/gengen_src/'', ''epmp-tests'', False)]"

definition wanted_suites :: "string \<Rightarrow> (string list \<times> string \<times> string \<times> bool) list" where
  "wanted_suites arg = filter (\<lambda>(groups, suite, name, asm).
     name \<in> set (split_on (CHR '','') arg) \<or> arg = ''all'') suites"

definition all_lines :: "(string \<Rightarrow> string) \<Rightarrow> (string list \<Rightarrow> string list) \<Rightarrow> string \<Rightarrow> string list" where
  "all_lines popen order arg =
     fixed_lines @ concat (map (\<lambda>(groups, suite, name, asm). suite_lines popen (order groups) suite name asm)
       (wanted_suites arg))"

lemma main_lines: "gen_testlist_main popen order (Some old) arg = Inr (unlines (all_lines popen order arg))"
  by (simp add: gen_testlist_main_def Let_def add_configs_and_handwritten_directed_tests_def
      append_directed_testlist_def all_lines_def wanted_suites_def suites_def fixed_lines_def)

lemma suites_ok: "list_all (\<lambda>(groups, suite, name, asm). plain_line suite \<and> plain_line name
    \<and> list_all plain_line groups \<and> ''- config: '' @ name \<in> set fixed_lines) suites"
  by code_simp

lemma wanted_ok:
  assumes "x \<in> set (wanted_suites arg)" and "\<And>xs. set (order xs) \<subseteq> set xs" and "x = (groups, suite, name, asm)"
  shows "plain_line suite" "plain_line name" "\<forall>g\<in>set (order groups). plain_line g"
    "''- config: '' @ name \<in> set fixed_lines"
  using assms suites_ok by (fastforce simp: wanted_suites_def list_all_iff)+

lemma all_lines_cases:
  assumes "l \<in> set (all_lines popen order arg)"
  obtains "l \<in> set fixed_lines"
  | groups suite name asm where "(groups, suite, name, asm) \<in> set (wanted_suites arg)"
      "l \<in> set (suite_lines popen (order groups) suite name asm)"
  using assms unfolding all_lines_def by auto

lemma all_lines_plain:
  assumes "\<And>xs. set (order xs) \<subseteq> set xs"
  shows "\<forall>l\<in>set (all_lines popen order arg). CHR 0x0A \<notin> set l"
proof
  fix l assume "l \<in> set (all_lines popen order arg)"
  then have "plain_line l"
  proof (cases rule: all_lines_cases)
    case 1
    with fixed_plain show ?thesis by (simp only: list_all_iff)
  next
    case (2 groups suite name asm)
    note ok = wanted_ok [OF 2(1) assms refl]
    from suite_lines_plain [OF ok(1-3) 2(2)] show ?thesis .
  qed
  then show "CHR 0x0A \<notin> set l" unfolding plain_line_def .
qed

text \<open>
  C34: Whatever the directories hold, whichever suites are asked for and in whatever order their
  groups are visited, every configuration that a test of the generated file names is declared in
  that file: the import of the list never fails for want of a configuration.
\<close>
theorem configs_declared:
  assumes "\<And>xs. set (order xs) \<subseteq> set xs"
    and "gen_testlist_main popen order (Some old) arg = Inr text"
    and "l \<in> set (split_on (CHR 0x0A) text)" and "names_config l"
  shows "declares (split_on (CHR 0x0A) text) l"
proof -
  have ls: "split_on (CHR 0x0A) text = all_lines popen order arg @ [[]]"
    using assms(2) split_unlines [OF all_lines_plain [OF assms(1)]] by (auto simp: main_lines)
  have "\<not> names_config []" by (simp add: names_config_def starts_with_def)
  with assms(3,4) ls have "l \<in> set (all_lines popen order arg)" by auto
  then have "declares fixed_lines l"
  proof (cases rule: all_lines_cases)
    case 1
    then show ?thesis using assms(4) by (rule fixed_declares)
  next
    case (2 groups suite name asm)
    from suite_declares [OF wanted_ok(4) [OF 2(1) assms(1) refl] 2(2) assms(4)] show ?thesis .
  qed
  then show ?thesis by (simp add: ls declares_def all_lines_def)
qed

definition demo_popen :: "string \<Rightarrow> string" where
  "demo_popen cmd = unlines [''add.S'', ''sub.S'']"

theorem configs_declared_witness:
  "\<exists>text. gen_testlist_main demo_popen (\<lambda>xs. xs) (Some []) ''all'' = Inr text
     \<and> declares (split_on (CHR 0x0A) text) ''  config: riscv-tests''"
proof -
  let ?text = "unlines (all_lines demo_popen (\<lambda>xs. xs) ''all'')"
  have main: "gen_testlist_main demo_popen (\<lambda>xs. xs) (Some []) ''all'' = Inr ?text" by (rule main_lines)
  have "split_on (CHR 0x0A) ?text = all_lines demo_popen (\<lambda>xs. xs) ''all'' @ [[]]"
    by (rule split_unlines [OF all_lines_plain]) simp
  moreover have "''  config: riscv-tests'' \<in> set fixed_lines"
  proof -
    have "''  config: riscv-tests'' \<in> set (filter names_config fixed_lines)" unfolding fixed_configs by (rule insertI1)
    then show ?thesis unfolding set_filter by blast
  qed
  ultimately have "''  config: riscv-tests'' \<in> set (split_on (CHR 0x0A) ?text)"
    unfolding all_lines_def by (simp only: set_append Un_iff simp_thms)
  moreover have "names_config ''  config: riscv-tests''" by (simp add: names_config_def starts_with_def)
  ultimately have "declares (split_on (CHR 0x0A) ?text) ''  config: riscv-tests''"
    by (rule configs_declared [OF subset_refl main])
  with main show ?thesis by blast
qed

section \<open>Every listed source is built\<close>

lemma find_sub_end:
  assumes "\<not> py_in [x, y] stem" and "x \<noteq> y"
  shows "find_sub [x, y] (stem @ [x, y]) = Some (length stem)"
  using assms(1)
proof (induction stem)
  case Nil
  then show ?case by (simp add: starts_with_def)
next
  case (Cons c stem)
  then have "\<not> py_in [x, y] stem" and "\<not> starts_with [x, y] (c # stem)"
    by (auto simp: py_in_def split: if_splits)
  moreover from this(2) have "\<not> starts_with [x, y] (c # stem @ [x, y])"
    using assms(2) by (cases stem) (auto simp: starts_with_def)
  ultimately show ?case using Cons.IH by simp
qed

lemma before_extension:
  "\<not> py_in (extension asm) stem \<Longrightarrow> before_sub (extension asm) (stem @ extension asm) = stem"
  using find_sub_end [of _ _ stem] by (auto simp: extension_def before_sub_def)

lemma filter_concat_map:
  "(\<And>x. x \<in> set xs \<Longrightarrow> filter P (F x) = G x) \<Longrightarrow> filter P (concat (map F xs)) = concat (map G xs)"
  by (induction xs) auto

text \<open>
  When the listing of a group holds source files only, with the extension at the end of the
  name and nowhere else, the suite gets exactly one test per listed file, in the order of the
  listing, whose source is that file.
\<close>
theorem suite_sources:
  assumes "\<forall>g\<in>set groups. \<forall>f\<in>set (group_files popen suite asm g).
             \<exists>stem. f = stem @ extension asm \<and> \<not> py_in (extension asm) stem"
  shows "filter (starts_with ''  test_srcs: '') (suite_lines popen groups suite name asm) =
    concat (map (\<lambda>g. map (\<lambda>f. ''  test_srcs: '' @ suite @ g @ ''/'' @ f) (group_files popen suite asm g)) groups)"
proof -
  have one: "filter (starts_with ''  test_srcs: '') (suite_test suite name ext g n) =
      [''  test_srcs: '' @ suite @ g @ ''/'' @ n @ ext]" for ext g n
    by (simp add: suite_test_def starts_with_def)
  have same: "before_sub (extension asm) f @ extension asm = f"
    if "g \<in> set groups" "f \<in> set (group_files popen suite asm g)" for g f
    using assms that before_extension by fastforce
  have "filter (starts_with ''  test_srcs: '') (concat (map (\<lambda>f. suite_test suite name (extension asm) g
          (before_sub (extension asm) f)) (group_files popen suite asm g)))
      = concat (map (\<lambda>f. [''  test_srcs: '' @ suite @ g @ ''/'' @ f]) (group_files popen suite asm g))"
    if "g \<in> set groups" for g
    by (rule filter_concat_map) (simp only: one same [OF that])
  then have "filter (starts_with ''  test_srcs: '') (concat (map (\<lambda>g. concat (map (\<lambda>f.
        suite_test suite name (extension asm) g (before_sub (extension asm) f)) (group_files popen suite asm g))) groups))
      = concat (map (\<lambda>g. map (\<lambda>f. ''  test_srcs: '' @ suite @ g @ ''/'' @ f) (group_files popen suite asm g)) groups)"
    by (intro filter_concat_map) (simp only: concat_map_singleton)
  moreover have "filter (starts_with ''  test_srcs: '') [[], ''# Test-suite: '' @ name] = []"
    by (simp add: starts_with_def)
  ultimately show ?thesis by (simp only: suite_lines_def filter_append append_Nil)
qed

theorem suite_sources_witness:
  "filter (starts_with ''  test_srcs: '') (suite_lines demo_popen [''rv32ui''] ''isa/'' ''riscv-tests'' True)
     = [''  test_srcs: isa/rv32ui/add.S'', ''  test_srcs: isa/rv32ui/sub.S'']"
proof -
  have files: "group_files demo_popen ''isa/'' True g = [''add.S'', ''sub.S'']" for g
    by (simp add: group_files_def list_files_def split_on_def newline_def demo_popen_def unlines_def)
  have "\<exists>stem. ''add.S'' = stem @ extension True \<and> \<not> py_in (extension True) stem"
    by (rule exI [of _ "''add''"]) code_simp
  moreover have "\<exists>stem. ''sub.S'' = stem @ extension True \<and> \<not> py_in (extension True) stem"
    by (rule exI [of _ "''sub''"]) code_simp
  ultimately have "\<forall>g\<in>set [''rv32ui'']. \<forall>f\<in>set (group_files demo_popen ''isa/'' True g).
      \<exists>stem. f = stem @ extension True \<and> \<not> py_in (extension True) stem"
    unfolding files by simp
  from suite_sources [OF this, of "''riscv-tests''"] show ?thesis by (simp add: files)
qed

text \<open>
  The option that the help text gives as its example, \<open>epmp_tests\<close>, selects nothing: the
  program compares with \<open>epmp-tests\<close> and does not report an unknown suite.
\<close>
theorem help_example_ignored:
  "gen_testlist_main popen order (Some old) ''riscv-tests,epmp_tests'' =
   gen_testlist_main popen order (Some old) ''riscv-tests''"
proof -
  have "wanted_suites ''riscv-tests,epmp_tests'' = wanted_suites ''riscv-tests''" by code_simp
  then show ?thesis by (simp add: main_lines all_lines_def)
qed

text \<open>A file that the shell lists but that has no such extension: its test names a source that was not listed.\<close>

lemma unlisted_source:
  "\<not> py_in (extension asm) f \<Longrightarrow>
     ''  test_srcs: '' @ suite @ g @ ''/'' @ f @ extension asm
       \<in> set (suite_test suite name (extension asm) g (before_sub (extension asm) f))"
  by (simp add: suite_test_def before_sub_def py_in_def)

end
