(* ===== verification/Sv2v.thy ===== *)
theory Sv2v
  imports Shlex Py_Values
begin

text \<open>
  \<^verbatim>\<open>util/sv2v_in_place.py\<close>: runs the SystemVerilog converter on a list of files and replaces each
  by its output.  The file system is a map from paths to contents; running the converter is a
  parameter, given the files and the command.  The conversions write to a temporary directory
  and the results are copied back at the end.
\<close>

section \<open>Files and processes\<close>

type_synonym fs = "string \<rightharpoonup> string"

datatype run_result = CannotRun string | Ran string int

text \<open>The lines of a text file, without their newlines.\<close>

definition file_lines :: "string \<Rightarrow> string list" where
  "file_lines s =
     (let ls = split_on (CHR 0x0A) s in if last ls = [] then butlast ls else ls)"

definition read_file_list :: "fs \<Rightarrow> string \<Rightarrow> string list res" where
  "read_file_list fs path =
     (case fs path of None \<Rightarrow> Inl (OSError path) | Some s \<Rightarrow> Inr (map py_strip (file_lines s)))"

text \<open>\<open>os.path.splitext(path)[1]\<close>: leading dots of the file name start no extension.\<close>

definition splitext_ext :: "string \<Rightarrow> string" where
  "splitext_ext path =
     (let base = dropWhile (\<lambda>c. c = CHR ''.'') (last (split_on (CHR ''/'') path))
      in case rfind_char (CHR ''.'') base of None \<Rightarrow> [] | Some i \<Rightarrow> drop i base)"

section \<open>The conversion\<close>

text \<open>A \<open>--define-if\<close> argument: the search function of the compiled regular expression, and the define.\<close>

type_synonym define_if = "(string \<Rightarrow> bool) \<times> string"

definition parse_define_if :: "(string \<Rightarrow> string + (string \<Rightarrow> bool)) \<Rightarrow> string \<Rightarrow> define_if res" where
  "parse_define_if re_compile arg =
     (case rsplit1 (CHR '':'') arg of
        [re_str, define] \<Rightarrow>
          (case re_compile re_str of
             Inr search \<Rightarrow> Inr (search, define)
           | Inl err \<Rightarrow> Inl (ArgumentTypeError (''The regex for the --define-if '' @ ''argument (''
                          @ repr_str re_str @ '') is malformed: '' @ err @ ''.'')))
      | _ \<Rightarrow> Inl (ArgumentTypeError (''The --define-if argument '' @ repr_str arg
               @ '' contains no colon. The correct '' @ ''syntax is '' @ [CHR 0x22]
               @ ''--define-if regex:define'' @ [CHR 0x22] @ ''.'')))"

definition sv2v_cmd :: "string \<Rightarrow> string list \<Rightarrow> string list \<Rightarrow> string list \<Rightarrow> string \<Rightarrow> string list" where
  "sv2v_cmd sv2v defines incdirs pkg_paths sv_path =
     [sv2v, ''--exclude=assert''] @ map (\<lambda>d. ''--define='' @ d) defines
     @ map (\<lambda>d. ''--incdir='' @ d) incdirs
     @ (pkg_paths @ (if sv_path \<in> set pkg_paths then [] else [sv_path]))"

text \<open>The result is the content of the destination file.\<close>

definition transform_one :: "(fs \<Rightarrow> string list \<Rightarrow> run_result) \<Rightarrow> fs \<Rightarrow> string \<Rightarrow> string list
    \<Rightarrow> string list \<Rightarrow> string list \<Rightarrow> string \<Rightarrow> string res" where
  "transform_one run fs sv2v defines incdirs pkg_paths sv_path =
     (let cmd = sv2v_cmd sv2v defines incdirs pkg_paths sv_path
      in case run fs cmd of
        CannotRun e \<Rightarrow> Inl (OSError e)
      | Ran out returncode \<Rightarrow>
          if returncode \<noteq> 0
          then Inl (RuntimeError (''Failed to run sv2v on '' @ sv_path @ ''. '' @ ''Exit code: ''
                 @ str_int returncode @ ''. Full command: '' @ py_join '' '' (map shlex_quote cmd)))
          else Inr out)"

definition file_defines :: "define_if list \<Rightarrow> string \<Rightarrow> string list" where
  "file_defines defines_if src_path = map snd (filter (\<lambda>(search, d). search src_path) defines_if)"

definition copy_back :: "fs \<Rightarrow> (string \<times> string) list \<Rightarrow> fs" where
  "copy_back fs outs = foldl (\<lambda>fs (path, out). fs(path \<mapsto> out)) fs outs"

definition transform :: "(fs \<Rightarrow> string list \<Rightarrow> run_result) \<Rightarrow> fs \<Rightarrow> string \<Rightarrow> string list \<Rightarrow> define_if list
    \<Rightarrow> string list \<Rightarrow> string list \<Rightarrow> string list \<Rightarrow> fs res" where
  "transform run fs sv2v defines defines_if incdirs pkg_paths sv_paths =
     bind_res (map_res (\<lambda>p. transform_one run fs sv2v (defines @ file_defines defines_if p) incdirs pkg_paths p)
                 sv_paths)
       (\<lambda>outs. Inr (copy_back fs (zip sv_paths outs)))"

section \<open>The program\<close>

record sv2v_args =
  a_file_list :: string
  a_defines :: "string list"
  a_defines_if :: "define_if list"
  a_incdirs :: "string list"
  a_incdir_list :: "string option"
  a_sv2v :: string

definition is_sv :: "string \<Rightarrow> bool" where "is_sv p \<longleftrightarrow> splitext_ext p = ''.sv''"
definition is_svh :: "string \<Rightarrow> bool" where "is_svh p \<longleftrightarrow> splitext_ext p = ''.svh''"
definition is_pkg :: "string \<Rightarrow> bool" where "is_pkg p \<longleftrightarrow> ends_with ''pkg.sv'' p"

definition splat :: "fs \<Rightarrow> string list \<Rightarrow> fs" where
  "splat fs svh_paths = foldl (\<lambda>fs p. fs(p \<mapsto> [])) fs svh_paths"

definition all_incdirs :: "fs \<Rightarrow> sv2v_args \<Rightarrow> string list res" where
  "all_incdirs fs a =
     (case a_incdir_list a of
        None \<Rightarrow> Inr (a_incdirs a)
      | Some f \<Rightarrow> bind_res (read_file_list fs f) (\<lambda>ds. Inr (a_incdirs a @ ds)))"

text \<open>The files at the end, and the exit status or the exception that ends the program.\<close>

definition sv2v_main :: "(fs \<Rightarrow> string list \<Rightarrow> run_result) \<Rightarrow> fs \<Rightarrow> sv2v_args \<Rightarrow> fs \<times> int res" where
  "sv2v_main run fs a =
     (case read_file_list fs (a_file_list a) of
        Inl e \<Rightarrow> (fs, Inr 1)
      | Inr paths \<Rightarrow>
     (case all_incdirs fs a of
        Inl e \<Rightarrow> (fs, Inr 1)
      | Inr incdirs \<Rightarrow>
     (case transform run fs (a_sv2v a) (a_defines a) (a_defines_if a) incdirs
             (filter is_pkg paths) (filter is_sv paths) of
        Inl (RuntimeError err) \<Rightarrow> (fs, Inr 1)
      | Inl e \<Rightarrow> (fs, Inl e)
      | Inr fs' \<Rightarrow> (splat fs' (filter is_svh paths), Inr 0))))"

section \<open>All or nothing\<close>


lemma splat_lookup: "splat fs ps p = (if p \<in> set ps then Some [] else fs p)"
  by (induction ps arbitrary: fs) (auto simp: splat_def)

lemma copy_back_lookup:
  "length outs = length ps \<Longrightarrow> (\<And>i. i < length ps \<Longrightarrow> outs ! i = g (ps ! i)) \<Longrightarrow>
     copy_back fs (zip ps outs) p = (if p \<in> set ps then Some (g p) else fs p)"
proof (induction ps arbitrary: outs fs)
  case Nil
  then show ?case by (simp add: copy_back_def)
next
  case (Cons q ps)
  then obtain x xs where outs: "outs = x # xs" by (cases outs) auto
  from Cons.prems(2) [of 0] outs have x: "x = g q" by simp
  have "copy_back (fs(q \<mapsto> x)) (zip ps xs) p = (if p \<in> set ps then Some (g p) else (fs(q \<mapsto> x)) p)"
    by (rule Cons.IH) (use Cons.prems(1) Cons.prems(2) [of "Suc _"] outs in auto)
  then show ?case by (auto simp: outs x copy_back_def)
qed

text \<open>What the converter writes for a file, run on the files as they were at the start.\<close>

definition converted :: "(fs \<Rightarrow> string list \<Rightarrow> run_result) \<Rightarrow> fs \<Rightarrow> sv2v_args \<Rightarrow> string list \<Rightarrow> string list
    \<Rightarrow> string \<Rightarrow> string" where
  "converted run fs a incdirs pkgs p =
     (case run fs (sv2v_cmd (a_sv2v a) (a_defines a @ file_defines (a_defines_if a) p) incdirs pkgs p) of
        Ran out _ \<Rightarrow> out | CannotRun _ \<Rightarrow> [])"

lemma map_res_nth: "map_res f xs = Inr ys \<Longrightarrow> i < length xs \<Longrightarrow> f (xs ! i) = Inr (ys ! i)"
proof (induction xs arbitrary: ys i)
  case (Cons x xs)
  then show ?case by (cases i) (auto simp: res_simps)
qed simp

text \<open>
  After a run that exits with status 0, every \<^verbatim>\<open>.sv\<close> file of the list holds what the converter
  made of it from the original files - no conversion sees the output of another - every \<^verbatim>\<open>.svh\<close>
  file is empty, and every other file is as it was.
\<close>
theorem sv2v_in_place:
  assumes "sv2v_main run fs a = (fs', Inr 0)"
  shows "\<exists>paths incdirs. read_file_list fs (a_file_list a) = Inr paths \<and> all_incdirs fs a = Inr incdirs
     \<and> (\<forall>p. fs' p =
          (if p \<in> set paths \<and> is_svh p then Some []
           else if p \<in> set paths \<and> is_sv p then Some (converted run fs a incdirs (filter is_pkg paths) p)
           else fs p))"
proof -
  from assms obtain paths incdirs fs1 where p: "read_file_list fs (a_file_list a) = Inr paths"
    and i: "all_incdirs fs a = Inr incdirs"
    and t: "transform run fs (a_sv2v a) (a_defines a) (a_defines_if a) incdirs (filter is_pkg paths)
      (filter is_sv paths) = Inr fs1"
    and fs': "fs' = splat fs1 (filter is_svh paths)"
    by (auto simp: sv2v_main_def split: sum.splits exn.splits)
  from t obtain outs where
    o: "map_res (\<lambda>p. transform_one run fs (a_sv2v a) (a_defines a @ file_defines (a_defines_if a) p) incdirs
          (filter is_pkg paths) p) (filter is_sv paths) = Inr outs"
    and fs1: "fs1 = copy_back fs (zip (filter is_sv paths) outs)"
    by (auto simp: transform_def bind_res_Inr)
  have "outs ! k = converted run fs a incdirs (filter is_pkg paths) (filter is_sv paths ! k)"
    if "k < length (filter is_sv paths)" for k
    using map_res_nth [OF o that]
    by (auto simp: transform_one_def converted_def Let_def split: run_result.splits if_splits)
  with copy_back_lookup [of outs "filter is_sv paths" "converted run fs a incdirs (filter is_pkg paths)" fs]
    map_res_length [OF o]
  have "fs1 q = (if q \<in> set paths \<and> is_sv q then Some (converted run fs a incdirs (filter is_pkg paths) q)
                 else fs q)" for q
    by (simp add: fs1)
  with p i show ?thesis by (auto simp: fs' splat_lookup)
qed

text \<open>Two source files and a header; the converter fails on a file that includes a missing header.\<close>

definition demo_fs :: fs where
  "demo_fs = [''list'' \<mapsto> ''a.sv'' @ newline @ ''b_pkg.sv'' @ newline @ ''c.svh'' @ newline,
              ''a.sv'' \<mapsto> ''A'', ''b_pkg.sv'' \<mapsto> ''B'', ''c.svh'' \<mapsto> ''C'']"

definition demo_run :: "fs \<Rightarrow> string list \<Rightarrow> run_result" where
  "demo_run fs cmd = (case fs (last cmd) of None \<Rightarrow> Ran [] 1 | Some s \<Rightarrow> Ran (''converted '' @ s) 0)"

definition demo_sv2v_args :: sv2v_args where
  "demo_sv2v_args = \<lparr>a_file_list = ''list'', a_defines = [''SYNTHESIS''], a_defines_if = [], a_incdirs = [],
                a_incdir_list = None, a_sv2v = ''sv2v''\<rparr>"

lemma demo_main_ok: "snd (sv2v_main demo_run demo_fs demo_sv2v_args) = Inr 0"
  by code_simp


theorem sv2v_in_place_witness:
  "\<exists>fs'. sv2v_main demo_run demo_fs demo_sv2v_args = (fs', Inr 0)
     \<and> (\<exists>paths incdirs. read_file_list demo_fs ''list'' = Inr paths
          \<and> fs' ''a.sv'' = (if ''a.sv'' \<in> set paths \<and> is_svh ''a.sv'' then Some []
             else if ''a.sv'' \<in> set paths \<and> is_sv ''a.sv''
             then Some (converted demo_run demo_fs demo_sv2v_args incdirs (filter is_pkg paths) ''a.sv'')
             else demo_fs ''a.sv''))"
proof -
  obtain fs' where m: "sv2v_main demo_run demo_fs demo_sv2v_args = (fs', Inr 0)"
    using demo_main_ok by (metis prod.collapse)
  have "a_file_list demo_sv2v_args = ''list''" by (simp add: demo_sv2v_args_def)
  with sv2v_in_place [OF m] m show ?thesis by metis
qed

end
