(* ===== verification/Instr_Gen.thy ===== *)
theory Instr_Gen
  imports Metadata Tool_Cmds
begin

text \<open>
  The scripts that build and run the random instruction generator, \<^verbatim>\<open>build_instr_gen.py\<close> and
  \<^verbatim>\<open>run_instr_gen.py\<close>, and the one that collects its coverage, \<^verbatim>\<open>get_fcov.py\<close>, with
  \<open>get_cov_cmd\<close> of \<^verbatim>\<open>riscvdv_interface.py\<close>.  The generator only prints the commands that would
  build one test below a placeholder directory; the script relocates them, runs them in a
  temporary directory and copies the results.  A run of a script is the list of its effects and
  its exit status or exception; processes and files are parameters.
\<close>

section \<open>Relocation\<close>

definition PLUSARG_RE :: regex where
  "PLUSARG_RE = Seqs [Grp ''1'' (Seqs [Str ''+'', Plus (Cls word_char), Str ''='']),
                      Grp ''2'' (Star (Cls (\<lambda>c. c \<noteq> CHR 0x0A)))]"

text \<open>A leading plusarg name and the rest of the word.\<close>

definition split_plusarg :: "string \<Rightarrow> string \<times> string" where
  "split_plusarg word =
     (case re_match PLUSARG_RE word of
        Some m \<Rightarrow> (group_str m ''1'', group_str m ''2'') | None \<Rightarrow> ([], word))"

definition sim_relocs :: "string \<Rightarrow> string \<Rightarrow> (string, (string \<times> string) list) dict" where
  "sim_relocs placeholder_dir build_dir =
     [(''vcs'', [(path_join placeholder_dir ''vcs_simv'', path_join build_dir ''vcs_simv'')]),
      (''xlm'', [(placeholder_dir, build_dir)])]"

definition always_relocs :: "string \<Rightarrow> string \<Rightarrow> string \<Rightarrow> (string \<times> string) list" where
  "always_relocs placeholder_dir scratch_dir testname =
     [(path_join (path_join placeholder_dir ''asm_test'') testname, path_join scratch_dir ''test''),
      (path_join placeholder_dir ''asm_test'', scratch_dir),
      (path_join placeholder_dir (''sim_'' @ testname @ ''_0.log''), path_join scratch_dir ''gen.log'')]"

definition reloc_word :: "string \<Rightarrow> string \<Rightarrow> string \<Rightarrow> string \<Rightarrow> string \<Rightarrow> string \<Rightarrow> string \<Rightarrow> string res" where
  "reloc_word cwd simulator placeholder_dir build_dir scratch_dir testname word =
     (let (pre, post) = split_plusarg word
      in case map_of (sim_relocs placeholder_dir build_dir) simulator of
           None \<Rightarrow> Inl (KeyError simulator)
         | Some rs \<Rightarrow>
             let post' = (case find (\<lambda>(orig, _). os_abspath cwd orig = os_abspath cwd post)
                               (rs @ always_relocs placeholder_dir scratch_dir testname) of
                            Some (_, r) \<Rightarrow> r | None \<Rightarrow> post);
                 reloc = pre @ post'
             in if py_in placeholder_dir reloc
                then Inl (RuntimeError (''Failed to replace an occurrence of the '' @ ''placeholder in ''
                       @ word @ '' (got '' @ reloc @ '')''))
                else Inr reloc)"

text \<open>The commands in the text of the list that the generator wrote; blank lines are skipped.\<close>

definition reloc_commands :: "string \<Rightarrow> string \<Rightarrow> string \<Rightarrow> string \<Rightarrow> string \<Rightarrow> string \<Rightarrow> string
    \<Rightarrow> string list list res" where
  "reloc_commands cwd placeholder_dir build_dir scratch_dir simulator testname src =
     map_res (\<lambda>line. bind_res (shlex_split line)
         (map_res (reloc_word cwd simulator placeholder_dir build_dir scratch_dir testname)))
       (filter (\<lambda>l. l \<noteq> []) (map py_strip (split_on (CHR 0x0A) src)))"

section \<open>Effects\<close>

datatype effect =
    Mkdir string
  | Rmtree string
  | Process "event list"
  | OpenFile string
  | CopyFile string string
  | WriteFile string string
  | ExportTrr trr
  | ExportMd regression_metadata

text \<open>
  The outside of a script: the current directory and the temporary directory, the failures of
  opening a file, the outcome of a command, the existence of a file, resolution of paths, the
  files read; \<open>o_src\<close> is the list of commands that the generator wrote and \<open>o_tools\<close> reads a table of
  simulators.
\<close>

record outside =
  o_cwd :: string
  o_tmp :: string
  o_open_error :: "string \<Rightarrow> exn option"
  o_proc :: "string list \<Rightarrow> outcome"
  o_exists :: "string \<Rightarrow> bool"
  o_resolve :: "string \<Rightarrow> string"
  o_host :: host
  o_src :: "string res"
  o_tools :: "string \<Rightarrow> (string \<times> (string, tool_entry) dict) list res"

definition call_one :: "outside \<Rightarrow> bool \<Rightarrow> string list \<Rightarrow> redirect \<Rightarrow> effect list \<times> int res" where
  "call_one out verbose cmd r =
     (case run_one (o_open_error out) (o_proc out) verbose cmd r None False None of
        (ev, ret) \<Rightarrow> ([Process ev], ret))"

text \<open>The loop over the commands: the first nonzero status ends it.\<close>

fun call_all :: "outside \<Rightarrow> bool \<Rightarrow> redirect \<Rightarrow> string list list \<Rightarrow> effect list \<times> int res" where
  "call_all out verbose r [] = ([], Inr 0)"
| "call_all out verbose r (cmd # cmds) =
     (case call_one out verbose cmd r of
        (es, Inl e) \<Rightarrow> (es, Inl e)
      | (es, Inr ret) \<Rightarrow>
          if ret \<noteq> 0 then (es, Inr ret)
          else (case call_all out verbose r cmds of (es', x) \<Rightarrow> (es @ es', x)))"

text \<open>\<open>do_file_copies\<close>: the files copied, and the exception that ends the loop.\<close>

fun do_file_copies :: "(string \<Rightarrow> bool) \<Rightarrow> string \<Rightarrow> string \<Rightarrow> (string \<times> string \<times> bool) list \<Rightarrow> bool
    \<Rightarrow> effect list \<times> unit res" where
  "do_file_copies path_exists src_dir dst_dir [] run_failed = ([], Inr ())"
| "do_file_copies path_exists src_dir dst_dir ((src_name, dst_name, copy_on_fail) # rules) run_failed =
     (if run_failed \<and> \<not> copy_on_fail then do_file_copies path_exists src_dir dst_dir rules run_failed
      else if path_exists (path_join src_dir src_name)
      then (case do_file_copies path_exists src_dir dst_dir rules run_failed of
              (es, r) \<Rightarrow> (CopyFile (path_join src_dir src_name) (path_join dst_dir dst_name) # es, r))
      else if \<not> run_failed
      then ([], Inl (RuntimeError (''Generation commands exited with zero status ''
                       @ ''but left no '' @ src_name @ '' in scratch directory.'')))
      else do_file_copies path_exists src_dir dst_dir rules run_failed)"

section \<open>Running the generator\<close>

definition hex_format :: "int \<Rightarrow> string" where
  "hex_format i = (if i < 0 then ''-'' @ nat_str 16 (nat (- i)) else nat_str 16 (nat i))"

text \<open>The address for the end of the test; the CSR test uses the word below for it.\<close>

definition end_signature :: "regression_metadata \<Rightarrow> string \<Rightarrow> string res" where
  "end_signature m testname =
     (if \<not> py_in ''riscv_csr_test'' testname then Inr (md_signature_addr m)
      else bind_res (py_int 16 (md_signature_addr m)) (\<lambda>a. Inr (hex_format (a - 4))))"

definition gen_sim_opts :: "config \<Rightarrow> string \<Rightarrow> (string \<times> string) list" where
  "gen_sim_opts cfg sig =
     [(''uvm_set_inst_override'',
         py_join '','' [''riscv_asm_program_gen'', ''ibex_asm_program_gen'', ''uvm_test_top.asm_gen'']),
      (''require_signature_addr'', ''1''), (''signature_addr'', sig),
      (''pmp_num_regions'', str_int (pmp_num_regions cfg)),
      (''pmp_granularity'', str_int (pmp_granularity cfg)), (''tvec_alignment'', ''8'')]"

definition gen_cmd :: "regression_metadata \<Rightarrow> config \<Rightarrow> string \<Rightarrow> string \<Rightarrow> int option \<Rightarrow> string \<Rightarrow> string
    \<Rightarrow> item list" where
  "gen_cmd m cfg placeholder testname seed sig orig_list =
     get_run_cmd (md_ibex_root m) (md_verbose m)
     @ [IStr ''--so'', IStr ''--steps=gen'', IStr ''--output'', IStr placeholder,
        IStr ''--simulator'', IStr (md_simulator m), IStr ''--isa'', opt_item IStr (md_isa_ibex m),
        IStr ''--test'', IStr testname, IStr ''--start_seed'', IStr (opt_text str_int seed),
        IStr ''--iterations'', IStr ''1'', IStr ''--end_signature_addr'', IStr sig,
        IStr ''--debug'', IStr orig_list,
        IStr ''--sim_opts'',
        IStr (py_join '' '' (map (\<lambda>(k, v). ''+'' @ k @ ''='' @ v) (gen_sim_opts cfg sig)))]"

definition copy_rules :: "string \<Rightarrow> (string \<times> string \<times> bool) list" where
  "copy_rules testname =
     dict_get [(''riscv_csr_test'', [(''riscv_csr_test_0.S'', ''test.S'', False)])] testname
       [(''gen.log'', ''gen.log'', True), (''test_0.S'', ''test.S'', False)]"

text \<open>The part after the generator has listed its commands.\<close>

definition run_generated :: "outside \<Rightarrow> regression_metadata \<Rightarrow> trr \<Rightarrow> string \<Rightarrow> string \<Rightarrow> effect list \<times> int res" where
  "run_generated out m t testname dir_test =
     (case bind_res (o_src out) (reloc_commands (o_cwd out) (path_div (o_tmp out) ''@@PLACEHOLDER@@'')
             (o_resolve out (md_dir_instruction_generator m)) (o_tmp out) (md_simulator m) testname) of
        Inl e \<Rightarrow> ([], Inl e)
      | Inr words \<Rightarrow>
     (case map_res (\<lambda>cmd. format_to_cmd (o_resolve out) (map IStr cmd)) words of
        Inl e \<Rightarrow> ([], Inl e)
      | Inr cmds \<Rightarrow>
          let run_stdout = path_div (md_dir_instruction_generator m) ''riscvdv_run.log'';
              t = t\<lparr>trr_riscvdv_run_cmds := Some cmds, trr_riscvdv_run_stdout := Some run_stdout,
                    trr_assembly := Some (path_div dir_test ''test.S'')\<rparr>
          in case o_open_error out run_stdout of
               Some e \<Rightarrow> ([], Inl e)
             | None \<Rightarrow>
                 (case call_all out (md_verbose m) (ToStream (Some run_stdout) True) cmds of
                    (es, Inl e) \<Rightarrow> (OpenFile run_stdout # es, Inl e)
                  | (es, Inr ret) \<Rightarrow>
                      (case do_file_copies (o_exists out) (o_tmp out) dir_test (copy_rules testname) (ret \<noteq> 0) of
                         (cs, Inl e) \<Rightarrow> (OpenFile run_stdout # es @ cs, Inl e)
                       | (cs, Inr _) \<Rightarrow> (OpenFile run_stdout # es @ cs @ [ExportTrr t], Inr 0)))))"

definition run_instr_gen :: "outside \<Rightarrow> regression_metadata \<Rightarrow> trr \<Rightarrow> effect list \<times> int res" where
  "run_instr_gen out m t =
     (case get_config (o_host out) (md_ibex_config m) of
        Inl e \<Rightarrow> ([], Inl e)
      | Inr cfg \<Rightarrow>
     (case trr_testname t of
        None \<Rightarrow> ([], Inl (TypeError ''argument of type 'NoneType' is not iterable''))
      | Some testname \<Rightarrow>
     (case end_signature m testname of
        Inl e \<Rightarrow> ([], Inl e)
      | Inr sig \<Rightarrow>
     (case trr_dir_test t of
        None \<Rightarrow> ([], Inl (AttributeError ''mkdir''))
      | Some dir_test \<Rightarrow>
          let gen_stdout = path_div (md_dir_instruction_generator m) ''riscvdv_cmds.log''
          in case format_to_cmd (o_resolve out)
                 (gen_cmd m cfg (path_div (o_tmp out) ''@@PLACEHOLDER@@'') testname (trr_seed t) sig
                    (path_div (o_tmp out) ''cmds.list'')) of
               Inl e \<Rightarrow> ([Mkdir dir_test], Inl e)
             | Inr cmd \<Rightarrow>
                 (case call_one out (md_verbose m) cmd (ToPath gen_stdout) of
                    (es, Inl e) \<Rightarrow> (Mkdir dir_test # es, Inl e)
                  | (es, Inr gen_retcode) \<Rightarrow>
                      if gen_retcode \<noteq> 0 then (Mkdir dir_test # es, Inr gen_retcode)
                      else (case run_generated out m
                                   (t\<lparr>trr_riscvdv_run_gen_stdout := Some gen_stdout,
                                      trr_riscvdv_run_gen_cmds := Some [cmd]\<rparr>) testname dir_test of
                              (es', r) \<Rightarrow> (Mkdir dir_test # es @ es', r)))))))"

section \<open>Building the generator and its coverage\<close>

text \<open>
  \<^verbatim>\<open>build_instr_gen.py\<close>: \<open>existed\<close> says whether the output directory existed; the metadata is
  exported when the lock is released, also after an exception, and the command runs after that.
\<close>

definition build_cmd :: "regression_metadata \<Rightarrow> item list" where
  "build_cmd m =
     get_run_cmd (md_ibex_root m) (md_verbose m)
     @ [IStr ''--co'', IStr ''--steps=gen'', IStr ''--simulator'', IStr (md_simulator m),
        IStr ''--output'', IPath (md_dir_instruction_generator m), IStr ''--isa'',
        opt_item IStr (md_isa_ibex m), IStr ''--end_signature_addr'', IStr (md_signature_addr m)]"

definition build_instr_gen :: "outside \<Rightarrow> bool \<Rightarrow> regression_metadata \<Rightarrow> effect list \<times> int res" where
  "build_instr_gen out existed m =
     (let dir = md_dir_instruction_generator m;
          pre = (if existed then [Rmtree dir] else []) @ [Mkdir dir];
          m1 = m\<lparr>md_riscvdv_build_stdout := Some (path_div dir ''build_stdout.log'')\<rparr>
      in case format_to_cmd (o_resolve out) (build_cmd m1) of
           Inl e \<Rightarrow> (pre @ [ExportMd m1], Inl e)
         | Inr cmd \<Rightarrow>
             let m2 = m1\<lparr>md_riscvdv_build_cmds := Some [cmd]\<rparr>
             in (case call_one out (md_verbose m2) cmd (ToPath (path_div dir ''build_stdout.log'')) of
                   (es, r) \<Rightarrow> (pre @ [ExportMd m2] @ es, r)))"

definition get_cov_cmd :: "regression_metadata \<Rightarrow> string option list" where
  "get_cov_cmd m =
     [Some ''python3'', Some (path_div (md_riscvdv_root m) ''cov.py''), Some ''--core'', Some ''ibex'',
      Some ''--dir'', Some (md_dir_run m), Some ''-o'', Some (md_dir_fcov m),
      Some ''--simulator'', Some (md_simulator m), Some ''--opts'', Some ''--gen_timeout 1000'',
      Some ''--isa'', md_isa_ibex m, Some ''--custom_target'', Some (md_ibex_riscvdv_customtarget m)]
     @ (if md_verbose m then [Some ''--verbose''] else [])"

text \<open>
  \<^verbatim>\<open>get_fcov.py\<close>: the runner's type check refuses a command with an element that is not a string.
  The recorded commands hold the elements that are.
\<close>

definition get_fcov :: "outside \<Rightarrow> regression_metadata \<Rightarrow> effect list \<times> int res" where
  "get_fcov out m =
     (let cmd = get_cov_cmd m;
          log = path_div (md_dir_fcov m) ''riscvdv_fcov_stdout.log'';
          m1 = m\<lparr>md_riscvdv_fcov_cmds := Some [List.map_filter id cmd], md_riscvdv_fcov_stdout := Some log\<rparr>;
          pre = [Mkdir (md_dir_fcov m), ExportMd m1]
      in if None \<in> set cmd then (pre, Inl (TypeError ''type of argument cmd must be str''))
         else (case call_one out (md_verbose m) (List.map_filter id cmd) (ToPath log) of
                 (es, r) \<Rightarrow> (pre @ es, r)))"

section \<open>What a run leaves\<close>

text \<open>Effects that are commands only.\<close>

definition only_runs :: "effect list \<Rightarrow> bool" where
  "only_runs es \<longleftrightarrow> (\<forall>e\<in>set es. \<exists>ev. e = Process ev)"

lemma only_runs_simps [simp]:
  "only_runs []"
  "only_runs (e # es) \<longleftrightarrow> (\<exists>ev. e = Process ev) \<and> only_runs es"
  "only_runs (es @ fs) \<longleftrightarrow> only_runs es \<and> only_runs fs"
  by (auto simp: only_runs_def)

lemma only_runsD: "only_runs es \<Longrightarrow> CopyFile a b \<notin> set es \<and> ExportTrr t \<notin> set es \<and> Mkdir d \<notin> set es"
  by (auto simp: only_runs_def)

lemma call_one_return:
  assumes "call_one out verbose cmd r = (es, Inr ret)"
  shows "only_runs es \<and> (ret = 0 \<longleftrightarrow> o_proc out cmd = Exits 0)"
  using assms
  by (auto simp: call_one_def run_one_def split: prod.splits sum.splits outcome.splits)

lemma call_all_return:
  "call_all out verbose r cmds = (es, Inr ret) \<Longrightarrow>
   only_runs es \<and> (ret = 0 \<longleftrightarrow> (\<forall>cmd\<in>set cmds. o_proc out cmd = Exits 0))"
proof (induction cmds arbitrary: es ret)
  case (Cons cmd cmds)
  from Cons.prems obtain es1 ret1 where one: "call_one out verbose cmd r = (es1, Inr ret1)"
    by (auto split: prod.splits sum.splits)
  note ret1 = call_one_return [OF one]
  show ?case
  proof (cases "ret1 = 0")
    case True
    with Cons.prems one obtain es2 where "call_all out verbose r cmds = (es2, Inr ret)" "es = es1 @ es2"
      by (auto split: prod.splits)
    then show ?thesis using Cons.IH ret1 True by auto
  next
    case False
    then show ?thesis using Cons.prems one ret1 by auto
  qed
qed simp

text \<open>Both rule tables copy to \<open>test.S\<close>, unless the run failed.\<close>

lemma copies_test_S:
  assumes "do_file_copies ex src d (copy_rules testname) fail = (cs, Inr u)"
  shows "(\<exists>s. CopyFile s (path_join d ''test.S'') \<in> set cs) \<longleftrightarrow> \<not> fail"
proof -
  have "path_join d ''gen.log'' \<noteq> path_join d ''test.S''"
    by (simp add: path_join_def starts_with_def)
  then show ?thesis using assms
    by (cases "testname = ''riscv_csr_test''")
       (auto simp: copy_rules_def dict_get_def split: if_splits prod.splits)
qed

lemma run_generated_end:
  assumes "run_generated out m t testname d = (es, Inr ret)"
  obtains cmds es1 t' where "es = es1 @ [ExportTrr t']"
    and "trr_riscvdv_run_cmds t' = Some cmds" and "trr_assembly t' = Some (path_div d ''test.S'')"
    and "(\<exists>s. CopyFile s (path_join d ''test.S'') \<in> set es)
      \<longleftrightarrow> (\<forall>cmd\<in>set cmds. o_proc out cmd = Exits 0)"
proof -
  let ?log = "path_div (md_dir_instruction_generator m) ''riscvdv_run.log''"
  from assms obtain cmds es0 ret0 cs u where
      run: "call_all out (md_verbose m) (ToStream (Some ?log) True) cmds = (es0, Inr ret0)"
    and copy: "do_file_copies (o_exists out) (o_tmp out) d (copy_rules testname) (ret0 \<noteq> 0) = (cs, Inr u)"
    and es: "es = (OpenFile ?log # es0 @ cs) @ [ExportTrr (t\<lparr>trr_riscvdv_run_cmds := Some cmds,
        trr_riscvdv_run_stdout := Some ?log, trr_assembly := Some (path_div d ''test.S'')\<rparr>)]"
    by (auto simp: run_generated_def Let_def split: sum.splits option.splits prod.splits)
  have "(\<exists>s. CopyFile s (path_join d ''test.S'') \<in> set es)
      \<longleftrightarrow> (\<forall>cmd\<in>set cmds. o_proc out cmd = Exits 0)"
    using copies_test_S [OF copy] call_all_return [OF run] only_runsD [of es0] by (auto simp: es)
  with that [OF es] show thesis by simp
qed

text \<open>
  C22: A run of \<^verbatim>\<open>run_instr_gen.py\<close> that exits with status 0 has recorded a path for the assembly
  file and exported the result, but the file is copied to that place exactly when every
  generated command exited with 0: the failure of a command is not reported by the status.
\<close>
theorem failed_generation_masked:
  assumes "run_instr_gen out m t = (es, Inr 0)"
  shows "\<exists>d t' cmds. trr_dir_test t = Some d \<and> last es = ExportTrr t'
    \<and> trr_riscvdv_run_cmds t' = Some cmds \<and> trr_assembly t' = Some (path_div d ''test.S'')
    \<and> ((\<exists>s. CopyFile s (path_join d ''test.S'') \<in> set es)
        \<longleftrightarrow> (\<forall>cmd\<in>set cmds. o_proc out cmd = Exits 0))"
proof -
  from assms obtain cfg testname sig d where cfg: "get_config (o_host out) (md_ibex_config m) = Inr cfg"
    and name: "trr_testname t = Some testname" and sig: "end_signature m testname = Inr sig"
    and d: "trr_dir_test t = Some d"
    by (auto simp: run_instr_gen_def split: sum.splits option.splits)
  let ?log = "path_div (md_dir_instruction_generator m) ''riscvdv_cmds.log''"
  note run = assms [unfolded run_instr_gen_def Let_def cfg name sig d sum.case option.case]
  from run obtain cmd where cmd: "format_to_cmd (o_resolve out)
      (gen_cmd m cfg (path_div (o_tmp out) ''@@PLACEHOLDER@@'') testname (trr_seed t) sig
        (path_div (o_tmp out) ''cmds.list'')) = Inr cmd"
    by (cases rule: sum.exhaust) (auto split: sum.splits)
  obtain es1 r where one: "call_one out (md_verbose m) cmd (ToPath ?log) = (es1, r)" by fastforce
  note run = run [unfolded cmd sum.case one prod.case]
  obtain es2 r2 where gen: "run_generated out m
      (t\<lparr>trr_riscvdv_run_gen_stdout := Some ?log, trr_riscvdv_run_gen_cmds := Some [cmd]\<rparr>)
      testname d = (es2, r2)" by fastforce
  have "r = Inr 0 \<and> r2 = Inr 0 \<and> es = Mkdir d # es1 @ es2"
    using run [unfolded gen prod.case] by (cases r) (auto split: if_splits)
  then have one: "call_one out (md_verbose m) cmd (ToPath ?log) = (es1, Inr 0)"
    and gen: "run_generated out m (t\<lparr>trr_riscvdv_run_gen_stdout := Some ?log,
        trr_riscvdv_run_gen_cmds := Some [cmd]\<rparr>) testname d = (es2, Inr 0)"
    and es: "es = Mkdir d # es1 @ es2" using one gen by simp_all
  obtain cmds es3 t' where
      "es2 = es3 @ [ExportTrr t']" "trr_riscvdv_run_cmds t' = Some cmds"
      "trr_assembly t' = Some (path_div d ''test.S'')"
      "(\<exists>s. CopyFile s (path_join d ''test.S'') \<in> set es2)
        \<longleftrightarrow> (\<forall>cmd\<in>set cmds. o_proc out cmd = Exits 0)"
    by (rule run_generated_end [OF gen])
  moreover have "CopyFile s (path_join d ''test.S'') \<notin> set es1" for s
    using call_one_return [OF one] only_runsD by blast
  ultimately show ?thesis using d by (auto simp: es)
qed

text \<open>A run whose generator works and whose only generated command fails.\<close>

definition demo_out :: outside where
  "demo_out =
     \<lparr>o_cwd = ''/w'', o_tmp = ''/tmp/t'', o_open_error = (\<lambda>p. None),
      o_proc = (\<lambda>cmd. if cmd = [''xrun'', ''+f=/tmp/t/test''] then Exits 2 else Exits 0),
      o_exists = (\<lambda>p. False), o_resolve = py_path, o_host = demo_host,
      o_src = Inr (''xrun +f=/tmp/t/@@PLACEHOLDER@@/asm_test/basic'' @ newline),
      o_tools = (\<lambda>f. Inr [])\<rparr>"

definition demo_gen_md :: regression_metadata where
  "demo_gen_md = (dummy_obj ''now'')
     \<lparr>md_simulator := ''xlm'', md_ibex_config := ''opentitan'', md_signature_addr := ''8ffffffc'',
      md_isa_ibex := Some ''rv32imc'', md_dir_instruction_generator := ''/out/gen''\<rparr>"

definition demo_gen_trr :: trr where
  "demo_gen_trr = empty_trr\<lparr>trr_testname := Some ''basic'', trr_seed := Some 7,
     trr_dir_test := Some ''/out/basic.7''\<rparr>"

lemma demo_run_status:
  "case run_instr_gen demo_out demo_gen_md demo_gen_trr of
     (es, r) \<Rightarrow> r = Inr 0 \<and> list_all (\<lambda>e. case e of CopyFile s d \<Rightarrow> False | _ \<Rightarrow> True) es"
  by code_simp

theorem failed_generation_masked_witness:
  "\<exists>es t' cmds. run_instr_gen demo_out demo_gen_md demo_gen_trr = (es, Inr 0) \<and> last es = ExportTrr t'
     \<and> trr_assembly t' = Some ''/out/basic.7/test.S'' \<and> (\<exists>cmd\<in>set cmds. o_proc demo_out cmd \<noteq> Exits 0)"
proof -
  obtain es where run: "run_instr_gen demo_out demo_gen_md demo_gen_trr = (es, Inr 0)"
    and copies: "list_all (\<lambda>e. case e of CopyFile s d \<Rightarrow> False | _ \<Rightarrow> True) es"
    using demo_run_status by (auto split: prod.splits)
  have "CopyFile s d \<notin> set es" for s d using copies by (auto simp: list_all_iff split: effect.splits)
  moreover have "trr_dir_test demo_gen_trr = Some ''/out/basic.7''" by (simp add: demo_gen_trr_def)
  moreover have "path_div ''/out/basic.7'' ''test.S'' = ''/out/basic.7/test.S''" by code_simp
  ultimately show ?thesis using failed_generation_masked [OF run] run by fastforce
qed

section \<open>Relocated words\<close>

lemma os_abspath_join:
  assumes "path_root p \<noteq> []" "no_dotdot (path_parts p)" "path_root b = []" "no_dotdot (path_parts b)"
  shows "os_abspath cwd (path_join p b) = path_str (path_root p) (path_parts p @ path_parts b)"
  using assms os_abspath_plain [of "path_join p b" cwd]
  by (simp add: path_root_path_join path_parts_path_join no_dotdot_def py_path_def)

lemma path_str_inj:
  assumes "list_all proper ps" "list_all proper qs" "root_ok r"
  shows "path_str r ps = path_str r qs \<longleftrightarrow> ps = qs"
  using assms path_parts_str by metis

lemma split_plusarg_plain: "hd w \<noteq> CHR ''+'' \<Longrightarrow> split_plusarg w = ([], w)"
proof -
  assume "hd w \<noteq> CHR ''+''"
  then have "re_match PLUSARG_RE w = None"
    by (cases w) (simp_all add: PLUSARG_RE_def re_match_def Str_def)
  then show ?thesis by (simp add: split_plusarg_def)
qed

text \<open>A plusarg name: the plus sign, a word and the equals sign.\<close>

definition plusarg_name :: "string \<Rightarrow> bool" where
  "plusarg_name pre \<longleftrightarrow> (\<exists>n. run_of word_char n \<and> pre = ''+'' @ n @ ''='')"

lemma split_plusarg_pre:
  assumes "plusarg_name pre" and "CHR 0x0A \<notin> set w"
  shows "split_plusarg (pre @ w) = (pre, w)"
proof -
  from assms(1) obtain n where n: "run_of word_char n" and pre: "pre = ''+'' @ n @ ''=''"
    by (auto simp: plusarg_name_def)
  let ?name = "Seqs [Str ''+'', Plus (Cls word_char), Str ''='']"
  have eq: "Str ''='' = Cls (\<lambda>x. x = CHR ''='')" by (simp add: Str_def)
  have rej: "rejects (Str ''='') word_char"
    unfolding eq by (rule rejects_Cls) (auto simp: word_char_def)
  have drop: "dropWhile word_char (n @ ''='' @ w) = ''='' @ w"
    using runs(2) [of word_char n "''='' @ w"] n by (simp add: run_of_def word_char_def)
  have "mtch ?name (''+'' @ n @ ''='' @ w) = mtch (Str ''='') (''='' @ w)"
    using n unfolding Seqs.simps mtch_Str Plus_field [OF rej] drop
    by (cases n) (auto simp: run_of_def)
  also have "\<dots> = [(w, [])]" by (simp add: eq)
  finally have g1: "mtch (Grp ''1'' ?name) (pre @ w) = [(w, [(''1'', pre)])]"
    by (simp add: pre)
  have all: "dropWhile (\<lambda>c. c \<noteq> CHR 0x0A) w = []" using assms(2) by (auto simp: dropWhile_eq_Nil_conv)
  let ?rest = "Grp ''2'' (Star (Cls (\<lambda>c. c \<noteq> CHR 0x0A)))"
  have "mtch ?rest w \<noteq> [] \<and> snd (hd (mtch ?rest w)) = [(''2'', w)]"
    using mtch_Star_Cls_hd [of "\<lambda>c. c \<noteq> CHR 0x0A" w] all
    by (auto simp: hd_map)
  then have "re_match PLUSARG_RE (pre @ w) = Some [(''1'', pre), (''2'', w)]"
    unfolding PLUSARG_RE_def Seqs.simps(2,3) [of "Grp ''1'' ?name"] Seqs.simps(2) [of ?rest]
      re_match_def mtch.simps(3) g1
    by (cases "mtch ?rest w") (auto simp del: mtch.simps)
  then show ?thesis by (simp add: split_plusarg_def group_str_def group_def)
qed

lemma reloc_first:
  "\<forall>x\<in>set rs. f (fst x) = f a \<longrightarrow> snd x = r \<Longrightarrow> (a, r) \<in> set rs \<Longrightarrow>
   \<exists>b. find (\<lambda>(b, _). f b = f a) rs = Some (b, r)"
  by (induction rs) (auto split: prod.splits)

text \<open>The relocation list of one simulator, by the components below the placeholder.\<close>

definition relocations :: "string \<Rightarrow> string \<Rightarrow> string \<Rightarrow> string \<Rightarrow> string \<Rightarrow> (string \<times> string) list option" where
  "relocations simulator placeholder build_dir scratch_dir testname =
     map_option (\<lambda>rs. rs @ always_relocs placeholder scratch_dir testname)
       (map_of (sim_relocs placeholder build_dir) simulator)"

lemma reloc_word_table:
  assumes rs: "relocations sim P B S testname = Some rs" and "(a, r) \<in> set rs"
    and uniq: "\<forall>x\<in>set rs. os_abspath cwd (fst x) = os_abspath cwd a \<longrightarrow> snd x = r"
    and sp: "split_plusarg w = (pre, a)" and clean: "\<not> py_in P (pre @ r)"
  shows "reloc_word cwd sim P B S testname w = Inr (pre @ r)"
proof -
  obtain b where "find (\<lambda>(b, _). os_abspath cwd b = os_abspath cwd a) rs = Some (b, r)"
    using reloc_first [OF uniq assms(2)] by blast
  with rs show ?thesis
    by (auto simp: relocations_def reloc_word_def sp Let_def clean)
qed

lemma log_name:
  assumes "proper testname"
  shows "proper (''sim_'' @ testname @ ''_0.log'') \<and> ''sim_'' @ testname @ ''_0.log'' \<noteq> ''..''"
  using assms by (auto simp: proper_def)

lemma relocs_distinct:
  assumes P: "path_root P \<noteq> []" "no_dotdot (path_parts P)"
    and t: "proper testname" "testname \<noteq> ''..''"
    and rs: "relocations sim P B S testname = Some rs" and "(a, r) \<in> set rs" "(b, r') \<in> set rs"
    and "os_abspath cwd a = os_abspath cwd b"
  shows "r = r'"
proof -
  let ?abs = "\<lambda>ps. path_str (path_root P) (path_parts P @ ps)"
  let ?log = "''sim_'' @ testname @ ''_0.log''"
  note pr = proper_parts proper_root path_root_path_join path_parts_path_join
  have lit: "proper ''vcs_simv''" "proper ''asm_test''" by (simp_all add: proper_def)
  have dd: "no_dotdot [w]" if "w \<noteq> ''..''" for w using that by (simp add: no_dotdot_def)
  have one: "os_abspath cwd (path_join P w) = ?abs [w]" if "proper w" "w \<noteq> ''..''" for w
    using os_abspath_join [OF P, of w cwd] that dd by (simp add: pr)
  have two: "os_abspath cwd (path_join (path_join P ''asm_test'') testname) = ?abs [''asm_test'', testname]"
    using os_abspath_join [of "path_join P ''asm_test''" testname cwd] P t lit
    by (simp add: pr no_dotdot_def)
  have P0: "os_abspath cwd P = ?abs []" using os_abspath_plain [OF P, of cwd] by (simp add: py_path_def)
  note abs = one [OF lit(1)] one [OF lit(2)] one [of ?log] two P0 log_name [OF t(1)]
  have inj: "?abs ps = ?abs qs \<longleftrightarrow> ps = qs" if "list_all proper ps" "list_all proper qs" for ps qs
    using path_str_inj [of "path_parts P @ ps" "path_parts P @ qs" "path_root P"] that by simp
  have inj0: "?abs ps = path_str (path_root P) (path_parts P) \<longleftrightarrow> ps = []"
      "path_str (path_root P) (path_parts P) = ?abs ps \<longleftrightarrow> ps = []" if "list_all proper ps" for ps
    using inj [of ps "[]"] inj [of "[]" ps] that by auto
  from rs have "rs = [(path_join P ''vcs_simv'', path_join B ''vcs_simv'')] @ always_relocs P S testname
      \<or> rs = [(P, B)] @ always_relocs P S testname"
    by (auto simp: relocations_def sim_relocs_def split: if_splits)
  with assms(6,7,8) show ?thesis
    by (auto simp: always_relocs_def abs inj inj0 lit t log_name [OF t(1)] simp del: append_Cons)
qed


lemma reloc_source_root:
  assumes "path_root P \<noteq> []" "proper testname"
    and "relocations sim P B S testname = Some rs" "(a, r) \<in> set rs"
  shows "hd a = CHR ''/''"
proof -
  have "path_root w = []" if "proper w" for w using that by (rule proper_root)
  moreover have "proper ''vcs_simv''" "proper ''asm_test''" by (simp_all add: proper_def)
  moreover note log_name [OF assms(2)]
  ultimately have "path_root a \<noteq> []" using assms
    by (auto simp: relocations_def sim_relocs_def always_relocs_def path_root_path_join split: if_splits)
  then show ?thesis by (auto simp: path_root_def starts_with_iff split: if_splits)
qed

text \<open>
  C21: With a normalised absolute placeholder, a word that names a source of the relocation table
  of the simulator, alone or as the value of a plusarg, is replaced by the target of that row and
  by no other, with the plusarg name kept, whenever the target is free of the placeholder.
\<close>
theorem relocated_words:
  assumes "path_root P \<noteq> []" and "no_dotdot (path_parts P)"
    and "proper testname" and "testname \<noteq> ''..''"
    and rs: "relocations sim P B S testname = Some rs" and row: "(a, r) \<in> set rs"
    and pre: "pre = [] \<or> plusarg_name pre \<and> CHR 0x0A \<notin> set a"
    and clean: "\<not> py_in P (pre @ r)"
  shows "reloc_word cwd sim P B S testname (pre @ a) = Inr (pre @ r)"
proof -
  have "hd a \<noteq> CHR ''+''" using reloc_source_root [OF assms(1,3) rs row] by simp
  then have "split_plusarg (pre @ a) = (pre, a)"
    using pre split_plusarg_pre split_plusarg_plain by auto
  moreover have "\<forall>x\<in>set rs. os_abspath cwd (fst x) = os_abspath cwd a \<longrightarrow> snd x = r"
    using relocs_distinct [OF assms(1-4) rs _ row] by fastforce
  ultimately show ?thesis using reloc_word_table [OF rs row] clean by blast
qed

theorem relocated_words_witness:
  "reloc_word ''/w'' ''xlm'' ''/tmp/t/@@P'' ''/out/gen'' ''/tmp/t'' ''basic''
     ''+asm_file_name=/tmp/t/@@P/asm_test/basic'' = Inr ''+asm_file_name=/tmp/t/test''"
proof -
  have "plusarg_name ''+asm_file_name=''"
    unfolding plusarg_name_def by (rule exI [of _ "''asm_file_name''"]) code_simp
  moreover have "relocations ''xlm'' ''/tmp/t/@@P'' ''/out/gen'' ''/tmp/t'' ''basic''
      = Some [(''/tmp/t/@@P'', ''/out/gen''), (''/tmp/t/@@P/asm_test/basic'', ''/tmp/t/test''),
              (''/tmp/t/@@P/asm_test'', ''/tmp/t''), (''/tmp/t/@@P/sim_basic_0.log'', ''/tmp/t/gen.log'')]"
    by code_simp
  moreover have "path_root ''/tmp/t/@@P'' \<noteq> []" "no_dotdot (path_parts ''/tmp/t/@@P'')"
    "proper ''basic''" "\<not> py_in ''/tmp/t/@@P'' (''+asm_file_name='' @ ''/tmp/t/test'')" by code_simp+
  ultimately show ?thesis
    using relocated_words [of "''/tmp/t/@@P''" "''basic''" "''xlm''" "''/out/gen''" "''/tmp/t''" _
        "''/tmp/t/@@P/asm_test/basic''" "''/tmp/t/test''" "''+asm_file_name=''" "''/w''"] by simp
qed

end
