(* ===== verification/Run_Test.thy ===== *)
theory Run_Test
  imports Instr_Gen
begin

text \<open>
  The scripts that compile one test and simulate it, \<^verbatim>\<open>compile_test.py\<close> and \<^verbatim>\<open>run_rtl.py\<close> under
  \<^verbatim>\<open>dv/uvm/core_ibex/scripts\<close>, between the generator (Instr_Gen) and the verdict (Check_Logs).
  As there, a run of a script is the list of its effects and its exit status or exception.
\<close>

section \<open>Compiling a random test\<close>

definition path_field :: "string option \<Rightarrow> string \<Rightarrow> string res" where
  "path_field p name =
     (case p of
        None \<Rightarrow> Inl (TypeError ''unsupported operand type(s) for /: 'NoneType' and 'str' '')
      | Some d \<Rightarrow> Inr (path_div d name))"

definition compile_gen_cmd :: "regression_metadata \<Rightarrow> trr \<Rightarrow> string \<Rightarrow> string \<Rightarrow> item list" where
  "compile_gen_cmd m t placeholder orig_list =
     get_run_cmd (md_ibex_root m) (md_verbose m)
     @ [IStr ''--verbose'', IStr ''--output'', IPath placeholder, IStr ''--steps=gcc_compile'',
        IStr ''--test'', opt_item IStr (trr_testname t),
        IStr ''--start_seed'', IStr (opt_text str_int (trr_seed t)), IStr ''--iterations'', IStr ''1'',
        IStr ''--isa'', opt_item IStr (md_isa_ibex m), IStr ''--debug'', IPath orig_list]"

definition rewrite_table :: "string \<Rightarrow> trr \<Rightarrow> (string \<times> string) list" where
  "rewrite_table placeholder t =
     (let base = placeholder @ ''/asm_test/'' @ opt_text id (trr_testname t)
      in [(base @ ''_0.S'', opt_text id (trr_assembly t)),
          (base @ ''_0.o'', opt_text id (trr_objectfile t)),
          (base @ ''_0.bin'', opt_text id (trr_binary t))])"

definition rewrite_word :: "(string \<times> string) list \<Rightarrow> string \<Rightarrow> string" where
  "rewrite_word rs word = foldl (\<lambda>w (old, new). replace_all old new w) word rs"

definition rewrite_cmd :: "string \<Rightarrow> (string \<times> string) list \<Rightarrow> string list \<Rightarrow> string list res" where
  "rewrite_cmd placeholder rs cmd =
     map_res (\<lambda>word. let w = rewrite_word rs word
       in if py_in placeholder w
          then Inl (RuntimeError (''Couldn't replace every copy of '' @ ''placeholder in ''
                 @ item_repr (IList (map IStr cmd))))
          else Inr w) cmd"

definition dm_sections :: "string list" where
  "dm_sections = [''.debug_module'', ''.dm_scratch'']"

definition only_sections :: "string list" where
  "only_sections = concat (map (\<lambda>s. [''--only-section'', s]) dm_sections)"

definition remove_sections :: "string list" where
  "remove_sections = concat (map (\<lambda>s. [''--remove-section'', s]) dm_sections)"

definition objcopy_cmd :: "string option \<Rightarrow> string \<Rightarrow> string list \<Rightarrow> string \<Rightarrow> string \<Rightarrow> item list" where
  "objcopy_cmd objcopy fmt sections objectfile result =
     [opt_item IStr objcopy, IStr ''-O'', IStr fmt] @ map IStr sections @ [IStr objectfile, IStr result]"

definition ddm_linker :: "regression_metadata \<Rightarrow> string \<Rightarrow> string" where
  "ddm_linker m token =
     (if starts_with ''-T'' token
      then ''-T'' @ path_div (md_ibex_riscvdv_customtarget m) ''ddm_link.ld'' else token)"

text \<open>
  The layout with a discrete debug module: the last command goes, the linker script changes and
  four commands write the two regions.
\<close>

definition ddm_cmds :: "regression_metadata \<Rightarrow> (string, string) dict \<Rightarrow> string \<Rightarrow> string \<Rightarrow> string list list
    \<Rightarrow> item list list res" where
  "ddm_cmds m environ dir_test objectfile new_cmds =
     (if new_cmds = [] then Inl IndexError
      else let objcopy = map_of environ ''RISCV_OBJCOPY'';
               f = (\<lambda>name. path_div dir_test name)
           in Inr (map (\<lambda>cmd. map (\<lambda>token. IStr (ddm_linker m token)) cmd) (butlast new_cmds)
                 @ [objcopy_cmd objcopy ''verilog'' only_sections objectfile (f ''test.dm.vmem''),
                    objcopy_cmd objcopy ''verilog'' remove_sections objectfile (f ''test.main.vmem''),
                    objcopy_cmd objcopy ''binary'' only_sections objectfile (f ''test.dm.bin''),
                    objcopy_cmd objcopy ''binary'' remove_sections objectfile (f ''test.main.bin'')]))"

definition ddm_trr :: "string \<Rightarrow> trr \<Rightarrow> trr" where
  "ddm_trr dir_test t =
     t\<lparr>trr_vmem_main := Some (path_div dir_test ''test.main.vmem''),
       trr_vmem_dm := Some (path_div dir_test ''test.dm.vmem''),
       trr_binary_main := Some (path_div dir_test ''test.main.bin''),
       trr_binary_dm := Some (path_div dir_test ''test.dm.bin'')\<rparr>"

text \<open>What the function returns: commands or, when riscv-dv failed, its status.\<close>

datatype compiled = Status int | Cmds trr "item list list"

definition orig_cmds :: "string \<Rightarrow> string list list res" where
  "orig_cmds src =
     map_res shlex_split (filter (\<lambda>l. l \<noteq> []) (map py_strip (split_on (CHR 0x0A) src)))"

text \<open>The part after riscv-dv has listed its commands.\<close>

definition massage :: "outside \<Rightarrow> regression_metadata \<Rightarrow> trr \<Rightarrow> string \<Rightarrow> string list list \<Rightarrow> compiled res" where
  "massage out m t dir_test cmds =
     (let placeholder = path_div (o_tmp out) ''@@PLACEHOLDER@@'';
          objectfile = path_div dir_test ''test.o'';
          t = t\<lparr>trr_objectfile := Some objectfile, trr_binary := Some (path_div dir_test ''test.bin'')\<rparr>
      in bind_res (map_res (rewrite_cmd placeholder (rewrite_table placeholder t)) cmds) (\<lambda>new_cmds.
         if trr_testtype t = Some RISCVDV \<and> trr_is_discrete_debug_module t = Some True
         then bind_res (ddm_cmds m (env_vars (o_host out)) dir_test objectfile new_cmds)
                (\<lambda>cs. Inr (Cmds (ddm_trr dir_test t) cs))
         else Inr (Cmds t (map (map IStr) new_cmds))))"

definition get_riscvdv_compile_cmds :: "outside \<Rightarrow> regression_metadata \<Rightarrow> trr \<Rightarrow> effect list \<times> compiled res" where
  "get_riscvdv_compile_cmds out m t =
     (case path_field (trr_dir_test t) ''compile_gen.riscv-dv.log'' of
        Inl e \<Rightarrow> ([], Inl e)
      | Inr log \<Rightarrow>
     (case format_to_cmd (o_resolve out) (compile_gen_cmd m t
             (path_div (o_tmp out) ''@@PLACEHOLDER@@'') (path_div (o_tmp out) ''orig-cmds.list'')) of
        Inl e \<Rightarrow> ([], Inl e)
      | Inr cmd \<Rightarrow>
     (case call_one out (md_verbose m) cmd (ToPath log) of
        (es, Inl e) \<Rightarrow> (es, Inl e)
      | (es, Inr dv_ret) \<Rightarrow>
          if dv_ret \<noteq> 0 then (es, Inr (Status dv_ret))
          else (es, bind_res (bind_res (o_src out) orig_cmds) (massage out m
                 (t\<lparr>trr_compile_asm_gen_log := Some log, trr_compile_asm_gen_cmds := Some [cmd]\<rparr>)
                 (the (trr_dir_test t)))))))"

section \<open>Compiling a directed test\<close>

text \<open>A value that is used as a path, and its text in a formatted string.\<close>

definition path_value :: "pyval option \<Rightarrow> string option" where
  "path_value v = (case v of None \<Rightarrow> None | Some PNone \<Rightarrow> None | Some x \<Rightarrow> Some (py_str x))"

definition toolchain_set :: "(string, string) dict \<Rightarrow> bool" where
  "toolchain_set environ \<longleftrightarrow>
     list_all (\<lambda>e. map_of environ e \<noteq> None) [''RISCV_TOOLCHAIN'', ''RISCV_GCC'', ''RISCV_OBJCOPY'']"

definition gcc_line :: "string \<Rightarrow> string \<Rightarrow> (string, pyval) dict \<Rightarrow> string \<Rightarrow> string option \<Rightarrow> string" where
  "gcc_line gcc gcc_opts d objectfile assembly =
     py_join '' '' [gcc, gcc_opts, ''-I'' @ opt_text id (path_value (map_of d ''includes'')),
       ''-T'' @ opt_text id (path_value (map_of d ''ld_script'')), ''-o '' @ objectfile,
       opt_text id assembly]"

definition objcopy_line :: "string \<Rightarrow> string \<Rightarrow> string \<Rightarrow> string" where
  "objcopy_line objcopy objectfile bin_file =
     py_join '' '' [objcopy, ''-O binary '' @ objectfile, bin_file]"

definition get_directed_compile_cmds :: "outside \<Rightarrow> regression_metadata \<Rightarrow> trr \<Rightarrow> compiled res" where
  "get_directed_compile_cmds out m t =
     (let environ = env_vars (o_host out) in
      if \<not> toolchain_set environ
      then Inl (RuntimeError ''Missing required environment variables for the RISCV TOOLCHAIN'')
      else case trr_directed_data t of
        None \<Rightarrow> Inl (AttributeError ''get'')
      | Some d \<Rightarrow>
          bind_res (path_field (trr_dir_test t) ''test.o'') (\<lambda>objectfile.
          bind_res (path_field (trr_dir_test t) ''test.bin'') (\<lambda>bin_file.
          case map_of d ''gcc_opts'' of
            Some (PStr gcc_opts) \<Rightarrow>
              let assembly = path_value (map_of d ''test_srcs'');
                  t = t\<lparr>trr_assembly := assembly, trr_objectfile := Some objectfile,
                        trr_binary := Some bin_file\<rparr>
              in bind_res (shlex_split (gcc_line (dict_get environ ''RISCV_GCC'' []) gcc_opts d objectfile
                             assembly)) (\<lambda>gcc.
                 bind_res (shlex_split (objcopy_line (dict_get environ ''RISCV_OBJCOPY'' []) objectfile
                             bin_file)) (\<lambda>objcopy.
                 Inr (Cmds t [map IStr gcc, map IStr objcopy])))
          | _ \<Rightarrow> Inl (TypeError ''sequence item 1: expected str instance''))))"

section \<open>The compile script\<close>

definition compile_and_run :: "outside \<Rightarrow> regression_metadata \<Rightarrow> trr \<Rightarrow> string \<Rightarrow> item list list
    \<Rightarrow> effect list \<times> int res" where
  "compile_and_run out m t log cmds =
     (case map_res (format_to_cmd (o_resolve out)) cmds of
        Inl e \<Rightarrow> ([], Inl e)
      | Inr words \<Rightarrow>
          let t = t\<lparr>trr_compile_asm_log := Some log, trr_compile_asm_cmds := Some words\<rparr>
          in case o_open_error out log of
               Some e \<Rightarrow> ([ExportTrr t], Inl e)
             | None \<Rightarrow>
                 (case call_all out (md_verbose m) (ToStream (Some log) False) words of
                    (es, r) \<Rightarrow> (ExportTrr t # OpenFile log # es, r)))"

definition compile_test :: "outside \<Rightarrow> regression_metadata \<Rightarrow> trr \<Rightarrow> effect list \<times> int res" where
  "compile_test out m t =
     (case trr_testtype t of
        None \<Rightarrow> ([], Inl (UnboundLocalError ''cmds''))
      | Some RISCVDV \<Rightarrow>
          (case get_riscvdv_compile_cmds out m t of
             (es, Inl e) \<Rightarrow> (es, Inl e)
           | (es, Inr (Status ret)) \<Rightarrow> (es, Inl (TypeError '''int' object is not iterable''))
           | (es, Inr (Cmds t cmds)) \<Rightarrow>
               (case compile_and_run out m t (path_div (the (trr_dir_test t)) ''compile.riscvdv.log'') cmds of
                  (es', r) \<Rightarrow> (es @ es', r)))
      | Some DIRECTED \<Rightarrow>
          (case get_directed_compile_cmds out m t of
             Inl e \<Rightarrow> ([], Inl e)
           | Inr (Status ret) \<Rightarrow> ([], Inl (TypeError '''int' object is not iterable''))
           | Inr (Cmds t cmds) \<Rightarrow>
               compile_and_run out m t (path_div (the (trr_dir_test t)) ''compile.directed.log'') cmds))"

section \<open>Simulating a test\<close>

text \<open>\<open>get_test_entry\<close> on the loaded list: entries after the match are not looked at.\<close>

fun find_entry :: "pyval \<Rightarrow> pyval list \<Rightarrow> test_entry res" where
  "find_entry testname [] = Inl (RuntimeError (''No matching test entry for '' @ py_repr testname))"
| "find_entry testname (PDict d # es) =
     (if dict_get (entry_of d) ''test'' PNone = testname then Inr (entry_of d)
      else find_entry testname es)"
| "find_entry testname (_ # es) = Inl (AttributeError ''get'')"

definition get_test_entry_in :: "outside \<Rightarrow> pyval \<Rightarrow> string \<Rightarrow> test_entry res" where
  "get_test_entry_in out testname testlist =
     bind_res (read_yaml (fs_read (o_host out)) (yaml_parse (o_host out)) testlist) (\<lambda>yaml_data.
       case yaml_data of
         PList es \<Rightarrow> find_entry testname es
       | PDict d \<Rightarrow> find_entry testname (map fst d)
       | PStr s \<Rightarrow> find_entry testname (map (\<lambda>c. PStr [c]) s)
       | _ \<Rightarrow> Inl (TypeError ''object is not iterable''))"

definition test_options :: "outside \<Rightarrow> regression_metadata \<Rightarrow> trr \<Rightarrow> test_entry res" where
  "test_options out m t =
     (case trr_testtype t of
        None \<Rightarrow> Inl (UnboundLocalError ''testopts'')
      | Some RISCVDV \<Rightarrow>
          get_test_entry_in out (case trr_testname t of None \<Rightarrow> PNone | Some name \<Rightarrow> PStr name)
            (md_ibex_riscvdv_testlist m)
      | Some DIRECTED \<Rightarrow>
          (case trr_directed_data t of
             None \<Rightarrow> Inl (TypeError '''NoneType' object is not subscriptable'') | Some d \<Rightarrow> Inr d))"

definition timeout_of :: "regression_metadata \<Rightarrow> test_entry \<Rightarrow> pyval" where
  "timeout_of m testopts =
     (case map_of testopts ''timeout_s'' of
        Some v \<Rightarrow> if truthy v then v else PInt (md_run_rtl_timeout_s m)
      | None \<Rightarrow> PInt (md_run_rtl_timeout_s m))"

definition extra_sim_opts :: "test_entry \<Rightarrow> string res" where
  "extra_sim_opts testopts =
     (case map_of testopts ''sim_opts'' of
        Some (PStr s) \<Rightarrow> Inr (filter (\<lambda>c. c \<noteq> CHR 0x0A) s)
      | Some v \<Rightarrow> if truthy v then Inl (AttributeError ''replace'') else Inr []
      | None \<Rightarrow> Inr [])"

definition ddm_opts :: "trr \<Rightarrow> string" where
  "ddm_opts t =
     (if trr_testtype t = Some RISCVDV \<and> trr_is_discrete_debug_module t = Some True
      then '' +vmem_main='' @ opt_text id (trr_vmem_main t) @ newline
         @ '' +vmem_dm='' @ opt_text id (trr_vmem_dm t) @ newline
         @ '' +bin_main='' @ opt_text id (trr_binary_main t) @ newline
         @ '' +bin_dm='' @ opt_text id (trr_binary_dm t) @ newline
      else [])"

text \<open>The values for the placeholders of the simulator's command; \<open>None\<close> is refused by the type check.\<close>

definition sim_subst :: "regression_metadata \<Rightarrow> trr \<Rightarrow> string \<Rightarrow> string \<Rightarrow> (string \<times> subst_value option) list" where
  "sim_subst m t dir_test sim_opts =
     [(''cwd'', Some (SPath (md_ibex_root m))), (''test_name'', map_option SStr (trr_testname t)),
      (''rtl_test'', (case trr_rtl_test t of Some (PStr s) \<Rightarrow> Some (SStr s) | _ \<Rightarrow> None)),
      (''seed'', Some (SStr (opt_text str_int (trr_seed t)))),
      (''binary'', map_option SPath (trr_binary t)), (''test_dir'', Some (SPath dir_test)),
      (''tb_dir'', Some (SPath (md_dir_tb m))),
      (''dir_shared_cov'', Some (SPath (md_dir_shared_cov m))),
      (''rtl_sim_log'', map_option SPath (trr_rtl_log t)),
      (''rtl_trace'', map_option (\<lambda>p. SPath (path_div (path_parent p) ''trace_core'')) (trr_rtl_trace t)),
      (''iss_cosim_trace'', map_option SPath (trr_iss_cosim_trace t)),
      (''core_ibex'', Some (SPath (md_ibex_dv_root m))), (''sim_opts'', Some (SStr sim_opts))]"

definition checked_subst :: "(string \<times> subst_value option) list \<Rightarrow> (string, subst_value) dict res" where
  "checked_subst vs =
     map_res (\<lambda>(k, v). case v of
         None \<Rightarrow> Inl (TypeError ''type of argument user_subst_options must be a dict of str or Path'')
       | Some x \<Rightarrow> Inr (k, x)) vs"

definition sim_opts_text :: "regression_metadata \<Rightarrow> trr \<Rightarrow> string \<Rightarrow> string \<Rightarrow> string" where
  "sim_opts_text m t cfg_opts sim_opts =
     ''+signature_addr='' @ md_signature_addr m @ newline
     @ ''+test_timeout_s='' @ opt_text py_str (trr_timeout_s t) @ newline
     @ cfg_opts @ newline @ opt_text id (trr_ddm_sim_opts t) @ sim_opts"

text \<open>The record and the commands of the simulation.\<close>

definition prepare_rtl :: "outside \<Rightarrow> regression_metadata \<Rightarrow> trr \<Rightarrow> (trr \<times> string \<times> string list list) res" where
  "prepare_rtl out m t =
     bind_res (test_options out m t) (\<lambda>testopts.
     bind_res (get_item testopts ''rtl_test'') (\<lambda>rtl_test.
     bind_res (extra_sim_opts testopts) (\<lambda>sim_opts.
     bind_res (path_field (trr_dir_test t) ''rtl_sim.log'') (\<lambda>rtl_log.
       let d = the (trr_dir_test t);
           t = t\<lparr>trr_rtl_test := Some rtl_test, trr_timeout_s := Some (timeout_of m testopts),
                 trr_ddm_sim_opts := Some (ddm_opts t), trr_rtl_log := Some rtl_log,
                 trr_rtl_trace := Some (path_div d ''trace_core_00000000.log''),
                 trr_iss_cosim_trace := Some (path_div d (md_iss m @ ''_cosim_trace_core_00000000.log''))\<rparr>
       in bind_res (get_sim_opts (o_host out) (md_ibex_config m) (md_simulator m)) (\<lambda>cfg_opts.
          bind_res (checked_subst (sim_subst m t d (sim_opts_text m t cfg_opts sim_opts))) (\<lambda>us.
          bind_res (o_tools out (md_ibex_riscvdv_simulator_yaml m)) (\<lambda>tools.
          bind_res (get_tool_cmds (o_resolve out) (env_vars (o_host out)) tools (md_simulator m) ''sim''
                      [(''cov_opts'', md_cov m), (''wave_opts'', md_waves m)] us) (\<lambda>sim_cmds.
          Inr (t, d, sim_cmds)))))))))"

definition sim_timeout :: "regression_metadata \<Rightarrow> int" where
  "sim_timeout m = md_run_rtl_timeout_s m + 60"

text \<open>The loop: the status of a command is not looked at, an exception ends it.\<close>

fun sim_loop :: "outside \<Rightarrow> regression_metadata \<Rightarrow> string \<Rightarrow> string list list \<Rightarrow> effect list \<times> unit res" where
  "sim_loop out m log [] = ([], Inr ())"
| "sim_loop out m log (cmd # cmds) =
     (case run_one (o_open_error out) (o_proc out) (md_verbose m) cmd (ToStream (Some log) False)
             (Some (sim_timeout m)) True None of
        (ev, r) \<Rightarrow>
          let head = Process (StreamText (''Running run-rtl command :'' @ newline @ py_join '' '' cmd @ newline) # ev)
          in (case r of
                Inl e \<Rightarrow> ([head], Inl e)
              | Inr _ \<Rightarrow> (case sim_loop out m log cmds of (es, x) \<Rightarrow> (head # es, x))))"

definition killed :: "regression_metadata \<Rightarrow> trr \<Rightarrow> trr" where
  "killed m t =
     t\<lparr>trr_failure_mode := Some TIMEOUT,
       trr_failure_message := Some (''[FAILURE] Simulation process killed due to timeout ''
         @ ''['' @ str_int (sim_timeout m) @ ''s].'' @ newline)\<rparr>"

definition run_rtl :: "outside \<Rightarrow> regression_metadata \<Rightarrow> trr \<Rightarrow> effect list \<times> int res" where
  "run_rtl out m t =
     (case prepare_rtl out m t of
        Inl e \<Rightarrow> ([], Inl e)
      | Inr (t, d, sim_cmds) \<Rightarrow>
     (case map_res (\<lambda>cmd. format_to_cmd (o_resolve out) (map IStr cmd)) sim_cmds of
        Inl e \<Rightarrow> ([Mkdir d], Inl e)
      | Inr cmds \<Rightarrow>
          let log = path_div d ''rtl_sim_stdstreams.log'';
              t = t\<lparr>trr_rtl_cmds := Some cmds, trr_rtl_stdout := Some log,
                    trr_rtl_log := (if md_simulator m = ''vcs'' then Some log else trr_rtl_log t)\<rparr>
          in case o_open_error out log of
               Some e \<Rightarrow> ([Mkdir d, ExportTrr t], Inl e)
             | None \<Rightarrow>
                 (case sim_loop out m log cmds of
                    (es, Inr _) \<Rightarrow> ([Mkdir d, ExportTrr t, OpenFile log] @ es @ [ExportTrr t], Inr 0)
                  | (es, Inl e) \<Rightarrow>
                      if e = TimeoutExpired
                      then ([Mkdir d, ExportTrr t, OpenFile log] @ es @ [ExportTrr (killed m t)], Inr 0)
                      else ([Mkdir d, ExportTrr t, OpenFile log] @ es, Inl e))))"

section \<open>A killed simulation\<close>

lemma call_sim:
  assumes "run_one oe proc verbose cmd (ToStream (Some log) False) timeout True None = (ev, r)"
  shows "r = (case proc cmd of Exits rc \<Rightarrow> Inr rc | OsErr _ \<Rightarrow> Inr 1 | TimesOut \<Rightarrow> Inl TimeoutExpired)"
  using assms
  by (auto simp: run_one_def open_dest_def announce_def redir_text_def Let_def
      split: outcome.splits if_splits)

lemma sim_loop_result:
  "sim_loop out m log cmds = (es, r) \<Longrightarrow>
   r = (if \<exists>cmd\<in>set cmds. o_proc out cmd = TimesOut then Inl TimeoutExpired else Inr ())"
proof (induction cmds arbitrary: es r)
  case (Cons cmd cmds)
  obtain ev r1 where one: "run_one (o_open_error out) (o_proc out) (md_verbose m) cmd
      (ToStream (Some log) False) (Some (sim_timeout m)) True None = (ev, r1)"
    by (rule prod.exhaust)
  obtain es2 r2 where rest: "sim_loop out m log cmds = (es2, r2)" by (rule prod.exhaust)
  from Cons.prems one rest call_sim [OF one] Cons.IH [OF rest] show ?case
    by (auto simp: Let_def split: outcome.splits)
qed simp

lemma prepare_rtl_keeps:
  assumes "prepare_rtl out m t = Inr (t', d, cmds)"
  shows "trr_failure_mode t' = trr_failure_mode t \<and> trr_dir_test t = Some d"
proof -
  have "path_field p n = Inr s \<Longrightarrow> p \<noteq> None" for p n s
    by (auto simp: path_field_def split: option.splits)
  then show ?thesis using assms by (auto simp: prepare_rtl_def Let_def res_simps)
qed

lemma compare_timed_out:
  "trr_failure_mode t = Some TIMEOUT \<Longrightarrow> compare_test_run trace log t = Inr (t\<lparr>trr_passed := Some False\<rparr>)"
  by (simp add: compare_test_run_def)

text \<open>
  A run of \<^verbatim>\<open>run_rtl.py\<close> that returns has status 0 whatever the simulator's status was.  The
  record it exports last is marked as timed out exactly when one of its commands was killed or
  the record was marked before (the mark is never taken back), and then \<^verbatim>\<open>check_logs.py\<close> fails
  the run whatever its logs say.
\<close>
theorem killed_run_fails:
  assumes "run_rtl out m t = (es, Inr ret)"
  shows "ret = 0 \<and> (\<exists>t' cmds. last es = ExportTrr t' \<and> trr_rtl_cmds t' = Some cmds
    \<and> (if (\<exists>cmd\<in>set cmds. o_proc out cmd = TimesOut) \<or> trr_failure_mode t = Some TIMEOUT
       then \<forall>trace log. compare_test_run trace log t' = Inr (t'\<lparr>trr_passed := Some False\<rparr>)
       else trr_failure_mode t' = trr_failure_mode t))"
proof -
  from assms obtain t1 d sim_cmds where prep: "prepare_rtl out m t = Inr (t1, d, sim_cmds)"
    by (auto simp: run_rtl_def split: sum.splits)
  from assms prep obtain cmds where
      cmds: "map_res (\<lambda>cmd. format_to_cmd (o_resolve out) (map IStr cmd)) sim_cmds = Inr cmds"
    by (auto simp: run_rtl_def split: sum.splits)
  let ?log = "path_div d ''rtl_sim_stdstreams.log''"
  obtain es1 r1 where loop: "sim_loop out m ?log cmds = (es1, r1)" by (rule prod.exhaust)
  let ?t = "t1\<lparr>trr_rtl_cmds := Some cmds, trr_rtl_stdout := Some ?log,
      trr_rtl_log := if md_simulator m = ''vcs'' then Some ?log else trr_rtl_log t1\<rparr>"
  note keep = prepare_rtl_keeps [OF prep]
  note run = assms [unfolded run_rtl_def prep sum.case prod.case cmds Let_def loop]
  show ?thesis
  proof (cases "\<exists>cmd\<in>set cmds. o_proc out cmd = TimesOut")
    case True
    with run sim_loop_result [OF loop]
    have "ret = 0" and "last es = ExportTrr (killed m ?t)"
      by (auto split: option.splits)
    moreover have "trr_failure_mode (killed m ?t) = Some TIMEOUT" "trr_rtl_cmds (killed m ?t) = Some cmds"
      by (simp_all add: killed_def)
    ultimately show ?thesis using True compare_timed_out
      by (intro conjI exI [of _ "killed m ?t"] exI [of _ cmds]) simp_all
  next
    case False
    with run sim_loop_result [OF loop] have "ret = 0" and "last es = ExportTrr ?t"
      by (auto split: option.splits)
    moreover have "trr_failure_mode ?t = trr_failure_mode t" "trr_rtl_cmds ?t = Some cmds"
      using keep by simp_all
    moreover have "trr_failure_mode t = Some TIMEOUT \<Longrightarrow>
        compare_test_run trace log ?t = Inr (?t\<lparr>trr_passed := Some False\<rparr>)" for trace log
      using compare_timed_out [of ?t trace log] keep by simp
    ultimately show ?thesis using False
      by (intro conjI exI [of _ ?t] exI [of _ cmds]) simp_all
  qed
qed

section \<open>Commands of a random test\<close>

lemma replace_all_self: "old \<noteq> [] \<Longrightarrow> replace_all old new old = new"
  by (cases old) (simp_all add: starts_with_def)

lemma py_in_trans: "py_in p q \<Longrightarrow> py_in q s \<Longrightarrow> py_in p s"
  unfolding py_in_iff by (metis append.assoc)

lemma py_in_same_end:
  assumes "py_in (b @ u) (b @ v)" and "last u \<notin> set v" and "u \<noteq> []"
  shows False
proof -
  from assms(1) obtain x y where xy: "b @ v = x @ (b @ u) @ y" by (auto simp: py_in_iff)
  then have "length v = length x + length u + length y"
    by (metis add.assoc add.commute add_left_cancel length_append)
  then have "length (b @ u) \<ge> Suc (length b)" and "length y < length v" using assms(3)
    by (cases u; simp)+
  have "v = drop (length b) (x @ (b @ u) @ y)" using xy by (metis append_eq_conv_conj)
  also have "\<dots> = drop (length b) (x @ b @ butlast u @ [last u] @ y)" using assms(3) by simp
  finally have "v = drop (length b) ((x @ b @ butlast u) @ [last u] @ y)" by simp
  moreover have "length b \<le> length (x @ b @ butlast u)" by simp
  ultimately have "last u \<in> set v" by simp
  with assms(2) show False by simp
qed

lemma rewrite_clean:
  assumes "\<forall>x\<in>set rs. py_in P (fst x)" and "\<not> py_in P w"
  shows "rewrite_word rs w = w"
  using assms(1)
proof (induction rs)
  case (Cons x rs)
  then have "\<not> py_in (fst x) w" using assms(2) py_in_trans by auto
  then show ?case using Cons by (cases x) (simp add: rewrite_word_def replace_all_absent)
qed (simp add: rewrite_word_def)

text \<open>A table whose sources do not occur in one another and whose targets are clean.\<close>

lemma rewrite_source:
  assumes "\<forall>x\<in>set rs. py_in P (fst x) \<and> \<not> py_in P (snd x)" and "P \<noteq> []"
    and "\<forall>x\<in>set rs. \<forall>y\<in>set rs. py_in (fst x) (fst y) \<longrightarrow> fst x = fst y" and "w \<in> fst ` set rs"
  shows "\<exists>r. map_of rs w = Some r \<and> rewrite_word rs w = r \<and> \<not> py_in P r"
  using assms
proof (induction rs)
  case (Cons x rs)
  obtain a b where x: "x = (a, b)" by (cases x)
  show ?case
  proof (cases "a = w")
    case True
    have "a \<noteq> []" using Cons.prems(1,2) x by (auto simp: py_in_iff)
    then have "rewrite_word (x # rs) w = rewrite_word rs b"
      using x True by (simp add: rewrite_word_def replace_all_self)
    moreover have "rewrite_word rs b = b" using Cons.prems(1) x by (intro rewrite_clean) auto
    ultimately show ?thesis using x True Cons.prems(1) by simp
  next
    case False
    then have w: "w \<in> fst ` set rs" using Cons.prems(4) x by auto
    then have "\<not> py_in a w" using Cons.prems(3) x False by fastforce
    then have "rewrite_word (x # rs) w = rewrite_word rs w"
      using x by (simp add: rewrite_word_def replace_all_absent)
    moreover have "\<exists>r. map_of rs w = Some r \<and> rewrite_word rs w = r \<and> \<not> py_in P r"
      using Cons.prems w by (intro Cons.IH) auto
    ultimately show ?thesis using x False by auto
  qed
qed simp

lemma rewrite_table_sources:
  assumes "x \<in> set (rewrite_table P t)" "y \<in> set (rewrite_table P t)"
  shows "py_in P (fst x) \<and> (py_in (fst x) (fst y) \<longrightarrow> fst x = fst y)"
proof -
  let ?b = "P @ ''/asm_test/'' @ opt_text id (trr_testname t)"
  note e = py_in_same_end [of ?b]
  have "py_in P (P @ s)" for s using py_in_middle [of P "[]" s] by simp
  then show ?thesis using assms e [of "''_0.S''" "''_0.o''"] e [of "''_0.S''" "''_0.bin''"]
      e [of "''_0.o''" "''_0.S''"] e [of "''_0.o''" "''_0.bin''"]
      e [of "''_0.bin''" "''_0.S''"] e [of "''_0.bin''" "''_0.o''"]
    by (auto simp: rewrite_table_def Let_def)
qed

text \<open>
  C35: In a command whose every word is one of the three generated file names or does not
  mention the placeholder, exactly the file names are replaced, each by the path of the record,
  and the command is accepted.  In particular a placeholder that riscv-dv printed in another
  form (resolved through a link, say) is neither replaced nor noticed.
\<close>
theorem compile_words_replaced:
  assumes "P \<noteq> []" and "\<forall>x\<in>set (rewrite_table P t). \<not> py_in P (snd x)"
    and "\<forall>w\<in>set cmd. w \<in> fst ` set (rewrite_table P t) \<or> \<not> py_in P w"
  shows "rewrite_cmd P (rewrite_table P t) cmd = Inr (map (\<lambda>w. dict_get (rewrite_table P t) w w) cmd)"
proof -
  let ?rs = "rewrite_table P t"
  have one: "rewrite_word ?rs w = dict_get ?rs w w \<and> \<not> py_in P (dict_get ?rs w w)"
    if "w \<in> set cmd" for w
  proof (cases "w \<in> fst ` set ?rs")
    case True
    then obtain r where "map_of ?rs w = Some r" "rewrite_word ?rs w = r" "\<not> py_in P r"
      using rewrite_source [of ?rs P w] assms(1,2) rewrite_table_sources by blast
    then show ?thesis by (simp add: dict_get_def)
  next
    case False
    then have "\<not> py_in P w" using assms(3) that by blast
    moreover from this have "rewrite_word ?rs w = w" using rewrite_table_sources by (intro rewrite_clean) blast+
    moreover have "map_of ?rs w = None" using False by (simp add: map_of_eq_None_iff)
    ultimately show ?thesis by (simp add: dict_get_def)
  qed
  have "map_res f xs = Inr (map g xs)" if "\<And>x. x \<in> set xs \<Longrightarrow> f x = Inr (g x)" for f :: "string \<Rightarrow> string res" and g xs
    using that by (induction xs) (simp_all add: res_simps)
  then show ?thesis using one by (simp add: rewrite_cmd_def Let_def)
qed

text \<open>
  A compile of the test \<open>basic\<close>: the source and the object file move, and a directory that a link
  leads to stays.
\<close>

definition demo_rtl_trr :: trr where
  "demo_rtl_trr = demo_gen_trr\<lparr>trr_assembly := Some ''/o/test.S'', trr_objectfile := Some ''/o/test.o'',
     trr_binary := Some ''/o/test.bin'', trr_testtype := Some DIRECTED,
     trr_directed_data := Some [(''rtl_test'', PStr ''base'')]\<rparr>"

theorem compile_words_replaced_witness:
  "rewrite_cmd ''/tmp/t/@@P'' (rewrite_table ''/tmp/t/@@P'' demo_rtl_trr)
     [''gcc'', ''/tmp/t/@@P/asm_test/basic_0.S'', ''-I/ram/t/@@P'', ''/tmp/t/@@P/asm_test/basic_0.o'']
   = Inr [''gcc'', ''/o/test.S'', ''-I/ram/t/@@P'', ''/o/test.o'']"
proof -
  let ?P = "''/tmp/t/@@P''"
  let ?rs = "rewrite_table ?P demo_rtl_trr"
  let ?cmd = "[''gcc'', ''/tmp/t/@@P/asm_test/basic_0.S'', ''-I/ram/t/@@P'', ''/tmp/t/@@P/asm_test/basic_0.o'']"
  have "list_all (\<lambda>x. \<not> py_in ?P (snd x)) ?rs" by code_simp
  then have 1: "\<forall>x\<in>set ?rs. \<not> py_in ?P (snd x)" by (simp only: list_all_iff)
  have "list_all (\<lambda>w. List.member (map fst ?rs) w \<or> \<not> py_in ?P w) ?cmd" by code_simp
  then have 2: "\<forall>w\<in>set ?cmd. w \<in> fst ` set ?rs \<or> \<not> py_in ?P w"
    by (simp only: list_all_iff List.member_iff set_map)
  have "map (\<lambda>w. dict_get ?rs w w) ?cmd = [''gcc'', ''/o/test.S'', ''-I/ram/t/@@P'', ''/o/test.o'']"
    by code_simp
  with compile_words_replaced [OF _ 1 2] show ?thesis by simp
qed

text \<open>A simulator that is killed; the record had passed before.\<close>

definition demo_sim_out :: outside where
  "demo_sim_out = demo_out
     \<lparr>o_proc := (\<lambda>cmd. TimesOut),
      o_tools := (\<lambda>f. Inr [(''xlm'', [(''sim'', \<lparr>cmd_list = [''xrun <rtl_test> +bin=<binary>''],
         cmd_opts = [], env_var = None\<rparr>)])])\<rparr>"

lemma demo_killed:
  "case run_rtl demo_sim_out demo_gen_md demo_rtl_trr of
     (es, r) \<Rightarrow> r = Inr 0 \<and> (case last es of
        ExportTrr t \<Rightarrow> trr_rtl_cmds t = Some [[''xrun'', ''base'', ''+bin=/o/test.bin'']] | _ \<Rightarrow> False)"
  by code_simp

theorem killed_run_fails_witness:
  "\<exists>es t'. run_rtl demo_sim_out demo_gen_md demo_rtl_trr = (es, Inr 0) \<and> last es = ExportTrr t'
     \<and> (\<forall>trace log. compare_test_run trace log t' = Inr (t'\<lparr>trr_passed := Some False\<rparr>))"
proof -
  obtain es where run: "run_rtl demo_sim_out demo_gen_md demo_rtl_trr = (es, Inr 0)"
    and cmds: "case last es of ExportTrr t \<Rightarrow>
      trr_rtl_cmds t = Some [[''xrun'', ''base'', ''+bin=/o/test.bin'']] | _ \<Rightarrow> False"
    using demo_killed by (auto split: prod.splits)
  have "\<forall>cmd. o_proc demo_sim_out cmd = TimesOut" by (simp add: demo_sim_out_def)
  with killed_run_fails [OF run] cmds run show ?thesis by (auto split: if_splits)
qed

text \<open>
  When riscv-dv fails to list its compile commands, its status never becomes the status of
  \<^verbatim>\<open>compile_test.py\<close>: the integer is taken for the list of commands and a \<open>TypeError\<close> ends the
  script, with no compile command run and no result exported.
\<close>
theorem failed_listing_raises:
  assumes "get_riscvdv_compile_cmds out m t = (es, Inr (Status ret))" and "trr_testtype t = Some RISCVDV"
  shows "ret \<noteq> 0 \<and> compile_test out m t = (es, Inl (TypeError '''int' object is not iterable''))
    \<and> only_runs es"
proof -
  have no_status: "massage out m t' d cmds \<noteq> Inr (Status ret)" for t' d cmds
    by (auto simp: massage_def Let_def res_simps split: if_splits)
  have "ret \<noteq> 0 \<and> only_runs es"
    using assms(1) no_status call_one_return
    by (auto simp: get_riscvdv_compile_cmds_def res_simps split: sum.splits prod.splits if_splits)
  then show ?thesis using assms by (simp add: compile_test_def)
qed

definition demo_fail_out :: outside where
  "demo_fail_out = demo_out\<lparr>o_proc := (\<lambda>cmd. Exits 3)\<rparr>"

definition demo_random_trr :: trr where
  "demo_random_trr = demo_rtl_trr\<lparr>trr_testtype := Some RISCVDV\<rparr>"

lemma demo_fail_status:
  "case get_riscvdv_compile_cmds demo_fail_out demo_gen_md demo_random_trr of
     (es, Inr (Status ret)) \<Rightarrow> ret = 3 | _ \<Rightarrow> False"
  by code_simp

theorem failed_listing_raises_witness:
  "snd (compile_test demo_fail_out demo_gen_md demo_random_trr)
     = Inl (TypeError '''int' object is not iterable'')"
proof -
  obtain es where s: "get_riscvdv_compile_cmds demo_fail_out demo_gen_md demo_random_trr
      = (es, Inr (Status 3))"
    using demo_fail_status by (auto split: prod.splits sum.splits compiled.splits)
  have "trr_testtype demo_random_trr = Some RISCVDV" by (simp add: demo_random_trr_def)
  from failed_listing_raises [OF s this] show ?thesis by simp
qed

section \<open>Commands of a directed test\<close>

lemma join_append:
  "xs \<noteq> [] \<Longrightarrow> ys \<noteq> [] \<Longrightarrow> py_join sep (xs @ ys) = py_join sep xs @ sep @ py_join sep ys"
proof (induction xs)
  case (Cons x xs)
  then show ?case by (cases "xs = []") (simp_all add: py_join_Cons)
qed simp

text \<open>A word that needs no quoting.\<close>

definition plain_word :: "string \<Rightarrow> bool" where
  "plain_word w \<longleftrightarrow> w \<noteq> [] \<and> (\<forall>c\<in>set w. safe_char c)"

lemma split_plain_words:
  assumes "list_all plain_word ws" and "ws \<noteq> []"
  shows "shlex_split (py_join '' '' ws) = Inr ws"
proof -
  have "map shlex_quote ws = ws"
    using assms(1) by (induction ws) (auto simp: plain_word_def shlex_quote_def)
  then show ?thesis using shlex.split_join [OF assms(2)] by simp
qed

lemma plain_prefix: "plain_word v \<Longrightarrow> \<forall>c\<in>set u. safe_char c \<Longrightarrow> plain_word (u @ v)"
  by (auto simp: plain_word_def)

text \<open>
  With a complete tool chain and words that need no quoting, the commands of a directed test
  are the compiler on the options, paths and sources that the test list gives, and the conversion
  of the object file to a binary, in this order; the record names the files that they write.
\<close>
theorem directed_commands:
  assumes "toolchain_set (env_vars (o_host out))" and "trr_directed_data t = Some d"
    and "trr_dir_test t = Some dir"
    and "map_of (env_vars (o_host out)) ''RISCV_GCC'' = Some gcc"
    and "map_of (env_vars (o_host out)) ''RISCV_OBJCOPY'' = Some objcopy"
    and "map_of d ''gcc_opts'' = Some (PStr (py_join '' '' opts))" and "opts \<noteq> []"
    and "map_of d ''includes'' = Some (PStr inc)" "map_of d ''ld_script'' = Some (PStr ld)"
    and "map_of d ''test_srcs'' = Some (PStr src)"
    and plain: "list_all plain_word (opts @ [gcc, objcopy, inc, ld, src,
        path_div dir ''test.o'', path_div dir ''test.bin''])"
  shows "\<exists>t'. get_directed_compile_cmds out m t = Inr (Cmds t'
      [map IStr ([gcc] @ opts @ [''-I'' @ inc, ''-T'' @ ld, ''-o'', path_div dir ''test.o'', src]),
       map IStr [objcopy, ''-O'', ''binary'', path_div dir ''test.o'', path_div dir ''test.bin'']])
    \<and> trr_assembly t' = Some src \<and> trr_binary t' = Some (path_div dir ''test.bin'')"
proof -
  let ?o = "path_div dir ''test.o''" and ?b = "path_div dir ''test.bin''"
  let ?tail = "[''-I'' @ inc, ''-T'' @ ld, ''-o'', ?o, src]"
  let ?gcc = "[gcc] @ opts @ ?tail"
  have lit: "\<forall>c\<in>set ''-I''. safe_char c" "\<forall>c\<in>set ''-T''. safe_char c"
    "plain_word ''-o''" "plain_word ''-O''" "plain_word ''binary''"
    by (simp_all add: plain_word_def safe_char_def)
  have w: "plain_word gcc" "plain_word objcopy" "plain_word src" "plain_word ?o" "plain_word ?b"
    "list_all plain_word opts" "plain_word (''-I'' @ inc)" "plain_word (''-T'' @ ld)"
    using plain plain_prefix [OF _ lit(1)] plain_prefix [OF _ lit(2)] by simp_all
  have "list_all plain_word ?gcc" using w lit by (simp only: list_all_append list.pred_inject simp_thms)
  then have 1: "shlex_split (py_join '' '' ?gcc) = Inr ?gcc" by (rule split_plain_words) simp
  have "py_join '' '' ?gcc = gcc_line gcc (py_join '' '' opts) d ?o (Some src)"
    using assms(7-9) join_append [OF assms(7), of ?tail "'' ''"]
    by (simp add: gcc_line_def opt_text_def path_value_def py_join_Cons)
  note 1 = 1 [unfolded this]
  have "list_all plain_word [objcopy, ''-O'', ''binary'', ?o, ?b]"
    using w lit by (simp only: list.pred_inject simp_thms)
  then have "shlex_split (py_join '' '' [objcopy, ''-O'', ''binary'', ?o, ?b])
      = Inr [objcopy, ''-O'', ''binary'', ?o, ?b]" by (rule split_plain_words) simp
  moreover have "py_join '' '' [objcopy, ''-O'', ''binary'', ?o, ?b] = objcopy_line objcopy ?o ?b"
    by (simp add: objcopy_line_def)
  ultimately have 2: "shlex_split (objcopy_line objcopy ?o ?b) = Inr [objcopy, ''-O'', ''binary'', ?o, ?b]"
    by simp
  show ?thesis
    by (simp add: get_directed_compile_cmds_def Let_def assms(1-6,10) path_field_def dict_get_def
        path_value_def 1 2)
qed

definition demo_directed :: "(string, pyval) dict" where
  "demo_directed =
     [(''gcc_opts'', PStr ''-march=rv32imc -nostdlib''), (''includes'', PStr ''/d/inc''),
      (''ld_script'', PStr ''/d/link.ld''), (''test_srcs'', PStr ''/d/empty.S'')]"

definition demo_tools_out :: outside where
  "demo_tools_out = demo_out\<lparr>o_host := demo_host\<lparr>env_vars :=
     [(''RISCV_TOOLCHAIN'', ''/rv''), (''RISCV_GCC'', ''/rv/gcc''), (''RISCV_OBJCOPY'', ''/rv/objcopy'')]\<rparr>\<rparr>"

theorem directed_commands_witness:
  "\<exists>t'. get_directed_compile_cmds demo_tools_out demo_gen_md
       (demo_gen_trr\<lparr>trr_directed_data := Some demo_directed\<rparr>) = Inr (Cmds t'
     [map IStr [''/rv/gcc'', ''-march=rv32imc'', ''-nostdlib'', ''-I/d/inc'', ''-T/d/link.ld'',
                ''-o'', ''/out/basic.7/test.o'', ''/d/empty.S''],
      map IStr [''/rv/objcopy'', ''-O'', ''binary'', ''/out/basic.7/test.o'', ''/out/basic.7/test.bin'']])"
proof -
  let ?t = "demo_gen_trr\<lparr>trr_directed_data := Some demo_directed\<rparr>"
  have h: "toolchain_set (env_vars (o_host demo_tools_out))" "trr_directed_data ?t = Some demo_directed"
    "trr_dir_test ?t = Some ''/out/basic.7''"
    "map_of (env_vars (o_host demo_tools_out)) ''RISCV_GCC'' = Some ''/rv/gcc''"
    "map_of (env_vars (o_host demo_tools_out)) ''RISCV_OBJCOPY'' = Some ''/rv/objcopy''"
    "map_of demo_directed ''gcc_opts'' = Some (PStr (py_join '' '' [''-march=rv32imc'', ''-nostdlib'']))"
    "[''-march=rv32imc'', ''-nostdlib''] \<noteq> []"
    "map_of demo_directed ''includes'' = Some (PStr ''/d/inc'')"
    "map_of demo_directed ''ld_script'' = Some (PStr ''/d/link.ld'')"
    "map_of demo_directed ''test_srcs'' = Some (PStr ''/d/empty.S'')"
    by code_simp+
  have p: "path_div ''/out/basic.7'' ''test.o'' = ''/out/basic.7/test.o''"
    "path_div ''/out/basic.7'' ''test.bin'' = ''/out/basic.7/test.bin''" by code_simp+
  have "list_all plain_word ([''-march=rv32imc'', ''-nostdlib''] @ [''/rv/gcc'', ''/rv/objcopy'', ''/d/inc'',
      ''/d/link.ld'', ''/d/empty.S'', path_div ''/out/basic.7'' ''test.o'',
      path_div ''/out/basic.7'' ''test.bin''])" by code_simp
  from directed_commands [OF h this, of demo_gen_md] show ?thesis unfolding p by auto
qed

end
