(* ===== verification/Build_Tb.thy ===== *)
theory Build_Tb
  imports Run_Test
begin

text \<open>
  \<^verbatim>\<open>compile_tb.py\<close> builds the testbench with the flags of the reference simulator that
  \<^verbatim>\<open>pkg-config\<close> prints; \<^verbatim>\<open>merge_cov.py\<close> merges the coverage databases that the simulations left.
  What \<^verbatim>\<open>pkg-config\<close> prints and the databases that a search finds are parameters.
\<close>

section \<open>Flags of the reference simulator\<close>

definition rpath_prefix :: string where
  "rpath_prefix = ''-Wl,-rpath,''"

definition fixup_rpath :: "string \<Rightarrow> string \<Rightarrow> string" where
  "fixup_rpath simulator t =
     (if simulator = ''xlm'' \<and> starts_with rpath_prefix t
      then ''-Wld,-Xlinker,-rpath,''
           @ py_join '','' (map (\<lambda>p. ''-Xlinker,'' @ p) (split_on (CHR '','') (drop (length rpath_prefix) t)))
      else t)"

definition iss_flags :: "(string list \<Rightarrow> string res) \<Rightarrow> string list \<Rightarrow> string list \<Rightarrow> string \<Rightarrow> string res" where
  "iss_flags check_output specifiers iss_pc simulator =
     bind_res (map_res (\<lambda>s. bind_res (check_output ([''pkg-config'', s] @ iss_pc)) (\<lambda>stdout.
                bind_res (shlex_split (py_strip stdout)) (\<lambda>tokens. Inr (map (fixup_rpath simulator) tokens))))
         specifiers) (\<lambda>all_tokens. Inr (shlex_join (concat all_tokens)))"

definition spike_iss_pc :: "string list" where
  "spike_iss_pc = [''riscv-riscv'', ''riscv-disasm'', ''riscv-fdt'', ''riscv-fesvr'']"

definition iss_pkgconfig_dict :: "(string, string list) dict" where
  "iss_pkgconfig_dict =
     [(''ISS_CFLAGS'', [''--cflags'']), (''ISS_LDFLAGS'', [''--libs-only-other'']),
      (''ISS_LIBS'', [''--libs-only-l'', ''--libs-only-L''])]"

section \<open>Building the testbench\<close>

definition unset_var :: "(string, string) dict \<Rightarrow> string option" where
  "unset_var environ = find (\<lambda>v. map_of environ v = None) [''PRJ_DIR'', ''LOWRISC_IP_DIR'']"

definition pkgs_exist :: "(string list \<Rightarrow> string res) \<Rightarrow> unit res" where
  "pkgs_exist check_output =
     (case check_output ([''pkg-config'', ''--exists''] @ spike_iss_pc) of
        Inr _ \<Rightarrow> Inr ()
      | Inl (CalledProcessError _) \<Rightarrow>
          Inl (RuntimeError (''Failed to find '' @ item_repr (IList (map IStr spike_iss_pc))
            @ '' pkg-config packages. '' @ ''Did you set the PKG_CONFIG_PATH correctly?''))
      | Inl e \<Rightarrow> Inl e)"

definition memory_opts :: string where
  "memory_opts =
     '' -define DM_ADDR=1A11_0000 '' @ '' -define DM_ADDR_MASK=0000_0FFF''
     @ '' -define BOOT_ADDR=8000_0000 '' @ '' -define DEBUG_MODE_HALT_ADDR=8000_0000 ''
     @ '' -define DEBUG_MODE_EXCEPTION_ADDR=8000_0008 ''"

definition tb_subst :: "outside \<Rightarrow> (string list \<Rightarrow> string res) \<Rightarrow> regression_metadata
    \<Rightarrow> (string, subst_value) dict res" where
  "tb_subst out check_output m =
     bind_res (pkgs_exist check_output) (\<lambda>_.
     bind_res (map_res (\<lambda>(k, v). bind_res (iss_flags check_output v spike_iss_pc (md_simulator m))
                 (\<lambda>s. Inr (k, SStr s))) iss_pkgconfig_dict) (\<lambda>iss.
     bind_res (get_compile_opts (o_host out) (md_ibex_config m) (md_simulator m)) (\<lambda>opts.
       Inr ([(''core_ibex'', SPath (md_ibex_dv_root m)), (''tb_dir'', SPath (md_dir_tb m)),
             (''tb_build_log'', SPath (path_div (md_dir_tb m) ''compile_tb.log'')),
             (''cmp_opts'', SStr (opts @ memory_opts)),
             (''dir_shared_cov'', if md_cov m then SPath (md_dir_shared_cov m) else SStr []),
             (''xlm_cov_cfg_file'', SStr (md_ot_xcelium_cov_scripts m @ ''/cover.ccf'')),
             (''dut_cov_rtl_path'', SStr (md_dut_cov_rtl_path m))] @ iss))))"

text \<open>The loop over the build commands: the first nonzero status is returned.\<close>

fun build_loop :: "outside \<Rightarrow> bool \<Rightarrow> string \<Rightarrow> string list list \<Rightarrow> effect list \<times> int res" where
  "build_loop out verbose log [] = ([], Inr 0)"
| "build_loop out verbose log (cmd # cmds) =
     (let head = Process [StreamText (''Running compile_tb command :'' @ newline @ py_join '' '' cmd @ newline)]
      in case call_one out verbose cmd (ToStream (Some log) False) of
           (es, Inl e) \<Rightarrow> (head # es, Inl e)
         | (es, Inr retcode) \<Rightarrow>
             if retcode \<noteq> 0 then (head # es, Inr retcode)
             else (case build_loop out verbose log cmds of (es', r) \<Rightarrow> (head # es @ es', r)))"

text \<open>The metadata is exported when the lock is released, also when an exception leaves the block.\<close>

definition compile_tb :: "outside \<Rightarrow> (string list \<Rightarrow> string res) \<Rightarrow> regression_metadata
    \<Rightarrow> effect list \<times> int res" where
  "compile_tb out check_output m =
     (case unset_var (env_vars (o_host out)) of
        Some var \<Rightarrow> ([], Inl (RuntimeError (''The environment variable '' @ repr_str var @ '' is not set.'')))
      | None \<Rightarrow>
          let m1 = m\<lparr>md_tb_build_log := Some (path_div (md_dir_tb m) ''compile_tb.log'')\<rparr>
          in case tb_subst out check_output m1 of
               Inl e \<Rightarrow> ([Mkdir (md_dir_tb m), ExportMd m1], Inl e)
             | Inr us \<Rightarrow>
                 let log = path_div (md_dir_tb m) ''compile_tb_stdstreams.log'';
                     m2 = m1\<lparr>md_tb_build_stdout := Some log\<rparr>
                 in (case bind_res (o_tools out (md_ibex_riscvdv_simulator_yaml m)) (\<lambda>tools.
                        get_tool_cmds (o_resolve out) (env_vars (o_host out)) tools (md_simulator m) ''compile''
                          [(''cov_opts'', md_cov m), (''wave_opts'', md_waves m), (''cosim_opts'', True)] us) of
                       Inl e \<Rightarrow> ([Mkdir (md_dir_tb m), ExportMd m2], Inl e)
                     | Inr cmds \<Rightarrow>
                         let pre = [Mkdir (md_dir_tb m), ExportMd (m2\<lparr>md_tb_build_cmds := Some cmds\<rparr>)]
                         in (case o_open_error out log of
                               Some e \<Rightarrow> (pre, Inl e)
                             | None \<Rightarrow>
                                 (case build_loop out (md_verbose m) log cmds of
                                    (es, r) \<Rightarrow> (pre @ [OpenFile log] @ es, r)))))"

section \<open>Merging coverage\<close>

text \<open>
  \<open>glob\<close> gives what a search below the run directory finds, in the order in which the set is
  iterated.  Without a database the function returns the integer 1: \<open>None\<close>.
\<close>

definition find_cov_dbs :: "(string \<Rightarrow> string list) \<Rightarrow> string \<Rightarrow> string list option" where
  "find_cov_dbs glob simulator =
     (let cov_dbs = (if simulator = ''xlm'' then glob ''**/*.ucd'' else [])
                    @ (if simulator = ''vcs'' then glob ''**/test.vdb'' else [])
      in if cov_dbs = [] then None else Some cov_dbs)"

definition urg_cmd :: "string \<Rightarrow> string list \<Rightarrow> string list" where
  "urg_cmd dir_cov cov_dirs =
     [''urg'', ''-full64'', ''-format'', ''both'', ''-dbname'', path_div dir_cov ''merged.vdb'',
      ''-report'', path_div dir_cov ''report'', ''-log'', path_div dir_cov ''merge.log'', ''-dir''] @ cov_dirs"

definition not_iterable :: exn where
  "not_iterable = TypeError '''int' object is not iterable''"

text \<open>\<open>m\<close> is the metadata read first, \<open>ml\<close> what is loaded again under the lock.\<close>

definition merge_cov_vcs :: "outside \<Rightarrow> regression_metadata \<Rightarrow> regression_metadata \<Rightarrow> string list option
    \<Rightarrow> effect list \<times> int res" where
  "merge_cov_vcs out m ml dbs =
     (case dbs of
        None \<Rightarrow> ([], Inl not_iterable)
      | Some cov_dirs \<Rightarrow>
          let cmd = urg_cmd (md_dir_cov m) cov_dirs;
              log = path_div (md_dir_cov ml) ''merge.log.stdout'';
              ml = ml\<lparr>md_cov_merge_log := Some (path_div (md_dir_cov ml) ''merge.log''),
                     md_cov_merge_stdout := Some log, md_cov_merge_cmds := Some [cmd]\<rparr>
          in case o_open_error out log of
               Some e \<Rightarrow> ([ExportMd ml], Inl e)
             | None \<Rightarrow> (case call_one out (md_verbose ml) cmd (ToStream (Some log) False) of
                          (es, r) \<Rightarrow> ([ExportMd ml, OpenFile log] @ es, r)))"

definition imc_cmd :: "string list" where
  "imc_cmd = [''imc'', ''-64bit'', ''-licqueue'']"

definition xlm_metadata :: "regression_metadata \<Rightarrow> regression_metadata" where
  "xlm_metadata m =
     (let scripts = path_div (OT_LOWRISC_IP (md_ibex_root m)) ''dv/tools/xcelium'';
          cov = path_div (md_dir_cov m)
      in m\<lparr>md_cov_merge_db_list := Some (cov ''cov_db_runfile''), md_cov_merge_log := Some (cov ''merge.log''),
           md_cov_merge_stdout := Some (cov ''merge.log.stdout''),
           md_cov_merge_cmds := Some [imc_cmd @ [''-exec'', path_div scripts ''cov_merge.tcl'',
             ''-logfile'', cov ''merge.log'']],
           md_cov_report_log := Some (cov ''report.log''),
           md_cov_report_stdout := Some (cov ''report.log.stdout''),
           md_cov_report_cmds := Some [imc_cmd @ [''-load'', md_dir_cov_merged m, ''-init'',
             path_div (path_div (md_ibex_dv_root m) ''waivers'') ''coverage_waivers_xlm.tcl'',
             ''-exec'', path_div scripts ''cov_report.tcl'', ''-logfile'', cov ''report.log'']]\<rparr>)"

definition xlm_env :: "(string, string) dict \<Rightarrow> regression_metadata \<Rightarrow> (string, string) dict" where
  "xlm_env environ m =
     fold (\<lambda>(k, v). dict_set k v)
       [(''cov_merge_db_dir'', md_dir_cov_merged m), (''cov_report_dir'', md_dir_cov_report m),
        (''cov_db_dirs'', []), (''cov_db_runfile'', opt_text id (md_cov_merge_db_list m)),
        (''DUT_TOP'', md_dut_cov_rtl_path m)] environ"

definition runfile :: "string list \<Rightarrow> string" where
  "runfile cov_dbs = py_join newline (map path_parent cov_dbs) @ newline"

text \<open>A tool run whose output goes to a file that is opened first.\<close>

definition logged_run :: "outside \<Rightarrow> regression_metadata \<Rightarrow> string \<Rightarrow> string list \<Rightarrow> (string, string) dict
    \<Rightarrow> effect list \<times> int res" where
  "logged_run out m log cmd env =
     (case o_open_error out log of
        Some e \<Rightarrow> ([], Inl e)
      | None \<Rightarrow> (case run_one (o_open_error out) (o_proc out) (md_verbose m) cmd (ToStream (Some log) False)
                       None False (Some env) of
                   (ev, r) \<Rightarrow> ([OpenFile log, Process ev], r)))"

definition merge_cov_xlm :: "outside \<Rightarrow> regression_metadata \<Rightarrow> string list option \<Rightarrow> effect list \<times> int res" where
  "merge_cov_xlm out ml dbs =
     (let m = xlm_metadata ml;
          cov = path_div (md_dir_cov ml)
      in case dbs of
        None \<Rightarrow> ([ExportMd m], Inl not_iterable)
      | Some cov_dbs \<Rightarrow>
          (case o_open_error out (cov ''cov_db_runfile'') of
             Some e \<Rightarrow> ([ExportMd m], Inl e)
           | None \<Rightarrow>
               let env = xlm_env (env_vars (o_host out)) m;
                   pre = [ExportMd m, WriteFile (cov ''cov_db_runfile'') (runfile cov_dbs), Mkdir (md_dir_cov_merged m)]
               in (case logged_run out m (cov ''merge.log.stdout'') (hd (the (md_cov_merge_cmds m))) env of
                     (es, Inl e) \<Rightarrow> (pre @ es, Inl e)
                   | (es, Inr merge_ret) \<Rightarrow>
                       if merge_ret \<noteq> 0 then (pre @ es, Inr merge_ret)
                       else (case logged_run out m (cov ''report.log.stdout'')
                                    (hd (the (md_cov_report_cmds m))) env of
                               (es', r) \<Rightarrow> (pre @ es @ [Mkdir (md_dir_cov_report m)] @ es', r)))))"

definition merge_cov :: "outside \<Rightarrow> (string \<Rightarrow> string list) \<Rightarrow> regression_metadata \<Rightarrow> regression_metadata
    \<Rightarrow> effect list \<times> int res" where
  "merge_cov out glob m ml =
     (if md_simulator m \<notin> {''xlm'', ''vcs''} then ([], Inl (AttributeError ''simulator''))
      else let dbs = find_cov_dbs glob (md_simulator m)
           in case (if md_simulator m = ''vcs'' then merge_cov_vcs out m ml dbs else merge_cov_xlm out ml dbs) of
                (es, r) \<Rightarrow> (Mkdir (md_dir_cov m) # es, r))"

section \<open>Flags read back\<close>

text \<open>One \<^verbatim>\<open>-Wl,-rpath\<close> token as Xcelium takes it: each path behind its own \<^verbatim>\<open>-Xlinker\<close>.\<close>

definition xlinker_words :: "string list \<Rightarrow> string list" where
  "xlinker_words ps = [''-Wld'', ''-Xlinker'', ''-rpath''] @ concat (map (\<lambda>p. [''-Xlinker'', p]) ps)"

lemma join_pairs:
  "ps \<noteq> [] \<Longrightarrow> py_join '','' (map (\<lambda>p. ''-Xlinker,'' @ p) ps)
     = py_join '','' (concat (map (\<lambda>p. [''-Xlinker'', p]) ps))"
proof (induction ps)
  case (Cons p ps)
  then show ?case by (cases "ps = []") (simp_all add: py_join_Cons)
qed simp

lemma fixup_rpath_xlm:
  assumes "ps \<noteq> []" and "\<forall>p\<in>set ps. CHR '','' \<notin> set p"
  shows "split_on (CHR '','') (fixup_rpath ''xlm'' (rpath_prefix @ py_join '','' ps)) = xlinker_words ps"
proof -
  have "split_on (CHR '','') (py_join '','' ps) = ps" using assms by (intro split_on_join) auto
  moreover have "starts_with rpath_prefix (rpath_prefix @ py_join '','' ps)" by (auto simp: starts_with_iff)
  ultimately have "fixup_rpath ''xlm'' (rpath_prefix @ py_join '','' ps)
      = ''-Wld,-Xlinker,-rpath,'' @ py_join '','' (concat (map (\<lambda>p. [''-Xlinker'', p]) ps))"
    by (simp add: fixup_rpath_def join_pairs [OF assms(1)])
  also have "\<dots> = py_join '','' (xlinker_words ps)"
    using assms(1) by (cases ps) (simp_all add: xlinker_words_def)
  finally show ?thesis
    using assms(2) by (simp only:, intro split_on_join) (auto simp: xlinker_words_def)
qed

text \<open>
  The flags that \<^verbatim>\<open>compile_tb.py\<close> puts into the build template read back, word for word, as
  the tokens that \<^verbatim>\<open>pkg-config\<close> printed for each specifier in turn; for Xcelium a run path token is
  the only one that changes, into a comma list that hands every path to the linker.
\<close>
theorem iss_flags_read_back:
  assumes "list_all2 (\<lambda>s (text, ws). check_output ([''pkg-config'', s] @ pcs) = Inr text
      \<and> shlex_split (py_strip text) = Inr ws) specifiers outputs"
  shows "\<exists>flags. iss_flags check_output specifiers pcs simulator = Inr flags
    \<and> shlex_split flags = Inr (map (fixup_rpath simulator) (concat (map snd outputs)))
    \<and> (\<forall>w. simulator \<noteq> ''xlm'' \<or> \<not> starts_with rpath_prefix w \<longrightarrow> fixup_rpath simulator w = w)
    \<and> (\<forall>ps. ps \<noteq> [] \<and> (\<forall>p\<in>set ps. CHR '','' \<notin> set p) \<longrightarrow>
        split_on (CHR '','') (fixup_rpath ''xlm'' (rpath_prefix @ py_join '','' ps)) = xlinker_words ps)"
proof -
  have "map_res (\<lambda>s. bind_res (check_output ([''pkg-config'', s] @ pcs)) (\<lambda>stdout.
      bind_res (shlex_split (py_strip stdout)) (\<lambda>tokens. Inr (map (fixup_rpath simulator) tokens))))
      specifiers = Inr (map (\<lambda>(text, ws). map (fixup_rpath simulator) ws) outputs)"
    using assms by (induction specifiers outputs rule: list_all2_induct) (auto simp: res_simps)
  then have "iss_flags check_output specifiers pcs simulator
      = Inr (shlex_join (map (fixup_rpath simulator) (concat (map snd outputs))))"
    by (simp add: iss_flags_def map_concat split_def o_def)
  then show ?thesis using fixup_rpath_xlm by (simp add: shlex_split_join fixup_rpath_def)
qed

theorem iss_flags_read_back_witness:
  "bind_res (iss_flags (\<lambda>cmd. Inr (if cmd ! 1 = ''--libs-only-l'' then '' -lriscv -lfdt'' @ newline
        else ''-Wl,-rpath,/spike/lib,/x -L/spike/lib'' @ newline))
      [''--libs-only-l'', ''--libs-only-L''] spike_iss_pc ''xlm'') shlex_split
   = Inr [''-lriscv'', ''-lfdt'', ''-Wld,-Xlinker,-rpath,-Xlinker,/spike/lib,-Xlinker,/x'', ''-L/spike/lib'']"
proof -
  let ?out = "\<lambda>cmd. Inr (if cmd ! 1 = ''--libs-only-l'' then '' -lriscv -lfdt'' @ newline
        else ''-Wl,-rpath,/spike/lib,/x -L/spike/lib'' @ newline) :: string res"
  let ?o = "[('' -lriscv -lfdt'' @ newline, [''-lriscv'', ''-lfdt'']),
      (''-Wl,-rpath,/spike/lib,/x -L/spike/lib'' @ newline, [''-Wl,-rpath,/spike/lib,/x'', ''-L/spike/lib''])]"
  have s: "shlex_split (py_strip ('' -lriscv -lfdt'' @ newline)) = Inr [''-lriscv'', ''-lfdt'']"
    "shlex_split (py_strip (''-Wl,-rpath,/spike/lib,/x -L/spike/lib'' @ newline))
       = Inr [''-Wl,-rpath,/spike/lib,/x'', ''-L/spike/lib'']" by code_simp+
  have "list_all2 (\<lambda>s (text, ws). ?out ([''pkg-config'', s] @ spike_iss_pc) = Inr text
      \<and> shlex_split (py_strip text) = Inr ws) [''--libs-only-l'', ''--libs-only-L''] ?o"
    by (simp only: list_all2_Cons list.rel_inject prod.case s) simp
  from iss_flags_read_back [OF this, of "''xlm''"] obtain flags where
      "iss_flags ?out [''--libs-only-l'', ''--libs-only-L''] spike_iss_pc ''xlm'' = Inr flags"
      "shlex_split flags = Inr (map (fixup_rpath ''xlm'') (concat (map snd ?o)))" by blast
  moreover have "map (fixup_rpath ''xlm'') (concat (map snd ?o))
      = [''-lriscv'', ''-lfdt'', ''-Wld,-Xlinker,-rpath,-Xlinker,/spike/lib,-Xlinker,/x'', ''-L/spike/lib'']"
    by code_simp
  ultimately show ?thesis by simp
qed

text \<open>
  Inside the quotes of a template the flags do not survive: shell quoting of a path with a space
  ends the quotation of the template.
\<close>

lemma quoted_flags_split:
  "iss_flags (\<lambda>cmd. Inr (shlex_quote ''-L/my spike'')) [''--libs-only-L''] [] ''vcs''
     = Inr (shlex_quote ''-L/my spike'')
   \<and> shlex_split (''-LDFLAGS '' @ [CHR 0x27] @ shlex_quote ''-L/my spike'' @ [CHR 0x27])
     = Inr [''-LDFLAGS'', ''-L/my'', ''spike'']"
  by code_simp

text \<open>
  When the search finds no coverage database, \<^verbatim>\<open>merge_cov.py\<close> does not report the status 1 that
  the search returns: for either simulator the integer is iterated over and a \<open>TypeError\<close> ends the
  script before any tool is run.
\<close>
theorem no_databases_raises:
  assumes "find_cov_dbs glob (md_simulator m) = None" and "md_simulator m \<in> {''xlm'', ''vcs''}"
  shows "\<exists>es. merge_cov out glob m ml = (es, Inl not_iterable) \<and> (\<forall>ev. Process ev \<notin> set es)"
  using assms by (auto simp: merge_cov_def merge_cov_vcs_def merge_cov_xlm_def Let_def)

theorem no_databases_raises_witness:
  "\<exists>es. merge_cov demo_out (\<lambda>p. []) demo_gen_md demo_gen_md = (es, Inl not_iterable)"
proof -
  have "find_cov_dbs (\<lambda>p. []) (md_simulator demo_gen_md) = None" "md_simulator demo_gen_md \<in> {''xlm'', ''vcs''}"
    by (simp_all add: find_cov_dbs_def demo_gen_md_def)
  from no_databases_raises [OF this] show ?thesis by blast
qed

end
