(* ===== verification/Formal_Spec.thy ===== *)
theory Formal_Spec
  imports Py_Values
begin

text \<open>
  \<^verbatim>\<open>dv/formal/buildspec.py\<close>: which instructions of the Sail specification the formal proofs
  include, as options for the Sail compiler and as a SystemVerilog header.  \<open>add_all\<close> makes the
  configuration's set the very object of the module constant \<open>INSTRS\<close>; the model keeps that
  sharing: \<open>conf\<close> is either a set of its own or a reference to the constant.
\<close>

section \<open>The configuration\<close>

datatype instr_set = Own "string list" | Shared

text \<open>\<open>INSTRS\<close> in the order in which the set is iterated.\<close>

record spec =
  INSTRS :: "string list"
  conf :: instr_set

definition instrs :: "spec \<Rightarrow> string list" where
  "instrs s = (case conf s of Own xs \<Rightarrow> xs | Shared \<Rightarrow> INSTRS s)"

definition spec_init :: "string list \<Rightarrow> spec" where
  "spec_init names = \<lparr>INSTRS = names, conf = Own []\<rparr>"

text \<open>Adding to the shared set an element that it has leaves it as it is.\<close>

definition add_one :: "spec \<Rightarrow> string \<Rightarrow> spec res" where
  "add_one s instr =
     (if instr \<notin> set (INSTRS s) then Inl AssertionError
      else Inr (case conf s of Own xs \<Rightarrow> s\<lparr>conf := Own (List.insert instr xs)\<rparr> | Shared \<Rightarrow> s))"

definition add :: "string list \<Rightarrow> spec \<Rightarrow> spec res" where
  "add names s = fold_res add_one s names"

definition add_all :: "spec \<Rightarrow> spec" where
  "add_all s = s\<lparr>conf := Shared\<rparr>"

definition add_noncompressed :: "spec \<Rightarrow> spec" where
  "add_noncompressed s = s\<lparr>conf := Own (filter (\<lambda>x. \<not> starts_with ''C_'' x) (INSTRS s))\<rparr>"

definition remove :: "string \<Rightarrow> spec \<Rightarrow> spec res" where
  "remove instr s =
     (if instr \<notin> set (INSTRS s) then Inl AssertionError
      else Inr (case conf s of
                  Own xs \<Rightarrow> s\<lparr>conf := Own (removeAll instr xs)\<rparr>
                | Shared \<Rightarrow> s\<lparr>INSTRS := removeAll instr (INSTRS s)\<rparr>))"

section \<open>Groups\<close>

datatype spec_op =
    Add "string list"
  | Add_all
  | Add_noncompressed
  | Remove string
  | Add_jmps
  | Add_itype
  | Add_rtype
  | Add_fences
  | Add_loads
  | Add_stores
  | Add_mtypes
  | Add_illegal bool
  | Add_system
  | Add_csr
  | Add_utypes
  | Add_btypes

definition add_illegal :: "bool \<Rightarrow> spec \<Rightarrow> spec res" where
  "add_illegal extra s =
     bind_res (add [''ILLEGAL'', ''C_ILLEGAL''] s) (\<lambda>s.
       if extra then bind_res (add [''CSR''] s) (add [''MRET'', ''WFI'']) else Inr s)"

fun spec_step :: "spec_op \<Rightarrow> spec \<Rightarrow> spec res" where
  "spec_step (Add names) s = add names s"
| "spec_step Add_all s = Inr (add_all s)"
| "spec_step Add_noncompressed s = Inr (add_noncompressed s)"
| "spec_step (Remove instr) s = remove instr s"
| "spec_step Add_jmps s = add [''RISCV_JAL'', ''RISCV_JALR''] s"
| "spec_step Add_itype s = bind_res (add [''ITYPE''] s) (add [''SHIFTIOP''])"
| "spec_step Add_rtype s = add [''RTYPE''] s"
| "spec_step Add_fences s = add [''FENCE'', ''FENCEI''] s"
| "spec_step Add_loads s = add [''LOAD''] s"
| "spec_step Add_stores s = add [''STORE''] s"
| "spec_step Add_mtypes s = add [''MUL'', ''DIV'', ''REM''] s"
| "spec_step (Add_illegal extra) s = add_illegal extra s"
| "spec_step Add_system s = add [''ECALL'', ''EBREAK'', ''MRET'', ''WFI''] s"
| "spec_step Add_csr s = add [''CSR''] s"
| "spec_step Add_utypes s = add [''UTYPE''] s"
| "spec_step Add_btypes s = add [''BTYPE''] s"

definition spec_run :: "spec_op list \<Rightarrow> spec \<Rightarrow> spec res" where
  "spec_run ops s = fold_res (\<lambda>s op. spec_step op s) s ops"

section \<open>What is printed\<close>

definition upper_char :: "char \<Rightarrow> char" where
  "upper_char c =
     (case index_of c ''abcdefghijklmnopqrstuvwxyz'' of
        Some i \<Rightarrow> ''ABCDEFGHIJKLMNOPQRSTUVWXYZ'' ! i | None \<Rightarrow> c)"

definition py_upper :: "string \<Rightarrow> string" where
  "py_upper s = map upper_char s"

definition unreachable_opt :: "string \<Rightarrow> string" where
  "unreachable_opt instr = ''-sv_unreachable execute_'' @ instr"

definition make_sail_unreachables :: "spec \<Rightarrow> string" where
  "make_sail_unreachables s =
     py_join '' '' (map unreachable_opt (filter (\<lambda>i. i \<notin> set (instrs s)) (INSTRS s)))"

definition define_line :: "spec \<Rightarrow> string \<Rightarrow> string" where
  "define_line s instr =
     ''`define SPEC_'' @ py_upper instr @ '' '' @ (if instr \<in> set (instrs s) then ''1'' else ''0'')"

definition header_lines :: "spec \<Rightarrow> string list" where
  "header_lines s =
     [''`ifndef SPEC_INSTRS'', ''`define SPEC_INSTRS'', []] @ map (define_line s) (INSTRS s) @ [[], ''`endif'']"

definition make_sv_header :: "spec \<Rightarrow> string" where
  "make_sv_header s = py_join newline (header_lines s)"

definition loc_hack :: "string \<Rightarrow> string" where
  "loc_hack c =
     replace_all ''bit sail_reached_unreachable;''
         (''bit sail_reached_unreachable;'' @ newline @ [CHR 0x09] @ ''logic [31:0] sail_reached_unreachable_loc;'')
       (replace_all ''sail_reached_unreachable = 0;''
          ''begin sail_reached_unreachable = 0; sail_reached_unreachable_loc = -1; end''
       (replace_all ''sail_reached_unreachable = 1;''
          ''begin sail_reached_unreachable = 1; sail_reached_unreachable_loc = `__LINE__; end'' c))"

datatype spec_output = Printed string | Rewrote string | Silent

definition buildspec_main :: "string list \<Rightarrow> string list \<Rightarrow> string res \<Rightarrow> spec_output res" where
  "buildspec_main names args generated =
     (let s = add_noncompressed (spec_init names)
      in case args of
        [] \<Rightarrow> Inr (Printed ''Intended usage is to run make sv'')
      | a # _ \<Rightarrow>
          if a = ''unreachables'' then Inr (Printed (make_sail_unreachables s))
          else if a = ''header'' then Inr (Printed (make_sv_header s))
          else if a = ''unreachable_loc_hack'' then bind_res generated (\<lambda>c. Inr (Rewrote (loc_hack c)))
          else Inr Silent)"

section \<open>The outputs agree\<close>

text \<open>Without \<open>add_all\<close>: the constant stays, the configuration is a set of its own within it.\<close>

definition spec_inv :: "string list \<Rightarrow> spec \<Rightarrow> bool" where
  "spec_inv names s \<longleftrightarrow> INSTRS s = names \<and> (\<exists>xs. conf s = Own xs \<and> set xs \<subseteq> set names)"

lemma spec_inv_init: "spec_inv names (spec_init names)"
  by (simp add: spec_inv_def spec_init_def)

lemma add_one_inv: "spec_inv names s \<Longrightarrow> add_one s i = Inr s' \<Longrightarrow> spec_inv names s'"
  by (auto simp: spec_inv_def add_one_def split: if_splits)

lemma add_inv: "spec_inv names s \<Longrightarrow> add is s = Inr s' \<Longrightarrow> spec_inv names s'"
  unfolding add_def
  by (induction "is" arbitrary: s) (auto simp: res_simps dest: add_one_inv)

lemma add_illegal_inv:
  assumes "spec_inv names s" and "add_illegal extra s = Inr s'"
  shows "spec_inv names s'"
proof -
  from assms(2) obtain s1 where 1: "add [''ILLEGAL'', ''C_ILLEGAL''] s = Inr s1"
    and rest: "(if extra then bind_res (add [''CSR''] s1) (add [''MRET'', ''WFI'']) else Inr s1) = Inr s'"
    unfolding add_illegal_def bind_res_Inr by blast
  note inv = add_inv [OF assms(1) 1]
  show ?thesis
  proof (cases extra)
    case True
    with rest obtain s2 where "add [''CSR''] s1 = Inr s2" "add [''MRET'', ''WFI''] s2 = Inr s'"
      by (auto simp: bind_res_Inr)
    then show ?thesis using add_inv [OF add_inv [OF inv]] by blast
  qed (use rest inv in simp)
qed

lemma remove_inv: "spec_inv names s \<Longrightarrow> remove i s = Inr s' \<Longrightarrow> spec_inv names s'"
  by (auto simp: spec_inv_def remove_def split: if_splits)

lemma add_noncompressed_inv: "spec_inv names s \<Longrightarrow> spec_inv names (add_noncompressed s)"
  by (auto simp: spec_inv_def add_noncompressed_def)

lemma step_inv:
  assumes "spec_inv names s" and "op \<noteq> Add_all" and "spec_step op s = Inr s'"
  shows "spec_inv names s'"
  using assms
  by (cases op) (auto simp: res_simps dest: add_inv add_illegal_inv remove_inv add_noncompressed_inv)

lemma run_inv:
  "spec_inv names s \<Longrightarrow> Add_all \<notin> set ops \<Longrightarrow> spec_run ops s = Inr s' \<Longrightarrow> spec_inv names s'"
  unfolding spec_run_def
proof (induction ops arbitrary: s)
  case (Cons op ops)
  from Cons.prems obtain v where "spec_step op s = Inr v" "fold_res (\<lambda>s op. spec_step op s) v ops = Inr s'"
    by (auto simp: res_simps)
  moreover from Cons.prems(2) have "op \<noteq> Add_all" "Add_all \<notin> set ops" by auto
  ultimately show ?case using Cons.IH Cons.prems(1) step_inv by blast
qed simp


text \<open>
  After \<open>add_all\<close>, removing an instruction removes it from the known ones too: it is neither
  made unreachable nor defined in the header, and it cannot be added again.
\<close>
theorem remove_after_add_all:
  assumes "spec_run ops (spec_init names) = Inr s" and "Add_all \<notin> set ops" and "i \<in> set names"
  shows "\<exists>s'. spec_run (ops @ [Add_all, Remove i]) (spec_init names) = Inr s'
    \<and> i \<notin> set (INSTRS s') \<and> make_sail_unreachables s' = []
    \<and> header_lines s' = [''`ifndef SPEC_INSTRS'', ''`define SPEC_INSTRS'', []]
        @ map (\<lambda>j. ''`define SPEC_'' @ py_upper j @ '' 1'') (removeAll i names) @ [[], ''`endif'']
    \<and> add [i] s' = Inl AssertionError"
proof -
  have inv: "INSTRS s = names" using run_inv [OF spec_inv_init assms(2,1)] by (simp add: spec_inv_def)
  let ?s = "s\<lparr>conf := Shared, INSTRS := removeAll i names\<rparr>"
  have "spec_run (ops @ [Add_all, Remove i]) (spec_init names) = Inr ?s"
    using assms(1,3) inv by (simp add: spec_run_def fold_res_append add_all_def remove_def)
  moreover have "instrs ?s = removeAll i names" by (simp add: instrs_def)
  ultimately show ?thesis
    by (intro exI [of _ ?s])
       (simp add: make_sail_unreachables_def header_lines_def define_line_def add_def add_one_def
          cong: map_cong filter_cong)
qed


theorem remove_after_add_all_witness:
  "\<exists>s. spec_run [Add_all, Remove ''RTYPE''] (spec_init [''UTYPE'', ''RTYPE'']) = Inr s
     \<and> make_sail_unreachables s = [] \<and> add [''RTYPE''] s = Inl AssertionError"
proof -
  have "spec_run [] (spec_init [''UTYPE'', ''RTYPE'']) = Inr (spec_init [''UTYPE'', ''RTYPE''])"
    by (simp add: spec_run_def)
  from remove_after_add_all [OF this, of "''RTYPE''"] show ?thesis by auto
qed

section \<open>The repair of the generated files\<close>

text \<open>
  \<^verbatim>\<open>fix_pmp_bug.py\<close> on the texts of \<open>ibexspec.sv\<close> and \<open>sail_genlib_ibexspec.sv\<close>: the definition of a type
  moves from the first to the start of the second.
\<close>

definition PMPCFG_TYPEDEF :: string where
  "PMPCFG_TYPEDEF = py_join newline
     [[], ''typedef struct {'', ''    logic [7:0] bits;'', ''} t_Pmpcfg_ent;'', []]"

definition fix_pmp_bug :: "string \<Rightarrow> string \<Rightarrow> string \<times> string" where
  "fix_pmp_bug ibexspec genlib =
     (replace_all PMPCFG_TYPEDEF [] ibexspec, PMPCFG_TYPEDEF @ newline @ genlib)"

end
