(* ===== verification/Cov_Report.thy ===== *)
theory Cov_Report
  imports Regex Complex_Main
begin

text \<open>
  The coverage part of \<^verbatim>\<open>report_lib/util.py\<close>: reading Xcelium's coverage tables and summing them up
  for the reports.  Numbers that the code holds as floats are rationals here, without rounding.
\<close>

section \<open>Searching and replacing\<close>

text \<open>
  \<open>re.finditer\<close> and \<open>re.sub\<close> with a fixed text, for patterns that match no empty string: after a
  match the search goes on behind it.
\<close>

definition first_match :: "regex \<Rightarrow> string \<Rightarrow> (string \<times> caps) option" where
  "first_match r s =
     (case mtch r s of
        [] \<Rightarrow> None
      | (t, c) # _ \<Rightarrow> if length t < length s then Some (t, c) else None)"

lemma first_match_shorter: "first_match r s = Some (t, c) \<Longrightarrow> length t < length s"
  by (auto simp: first_match_def split: list.splits prod.splits if_splits)

function re_finditer :: "regex \<Rightarrow> string \<Rightarrow> caps list" where
  "re_finditer r s =
     (case first_match r s of
        Some (t, c) \<Rightarrow> c # re_finditer r t
      | None \<Rightarrow> (case s of [] \<Rightarrow> [] | _ # s' \<Rightarrow> re_finditer r s'))"
  by pat_completeness auto
termination
  by (relation "measure (\<lambda>(r, s). length s)") (auto dest: first_match_shorter)

function re_sub :: "regex \<Rightarrow> string \<Rightarrow> string \<Rightarrow> string" where
  "re_sub r new s =
     (case first_match r s of
        Some (t, c) \<Rightarrow> new @ re_sub r new t
      | None \<Rightarrow> (case s of [] \<Rightarrow> [] | x # s' \<Rightarrow> x # re_sub r new s'))"
  by pat_completeness auto
termination
  by (relation "measure (\<lambda>(r, new, s). length s)") (auto dest: first_match_shorter)

declare re_finditer.simps [simp del] re_sub.simps [simp del]

definition any_char :: "char \<Rightarrow> bool" where
  "any_char c \<longleftrightarrow> c \<noteq> CHR 0x0A"

definition HEADER_RE :: regex where
  "HEADER_RE = Seqs [Grp ''1'' (Plus (Cls word_char)), Opt (Str ''*''), Plus (Cls is_ws),
     Grp ''2'' (Alt (Str ''average'') (Str ''covered''))]"

definition COVERAGE_RE :: regex where
  "COVERAGE_RE = Seqs [Str ''('', Grp ''1'' (Plus (Cls is_digit)), Str ''/'',
     Grp ''2'' (Plus (Cls is_digit)), Star (Cls any_char), Str '')'']"

definition AVERAGE_RE :: regex where
  "AVERAGE_RE = Seqs [Grp ''1'' (Seq (Plus (Cls is_digit)) (Opt (Seq (Cls any_char) (Plus (Cls is_digit))))),
     Str ''%'']"

definition GAP_RE :: regex where
  "GAP_RE = Seqs [Str ''%'', Plus (Cls is_ws), Str ''('']"

section \<open>Lines and numbers\<close>

definition line_end :: "char \<Rightarrow> bool" where
  "line_end c \<longleftrightarrow> c \<in> {CHR 0x0A, CHR 0x0D, CHR 0x0B, CHR 0x0C, CHR 0x1C, CHR 0x1D, CHR 0x1E}"

text \<open>\<open>splitlines\<close>; a carriage return with its line feed ends one line.\<close>

fun splitlines_go :: "string \<Rightarrow> string \<Rightarrow> string list" where
  "splitlines_go l [] = (if l = [] then [] else [rev l])"
| "splitlines_go l [c] = (if line_end c then [rev l] else [rev (c # l)])"
| "splitlines_go l (c # d # s) =
     (if c = CHR 0x0D \<and> d = CHR 0x0A then rev l # splitlines_go [] s
      else if line_end c then rev l # splitlines_go [] (d # s)
      else splitlines_go (c # l) (d # s))"

definition splitlines :: "string \<Rightarrow> string list" where
  "splitlines s = splitlines_go [] s"

text \<open>
  \<open>float\<close> of what the pattern for an average lets through: digits, or digits, one character and
  digits.
\<close>

definition digits_val :: "string \<Rightarrow> nat" where
  "digits_val s = foldl (\<lambda>n c. 10 * n + (case digit_val c of Some d \<Rightarrow> d | None \<Rightarrow> 0)) 0 s"

definition py_float :: "string \<Rightarrow> rat res" where
  "py_float s =
     (let a = takeWhile is_digit s
      in case dropWhile is_digit s of
        [] \<Rightarrow> Inr (of_nat (digits_val a))
      | c # b \<Rightarrow>
          if c = CHR ''.'' then Inr (of_nat (digits_val a) + of_nat (digits_val b) / 10 ^ length b)
          else if c = CHR ''_'' then Inr (of_nat (digits_val (a @ b)))
          else if c = CHR ''e'' \<or> c = CHR ''E'' then Inr (of_nat (digits_val a) * 10 ^ digits_val b)
          else Inl (ValueError (''could not convert string to float: '' @ repr_str s)))"

section \<open>The parser\<close>

datatype metric = Covered int int | Average rat

type_synonym cov_dict = "(string, (string, metric) dict) dict"

definition header_metrics :: "string \<Rightarrow> (string \<times> string) list" where
  "header_metrics line =
     map (\<lambda>m. (group_str m ''1'', group_str m ''2''))
       (re_finditer HEADER_RE (py_join '' '' (tl (split_ws (py_lower line)))))"

text \<open>The first loop: where the metrics start, and what the columns are.\<close>

definition header_step :: "nat option \<times> (string \<times> string) list \<Rightarrow> nat \<times> string
    \<Rightarrow> nat option \<times> (string \<times> string) list" where
  "header_step st l =
     (case (st, l) of
        ((start, info), (line_no, line)) \<Rightarrow>
          if py_in ''name'' line then (Some (line_no + 2), info @ header_metrics line) else (start, info))"

definition cell_value :: "string \<Rightarrow> string \<Rightarrow> metric option res" where
  "cell_value metric_type v =
     (if metric_type = ''covered''
      then (case re_search COVERAGE_RE v of
              None \<Rightarrow> Inr None
            | Some m \<Rightarrow> bind_res (py_int 10 (group_str m ''1'')) (\<lambda>c.
                        bind_res (py_int 10 (group_str m ''2'')) (\<lambda>t. Inr (Some (Covered c t)))))
      else (case re_search AVERAGE_RE v of
              None \<Rightarrow> Inr None
            | Some m \<Rightarrow> bind_res (py_float (group_str m ''1'')) (\<lambda>x. Inr (Some (Average x)))))"

fun read_cells :: "(string \<times> string) list \<Rightarrow> string list \<Rightarrow> (string, metric) dict \<Rightarrow> (string, metric) dict res" where
  "read_cells info [] d = Inr d"
| "read_cells [] (v # vs) d = Inl IndexError"
| "read_cells ((name, ty) # info) (v # vs) d =
     bind_res (cell_value ty v) (\<lambda>x.
       read_cells info vs (case x of None \<Rightarrow> d | Some m \<Rightarrow> dict_set (name @ ''-'' @ ty) m d))"

definition row_words :: "string \<Rightarrow> string list" where
  "row_words line = split_ws (re_sub GAP_RE ''%('' line)"

definition read_row :: "(string \<times> string) list \<Rightarrow> cov_dict \<Rightarrow> string \<Rightarrow> cov_dict res" where
  "read_row info d line =
     (case row_words line of
        [] \<Rightarrow> Inr d
      | modname # vs \<Rightarrow> bind_res (read_cells info vs []) (\<lambda>ms. Inr (dict_set modname ms d)))"

definition parse_lines :: "string list \<Rightarrow> cov_dict res" where
  "parse_lines ls =
     (case foldl header_step (None, []) (enumerate 0 ls) of
        (None, info) \<Rightarrow> Inl (RuntimeError ''Could not read xcelium coverage report'')
      | (Some start, info) \<Rightarrow> fold_res (read_row info) [] (drop start ls))"

definition parse_xcelium_cov_report :: "string \<Rightarrow> cov_dict res" where
  "parse_xcelium_cov_report cov_report = parse_lines (splitlines cov_report)"

section \<open>The summary\<close>

definition IBEX_COVERAGE_METRICS :: "string list" where
  "IBEX_COVERAGE_METRICS =
     [''block'', ''branch'', ''statement'', ''expression'', ''toggle'', ''fsm'', ''assertion'']"

definition COVERGROUP_IGNORE :: "string list" where
  "COVERGROUP_IGNORE = [''push_pull_agent_pkg'']"

definition add_cov_to_summary :: "(string, metric) dict \<Rightarrow> (string, rat option) dict \<Rightarrow> string
    \<Rightarrow> (string, rat option) dict res" where
  "add_cov_to_summary metric_data summary metric_name =
     (case map_of metric_data (metric_name @ ''-covered'') of
        None \<Rightarrow> Inr summary
      | Some (Average x) \<Rightarrow> Inl (KeyError ''covered'')
      | Some (Covered c t) \<Rightarrow>
          if t = 0 then Inl ZeroDivisionError
          else Inr (dict_set metric_name (Some (of_int c / of_int t)) summary))"

definition cg_values :: "cov_dict \<Rightarrow> rat list res" where
  "cg_values cg =
     bind_res (map_res (\<lambda>(modname, d).
         if modname \<in> set COVERGROUP_IGNORE then Inr None
         else case map_of d ''covergroup-average'' of
                None \<Rightarrow> Inr None
              | Some (Average x) \<Rightarrow> Inr (Some x)
              | Some (Covered c t) \<Rightarrow> Inl (KeyError ''average'')) cg)
       (\<lambda>xs. Inr (List.map_filter id xs))"

definition calc_cg_average :: "cov_dict \<Rightarrow> rat option res" where
  "calc_cg_average cg =
     bind_res (cg_values cg) (\<lambda>xs.
       Inr (if xs = [] then None else Some (sum_list xs / 100 / of_nat (length xs))))"

section \<open>Lemmas on the patterns\<close>

lemma word_char_not: "word_char c \<Longrightarrow> c \<noteq> CHR ''*'' \<and> \<not> is_ws c"
  by (auto simp: word_char_def is_ws_def)

lemma digit_not: "is_digit c \<Longrightarrow> c \<noteq> CHR ''/'' \<and> c \<noteq> CHR '')'' \<and> c \<noteq> CHR ''%'' \<and> \<not> is_ws c"
  by (auto simp: is_digit_def is_ws_def)

text \<open>One header entry, followed by the rest of the line.\<close>

lemma header_entry:
  assumes "run_of word_char n" and "t \<in> {''average'', ''covered''}" and "star \<in> {[], ''*''}"
  shows "mtch HEADER_RE (n @ star @ '' '' @ t @ rest) = [(rest, [(''1'', n), (''2'', t)])]"
proof -
  let ?G = "Grp ''2'' (Alt (Str ''average'') (Str ''covered''))"
  let ?W = "Seq (Plus (Cls is_ws)) ?G"
  have G: "rejects ?G is_ws" by (auto simp: rejects_def Str_def is_ws_def)
  have ws: "is_ws c \<Longrightarrow> \<not> word_char c" for c using word_char_not by blast
  have rej: "rejects (Seq (Opt (Str ''*'')) ?W) word_char"
    by (auto simp: rejects_def Str_def dest: word_char_not)
  have "mtch HEADER_RE (n @ star @ '' '' @ t @ rest)
      = before [(''1'', n)] (mtch (Seq (Opt (Str ''*'')) ?W) (star @ '' '' @ t @ rest))"
    unfolding HEADER_RE_def Seqs.simps
    using assms(1,3) rej by (intro field_run(2)) (auto simp: run_of_def class_then_def word_char_def)
  also have "mtch (Seq (Opt (Str ''*'')) ?W) (star @ '' '' @ t @ rest) = mtch ?W ('' '' @ t @ rest)"
    using assms(3) by (auto simp: Str_def is_ws_def)
  also have "\<dots> = mtch ?G (t @ rest)"
    using assms(2) G by (intro field_run(1)) (auto simp: is_ws_def class_then_def)
  also have "\<dots> = [(rest, [(''2'', t)])]" using assms(2) by (auto simp: Str_def)
  finally show ?thesis by simp
qed

text \<open>The columns of a header: the metric, a star or nothing, and the type.\<close>

type_synonym header = "(string \<times> string \<times> string) list"

definition header_words :: "header \<Rightarrow> string list" where
  "header_words hs = concat (map (\<lambda>(n, star, t). [n @ star, t]) hs)"

definition header_info :: "header \<Rightarrow> (string \<times> string) list" where
  "header_info hs = map (\<lambda>(n, star, t). (n, t)) hs"

definition header_ok :: "header \<Rightarrow> bool" where
  "header_ok hs \<longleftrightarrow>
     (\<forall>(n, star, t)\<in>set hs. run_of word_char n \<and> star \<in> {[], ''*''} \<and> t \<in> {''average'', ''covered''})"

definition header_text :: "header \<Rightarrow> string" where
  "header_text hs = py_join '' '' (header_words hs)"

lemma header_text_Cons:
  "header_text ((n, star, t) # hs) = n @ star @ '' '' @ t @ (if hs = [] then [] else '' '' @ header_text hs)"
  by (cases hs) (auto simp: header_text_def header_words_def)

lemma finditer_header:
  "header_ok hs \<Longrightarrow> re_finditer HEADER_RE (header_text hs) = map (\<lambda>(n, t). [(''1'', n), (''2'', t)]) (header_info hs)"
proof (induction hs)
  case Nil
  have "first_match HEADER_RE [] = None" by (simp add: first_match_def HEADER_RE_def)
  then show ?case
    by (simp add: header_text_def header_words_def header_info_def re_finditer.simps [of HEADER_RE "[]"])
next
  case (Cons x hs)
  obtain n star t where x: "x = (n, star, t)" by (cases x)
  let ?rest = "if hs = [] then [] else '' '' @ header_text hs"
  from Cons.prems x have ok: "run_of word_char n" "t \<in> {''average'', ''covered''}" "star \<in> {[], ''*''}" "header_ok hs"
    by (auto simp: header_ok_def)
  have "first_match HEADER_RE (header_text (x # hs)) = Some (?rest, [(''1'', n), (''2'', t)])"
    unfolding x header_text_Cons first_match_def header_entry [OF ok(1-3)] using ok(1) by simp
  then have "re_finditer HEADER_RE (header_text (x # hs)) = [(''1'', n), (''2'', t)] # re_finditer HEADER_RE ?rest"
    by (simp add: re_finditer.simps [of HEADER_RE "header_text (x # hs)"])
  moreover have "re_finditer HEADER_RE ?rest = re_finditer HEADER_RE (header_text hs)"
  proof (cases "hs = []")
    case False
    have "first_match HEADER_RE ('' '' @ header_text hs) = None"
      by (simp add: first_match_def HEADER_RE_def word_char_def)
    then show ?thesis using False by (simp add: re_finditer.simps [of HEADER_RE "CHR '' '' # header_text hs"])
  qed (simp add: header_text_def header_words_def)
  ultimately show ?case using Cons.IH [OF ok(4)] x by (simp add: header_info_def)
qed

lemma header_metrics_of:
  assumes "header_ok hs" and "tl (split_ws (py_lower h)) = header_words hs"
  shows "header_metrics h = header_info hs"
  using finditer_header [OF assms(1)] assms(2)
  by (simp add: header_metrics_def header_text_def o_def split_def group_str_def group_def)

lemma header_types: "header_ok hs \<Longrightarrow> i \<in> set (header_info hs) \<Longrightarrow> snd i \<in> {''average'', ''covered''}"
  by (auto simp: header_ok_def header_info_def)

section \<open>Cells\<close>

text \<open>What Xcelium prints in a column: a percentage with its counts, an average, or something else.\<close>

datatype cell = CovCell string nat nat | AvgCell string string | EmptyCell string

fun cell_text :: "string \<Rightarrow> cell \<Rightarrow> string" where
  "cell_text gap (CovCell pct c t) =
     pct @ ''%'' @ gap @ ''('' @ str_int (int c) @ ''/'' @ str_int (int t) @ '')''"
| "cell_text gap (AvgCell a b) = a @ ''.'' @ b @ ''%''"
| "cell_text gap (EmptyCell s) = s"

fun cell_metric :: "cell \<Rightarrow> metric option" where
  "cell_metric (CovCell pct c t) = Some (Covered (int c) (int t))"
| "cell_metric (AvgCell a b) =
     Some (Average (of_nat (digits_val a) + of_nat (digits_val b) / 10 ^ length b))"
| "cell_metric (EmptyCell s) = None"

definition plain_cell :: "string \<Rightarrow> bool" where
  "plain_cell s \<longleftrightarrow> s \<noteq> [] \<and> no_ws s \<and> CHR ''%'' \<notin> set s \<and> CHR ''('' \<notin> set s"

fun cell_ok :: "string \<Rightarrow> cell \<Rightarrow> bool" where
  "cell_ok ty (CovCell pct c t) = (ty = ''covered'' \<and> plain_cell pct)"
| "cell_ok ty (AvgCell a b) = (ty = ''average'' \<and> run_of is_digit a \<and> run_of is_digit b)"
| "cell_ok ty (EmptyCell s) = plain_cell s"

lemma re_sub_skip: "CHR ''%'' \<notin> set u \<Longrightarrow> re_sub GAP_RE new (u @ s) = u @ re_sub GAP_RE new s"
proof (induction u)
  case (Cons c u)
  then have "first_match GAP_RE (c # u @ s) = None"
    by (auto simp: first_match_def GAP_RE_def Str_def)
  with Cons show ?case by (simp add: re_sub.simps [of GAP_RE new "c # u @ s"])
qed simp

definition opens :: "string \<Rightarrow> bool" where
  "opens s \<longleftrightarrow> (case dropWhile is_ws s of [] \<Rightarrow> False | c # _ \<Rightarrow> c = CHR ''('')"

lemma gap_match:
  "mtch GAP_RE (CHR ''%'' # s) =
     (if s \<noteq> [] \<and> is_ws (hd s) then mtch (Str ''('') (dropWhile is_ws s) else [])"
proof -
  have "rejects (Str ''('') is_ws" by (auto simp: rejects_def Str_def is_ws_def)
  then show ?thesis by (simp only: GAP_RE_def Seqs.simps mtch_Str1 Plus_field simp_thms if_True)
qed

lemma re_sub_keep:
  assumes "opens s \<Longrightarrow> \<not> is_ws (hd s)"
  shows "re_sub GAP_RE new (CHR ''%'' # s) = CHR ''%'' # re_sub GAP_RE new s"
proof -
  have "first_match GAP_RE (CHR ''%'' # s) = None"
  proof (cases "dropWhile is_ws s")
    case Nil
    then show ?thesis by (simp only: first_match_def gap_match Nil) (simp add: Str_def)
  next
    case (Cons c s')
    then show ?thesis using assms by (auto simp: first_match_def gap_match opens_def Str_def)
  qed
  then show ?thesis by (simp add: re_sub.simps [of GAP_RE new "CHR ''%'' # s"])
qed

lemma re_sub_gap:
  assumes "gap \<noteq> []" "list_all is_ws gap"
  shows "re_sub GAP_RE new (CHR ''%'' # gap @ CHR ''('' # s) = new @ re_sub GAP_RE new s"
proof -
  have "dropWhile is_ws (gap @ CHR ''('' # s) = CHR ''('' # s"
    using assms(2) by (subst dropWhile_append2) (auto simp: list_all_iff is_ws_def)
  then have "first_match GAP_RE (CHR ''%'' # gap @ CHR ''('' # s) = Some (s, [])"
    using assms by (cases gap) (simp_all add: first_match_def gap_match Str_def)
  then show ?thesis by (simp add: re_sub.simps [of GAP_RE new "CHR ''%'' # gap @ CHR ''('' # s"])
qed

text \<open>A row: a module name and its columns, each after some space.\<close>

type_synonym column = "string \<times> string \<times> cell"

definition column_text :: "column \<Rightarrow> string" where
  "column_text = (\<lambda>(pad, gap, c). pad @ cell_text gap c)"

definition bare_text :: "column \<Rightarrow> string" where
  "bare_text = (\<lambda>(pad, gap, c). pad @ cell_text [] c)"

definition column_ok :: "(string \<times> string) \<times> column \<Rightarrow> bool" where
  "column_ok = (\<lambda>((n, ty), pad, gap, c).
     pad \<noteq> [] \<and> list_all is_ws pad \<and> list_all is_ws gap \<and> cell_ok ty c)"

lemma cell_start:
  assumes "cell_ok ty c"
  shows "\<exists>x w. cell_text g c = x # w \<and> \<not> is_ws x \<and> x \<noteq> CHR ''('' \<and> x \<noteq> CHR ''%''"
proof -
  have plain: "plain_cell s \<Longrightarrow> \<exists>x w. s @ u = x # w \<and> \<not> is_ws x \<and> x \<noteq> CHR ''('' \<and> x \<noteq> CHR ''%''" for s u
    by (cases s) (auto simp: plain_cell_def no_ws_def)
  show ?thesis
  proof (cases c)
    case (AvgCell a b)
    have "is_digit y \<Longrightarrow> \<not> is_ws y \<and> y \<noteq> CHR ''('' \<and> y \<noteq> CHR ''%''" for y
      using digit_not [of y] by (auto simp: is_digit_def)
    with assms AvgCell show ?thesis by (cases a) (auto simp: run_of_def)
  qed (use assms plain plain [of _ "[]"] in auto)
qed

lemma columns_not_open:
  assumes "list_all2 (\<lambda>i c. column_ok (i, c)) info cols"
  shows "\<not> opens (concat (map column_text cols))"
  using assms
proof (cases cols)
  case (Cons x cols')
  obtain pad gap c where x: "x = (pad, gap, c)" by (cases x)
  from assms Cons x obtain ty where pad: "list_all is_ws pad" and c: "cell_ok ty c"
    by (auto simp: column_ok_def list_all2_Cons2)
  from cell_start [OF c, of gap] obtain y w where w: "cell_text gap c = y # w" "\<not> is_ws y" "y \<noteq> CHR ''(''"
    by auto
  have "dropWhile is_ws (pad @ y # w @ concat (map column_text cols')) = y # w @ concat (map column_text cols')"
    using pad w by (subst dropWhile_append2) (auto simp: list_all_iff)
  then show ?thesis using Cons x w by (simp add: opens_def column_text_def)
qed (simp add: opens_def)

lemma str_digits: "list_all is_digit (str_int (int n))" "str_int (int n) \<noteq> []"
  using digit_str [of "int n"] by (simp_all add: run_of_def)

lemma no_pct: "list_all is_digit u \<Longrightarrow> CHR ''%'' \<notin> set u"
  using digit_not [of "CHR ''%''"] by (auto simp: list_all_iff)

lemma re_sub_column:
  assumes "column_ok (i, pad, gap, c)" and "\<not> opens s"
  shows "re_sub GAP_RE ''%('' (column_text (pad, gap, c) @ s) = bare_text (pad, gap, c) @ re_sub GAP_RE ''%('' s"
proof -
  obtain n ty where i: "i = (n, ty)" by (cases i)
  have "\<not> is_ws (CHR ''%'')" by (simp add: is_ws_def)
  with assms(1) i have pad: "CHR ''%'' \<notin> set pad" and gap: "list_all is_ws gap" and c: "cell_ok ty c"
    by (auto simp: column_ok_def list_all_iff)
  have no: "CHR ''%'' \<notin> set (u @ str_int (int a) @ ''/'' @ str_int (int b) @ '')'')"
    if "CHR ''%'' \<notin> set u" for u a b
    using that by (simp add: no_pct str_digits)
  note tail = re_sub_skip [OF no [of "[]"], simplified] re_sub_skip [OF no [of "''(''"], simplified]
  show ?thesis
  proof (cases c)
    case (CovCell pct a b)
    have pct: "CHR ''%'' \<notin> set (pad @ pct)" using c pad CovCell by (simp add: plain_cell_def)
    have "re_sub GAP_RE ''%('' (CHR ''%'' # gap @ CHR ''('' # str_int (int a) @ CHR ''/'' # str_int (int b) @ CHR '')'' # s)
      = CHR ''%'' # CHR ''('' # str_int (int a) @ CHR ''/'' # str_int (int b) @ CHR '')'' # re_sub GAP_RE ''%('' s"
    proof (cases "gap = []")
      case True
      show ?thesis unfolding True append_Nil
        by (subst re_sub_keep) (simp_all add: is_ws_def tail)
    qed (simp add: re_sub_gap [OF _ gap] tail)
    with re_sub_skip [OF pct] show ?thesis by (simp add: column_text_def bare_text_def CovCell)
  next
    case (AvgCell a b)
    have "CHR ''%'' \<notin> set (pad @ a @ ''.'' @ b)" using c pad AvgCell by (simp add: run_of_def no_pct)
    from re_sub_skip [OF this, of "''%('' " "CHR ''%'' # s"] re_sub_keep [of s] assms(2) show ?thesis
      by (simp add: column_text_def bare_text_def AvgCell)
  next
    case (EmptyCell u)
    have "CHR ''%'' \<notin> set (pad @ u)" using c pad EmptyCell by (simp add: plain_cell_def)
    from re_sub_skip [OF this] show ?thesis by (simp add: column_text_def bare_text_def EmptyCell)
  qed
qed

lemma re_sub_columns:
  "list_all2 (\<lambda>i c. column_ok (i, c)) info cols \<Longrightarrow>
   re_sub GAP_RE ''%('' (concat (map column_text cols)) = concat (map bare_text cols)"
proof (induction rule: list_all2_induct)
  case Nil
  have "first_match GAP_RE [] = None" by (simp add: first_match_def GAP_RE_def Str_def)
  then show ?case by (simp add: re_sub.simps [of _ _ "[]"])
next
  case (Cons i info c cols)
  obtain pad gap cc where c: "c = (pad, gap, cc)" by (cases c)
  from Cons.hyps(2) have "\<not> opens (concat (map column_text cols))" by (rule columns_not_open)
  with Cons c show ?case by (simp add: re_sub_column)
qed

lemma digits_no_ws: "list_all is_digit u \<Longrightarrow> no_ws u"
  using digit_not by (auto simp: no_ws_def list_all_iff)

lemma mark_no_ws: "no_ws (CHR ''%'' # s) = no_ws s" "no_ws (CHR ''('' # s) = no_ws s"
  "no_ws (CHR ''/'' # s) = no_ws s" "no_ws (CHR '')'' # s) = no_ws s" "no_ws (CHR ''.'' # s) = no_ws s" "no_ws []"
  by (auto simp: no_ws_def is_ws_def)

lemma cell_word: "cell_ok ty c \<Longrightarrow> no_ws (cell_text [] c) \<and> cell_text [] c \<noteq> []"
  by (cases c) (simp_all add: plain_cell_def run_of_def digits_no_ws mark_no_ws)

lemma split_ws_spaces: "list_all is_ws u \<Longrightarrow> split_ws (u @ s) = split_ws s"
  by (induction u) (simp_all add: split_ws_sep)

lemma split_columns:
  assumes "list_all2 (\<lambda>i c. column_ok (i, c)) info cols" "no_ws w" "w \<noteq> []"
  shows "split_ws (w @ concat (map bare_text cols)) = w # map (\<lambda>(pad, gap, c). cell_text [] c) cols"
  using assms
proof (induction arbitrary: w rule: list_all2_induct)
  case Nil
  then show ?case by (simp add: split_ws_word)
next
  case (Cons i info c cols)
  obtain pad gap cc where c: "c = (pad, gap, cc)" by (cases c)
  obtain n ty where i: "i = (n, ty)" by (cases i)
  from Cons.hyps(1) c i obtain x pad' where pad: "pad = x # pad'" "is_ws x" "list_all is_ws pad'"
    and ok: "cell_ok ty cc" by (cases pad) (auto simp: column_ok_def)
  have "split_ws (w @ pad @ cell_text [] cc @ concat (map bare_text cols))
    = w # split_ws (cell_text [] cc @ concat (map bare_text cols))"
    using Cons.prems pad by (simp add: split_ws_word_sep split_ws_spaces)
  with Cons.IH [of "cell_text [] cc"] cell_word [OF ok] show ?case by (simp add: bare_text_def c)
qed

section \<open>Reading a cell\<close>

lemma any_run: "run_of is_digit u \<Longrightarrow> class_then is_digit s \<Longrightarrow>
   mtch (Plus (Cls is_digit)) (u @ s) \<noteq> [] \<and> hd (mtch (Plus (Cls is_digit)) (u @ s)) = (s, [])"
  using Plus_hd [of is_digit u s] by (simp add: run_of_def)

lemma marks_not_digit: "class_then is_digit (CHR ''/'' # s)" "class_then is_digit (CHR '')'' # s)"
  "class_then is_digit (CHR ''%'' # s)" "class_then is_digit (CHR ''.'' # s)"
  by (simp_all add: class_then_def is_digit_def)

lemma coverage_match:
  assumes "run_of is_digit u" "run_of is_digit v"
  shows "re_match COVERAGE_RE (CHR ''('' # u @ CHR ''/'' # v @ '')'') = Some [(''1'', u), (''2'', v)]"
proof -
  let ?close = "Seq (Star (Cls any_char)) (Str '')'')"
  have "mtch ?close '')'' = [([], [])]" by (simp add: any_char_def Str_def mtch_Star_Cls)
  then have e: "mtch ?close '')'' \<noteq> [] \<and> hd (mtch ?close '')'') = ([], [])" by simp
  note g2 = group_hd [OF any_run [OF assms(2) marks_not_digit(2) [of "[]"]], of "''2''"]
  note g1 = group_hd [OF any_run [OF assms(1) marks_not_digit(1) [of "v @ '')''"]], of "''1''"]
  have slash: "mtch (Str ''/'') (CHR ''/'' # v @ '')'') \<noteq> []
      \<and> hd (mtch (Str ''/'') (CHR ''/'' # v @ '')'')) = (v @ '')'', [])"
    by (simp add: Str_def)
  have "mtch (Str ''('') (CHR ''('' # u @ CHR ''/'' # v @ '')'') \<noteq> []
      \<and> hd (mtch (Str ''('') (CHR ''('' # u @ CHR ''/'' # v @ '')'')) = (u @ CHR ''/'' # v @ '')'', [])"
    by (simp add: Str_def)
  from re_match_hd [OF Seq_hd [OF this Seq_hd [OF g1 Seq_hd [OF slash Seq_hd [OF g2 e]]]]]
  show ?thesis by (simp only: COVERAGE_RE_def Seqs.simps append.simps)
qed

lemma average_match:
  assumes "run_of is_digit a" "run_of is_digit b"
  shows "re_match AVERAGE_RE (a @ CHR ''.'' # b @ ''%'') = Some [(''1'', a @ CHR ''.'' # b)]"
proof -
  have dot: "mtch (Cls any_char) (CHR ''.'' # b @ ''%'') \<noteq> []
      \<and> hd (mtch (Cls any_char) (CHR ''.'' # b @ ''%'')) = (b @ ''%'', [])"
    by (simp add: any_char_def)
  note frac = Seq_hd [OF dot any_run [OF assms(2) marks_not_digit(3) [of "[]"]]]
  have opt: "mtch r s \<noteq> [] \<and> hd (mtch r s) = (t, c) \<Longrightarrow> mtch (Opt r) s \<noteq> [] \<and> hd (mtch (Opt r) s) = (t, c)" for r s t c
    by simp
  note num = Seq_hd [OF any_run [OF assms(1) marks_not_digit(4) [of "b @ ''%''"]] opt [OF frac]]
  have eq: "(a @ CHR ''.'' # b) @ ''%'' = a @ CHR ''.'' # b @ ''%''" by simp
  note grp = group_hd [of _ "a @ CHR ''.'' # b" "''%''" "''1''", unfolded eq, OF num [unfolded append_Nil]]
  have pct: "mtch (Str ''%'') ''%'' \<noteq> [] \<and> hd (mtch (Str ''%'') ''%'') = ([], [])" by (simp add: Str_def)
  from re_match_hd [OF Seq_hd [OF grp pct]] show ?thesis by (simp only: AVERAGE_RE_def Seqs.simps append.simps)
qed

lemma coverage_needs: "lang COVERAGE_RE w \<Longrightarrow> CHR ''('' \<in> set w"
  unfolding COVERAGE_RE_def Seqs.simps by (erule lang.cases) (auto dest: lang_Str_set)

lemma average_needs: "lang AVERAGE_RE w \<Longrightarrow> CHR ''%'' \<in> set w"
  unfolding AVERAGE_RE_def Seqs.simps by (erule lang.cases) (auto dest: lang_Str_set)

lemma coverage_skip:
  assumes "CHR ''('' \<notin> set u"
  shows "re_search COVERAGE_RE (u @ s) = re_search COVERAGE_RE s"
  using assms
proof (induction u)
  case (Cons x u)
  then have "x \<noteq> CHR ''(''" by auto
  then have "mtch COVERAGE_RE (x # u @ s) = []" by (simp add: COVERAGE_RE_def mtch_Str1 del: mtch.simps)
  with Cons show ?case by (simp add: re_match_def)
qed simp

lemma cell_value_text:
  assumes "cell_ok ty c" "ty \<in> {''average'', ''covered''}"
  shows "cell_value ty (cell_text [] c) = Inr (cell_metric c)"
proof (cases c)
  case (CovCell pct a b)
  with assms(1) have ty: "ty = ''covered''" and p: "CHR ''('' \<notin> set (pct @ ''%'')" by (auto simp: plain_cell_def)
  have "re_search COVERAGE_RE (CHR ''('' # str_int (int a) @ CHR ''/'' # str_int (int b) @ '')'')
    = Some [(''1'', str_int (int a)), (''2'', str_int (int b))]"
    by (simp add: coverage_match digit_str)
  with coverage_skip [OF p] show ?thesis
    by (simp add: cell_value_def ty CovCell group_str_def group_def int_str_int)
next
  case (AvgCell a b)
  with assms(1) have ty: "ty = ''average''" and d: "run_of is_digit a" "run_of is_digit b" by auto
  have dw: "list_all is_digit u \<Longrightarrow> dropWhile is_digit (u @ CHR ''.'' # b) = CHR ''.'' # b
      \<and> takeWhile is_digit (u @ CHR ''.'' # b) = u" for u
    by (induction u) (simp_all add: is_digit_def)
  have "re_search AVERAGE_RE (a @ CHR ''.'' # b @ ''%'') = Some [(''1'', a @ CHR ''.'' # b)]"
    using average_match [OF d] d(1) by (cases a) (simp_all add: run_of_def)
  with dw [of a] d show ?thesis
    by (simp add: cell_value_def ty AvgCell group_str_def group_def py_float_def run_of_def)
next
  case (EmptyCell u)
  with assms(1) have "CHR ''('' \<notin> set u" "CHR ''%'' \<notin> set u" by (auto simp: plain_cell_def)
  with search_none [OF coverage_needs] search_none [OF average_needs] show ?thesis
    by (simp add: cell_value_def EmptyCell)
qed

section \<open>The table\<close>

definition metric_key :: "string \<times> string \<Rightarrow> string" where
  "metric_key = (\<lambda>(n, ty). n @ ''-'' @ ty)"

definition row_metrics :: "(string \<times> string) list \<Rightarrow> column list \<Rightarrow> (string, metric) dict" where
  "row_metrics info cols =
     concat (map (\<lambda>(i, _, _, c). case cell_metric c of None \<Rightarrow> [] | Some m \<Rightarrow> [(metric_key i, m)]) (zip info cols))"

lemma row_metrics_Cons:
  "row_metrics (i # info) ((pad, gap, c) # cols) =
     (case cell_metric c of None \<Rightarrow> [] | Some m \<Rightarrow> [(metric_key i, m)]) @ row_metrics info cols"
  by (simp add: row_metrics_def)

lemma read_cells_columns:
  assumes "list_all2 (\<lambda>i c. column_ok (i, c)) info cols"
    and "\<forall>i\<in>set info. snd i \<in> {''average'', ''covered''}"
    and "distinct (map metric_key info)" "\<forall>i\<in>set info. metric_key i \<notin> fst ` set d"
  shows "read_cells info (map (\<lambda>(pad, gap, c). cell_text [] c) cols) d = Inr (d @ row_metrics info cols)"
  using assms
proof (induction arbitrary: d rule: list_all2_induct)
  case Nil
  show ?case by (simp add: row_metrics_def)
next
  case (Cons i info x cols)
  obtain pad gap c where x: "x = (pad, gap, c)" by (cases x)
  obtain n ty where i: "i = (n, ty)" by (cases i)
  from Cons.hyps(1) x i have c: "cell_ok ty c" by (simp add: column_ok_def)
  from Cons.prems(1) i have ty: "ty \<in> {''average'', ''covered''}" by simp
  let ?d = "case cell_metric c of None \<Rightarrow> d | Some m \<Rightarrow> dict_set (n @ ''-'' @ ty) m d"
  have d: "?d = d @ (case cell_metric c of None \<Rightarrow> [] | Some m \<Rightarrow> [(metric_key i, m)])"
    using Cons.prems(3) by (auto simp: i metric_key_def dict_set_new split: option.split)
  have "read_cells info (map (\<lambda>(pad, gap, c). cell_text [] c) cols) ?d = Inr (?d @ row_metrics info cols)"
  proof (intro Cons.IH)
    from Cons.prems(2) have "\<forall>j\<in>set info. metric_key j \<noteq> metric_key i"
      by (metis distinct.simps(2) image_eqI list.set_map list.simps(9))
    with Cons.prems(3) show "\<forall>j\<in>set info. metric_key j \<notin> fst ` set ?d"
      unfolding d by (cases "cell_metric c") auto
  qed (use Cons.prems in auto)
  then show ?case
    by (simp add: x i cell_value_text [OF c ty] d [unfolded i] row_metrics_Cons)
qed

text \<open>What a report has to look like.\<close>

definition row_text :: "string \<times> string \<times> column list \<Rightarrow> string" where
  "row_text = (\<lambda>(indent, m, cols). indent @ m @ concat (map column_text cols))"

definition row_ok :: "(string \<times> string) list \<Rightarrow> string \<times> string \<times> column list \<Rightarrow> bool" where
  "row_ok info = (\<lambda>(indent, m, cols). list_all is_ws indent \<and> plain_cell m \<and>
     list_all2 (\<lambda>i c. column_ok (i, c)) info cols)"

lemma row_words_text:
  assumes "row_ok info (indent, m, cols)"
  shows "row_words (row_text (indent, m, cols)) = m # map (\<lambda>(pad, gap, c). cell_text [] c) cols"
proof -
  have ws: "\<not> is_ws (CHR ''%'')" by (simp add: is_ws_def)
  with assms have "CHR ''%'' \<notin> set (indent @ m)"
    by (auto simp: row_ok_def plain_cell_def list_all_iff)
  from re_sub_skip [OF this] assms
  have "re_sub GAP_RE ''%('' (row_text (indent, m, cols)) = indent @ m @ concat (map bare_text cols)"
    by (simp add: row_text_def row_ok_def re_sub_columns [of info cols])
  with assms show ?thesis
    by (simp add: row_words_def row_ok_def split_ws_spaces split_columns [of info cols] plain_cell_def)
qed

definition table_info_ok :: "(string \<times> string) list \<Rightarrow> bool" where
  "table_info_ok info \<longleftrightarrow>
     (\<forall>i\<in>set info. snd i \<in> {''average'', ''covered''}) \<and> distinct (map metric_key info)"

lemma read_row_text:
  assumes "table_info_ok info" "row_ok info (indent, m, cols)" "m \<notin> fst ` set d"
  shows "read_row info d (row_text (indent, m, cols)) = Inr (d @ [(m, row_metrics info cols)])"
proof -
  have "read_cells info (map (\<lambda>(pad, gap, c). cell_text [] c) cols) [] = Inr ([] @ row_metrics info cols)"
    using assms by (intro read_cells_columns) (auto simp: table_info_ok_def row_ok_def)
  then show ?thesis
    by (simp add: read_row_def row_words_text [OF assms(2)] dict_set_new [OF assms(3)])
qed

lemma read_rows_text:
  assumes "table_info_ok info" "\<forall>r\<in>set rows. row_ok info r"
    and "distinct (map (fst \<circ> snd) rows)" "\<forall>r\<in>set rows. fst (snd r) \<notin> fst ` set d"
  shows "fold_res (read_row info) d (map row_text rows)
    = Inr (d @ map (\<lambda>(indent, m, cols). (m, row_metrics info cols)) rows)"
  using assms(2-)
proof (induction rows arbitrary: d)
  case (Cons r rows)
  obtain indent m cols where r: "r = (indent, m, cols)" by (cases r)
  have "fold_res (read_row info) (d @ [(m, row_metrics info cols)]) (map row_text rows)
    = Inr ((d @ [(m, row_metrics info cols)]) @ map (\<lambda>(indent, m, cols). (m, row_metrics info cols)) rows)"
    using Cons.prems r by (intro Cons.IH) (auto simp: image_iff)
  with Cons.prems show ?case by (simp add: r read_row_text [OF assms(1)])
qed simp

lemma header_steps:
  "list_all (\<lambda>l. \<not> py_in ''name'' l) ls \<Longrightarrow> foldl header_step st (enumerate k ls) = st"
  by (induction ls arbitrary: k) (auto simp: header_step_def split_def)

lemma fold_rows_empty: "list_all (\<lambda>l. row_words l = []) ls \<Longrightarrow> fold_res (read_row info) d ls = Inr d"
  by (induction ls) (auto simp: read_row_def)

definition table_lines :: "string list \<Rightarrow> string \<Rightarrow> string \<Rightarrow> (string \<times> string \<times> column list) list \<Rightarrow> string list \<Rightarrow> string list" where
  "table_lines pre h sep rows post = pre @ [h, sep] @ map row_text rows @ post"

definition table_ok :: "string list \<Rightarrow> string \<Rightarrow> string \<Rightarrow> (string \<times> string \<times> column list) list \<Rightarrow> string list
    \<Rightarrow> header \<Rightarrow> bool" where
  "table_ok pre h sep rows post hs \<longleftrightarrow>
     list_all (\<lambda>l. \<not> py_in ''name'' l) (pre @ [sep] @ map row_text rows @ post) \<and>
     py_in ''name'' h \<and> tl (split_ws (py_lower h)) = header_words hs \<and> header_ok hs \<and>
     distinct (map metric_key (header_info hs)) \<and> list_all (row_ok (header_info hs)) rows \<and>
     distinct (map (fst \<circ> snd) rows) \<and> list_all (\<lambda>l. row_words l = []) post"

lemma parse_table_lines:
  assumes "table_ok pre h sep rows post hs"
  shows "parse_lines (table_lines pre h sep rows post)
    = Inr (map (\<lambda>(indent, m, cols). (m, row_metrics (header_info hs) cols)) rows)"
proof -
  from assms have ok: "header_ok hs" "tl (split_ws (py_lower h)) = header_words hs"
    by (simp_all add: table_ok_def)
  have "foldl header_step (None, []) (enumerate 0 (table_lines pre h sep rows post))
      = (Some (length pre + 2), header_info hs)"
    using assms header_metrics_of [OF ok]
    by (simp add: table_ok_def table_lines_def enumerate_append_eq header_steps)
      (simp add: header_step_def)
  moreover have "table_info_ok (header_info hs)"
    using assms header_types [OF ok(1)] by (auto simp: table_info_ok_def table_ok_def)
  then have "fold_res (read_row (header_info hs)) [] (map row_text rows)
      = Inr ([] @ map (\<lambda>(indent, m, cols). (m, row_metrics (header_info hs) cols)) rows)"
    using assms by (intro read_rows_text) (auto simp: table_ok_def list_all_iff)
  ultimately show ?thesis
    using assms by (simp add: parse_lines_def table_lines_def table_ok_def fold_rows_empty)
qed

lemma splitlines_text:
  assumes "list_all (list_all (\<lambda>c. \<not> line_end c)) ls"
  shows "splitlines (concat (map (\<lambda>l. l @ newline) ls)) = ls"
proof -
  have go: "splitlines_go acc (l @ CHR 0x0A # s) = (rev acc @ l) # splitlines_go [] s"
    if "list_all (\<lambda>c. \<not> line_end c) l" for acc l s
    using that
  proof (induction l arbitrary: acc)
    case Nil
    then show ?case by (cases s) (simp_all add: line_end_def)
  next
    case (Cons c l)
    then have "\<not> line_end c" by simp
    then have c: "c \<noteq> CHR 0x0D" "\<not> line_end c" by (auto simp: line_end_def)
    with Cons show ?case by (cases "l @ CHR 0x0A # s") auto
  qed
  from assms show ?thesis
    unfolding splitlines_def by (induction ls) (simp_all add: newline_def go)
qed

section \<open>Properties\<close>

text \<open>
  C14: A coverage report with one header line and a row for each module, in the columns of the
  header, is read back exactly: each module has the metrics that its row shows, in the order of
  the columns; the blanks that Xcelium puts between a percentage and its counts do not matter, and
  columns without a number are left out.
\<close>

theorem report_table_round_trip:
  assumes "table_ok pre h sep rows post hs"
    and "list_all (list_all (\<lambda>c. \<not> line_end c)) (table_lines pre h sep rows post)"
  shows "parse_xcelium_cov_report (concat (map (\<lambda>l. l @ newline) (table_lines pre h sep rows post)))
    = Inr (map (\<lambda>(indent, m, cols). (m, row_metrics (header_info hs) cols)) rows)"
  unfolding parse_xcelium_cov_report_def splitlines_text [OF assms(2)] by (rule parse_table_lines [OF assms(1)])

definition sample_rows :: "(string \<times> string \<times> column list) list" where
  "sample_rows =
     [('' '', ''ibex_top'', [(''  '', '' '', CovCell ''87'' 12 14), ('' '', [], AvgCell ''5'' ''25'')]),
      ([], ''alu'', [('' '', [], EmptyCell ''n/a''), ('' '', [], EmptyCell ''n/a'')])]"

definition sample_header :: string where
  "sample_header = ''name  Block* Covered CoverGroup Average''"

definition sample_columns :: header where
  "sample_columns = [(''block'', ''*'', ''covered''), (''covergroup'', [], ''average'')]"

theorem report_table_round_trip_witness:
  "parse_xcelium_cov_report (concat (map (\<lambda>l. l @ newline)
      (table_lines [''Report''] sample_header ''-----'' sample_rows [[]])))
    = Inr (map (\<lambda>(indent, m, cols). (m, row_metrics (header_info sample_columns) cols)) sample_rows)"
proof (rule report_table_round_trip)
  show "table_ok [''Report''] sample_header ''-----'' sample_rows [[]] sample_columns"
    unfolding table_ok_def by (intro conjI; code_simp)
  show "list_all (list_all (\<lambda>c. \<not> line_end c)) (table_lines [''Report''] sample_header ''-----'' sample_rows [[]])"
    by code_simp
qed

lemma parse_row_keys:
  "fold_res (read_row info) d rows = Inr e \<Longrightarrow> m \<in> set (dict_keys e) \<Longrightarrow>
   m \<in> set (dict_keys d) \<or> (\<exists>r\<in>set rows. \<exists>vs. row_words r = m # vs)"
proof (induction rows arbitrary: d)
  case (Cons r rows)
  then obtain f where f: "read_row info d r = Inr f" "fold_res (read_row info) f rows = Inr e"
    by (auto simp: bind_res_Inr)
  have "f = d \<or> (\<exists>w vs ms. row_words r = w # vs \<and> f = dict_set w ms d)"
    using f(1) by (cases "row_words r") (auto simp: read_row_def bind_res_Inr)
  then have "set (dict_keys f) \<subseteq> set (dict_keys d) \<union> {w. \<exists>vs. row_words r = w # vs}"
  proof (elim disjE exE conjE)
    fix w vs ms assume "row_words r = w # vs" and f: "f = dict_set w ms d"
    then show ?thesis unfolding f dict_set_keys by simp
  qed simp
  with Cons.IH [OF f(2) Cons.prems(2)] show ?case by auto
qed simp

text \<open>
  The rows are those behind the last line with \<open>name\<close> in it and the line after it.  A module with
  \<open>name\<close> in its own name is therefore taken for a header, and the modules in the rows above it are
  not in the result.
\<close>

theorem last_name_line:
  assumes "parse_lines (ls @ l # sep # rows) = Inr d" and "py_in ''name'' l"
    and "list_all (\<lambda>l. \<not> py_in ''name'' l) (sep # rows)" and "m \<in> set (dict_keys d)"
  shows "\<exists>r\<in>set rows. \<exists>vs. row_words r = m # vs"
proof -
  obtain st info where st: "foldl header_step (None, []) (enumerate 0 ls) = (st, info)"
    by (cases "foldl header_step (None, []) (enumerate 0 ls)")
  have "foldl header_step (None, []) (enumerate 0 (ls @ l # sep # rows)) = (Some (length ls + 2), info @ header_metrics l)"
  proof -
    have "enumerate 0 (ls @ l # sep # rows)
        = enumerate 0 ls @ (length ls, l) # enumerate (Suc (length ls)) (sep # rows)"
      by (simp add: enumerate_append_eq)
    with assms(2) show ?thesis
      by (simp only: foldl_append st foldl.simps header_steps [OF assms(3)]) (simp add: header_step_def)
  qed
  with assms(1) have "fold_res (read_row (info @ header_metrics l)) [] rows = Inr d"
    by (simp add: parse_lines_def)
  from parse_row_keys [OF this assms(4)] show ?thesis by simp
qed

end
