(* ===== verification/Run_Record.thy ===== *)
theory Run_Record
  imports Metadata
begin

text \<open>
  What \<^verbatim>\<open>test_run_result.py\<close> does with the record of a run: finding it under the metadata directory and
  printing it with paths relative to the directory of the test; and \<open>_main\<close> of \<^verbatim>\<open>check_logs.py\<close>,
  which judges one run.
\<close>

section \<open>The fields\<close>

fun item_of :: "pyval \<Rightarrow> item" where
  "item_of PNone = INone"
| "item_of (PBool b) = IBool b"
| "item_of (PInt i) = IInt i"
| "item_of (PStr s) = IStr s"
| "item_of (PList xs) = IList (map item_of xs)"
| "item_of (PDict d) = IDict (map (\<lambda>(k, v). (item_of k, item_of v)) d)"

definition test_type_str :: "test_type \<Rightarrow> string" where
  "test_type_str tt = (case tt of RISCVDV \<Rightarrow> ''TestType.RISCVDV'' | DIRECTED \<Rightarrow> ''TestType.DIRECTED'')"

text \<open>The values of the fields, as \<open>dataclasses.asdict\<close> lists them.\<close>

definition trr_items :: "trr \<Rightarrow> (string, item) dict" where
  "trr_items t =
     [(''passed'', opt_item IBool (trr_passed t)),
      (''failure_mode'', opt_item (\<lambda>m. IObj (failure_mode_str m)) (trr_failure_mode t)),
      (''failure_message'', opt_item IStr (trr_failure_message t)),
      (''timeout_s'', opt_item item_of (trr_timeout_s t)),
      (''testtype'', opt_item (\<lambda>tt. IObj (test_type_str tt)) (trr_testtype t)),
      (''testdotseed'', opt_item IStr (trr_testdotseed t)),
      (''testname'', opt_item IStr (trr_testname t)),
      (''seed'', opt_item IInt (trr_seed t)),
      (''binary'', opt_item IPath (trr_binary t)),
      (''rtl_simulator'', opt_item IStr (trr_rtl_simulator t)),
      (''iss_cosim'', opt_item IStr (trr_iss_cosim t)),
      (''is_discrete_debug_module'', opt_item IBool (trr_is_discrete_debug_module t)),
      (''binary_main'', opt_item IPath (trr_binary_main t)),
      (''binary_dm'', opt_item IPath (trr_binary_dm t)),
      (''vmem_main'', opt_item IPath (trr_vmem_main t)),
      (''vmem_dm'', opt_item IPath (trr_vmem_dm t)),
      (''ddm_sim_opts'', opt_item IStr (trr_ddm_sim_opts t)),
      (''gen_test'', opt_item (\<lambda>ws. IList (map IStr ws)) (trr_gen_test t)),
      (''gen_opts'', opt_item (\<lambda>ws. IList (map IStr ws)) (trr_gen_opts t)),
      (''rtl_test'', opt_item item_of (trr_rtl_test t)),
      (''sim_opts'', opt_item (\<lambda>ws. IList (map IStr ws)) (trr_sim_opts t)),
      (''directed_data'', opt_item (\<lambda>d. IDict (map (\<lambda>(k, v). (IStr k, item_of v)) d)) (trr_directed_data t)),
      (''dir_test'', opt_item IPath (trr_dir_test t)),
      (''assembly'', opt_item IPath (trr_assembly t)),
      (''objectfile'', opt_item IPath (trr_objectfile t)),
      (''riscvdv_run_gen_log'', opt_item IPath (trr_riscvdv_run_gen_log t)),
      (''riscvdv_run_gen_stdout'', opt_item IPath (trr_riscvdv_run_gen_stdout t)),
      (''riscvdv_run_log'', opt_item IPath (trr_riscvdv_run_log t)),
      (''riscvdv_run_stdout'', opt_item IPath (trr_riscvdv_run_stdout t)),
      (''compile_asm_gen_log'', opt_item IPath (trr_compile_asm_gen_log t)),
      (''compile_asm_log'', opt_item IPath (trr_compile_asm_log t)),
      (''rtl_log'', opt_item IPath (trr_rtl_log t)),
      (''rtl_stdout'', opt_item IPath (trr_rtl_stdout t)),
      (''rtl_trace'', opt_item IPath (trr_rtl_trace t)),
      (''iss_cosim_log'', opt_item IPath (trr_iss_cosim_log t)),
      (''iss_cosim_trace'', opt_item IPath (trr_iss_cosim_trace t)),
      (''dir_fcov'', opt_item IPath (trr_dir_fcov t)),
      (''riscvdv_run_gen_cmds'', opt_item cmds_item (trr_riscvdv_run_gen_cmds t)),
      (''riscvdv_run_cmds'', opt_item cmds_item (trr_riscvdv_run_cmds t)),
      (''compile_asm_gen_cmds'', opt_item cmds_item (trr_compile_asm_gen_cmds t)),
      (''compile_asm_cmds'', opt_item cmds_item (trr_compile_asm_cmds t)),
      (''rtl_cmds'', opt_item cmds_item (trr_rtl_cmds t)),
      (''metadata_pickle_file'', opt_item IPath (trr_metadata_pickle_file t)),
      (''pickle_file'', opt_item IPath (trr_pickle_file t)),
      (''yaml_file'', opt_item IPath (trr_yaml_file t))]"

section \<open>Printing\<close>

definition relative_item :: "string option \<Rightarrow> item \<Rightarrow> item res" where
  "relative_item dir_test v =
     (case v of
        IPath p \<Rightarrow>
          (case dir_test of
             None \<Rightarrow> Inl (TypeError ''argument should be a str object or an os.PathLike object'')
           | Some d \<Rightarrow> (case relative_to p d of Some q \<Rightarrow> Inr (IStr q) | None \<Rightarrow> Inr v))
      | _ \<Rightarrow> Inr v)"

definition relative_dict :: "trr \<Rightarrow> (string, item) dict res" where
  "relative_dict t =
     map_res (\<lambda>(k, v). bind_res (relative_item (trr_dir_test t) v) (\<lambda>x. Inr (k, x))) (trr_items t)"

definition format_to_printable_dict :: "(string \<Rightarrow> string) \<Rightarrow> trr \<Rightarrow> (string, string) dict res" where
  "format_to_printable_dict resolve t = bind_res (relative_dict t) (format_dict_to_printable_dict resolve)"

section \<open>Judging one run\<close>

text \<open>
  The record of a run under the metadata directory, and \<open>_main\<close> of \<^verbatim>\<open>check_logs.py\<close>: \<open>load\<close> and \<open>export\<close> read
  and write a record, the other two give the contents of its trace and its log.  The parser turns
  an \<open>ArgumentTypeError\<close> into an exit with status 2.
\<close>

definition construct_from_metadata_dir :: "(string \<Rightarrow> trr res) \<Rightarrow> string \<Rightarrow> string \<Rightarrow> trr res" where
  "construct_from_metadata_dir load dir_metadata tds = load (path_div dir_metadata (tds @ ''.pickle''))"

definition check_logs_main :: "(string \<Rightarrow> trr res) \<Rightarrow> (trr \<Rightarrow> string list option res) \<Rightarrow> (trr \<Rightarrow> string list res)
    \<Rightarrow> (trr \<Rightarrow> unit res) \<Rightarrow> string \<Rightarrow> string \<Rightarrow> (trr \<times> int) res" where
  "check_logs_main load trace uvm_log export dir_metadata test_dot_seed =
     (case read_test_dot_seed test_dot_seed of
        Inl (ArgumentTypeError _) \<Rightarrow> Inl (SystemExit 2)
      | Inl e \<Rightarrow> Inl e
      | Inr (testname, seed) \<Rightarrow>
          bind_res (construct_from_metadata_dir load dir_metadata (testname @ ''.'' @ str_int seed)) (\<lambda>t.
          bind_res (compare_test_run (trace t) (uvm_log t) t) (\<lambda>t.
          bind_res (export t) (\<lambda>_. Inr (t, 0)))))"


section \<open>What is printed\<close>

lemma trr_items_keys: "distinct (map fst (trr_items t))"
  by (simp add: trr_items_def)

lemma relative_keys:
  "map_res (\<lambda>(k, v). bind_res (relative_item d v) (\<lambda>x. Inr (k, x))) xs = Inr ys \<Longrightarrow>
   map fst ys = map fst xs \<and> (\<forall>k v. map_of xs k = Some v \<longrightarrow> (\<exists>x. relative_item d v = Inr x \<and> map_of ys k = Some x))"
  by (induction xs arbitrary: ys) (auto simp: bind_res_Inr)

lemma printable_fold:
  "fold_res (\<lambda>clean (k, v). bind_res (printable_value resolve v) (\<lambda>s. Inr (dict_set k s clean))) d xs = Inr ys \<Longrightarrow>
   distinct (map fst xs) \<Longrightarrow> map_of xs k = Some v \<Longrightarrow> \<exists>s. printable_value resolve v = Inr s \<and> map_of ys k = Some s"
proof (induction xs arbitrary: d)
  case (Cons x xs)
  obtain k' v' where x: "x = (k', v')" by (cases x)
  from Cons.prems(1) x obtain s where s: "printable_value resolve v' = Inr s"
    "fold_res (\<lambda>clean (k, v). bind_res (printable_value resolve v) (\<lambda>s. Inr (dict_set k s clean))) (dict_set k' s d) xs = Inr ys"
    by (auto simp: bind_res_Inr)
  have keep: "fold_res (\<lambda>clean (k, v). bind_res (printable_value resolve v) (\<lambda>s. Inr (dict_set k s clean))) e zs = Inr ys \<Longrightarrow>
      k' \<notin> fst ` set zs \<Longrightarrow> map_of ys k' = map_of e k'" for e zs
    by (induction zs arbitrary: e) (auto simp: bind_res_Inr)
  show ?case
  proof (cases "k = k'")
    case True
    with Cons.prems(2,3) x have "v = v'" "k' \<notin> fst ` set xs" by auto
    with keep [OF s(2)] s(1) True show ?thesis by simp
  next
    case False
    with Cons.IH [OF s(2)] Cons.prems(2,3) x show ?thesis by simp
  qed
qed simp

text \<open>A path below the directory of the test is printed as its part below that directory.\<close>

theorem run_paths_relative:
  assumes "format_to_printable_dict resolve t = Inr out" and "trr_dir_test t = Some d"
    and "map_of (trr_items t) k = Some (IPath (path_div d b))" and "path_root b = []"
  shows "map_of out k = Some (py_path b)"
proof -
  from assms(1) obtain ys where ys: "relative_dict t = Inr ys" "format_dict_to_printable_dict resolve ys = Inr out"
    by (auto simp: format_to_printable_dict_def bind_res_Inr)
  note rel = relative_keys [OF ys(1) [unfolded relative_dict_def]]
  have "relative_item (trr_dir_test t) (IPath (path_div d b)) = Inr (IStr (py_path b))"
    using assms(2,4) by (simp add: relative_item_def relative_to_div)
  moreover from rel assms(3) obtain x where "relative_item (trr_dir_test t) (IPath (path_div d b)) = Inr x"
    "map_of ys k = Some x" by blast
  ultimately have k: "map fst ys = map fst (trr_items t)" "map_of ys k = Some (IStr (py_path b))"
    using rel by simp_all
  from k(1) trr_items_keys [of t] have "distinct (map fst ys)" by simp
  from printable_fold [OF ys(2) [unfolded format_dict_to_printable_dict_def] this k(2)] show ?thesis
    by (simp add: printable_value_def format_to_str_def)
qed

end
