(* ===== verification/Reports.thy ===== *)
theory Reports
  imports Cov_Report Run_Record
begin

text \<open>
  The reports of a regression: \<^verbatim>\<open>collect_results.py\<close> and \<^verbatim>\<open>junit_xml.py\<close>, \<^verbatim>\<open>dvsim_json.py\<close>,
  \<^verbatim>\<open>svg.py\<close>, \<^verbatim>\<open>html.py\<close> and the summary of \<^verbatim>\<open>util.py\<close> under \<^verbatim>\<open>report_lib/\<close>.  The libraries that
  print XML, JSON, SVG and HTML, and the formatting and rounding of a float, are parameters;
  numbers that the code holds as floats are rationals, without rounding.
\<close>

section \<open>The coverage summary\<close>

type_synonym cov_summary = "(string, rat option) dict"

definition os_dirname :: "string \<Rightarrow> string" where
  "os_dirname p =
     (let head = rev (dropWhile (\<lambda>c. c \<noteq> CHR ''/'') (rev p));
          stripped = rev (dropWhile (\<lambda>c. c = CHR ''/'') (rev head))
      in if stripped = [] then head else stripped)"

text \<open>\<open>None\<close>: there is no coverage report; a path is never false.\<close>

definition create_cov_summary_dict :: "(string \<Rightarrow> string res) \<Rightarrow> regression_metadata
    \<Rightarrow> (string, rat option) dict option res" where
  "create_cov_summary_dict read_file m =
     (case md_cov_report_log m of
        None \<Rightarrow> Inr None
      | Some report_log \<Rightarrow>
          let dir = path_join (os_dirname report_log) ''report'' in
            bind_res (bind_res (read_file (path_join dir ''cov_report.txt'')) parse_xcelium_cov_report) (\<lambda>cov.
            bind_res (bind_res (read_file (path_join dir ''cov_report_cg.txt'')) parse_xcelium_cov_report) (\<lambda>cg.
            bind_res (case map_of cov ''ibex_top'' of
                        None \<Rightarrow> Inr []
                      | Some d \<Rightarrow> fold_res (add_cov_to_summary d) [] IBEX_COVERAGE_METRICS) (\<lambda>summary.
            bind_res (calc_cg_average cg) (\<lambda>avg.
            Inr (Some (dict_set ''covergroup'' avg summary)))))))"

text \<open>The test of a summary in a condition: \<open>None\<close> and an empty one are false.\<close>

definition cov_given :: "cov_summary option \<Rightarrow> cov_summary option" where
  "cov_given c = (case c of None \<Rightarrow> None | Some d \<Rightarrow> if d = [] then None else Some d)"

definition cov_number :: "cov_summary \<Rightarrow> string \<Rightarrow> rat res" where
  "cov_number d k =
     (case map_of d k of
        None \<Rightarrow> Inl (KeyError k)
      | Some None \<Rightarrow> Inl (TypeError ''unsupported operand type(s)'')
      | Some (Some x) \<Rightarrow> Inr x)"

section \<open>Colours\<close>

definition CSS_RG_GRADIENT_YELLOW_POINT :: rat where
  "CSS_RG_GRADIENT_YELLOW_POINT = 7 / 10"

text \<open>\<open>int\<close> of a float cuts towards zero.\<close>

definition int_of_rat :: "rat \<Rightarrow> int" where
  "int_of_rat x = (if x < 0 then - \<lfloor>- x\<rfloor> else \<lfloor>x\<rfloor>)"

definition gradient :: "rat \<Rightarrow> int \<times> int" where
  "gradient value =
     (let (red, green) =
        (if value < CSS_RG_GRADIENT_YELLOW_POINT then (1, value / CSS_RG_GRADIENT_YELLOW_POINT)
         else ((1 - value) / (1 - CSS_RG_GRADIENT_YELLOW_POINT), 1))
      in (int_of_rat (red * 255), int_of_rat (green * 255)))"

definition css_red_green_gradient :: "rat \<Rightarrow> string" where
  "css_red_green_gradient value =
     (case gradient value of
        (red, green) \<Rightarrow> ''rgb('' @ str_int red @ '','' @ str_int green @ '',0)'')"

section \<open>JUnit\<close>

text \<open>The library's test cases: their output and the outputs given as failure information.\<close>

record test_case =
  tc_name :: "string option"
  tc_stdout :: string
  tc_failures :: "string list"

type_synonym test_suite = "string option \<times> test_case list"

text \<open>For each test its cases, and the merged output and failures.\<close>

type_synonym suite_info = "(string option, test_case list \<times> string \<times> string) dict"

definition run_case :: "trr \<Rightarrow> string \<Rightarrow> test_case" where
  "run_case t result_text =
     \<lparr>tc_name = Some (tds_text t), tc_stdout = result_text,
      tc_failures = (if is_passing t then [] else [result_text])\<rparr>"

definition add_run :: "(trr \<Rightarrow> string res) \<Rightarrow> suite_info \<Rightarrow> trr \<Rightarrow> suite_info res" where
  "add_run result_text info t =
     (let (unmerged, out, failures) = dict_get info (trr_testname t) ([], [], []) in
      bind_res (result_text t) (\<lambda>s.
      Inr (dict_set (trr_testname t)
             (unmerged @ [run_case t s], out @ s @ newline, if is_passing t then failures else failures @ s)
             info)))"

definition suites :: "suite_info \<Rightarrow> test_suite list" where
  "suites info = map (\<lambda>(name, (test_cases, _)). (name, test_cases)) info"

definition merged_case :: "string option \<Rightarrow> string \<Rightarrow> string \<Rightarrow> test_case" where
  "merged_case name out failures =
     \<lparr>tc_name = name, tc_stdout = out, tc_failures = [failures]\<rparr>"

definition merged_suites :: "suite_info \<Rightarrow> test_suite list" where
  "merged_suites info = map (\<lambda>(name, (_, out, failures)). (name, [merged_case name out failures])) info"

definition output_run_results_junit_xml :: "(trr \<Rightarrow> string res) \<Rightarrow> (test_suite list \<Rightarrow> string)
    \<Rightarrow> trr list \<Rightarrow> trr list \<Rightarrow> (string \<times> string) res" where
  "output_run_results_junit_xml result_text xml passing failing =
     bind_res (fold_res (add_run result_text) [] (passing @ failing)) (\<lambda>info.
     Inr (xml (suites info), xml (merged_suites info)))"

section \<open>The dvsim report\<close>

record dvsim_test =
  dt_name :: "string option"
  dt_max_runtime_s :: int
  dt_simulated_time_us :: int
  dt_passing_runs :: nat
  dt_total_runs :: nat
  dt_pass_rate :: rat

record dvsim_report =
  dr_tool :: string
  dr_block_name :: string
  dr_block_variant :: string
  dr_coverage :: "(string, rat) dict"
  dr_unmapped_tests :: "dvsim_test list"

definition dvsim_test_of :: "(rat \<Rightarrow> rat) \<Rightarrow> string option \<times> nat \<times> nat \<Rightarrow> dvsim_test res" where
  "dvsim_test_of round2 = (\<lambda>(name, passing, failing).
     let total = passing + failing in
     if total = 0 then Inl ZeroDivisionError
     else Inr \<lparr>dt_name = name, dt_max_runtime_s = 0, dt_simulated_time_us = 0,
               dt_passing_runs = passing, dt_total_runs = total,
               dt_pass_rate = round2 (of_nat passing / of_nat total * 100)\<rparr>)"

definition create_dvsim_report_dict :: "(rat \<Rightarrow> rat) \<Rightarrow> string \<Rightarrow> string \<Rightarrow> string
    \<Rightarrow> (string option, nat \<times> nat) dict \<Rightarrow> cov_summary option \<Rightarrow> dvsim_report res" where
  "create_dvsim_report_dict round2 tool block_name block_variant tests cov =
     bind_res (map_res (dvsim_test_of round2) tests) (\<lambda>test_info.
     bind_res (case cov_given cov of
                 None \<Rightarrow> Inr []
               | Some d \<Rightarrow> map_res (\<lambda>(k, v). case v of
                     None \<Rightarrow> Inl (TypeError ''unsupported operand type(s)'')
                   | Some x \<Rightarrow> Inr (k, x * 100)) d) (\<lambda>coverage.
     Inr \<lparr>dr_tool = (if tool = ''xlm'' then ''xcelium'' else tool), dr_block_name = block_name,
          dr_block_variant = block_variant, dr_coverage = coverage, dr_unmapped_tests = test_info\<rparr>))"

definition output_results_dvsim_json :: "(rat \<Rightarrow> rat) \<Rightarrow> (dvsim_report \<Rightarrow> string) \<Rightarrow> regression_metadata
    \<Rightarrow> (string option, nat \<times> nat) dict \<Rightarrow> cov_summary option \<Rightarrow> string res" where
  "output_results_dvsim_json round2 dumps md tests cov =
     bind_res (create_dvsim_report_dict round2 (md_simulator md) ''ibex'' ''opentitan'' tests cov)
       (\<lambda>r. Inr (dumps r))"

section \<open>The HTML report\<close>

definition pct_str :: "(rat \<Rightarrow> string) \<Rightarrow> rat \<Rightarrow> string" where
  "pct_str fmt1 pct_val = fmt1 (pct_val * 100) @ ''%''"

definition pct_style :: "rat \<Rightarrow> string" where
  "pct_style pct_val = ''background-color: '' @ css_red_green_gradient pct_val @ '';''"

record test_row =
  tr_name :: "string option"
  tr_passing :: nat
  tr_total :: nat
  tr_pass_rate :: rat

definition test_row_of :: "string option \<times> nat \<times> nat \<Rightarrow> test_row res" where
  "test_row_of = (\<lambda>(name, passing, failing).
     let total = passing + failing in
     if total = 0 then Inl ZeroDivisionError
     else Inr \<lparr>tr_name = name, tr_passing = passing, tr_total = total,
               tr_pass_rate = of_nat passing / of_nat total\<rparr>)"

text \<open>What the template is given.\<close>

record html_args =
  ha_run_datetime :: string
  ha_sha1 :: string
  ha_test_summaries :: "test_row list"
  ha_cov_summary :: "cov_summary option"
  ha_passing_acc :: nat
  ha_total_acc :: nat
  ha_pass_rate_acc :: rat
  ha_all_tests :: "trr list"

definition html_arguments :: "regression_metadata \<Rightarrow> trr list \<Rightarrow> (string option, nat \<times> nat) dict
    \<Rightarrow> cov_summary option \<Rightarrow> html_args res" where
  "html_arguments md all_tests tests cov =
     bind_res (map_res test_row_of tests) (\<lambda>rows.
     let total = sum_list (map tr_total rows); passing = sum_list (map tr_passing rows) in
     if total = 0 then Inl ZeroDivisionError
     else Inr \<lparr>ha_run_datetime = md_creation_datetime md, ha_sha1 = md_git_commit md,
               ha_test_summaries = rows, ha_cov_summary = cov, ha_passing_acc = passing,
               ha_total_acc = total, ha_pass_rate_acc = of_nat passing / of_nat total,
               ha_all_tests = all_tests\<rparr>)"

definition output_results_html :: "(html_args \<Rightarrow> string res) \<Rightarrow> regression_metadata \<Rightarrow> trr list
    \<Rightarrow> (string option, nat \<times> nat) dict \<Rightarrow> cov_summary option \<Rightarrow> string res" where
  "output_results_html render md all_tests tests cov =
     bind_res (html_arguments md all_tests tests cov) render"

section \<open>The SVG dashboard\<close>

text \<open>The elements of the library that the code builds.\<close>

datatype svg =
    Rect rat rat rat rat string rat
  | SText rat rat "string list" string
  | SG "(rat \<times> rat) option" "svg list"
  | SStyle string
  | SSVG rat rat "svg list"

definition SVG_DASHBOARD_HEIGHT :: rat where
  "SVG_DASHBOARD_HEIGHT = 20"

definition SVG_DASHBOARD_GAP :: rat where
  "SVG_DASHBOARD_GAP = 5"

definition SVG_DASHBOARD_STYLE :: string where
  "SVG_DASHBOARD_STYLE = py_join newline
     [[], ''.text { font: 12px sans-serif;'', ''        text-anchor: middle;'',
      ''        dominant-baseline: middle;}'', ''.name { fill: white; }'', ''.value { fill: black; }'', []]"

definition SVG_DASHBOARD_VALUE_WIDTH :: rat where
  "SVG_DASHBOARD_VALUE_WIDTH = 60"

definition SVG_DASHBOARD_NAME_BG_COLOUR :: string where
  "SVG_DASHBOARD_NAME_BG_COLOUR = ''#666''"

definition SVG_DASHBOARD_PLAIN_VALUE_BG_COLOUR :: string where
  "SVG_DASHBOARD_PLAIN_VALUE_BG_COLOUR = ''#6cf''"

record dashboard_element =
  de_name :: string
  de_name_width :: rat
  de_value :: string
  de_value_width :: rat
  de_height :: rat
  de_value_colour :: string

text \<open>The constructor, with its defaults for the width and the height.\<close>

definition DashboardElement :: "string \<Rightarrow> string \<Rightarrow> rat \<Rightarrow> string \<Rightarrow> dashboard_element" where
  "DashboardElement name value name_width value_colour =
     \<lparr>de_name = name, de_name_width = name_width, de_value = value,
      de_value_width = SVG_DASHBOARD_VALUE_WIDTH, de_height = SVG_DASHBOARD_HEIGHT,
      de_value_colour = value_colour\<rparr>"

definition label_elements :: "dashboard_element \<Rightarrow> svg list" where
  "label_elements e =
     [Rect 0 0 (de_name_width e) (de_height e) SVG_DASHBOARD_NAME_BG_COLOUR 0,
      SText (de_name_width e / 2) (de_height e / 2) [''text'', ''name''] (de_name e)]"

definition value_elements :: "dashboard_element \<Rightarrow> svg list" where
  "value_elements e =
     [Rect 0 0 (de_value_width e) (de_height e) (de_value_colour e) 0,
      SText (de_value_width e / 2) (de_height e / 2) [''text'', ''value''] (de_value e)]"

definition element_svg :: "dashboard_element \<Rightarrow> svg list" where
  "element_svg e = [SG None (label_elements e), SG (Some (de_name_width e, 0)) (value_elements e)]"

definition element_width :: "dashboard_element \<Rightarrow> rat" where
  "element_width e = de_name_width e + de_value_width e"

fun dashboard_svg :: "rat \<Rightarrow> rat \<Rightarrow> dashboard_element list \<Rightarrow> svg list" where
  "dashboard_svg gap cur_x [] = []"
| "dashboard_svg gap cur_x (e # es) =
     SG (Some (cur_x, 0)) (element_svg e) # dashboard_svg gap (cur_x + element_width e + gap) es"

definition dashboard_width :: "rat \<Rightarrow> dashboard_element list \<Rightarrow> rat" where
  "dashboard_width gap es = foldl (\<lambda>acc e. acc + element_width e + gap) 0 es - gap"

definition code_coverage :: "cov_summary \<Rightarrow> rat res" where
  "code_coverage d =
     bind_res (map_res (cov_number d) [''block'', ''branch'', ''statement'', ''expression'', ''fsm''])
       (\<lambda>xs. Inr (sum_list xs / 5))"

definition cov_elements :: "(rat \<Rightarrow> string) \<Rightarrow> cov_summary \<Rightarrow> dashboard_element list res" where
  "cov_elements fmt1 d =
     bind_res (code_coverage d) (\<lambda>code.
     bind_res (cov_number d ''covergroup'') (\<lambda>cg.
     Inr [DashboardElement ''Functional Coverage'' (fmt1 (cg * 100) @ ''%'') 150 (css_red_green_gradient cg),
          DashboardElement ''Code Coverage'' (fmt1 (code * 100) @ ''%'') 120 (css_red_green_gradient code)]))"

definition output_results_svg :: "(rat \<Rightarrow> string) \<Rightarrow> (string option, nat \<times> nat) dict
    \<Rightarrow> cov_summary option \<Rightarrow> svg res" where
  "output_results_svg fmt1 tests cov =
     (let passing = sum_list (map (\<lambda>(_, p, f). p) tests);
          failing = sum_list (map (\<lambda>(_, p, f). f) tests);
          total = passing + failing
      in if total = 0 then Inl ZeroDivisionError
         else let pct = of_nat passing / of_nat total;
                  elements =
                    [DashboardElement ''Total Tests'' (str_int (int total)) 120 SVG_DASHBOARD_PLAIN_VALUE_BG_COLOUR,
                     DashboardElement ''Tests Passing'' (fmt1 (pct * 100) @ ''%'') 120 (css_red_green_gradient pct)]
              in bind_res (case cov_given cov of None \<Rightarrow> Inr [] | Some d \<Rightarrow> cov_elements fmt1 d) (\<lambda>more.
                 let es = elements @ more
                 in Inr (SSVG (dashboard_width SVG_DASHBOARD_GAP es) SVG_DASHBOARD_HEIGHT
                          (SStyle SVG_DASHBOARD_STYLE # dashboard_svg SVG_DASHBOARD_GAP 0 es))))"

section \<open>Collecting the results\<close>

record report_env =
  re_rel :: "string \<Rightarrow> string option \<Rightarrow> string res"
  re_xml :: "test_suite list \<Rightarrow> string"
  re_pct :: "nat \<Rightarrow> nat \<Rightarrow> string"
  re_read :: "string \<Rightarrow> string res"
  re_render :: "html_args \<Rightarrow> string res"
  re_round2 :: "rat \<Rightarrow> rat"
  re_dumps :: "dvsim_report \<Rightarrow> string"
  re_fmt1 :: "rat \<Rightarrow> string"
  re_svg :: "(svg \<Rightarrow> string) option"

text \<open>
  What a run leaves: files with their contents, files that were opened for writing when an
  exception came, and lines on the terminal.
\<close>

datatype report_effect = Wrote string string | Cut string | Printed string

type_synonym 'a reporting = "report_effect list \<times> 'a res"

definition and_then :: "'a reporting \<Rightarrow> ('a \<Rightarrow> 'b reporting) \<Rightarrow> 'b reporting" where
  "and_then r k =
     (case r of
        (es, Inl e) \<Rightarrow> (es, Inl e)
      | (es, Inr x) \<Rightarrow> (case k x of (fs, y) \<Rightarrow> (es @ fs, y)))"

definition write_file :: "string \<Rightarrow> string res \<Rightarrow> unit reporting" where
  "write_file path content =
     (case content of Inl e \<Rightarrow> ([Cut path], Inl e) | Inr s \<Rightarrow> ([Wrote path s], Inr ()))"

definition print_line :: "string \<Rightarrow> unit reporting" where
  "print_line s = ([Printed s], Inr ())"

definition set_logs :: "regression_metadata \<Rightarrow> regression_metadata" where
  "set_logs md =
     md\<lparr>md_regr_log := Some (path_div (md_dir_run md) ''regr.log''),
        md_regr_log_junit := Some (path_div (md_dir_run md) ''regr_junit.xml''),
        md_regr_log_junit_merged := Some (path_div (md_dir_run md) ''regr_junit_merged.xml'')\<rparr>"

definition write_junit :: "report_env \<Rightarrow> regression_metadata \<Rightarrow> collected \<Rightarrow> unit reporting" where
  "write_junit env md c =
     (let junit = path_div (md_dir_run md) ''regr_junit.xml'';
          merged = path_div (md_dir_run md) ''regr_junit_merged.xml''
      in case output_run_results_junit_xml (gen_test_run_result_text (re_rel env)) (re_xml env)
                (passing_tests c) (failing_tests c) of
           Inl e \<Rightarrow> ([Cut junit, Cut merged], Inl e)
         | Inr (a, b) \<Rightarrow> ([Wrote junit a, Wrote merged b], Inr ()))"

definition cov_for :: "report_env \<Rightarrow> regression_metadata \<Rightarrow> cov_summary option reporting" where
  "cov_for env md =
     (if md_simulator md = ''xlm'' then ([], create_cov_summary_dict (re_read env) md)
      else ([Printed (''Warning: Not generating coverage summary, unsupported simulator '' @ md_simulator md)],
            Inr (Some [])))"

definition write_svg :: "report_env \<Rightarrow> regression_metadata \<Rightarrow> (string option, nat \<times> nat) dict
    \<Rightarrow> cov_summary option \<Rightarrow> unit reporting" where
  "write_svg env md tests cov =
     (case re_svg env of
        None \<Rightarrow> print_line ''WARNING: svg module not available, skipping SVG results output''
      | Some svg_str \<Rightarrow>
          write_file (path_div (md_dir_run md) ''summary.svg'')
            (bind_res (output_results_svg (re_fmt1 env) tests cov) (\<lambda>s. Inr (svg_str s))))"

text \<open>The body of \<open>main\<close> under the lock, after the runs are read.\<close>

definition write_reports :: "report_env \<Rightarrow> regression_metadata \<Rightarrow> collected \<Rightarrow> int reporting" where
  "write_reports env md c =
     and_then (write_junit env md c) (\<lambda>_.
     and_then (write_file (path_div (md_dir_run md) ''regr.log'')
                 (output_results_text (re_pct env) (re_rel env) c)) (\<lambda>_.
     let all_tests = passing_tests c @ failing_tests c; tests = create_test_summary_dict all_tests in
     and_then (cov_for env md) (\<lambda>cov.
     and_then (write_file (path_div (md_dir_run md) ''report.html'')
                 (output_results_html (re_render env) md all_tests tests cov)) (\<lambda>_.
     and_then (write_file (path_div (md_dir_run md) ''report.json'')
                 (output_results_dvsim_json (re_round2 env) (re_dumps env) md tests cov)) (\<lambda>_.
     and_then (write_svg env md tests cov) (\<lambda>_.
     and_then (case gen_summary_line (re_pct env) (passing_tests c) (failing_tests c) of
                 Inl e \<Rightarrow> ([], Inl e) | Inr s \<Rightarrow> print_line s) (\<lambda>_.
     ([], Inr (exit_code c)))))))))"

definition collect_main :: "report_env \<Rightarrow> regression_metadata \<Rightarrow> trr res list
    \<Rightarrow> regression_metadata \<times> int reporting" where
  "collect_main env md pickles =
     (case collect_tests pickles of
        Inl e \<Rightarrow> (md, [], Inl e)
      | Inr c \<Rightarrow> (set_logs md, write_reports env (set_logs md) c))"

section \<open>Grouping the runs\<close>

definition first_seen :: "'a list \<Rightarrow> 'a list" where
  "first_seen xs = foldl (\<lambda>ns n. if n \<in> set ns then ns else ns @ [n]) [] xs"

lemma first_seen_snoc:
  "first_seen (xs @ [x]) = (if x \<in> set (first_seen xs) then first_seen xs else first_seen xs @ [x])"
  by (simp add: first_seen_def)

lemma first_seen_set [simp]: "set (first_seen xs) = set xs"
  by (induction xs rule: rev_induct) (auto simp: first_seen_snoc, simp add: first_seen_def)

lemma first_seen_distinct [simp]: "distinct (first_seen xs)"
  by (induction xs rule: rev_induct) (simp_all add: first_seen_snoc, simp add: first_seen_def)

definition runs_of :: "string option \<Rightarrow> trr list \<Rightarrow> trr list" where
  "runs_of n ts = filter (\<lambda>t. trr_testname t = n) ts"

definition group_entry :: "(trr \<Rightarrow> string) \<Rightarrow> trr list \<Rightarrow> string option \<Rightarrow> test_case list \<times> string \<times> string" where
  "group_entry s ts n =
     (map (\<lambda>t. run_case t (s t)) (runs_of n ts), concat (map (\<lambda>t. s t @ newline) (runs_of n ts)),
      concat (map s (filter (\<lambda>t. \<not> is_passing t) (runs_of n ts))))"

lemma map_of_tabulate: "map_of (map (\<lambda>n. (n, f n)) ns) k = (if k \<in> set ns then Some (f k) else None)"
  by (induction ns) auto

lemma dict_set_tabulate:
  assumes "distinct ns" and "\<And>n. n \<noteq> k \<Longrightarrow> f n = g n"
  shows "dict_set k (g k) (map (\<lambda>n. (n, f n)) ns)
    = map (\<lambda>n. (n, g n)) (if k \<in> set ns then ns else ns @ [k])"
  using assms(1)
proof (induction ns)
  case (Cons n ns)
  show ?case
  proof (cases "n = k")
    case True
    with Cons.prems have "f m = g m" if "m \<in> set ns" for m using that assms(2) by (metis distinct.simps(2))
    with True show ?thesis by simp
  qed (use Cons assms(2) in auto)
qed simp

lemma group_entry_snoc:
  "group_entry s (ts @ [t]) n =
     (if trr_testname t = n
      then (fst (group_entry s ts n) @ [run_case t (s t)], fst (snd (group_entry s ts n)) @ s t @ newline,
            snd (snd (group_entry s ts n)) @ (if is_passing t then [] else s t))
      else group_entry s ts n)"
  by (simp add: group_entry_def runs_of_def)

lemma group_entry_none: "n \<notin> trr_testname ` set ts \<Longrightarrow> group_entry s ts n = ([], [], [])"
proof -
  assume "n \<notin> trr_testname ` set ts"
  then have "runs_of n ts = []" unfolding runs_of_def filter_empty_conv by auto
  then show ?thesis by (simp add: group_entry_def)
qed

lemma add_runs:
  assumes "list_all (\<lambda>t. text_of t = Inr (s t)) ts"
  shows "fold_res (add_run text_of) [] ts
    = Inr (map (\<lambda>n. (n, group_entry s ts n)) (first_seen (map trr_testname ts)))"
  using assms
proof (induction ts rule: rev_induct)
  case Nil
  show ?case by (simp add: first_seen_def)
next
  case (snoc t ts)
  let ?d = "map (\<lambda>n. (n, group_entry s ts n)) (first_seen (map trr_testname ts))"
  let ?n = "trr_testname t"
  have "dict_get ?d ?n ([], [], []) = group_entry s ts ?n"
    by (auto simp: dict_get_def map_of_tabulate group_entry_none)
  then have "add_run text_of ?d t = Inr (dict_set ?n (group_entry s (ts @ [t]) ?n) ?d)"
    using snoc.prems by (auto simp: add_run_def group_entry_snoc split: prod.split)
  also have "dict_set ?n (group_entry s (ts @ [t]) ?n) ?d
    = map (\<lambda>n. (n, group_entry s (ts @ [t]) n)) (first_seen (map trr_testname (ts @ [t])))"
    by (subst dict_set_tabulate) (auto simp: group_entry_snoc first_seen_snoc)
  finally show ?case using snoc by simp
qed

text \<open>
  C15: The JUnit report has one suite for each test name, in the order in which the names first
  occur, and in it one case for each run of that test, passing runs first; the merged report has
  the same suites with one case each, that holds the texts of all runs and those of the failing
  runs.
\<close>

theorem junit_groups:
  assumes "list_all (\<lambda>t. text_of t = Inr (s t)) (passing @ failing)"
  shows "output_run_results_junit_xml text_of xml passing failing =
    (let ts = passing @ failing; names = first_seen (map trr_testname ts) in
     Inr (xml (map (\<lambda>n. (n, map (\<lambda>t. run_case t (s t)) (runs_of n ts))) names),
          xml (map (\<lambda>n. (n, [merged_case n (concat (map (\<lambda>t. s t @ newline) (runs_of n ts)))
                 (concat (map s (filter (\<lambda>t. \<not> is_passing t) (runs_of n ts))))])) names)))"
  unfolding output_run_results_junit_xml_def add_runs [OF assms]
  by (simp add: suites_def merged_suites_def group_entry_def o_def Let_def)

theorem junit_groups_witness:
  "output_run_results_junit_xml (\<lambda>t. Inr (tds_text t)) (\<lambda>ss. str_int (int (length ss)))
     [empty_trr\<lparr>trr_testname := Some ''a'', trr_passed := Some True\<rparr>, empty_trr\<lparr>trr_testname := Some ''b'', trr_passed := Some True\<rparr>]
     [empty_trr\<lparr>trr_testname := Some ''a''\<rparr>] = Inr (''2'', ''2'')"
proof -
  let ?p = "[empty_trr\<lparr>trr_testname := Some ''a'', trr_passed := Some True\<rparr>, empty_trr\<lparr>trr_testname := Some ''b'', trr_passed := Some True\<rparr>]"
  let ?f = "[empty_trr\<lparr>trr_testname := Some ''a''\<rparr>]"
  have "first_seen (map trr_testname (?p @ ?f)) = [Some ''a'', Some ''b'']"
    by (simp add: first_seen_def)
  moreover have "str_int 2 = ''2''" by code_simp
  ultimately show ?thesis
    by (subst junit_groups [where s = tds_text]) (simp_all only: Let_def length_map, simp_all)
qed

section \<open>The gradient\<close>

lemma gradient_low: "v < 7 / 10 \<Longrightarrow> 0 \<le> v \<Longrightarrow> gradient v = (255, \<lfloor>v / (7 / 10) * 255\<rfloor>)"
  by (simp add: gradient_def CSS_RG_GRADIENT_YELLOW_POINT_def int_of_rat_def)

lemma gradient_high: "7 / 10 \<le> v \<Longrightarrow> v \<le> 1 \<Longrightarrow> gradient v = (\<lfloor>(1 - v) / (3 / 10) * 255\<rfloor>, 255)"
  by (simp add: gradient_def CSS_RG_GRADIENT_YELLOW_POINT_def int_of_rat_def)



section \<open>The dashboard\<close>

definition start_of :: "rat \<Rightarrow> dashboard_element list \<Rightarrow> nat \<Rightarrow> rat" where
  "start_of gap es i = sum_list (map (\<lambda>e. element_width e + gap) (take i es))"

lemma dashboard_svg_nth:
  "i < length es \<Longrightarrow> dashboard_svg gap x es ! i = SG (Some (x + start_of gap es i, 0)) (element_svg (es ! i))"
proof (induction es arbitrary: x i)
  case (Cons e es)
  then show ?case by (cases i) (simp_all add: start_of_def add.assoc)
qed simp

lemma dashboard_width_sum: "dashboard_width gap es = sum_list (map (\<lambda>e. element_width e + gap) es) - gap"
proof -
  have "foldl (\<lambda>acc e. acc + element_width e + gap) x es = x + sum_list (map (\<lambda>e. element_width e + gap) es)" for x
    by (induction es arbitrary: x) (simp_all add: add.assoc)
  then show ?thesis by (simp add: dashboard_width_def)
qed

text \<open>
  The elements of the dashboard stand side by side: each starts a gap behind the end of the one
  before it, and the width of the picture is where the last one ends.
\<close>

theorem dashboard_side_by_side:
  assumes "i < length es"
  shows "\<exists>x. dashboard_svg gap 0 es ! i = SG (Some (x, 0)) (element_svg (es ! i))
    \<and> (if i = 0 then x = 0
       else \<exists>y. dashboard_svg gap 0 es ! (i - 1) = SG (Some (y, 0)) (element_svg (es ! (i - 1)))
              \<and> x = y + element_width (es ! (i - 1)) + gap)
    \<and> (if Suc i = length es then dashboard_width gap es = x + element_width (es ! i) else True)"
proof -
  have step: "start_of gap es (Suc j) = start_of gap es j + element_width (es ! j) + gap" if "j < length es" for j
    using that by (simp add: start_of_def take_Suc_conv_app_nth)
  have "start_of gap es (length es) = sum_list (map (\<lambda>e. element_width e + gap) es)" by (simp add: start_of_def)
  with step [OF assms] have last: "Suc i = length es \<Longrightarrow> dashboard_width gap es = start_of gap es i + element_width (es ! i)"
    by (simp add: dashboard_width_sum)
  show ?thesis
  proof (cases i)
    case 0
    then show ?thesis using assms last by (simp add: dashboard_svg_nth start_of_def)
  next
    case (Suc j)
    with assms last step [of j] show ?thesis by (simp add: dashboard_svg_nth)
  qed
qed

section \<open>The outcome\<close>

lemma and_then_Inr:
  "and_then r k = (es, Inr y) \<longleftrightarrow> (\<exists>es1 x es2. r = (es1, Inr x) \<and> k x = (es2, Inr y) \<and> es = es1 @ es2)"
  by (cases r; cases "snd r") (auto simp: and_then_def split: prod.split)

lemma write_file_Inr: "write_file p c = (es, Inr u) \<longleftrightarrow> (\<exists>s. c = Inr s \<and> es = [Wrote p s])"
  by (cases c) (auto simp: write_file_def)

lemma collect_loaded: "fold_res collect_one c fs = Inr c' \<Longrightarrow> \<exists>ts. fs = map Inr ts"
proof (induction fs arbitrary: c)
  case (Cons f fs)
  from Cons.prems obtain d where d: "collect_one c f = Inr d" "fold_res collect_one d fs = Inr c'"
    by (auto simp: bind_res_Inr)
  from d(1) obtain t where "f = Inr t" by (auto simp: collect_one_def split: sum.splits exn.splits)
  moreover from Cons.IH [OF d(2)] obtain ts where "fs = map Inr ts" by blast
  ultimately have "f # fs = map Inr (t # ts)" by simp
  then show ?case by (rule exI)
qed simp

text \<open>The names of the reports.\<close>

abbreviation report_path :: "regression_metadata \<Rightarrow> string \<Rightarrow> string" where
  "report_path md n \<equiv> path_div (md_dir_run md) n"

lemma write_reports_Inr:
  assumes "write_reports env md c = (es, Inr n)"
  shows "n = exit_code c \<and> passing_tests c @ failing_tests c \<noteq> []
    \<and> (\<exists>a b s h j. set [Wrote (report_path md ''regr_junit.xml'') a, Wrote (report_path md ''regr_junit_merged.xml'') b,
         Wrote (report_path md ''regr.log'') s, Wrote (report_path md ''report.html'') h,
         Wrote (report_path md ''report.json'') j] \<subseteq> set es)"
proof -
  from assms obtain es1 s es2 cov es3 h j es4 es5 where
    j: "write_junit env md c = (es1, Inr ())" and
    s: "output_results_text (re_pct env) (re_rel env) c = Inr s" and
    es: "es = es1 @ [Wrote (report_path md ''regr.log'') s] @ es2 @ [Wrote (report_path md ''report.html'') h]
      @ [Wrote (report_path md ''report.json'') j] @ es4 @ es5" and n: "n = exit_code c"
    unfolding write_reports_def Let_def and_then_Inr write_file_Inr by fastforce
  from j obtain a b where "es1 = [Wrote (report_path md ''regr_junit.xml'') a, Wrote (report_path md ''regr_junit_merged.xml'') b]"
    by (auto simp: write_junit_def Let_def split: sum.splits prod.splits)
  moreover from s have "passing_tests c @ failing_tests c \<noteq> []"
    by (auto simp: output_results_text_def gen_summary_line_def bind_res_Inr Let_def split: if_splits)
  ultimately show ?thesis using es n by auto
qed

lemma collect_status:
  assumes "collect_main env md pickles = (md', es, Inr n)"
  shows "\<exists>ts. pickles = map Inr ts \<and> ts \<noteq> [] \<and> n = (if list_all is_passing ts then 0 else 1)"
    and "\<exists>c. md' = set_logs md \<and> write_reports env (set_logs md) c = (es, Inr n)"
proof -
  from assms obtain c where c: "collect_tests pickles = Inr c" and md': "md' = set_logs md"
    and w: "write_reports env (set_logs md) c = (es, Inr n)"
    by (auto simp: collect_main_def split: sum.splits)
  from collect_loaded [OF c [unfolded collect_tests_def]] obtain ts where ts: "pickles = map Inr ts" by blast
  from collect_splits [of ts] ts c have split: "passing_tests c = filter is_passing ts"
    "failing_tests c = filter (\<lambda>t. \<not> is_passing t) ts" by auto
  note r = write_reports_Inr [OF w]
  from r split have "ts \<noteq> []" by auto
  moreover from r split have "n = (if list_all is_passing ts then 0 else 1)"
    by (auto simp: exit_code_def filter_empty_conv list_all_iff)
  ultimately show "\<exists>ts. pickles = map Inr ts \<and> ts \<noteq> [] \<and> n = (if list_all is_passing ts then 0 else 1)"
    using ts by blast
  show "\<exists>c. md' = set_logs md \<and> write_reports env (set_logs md) c = (es, Inr n)" using md' w by blast
qed


definition sample_env :: report_env where
  "sample_env = \<lparr>re_rel = (\<lambda>p d. Inr p), re_xml = (\<lambda>ss. []), re_pct = (\<lambda>p n. ''100.00''),
     re_read = (\<lambda>p. Inl (OSError p)), re_render = (\<lambda>a. Inr []), re_round2 = id, re_dumps = (\<lambda>r. []),
     re_fmt1 = (\<lambda>x. []), re_svg = None\<rparr>"

definition sample_md :: regression_metadata where
  "sample_md = (dummy_obj ''now'')\<lparr>md_dir_run := ''out/run'', md_simulator := ''vcs''\<rparr>"

definition sample_run :: trr where
  "sample_run = empty_trr\<lparr>trr_testname := Some ''t'', trr_seed := Some 1, trr_passed := Some True\<rparr>"

definition sample_pickles :: "trr res list" where
  "sample_pickles = [Inr sample_run]"

lemma sample_collects: "snd (snd (collect_main sample_env sample_md sample_pickles)) = Inr 0"
  by code_simp


text \<open>A regression without runs: the reports stop at the summary line.\<close>

theorem no_runs_raises:
  "collect_main env md [] =
     (set_logs md, [Wrote (report_path md ''regr_junit.xml'') (re_xml env []),
        Wrote (report_path md ''regr_junit_merged.xml'') (re_xml env []), Cut (report_path md ''regr.log'')],
      Inl ZeroDivisionError)"
  by (simp add: collect_main_def collect_tests_def write_reports_def write_junit_def
      output_run_results_junit_xml_def suites_def merged_suites_def and_then_def write_file_def
      output_results_text_def gen_summary_line_def set_logs_def)

text \<open>A coverage report in which no module has covergroups: the average is \<open>None\<close>, and the reports raise.\<close>

lemma no_covergroups:
  assumes "list_all (\<lambda>(modname, d). map_of d ''covergroup-average'' = None) cg"
  shows "calc_cg_average cg = Inr None"
proof -
  from assms have "cg_values cg = Inr []"
    unfolding cg_values_def by (induction cg) (auto simp: bind_res_Inr List.map_filter_simps)
  then show ?thesis by (simp add: calc_cg_average_def)
qed

theorem none_covergroup_raises:
  assumes "map_of d ''covergroup'' = Some None"
  shows "create_dvsim_report_dict round2 tool block variant tests (Some d) \<noteq> Inr r"
    and "cov_elements fmt1 d \<noteq> Inr els"
proof -
  let ?f = "\<lambda>(k, v). case v of None \<Rightarrow> Inl (TypeError ''unsupported operand type(s)'') | Some x \<Rightarrow> Inr (k, x * 100)"
  have "map_res ?f xs \<noteq> Inr ys" if "map_of xs ''covergroup'' = Some None" for xs :: cov_summary and ys
    using that by (induction xs arbitrary: ys) (auto simp: bind_res_Inr split: if_splits)
  with assms have "map_res ?f d \<noteq> Inr ys" for ys by blast
  moreover from assms have "d \<noteq> []" by auto
  ultimately show "create_dvsim_report_dict round2 tool block variant tests (Some d) \<noteq> Inr r"
    by (auto simp: create_dvsim_report_dict_def bind_res_Inr cov_given_def)
  show "cov_elements fmt1 d \<noteq> Inr els"
    using assms by (auto simp: cov_elements_def bind_res_Inr cov_number_def)
qed

text \<open>A metric without anything to cover, \<open>0/0\<close> in the report, makes the summary raise.\<close>

theorem zero_total_raises:
  assumes "map_of d (m @ ''-covered'') = Some (Covered c 0)" and "m \<in> set IBEX_COVERAGE_METRICS"
  shows "fold_res (add_cov_to_summary d) [] IBEX_COVERAGE_METRICS \<noteq> Inr s"
proof -
  have "fold_res (add_cov_to_summary d) s ms \<noteq> Inr s'" if "m \<in> set ms" for s s' ms
    using that assms(1)
    by (induction ms arbitrary: s) (auto simp: bind_res_Inr add_cov_to_summary_def)
  with assms(2) show ?thesis by blast
qed

end
