(* ===== verification/Syn_Flow.thy ===== *)
theory Syn_Flow
  imports Trace_Lib Complex_Main
begin

text \<open>
  The scripts of \<^verbatim>\<open>ibex-soc/syn/python\<close> for a synthesised netlist: \<^verbatim>\<open>flow_utils.py\<close>,
  \<^verbatim>\<open>build_translated_names.py\<close> and \<^verbatim>\<open>translate_timing_csv.py\<close> give the generated cells of a timing
  report readable names, \<^verbatim>\<open>get_kge.py\<close> weighs the cells of an area report.  Files are their texts;
  floats are rationals without rounding, and \<open>nan\<close> and \<open>inf\<close> are not among them.
\<close>

section \<open>Numbers and lines\<close>

text \<open>\<open>float\<close> of a decimal text.\<close>

definition digit_part :: "string \<Rightarrow> (nat \<times> nat) option" where
  "digit_part s =
     (case parse_digits 10 False 0 s of
        None \<Rightarrow> None | Some n \<Rightarrow> Some (n, length (filter (\<lambda>c. c \<noteq> CHR ''_'') s)))"

definition mantissa :: "string \<Rightarrow> rat option" where
  "mantissa s =
     (let a = takeWhile (\<lambda>c. c \<noteq> CHR ''.'') s
      in case dropWhile (\<lambda>c. c \<noteq> CHR ''.'') s of
           [] \<Rightarrow> map_option (\<lambda>(n, k). of_nat n) (digit_part a)
         | _ # b \<Rightarrow>
             if a = [] \<and> b = [] then None
             else (case (if a = [] then Some (0, 0) else digit_part a, if b = [] then Some (0, 0) else digit_part b) of
                     (Some (n, _), Some (m, k)) \<Rightarrow> Some (of_nat n + of_nat m / 10 ^ k)
                   | _ \<Rightarrow> None))"

definition is_exp :: "char \<Rightarrow> bool" where
  "is_exp c \<longleftrightarrow> c = CHR ''e'' \<or> c = CHR ''E''"

definition float_body :: "string \<Rightarrow> rat option" where
  "float_body s =
     (case dropWhile (\<lambda>c. \<not> is_exp c) s of
        [] \<Rightarrow> mantissa s
      | _ # e \<Rightarrow>
          (case (mantissa (takeWhile (\<lambda>c. \<not> is_exp c) s), split_sign e) of
             (Some m, (neg, ds)) \<Rightarrow>
               map_option (\<lambda>(n, k). if neg then m / 10 ^ n else m * 10 ^ n) (digit_part ds)
           | (None, _) \<Rightarrow> None))"

definition float_of :: "string \<Rightarrow> rat res" where
  "float_of s =
     (case split_sign (py_strip s) of
        (neg, b) \<Rightarrow>
          (case float_body b of
             Some x \<Rightarrow> Inr (if neg then - x else x)
           | None \<Rightarrow> Inl (ValueError (''could not convert string to float: '' @ repr_str s))))"

text \<open>\<open>readlines\<close>: the lines with their ends.\<close>

definition readlines :: "string \<Rightarrow> string list" where
  "readlines s =
     (let ps = split_on (CHR 0x0A) (universal_newlines s)
      in map (\<lambda>l. l @ newline) (butlast ps) @ (if last ps = [] then [] else [last ps]))"

section \<open>Timing reports\<close>

definition ys_translate_script_filename :: string where
  "ys_translate_script_filename = ''translate_names.ys''"

definition ys_translated_names :: string where
  "ys_translated_names = ''ys_translated_names''"

definition ys_tcl :: string where
  "ys_tcl = ''./tcl/yosys_post_synth.tcl''"

definition generated_cell_re :: regex where
  "generated_cell_re = Seqs [Grp ''1'' (Seqs [Str ''_'', Plus (Cls word_char), Str ''_'']), Str ''/'',
     Grp ''2'' (Plus (Cls word_char))]"

text \<open>The script for the cells, in the order in which the set is iterated.\<close>

definition create_translate_names_script :: "string list \<Rightarrow> string \<Rightarrow> string \<Rightarrow> string" where
  "create_translate_names_script cells top_level gen_out =
     ''tcl '' @ ys_tcl @ newline @ ''cd '' @ top_level @ newline @
     concat (map (\<lambda>cell. ''select '' @ cell @ '' %x:+[Q]'' @ newline @
       ''tee -a '' @ gen_out @ ''/'' @ ys_translated_names @ '' select -list'' @ newline) cells)"

definition cell_of :: "string \<Rightarrow> string option" where
  "cell_of s = map_option (\<lambda>m. group_str m ''1'') (re_search generated_cell_re s)"

definition point_of :: "string \<Rightarrow> string" where
  "point_of s = (case cell_of s of Some c \<Rightarrow> c | None \<Rightarrow> s)"

type_synonym path_info = "(string \<times> string \<times> rat) list"

definition read_path :: "string list \<Rightarrow> (string list \<times> string \<times> string \<times> rat) res" where
  "read_path line =
     bind_res (nth_res line 0) (\<lambda>a.
     bind_res (nth_res line 1) (\<lambda>b.
     bind_res (bind_res (nth_res line 2) float_of) (\<lambda>x.
     Inr (List.map_filter cell_of [a, b], point_of a, point_of b, x))))"

text \<open>The cells, without repetitions, and the paths.\<close>

definition extract_path_info :: "string \<Rightarrow> (string list \<times> path_info) res" where
  "extract_path_info timing_csv =
     bind_res (map_res read_path (map csv_parse (text_lines timing_csv))) (\<lambda>rs.
     Inr (remdups (concat (map fst rs)), map snd rs))"

definition second_part :: "string \<Rightarrow> string res" where
  "second_part s = (if CHR ''/'' \<in> set s then Inr (tl (dropWhile (\<lambda>c. c \<noteq> CHR ''/'') s)) else Inl IndexError)"

fun names_dict :: "(string, string) dict \<Rightarrow> string list \<Rightarrow> (string, string) dict res" where
  "names_dict d [] = Inr d"
| "names_dict d [a] = bind_res (second_part (butlast a)) (\<lambda>_. Inl IndexError)"
| "names_dict d (a # b # ls) =
     bind_res (second_part (butlast a)) (\<lambda>translated_name.
     bind_res (second_part (butlast b)) (\<lambda>cell_name.
     names_dict (dict_set cell_name translated_name d) ls))"

definition build_translated_names_dict :: "string \<Rightarrow> (string, string) dict res" where
  "build_translated_names_dict translated_names = names_dict [] (readlines translated_names)"

definition translate_path_info :: "path_info \<Rightarrow> string \<Rightarrow> path_info res" where
  "translate_path_info paths translated_names =
     bind_res (build_translated_names_dict translated_names) (\<lambda>d.
     Inr (map (\<lambda>(a, b, x). (dict_get d a a, dict_get d b b, x)) paths))"

text \<open>\<open>build_translated_names.py\<close>: the script written and the command run; \<open>order\<close> is the iteration of the set.\<close>

definition update_cells :: "string list \<Rightarrow> string \<Rightarrow> string list res" where
  "update_cells cells rpt =
     bind_res (extract_path_info rpt) (\<lambda>(new, _). Inr (remdups (cells @ new)))"

definition build_translated_names :: "(string list \<Rightarrow> string list) \<Rightarrow> string \<Rightarrow> string \<Rightarrow> string list
    \<Rightarrow> ((string \<times> string) \<times> string list) res" where
  "build_translated_names order top_level gen_out rpts =
     bind_res (fold_res update_cells [] rpts) (\<lambda>cells.
     let script = gen_out @ ''/'' @ ys_translate_script_filename
     in Inr ((script, create_translate_names_script (order cells) top_level gen_out), [''yosys'', ''-s'', script]))"

text \<open>
  \<open>translate_timing_csv.py\<close>: the new text of the report file, which is the one it read; \<open>fmt\<close>
  prints a float.
\<close>

definition translate_timing_csv :: "(rat \<Rightarrow> string) \<Rightarrow> string \<Rightarrow> string \<Rightarrow> string res" where
  "translate_timing_csv fmt rpt translated_names =
     bind_res (extract_path_info rpt) (\<lambda>(_, paths).
     bind_res (translate_path_info paths translated_names) (\<lambda>paths.
     Inr (''Start Point, End Point, WNS (ns)'' @ newline @
          concat (map (\<lambda>(a, b, x). a @ '','' @ b @ '','' @ fmt x @ newline) paths))))"

section \<open>Area reports\<close>

definition strip_chars :: "char list \<Rightarrow> string \<Rightarrow> string" where
  "strip_chars cs s = rev (dropWhile (\<lambda>c. c \<in> set cs) (rev (dropWhile (\<lambda>c. c \<in> set cs) s)))"

definition at_line :: "string \<Rightarrow> nat \<Rightarrow> string \<Rightarrow> exn" where
  "at_line path line_idx msg = RuntimeError (path @ '':'' @ str_int (int (line_idx + 1)) @ msg)"

type_synonym lib_state = "(string, rat) dict \<times> string option"

text \<open>\<open>except (IndexError, ValueError)\<close>.\<close>

definition misformatted :: "exn \<Rightarrow> 'a res \<Rightarrow> 'a res" where
  "misformatted e r =
     (case r of Inl IndexError \<Rightarrow> Inl e | Inl (ValueError _) \<Rightarrow> Inl e | _ \<Rightarrow> r)"

definition lib_line :: "string \<Rightarrow> lib_state \<Rightarrow> nat \<times> string \<Rightarrow> lib_state res" where
  "lib_line path st l =
     (case (st, l) of
        ((cells, cell), (line_idx, line)) \<Rightarrow>
          if starts_with ''  cell ('' line
          then (if cell \<noteq> None then Inl (at_line path line_idx '' Found cell while searching for area'')
                else bind_res (nth_res (split_ws line) 1) (\<lambda>w. Inr (cells, Some (strip_chars ''()'' w))))
          else if starts_with (CHR 0x09 # ''area'') line
          then (case cell of
                  None \<Rightarrow> Inl (at_line path line_idx '' Found area while searching for cell'')
                | Some c \<Rightarrow>
                    misformatted (at_line path line_idx '' Area declaration misformatted'')
                      (bind_res (nth_res (split_ws line) 2) (\<lambda>w.
                       bind_res (float_of (strip_chars '';'' w)) (\<lambda>a. Inr (dict_set c a cells, None)))))
          else Inr st)"

definition weights :: "(string, rat) dict \<Rightarrow> rat \<Rightarrow> (string, rat) dict res" where
  "weights cells ref = map_res (\<lambda>(c, a). if ref = 0 then Inl ZeroDivisionError else Inr (c, a / ref)) cells"

definition read_lib :: "string \<Rightarrow> string \<Rightarrow> string \<Rightarrow> (string, rat) dict res" where
  "read_lib lib_file_path lib_file ref_cell =
     bind_res (fold_res (lib_line lib_file_path) ([], None) (enumerate 0 (readlines lib_file))) (\<lambda>(cells, _).
     case map_of cells ref_cell of
       None \<Rightarrow> Inl (RuntimeError (''Specified reference cell: '' @ ref_cell @ '' was not found in library: '' @ lib_file_path))
     | Some ref \<Rightarrow> weights cells ref)"

definition report_line :: "string \<Rightarrow> (string, rat) dict \<Rightarrow> rat \<Rightarrow> nat \<times> string \<Rightarrow> rat res" where
  "report_line path ws ge l =
     (case l of (line_idx, line) \<Rightarrow>
        (case split_ws line of
           [] \<Rightarrow> Inr ge
         | c # rest \<Rightarrow>
             (case map_of ws c of
                None \<Rightarrow> Inr ge
              | Some w \<Rightarrow>
                  misformatted (at_line path line_idx ('' Cell '' @ c @ '' matched but was misformatted''))
                    (bind_res (bind_res (nth_res (c # rest) 1) float_of) (\<lambda>n. Inr (ge + n * w))))))"

definition get_kge :: "string \<Rightarrow> string \<Rightarrow> (string, rat) dict \<Rightarrow> rat res" where
  "get_kge report_path report ws =
     bind_res (fold_res (report_line report_path ws) 0 (enumerate 0 (readlines report))) (\<lambda>ge. Inr (ge / 1000))"

definition kge_main :: "string \<Rightarrow> string \<Rightarrow> string \<Rightarrow> string \<Rightarrow> string \<Rightarrow> rat res" where
  "kge_main lib_path lib_file report_path report cell =
     bind_res (read_lib lib_path lib_file cell) (get_kge report_path report)"

section \<open>Lines of a file\<close>

definition file_text :: "string list \<Rightarrow> string" where
  "file_text ls = concat (map (\<lambda>l. l @ newline) ls)"

lemma split_file_text:
  "list_all single_line ls \<Longrightarrow> split_on (CHR 0x0A) (universal_newlines (file_text ls)) = ls @ [[]]"
proof (induction ls)
  case Nil
  then show ?case by (simp add: file_text_def split_on_simps)
next
  case (Cons l ls)
  then have l: "CHR 0x0A \<notin> set l" "single_line l" by (auto simp: single_line_def)
  have "universal_newlines (file_text (l # ls)) = l @ CHR 0x0A # universal_newlines (file_text ls)"
    using universal_plain [OF l(2)] by (simp add: file_text_def newline_def)
  moreover have "split_on (CHR 0x0A) (l @ CHR 0x0A # s) = l # split_on (CHR 0x0A) s" for s
    unfolding split_on_def using l(1) by (intro split_by_append_sep) auto
  ultimately show ?case using Cons by simp
qed

lemma lines_of_file:
  assumes "list_all single_line ls"
  shows "text_lines (file_text ls) = ls" "readlines (file_text ls) = map (\<lambda>l. l @ newline) ls"
  using split_file_text [OF assms] by (simp_all add: text_lines_def readlines_def)

section \<open>Names of cells\<close>

text \<open>A point of a timing path: a port, or a pin of a generated cell.\<close>

datatype point = Port string | Pin string string

fun point_text :: "point \<Rightarrow> string" where
  "point_text (Port s) = s"
| "point_text (Pin w p) = ''_'' @ w @ ''_/'' @ p"

fun point_cell :: "point \<Rightarrow> string" where
  "point_cell (Port s) = s"
| "point_cell (Pin w p) = ''_'' @ w @ ''_''"

fun point_ok :: "point \<Rightarrow> bool" where
  "point_ok (Port s) = (CHR ''/'' \<notin> set s)"
| "point_ok (Pin w p) = (run_of word_char w \<and> run_of word_char p)"

lemma cell_star:
  "list_all word_char w \<Longrightarrow>
   mtch (Seq (Star (Cls word_char)) (Str ''_'')) (w @ CHR ''_'' # CHR ''/'' # t) \<noteq> []
   \<and> hd (mtch (Seq (Star (Cls word_char)) (Str ''_'')) (w @ CHR ''_'' # CHR ''/'' # t)) = (CHR ''/'' # t, [])"
proof (induction w)
  case Nil
  have "mtch (Seq (Star (Cls word_char)) (Str ''_'')) (CHR ''_'' # CHR ''/'' # t) = [(CHR ''/'' # t, [])]"
    by (simp add: mtch_Star_Cls Str_def word_char_def)
  then show ?case by simp
next
  case (Cons c w)
  then have "word_char c" "list_all word_char w" by simp_all
  then have "mtch (Seq (Star (Cls word_char)) r) (c # v) = mtch (Seq (Star (Cls word_char)) r) v @ mtch r (c # v)" for r v
    by (simp add: mtch_Star_Cls)
  with Cons.IH [OF \<open>list_all word_char w\<close>] show ?case by (simp del: mtch.simps)
qed

lemma Seq_nonempty:
  assumes "mtch r s \<noteq> [] \<and> hd (mtch r s) = (t, c)" "mtch q t \<noteq> []"
  shows "mtch (Seq r q) s \<noteq> [] \<and> snd (hd (mtch (Seq r q) s)) = c @ snd (hd (mtch q t))"
  using hd_seqm [of "mtch r s" "mtch q"] assms by simp

lemma cell_match:
  assumes "run_of word_char w" "run_of word_char p"
  shows "re_match generated_cell_re (point_text (Pin w p)) = Some [(''1'', ''_'' @ w @ ''_''), (''2'', p)]"
proof -
  let ?t = "CHR ''/'' # p"
  obtain c v where w: "w = c # v" "word_char c" "list_all word_char v"
    using assms(1) by (cases w) (auto simp: run_of_def)
  have "mtch (Seq (Plus (Cls word_char)) (Str ''_'')) (w @ CHR ''_'' # ?t)
      = mtch (Seq (Star (Cls word_char)) (Str ''_'')) (v @ CHR ''_'' # ?t)"
    unfolding Seq_assoc using w by simp
  with cell_star [OF w(3), of p] have
    "mtch (Seqs [Str ''_'', Plus (Cls word_char), Str ''_'']) (CHR ''_'' # w @ CHR ''_'' # ?t) \<noteq> []
     \<and> hd (mtch (Seqs [Str ''_'', Plus (Cls word_char), Str ''_'']) (CHR ''_'' # w @ CHR ''_'' # ?t)) = (?t, [])"
    by (simp only: Seqs.simps mtch_Str1 simp_thms if_True)
  from group_hd [of _ "CHR ''_'' # w @ ''_''" ?t "''1''"] this have
    g: "mtch (Grp ''1'' (Seqs [Str ''_'', Plus (Cls word_char), Str ''_''])) (CHR ''_'' # w @ CHR ''_'' # ?t) \<noteq> []
     \<and> hd (mtch (Grp ''1'' (Seqs [Str ''_'', Plus (Cls word_char), Str ''_''])) (CHR ''_'' # w @ CHR ''_'' # ?t))
        = (?t, [(''1'', CHR ''_'' # w @ ''_'')])"
    by (simp only: append_Cons append_Nil append_assoc)
  have slash: "mtch (Str ''/'') ?t \<noteq> [] \<and> hd (mtch (Str ''/'') ?t) = (p, [])" by (simp add: Str_def)
  have "mtch (Plus (Cls word_char)) (p @ []) \<noteq> [] \<and> hd (mtch (Plus (Cls word_char)) (p @ [])) = ([], [])"
    using assms(2) by (intro Plus_hd) (auto simp: run_of_def class_then_def)
  note pin = group_hd [OF this, of "''2''", unfolded append_Nil2]
  from re_match_hd [OF Seq_hd [OF g Seq_hd [OF slash pin]]] show ?thesis
    by (simp only: generated_cell_re_def Seqs.simps point_text.simps append_Cons append_Nil)
qed

lemma lang_Seq: "lang (Seq r q) w \<Longrightarrow> \<exists>u v. w = u @ v \<and> lang r u \<and> lang q v"
  by (erule lang.cases) auto

lemma cell_of_point:
  assumes "point_ok x"
  shows "point_of (point_text x) = point_cell x"
    and "cell_of (point_text x) = (case x of Port s \<Rightarrow> None | Pin w p \<Rightarrow> Some (point_cell x))"
proof -
  have none: "re_search generated_cell_re s = None" if "CHR ''/'' \<notin> set s" for s
  proof (rule search_none [OF _ that])
    fix w assume "lang generated_cell_re w"
    then obtain u v where w: "w = u @ v" and v: "lang (Seq (Str ''/'') (Grp ''2'' (Plus (Cls word_char)))) v"
      unfolding generated_cell_re_def Seqs.simps by (blast dest: lang_Seq)
    from lang_Seq [OF v] obtain a b where "v = a @ b" "lang (Str ''/'') a" by blast
    with w lang_Str_set show "CHR ''/'' \<in> set w" by auto
  qed
  have pin: "re_search generated_cell_re (point_text (Pin w p)) = Some [(''1'', ''_'' @ w @ ''_''), (''2'', p)]"
    if "run_of word_char w" "run_of word_char p" for w p
    using cell_match [OF that] by simp
  show "point_of (point_text x) = point_cell x"
    and "cell_of (point_text x) = (case x of Port s \<Rightarrow> None | Pin w p \<Rightarrow> Some (point_cell x))"
    using assms none pin by (cases x; simp add: point_of_def cell_of_def group_str_def group_def)+
qed

section \<open>Translated timing reports\<close>

text \<open>A row of a timing report: two points and the text of a number.\<close>

type_synonym timing_row = "point \<times> point \<times> string \<times> rat"

definition row_line :: "timing_row \<Rightarrow> string" where
  "row_line = (\<lambda>(a, b, v, x). csv_row [point_text a, point_text b, v])"

definition row_path :: "timing_row \<Rightarrow> string \<times> string \<times> rat" where
  "row_path = (\<lambda>(a, b, v, x). (point_cell a, point_cell b, x))"

definition timing_row_ok :: "timing_row \<Rightarrow> bool" where
  "timing_row_ok = (\<lambda>(a, b, v, x).
     point_ok a \<and> point_ok b \<and> float_of v = Inr x \<and> single_line (csv_row [point_text a, point_text b, v]))"

text \<open>What yosys lists for one cell: the name, then the cell, each below the top level.\<close>

type_synonym name_entry = "string \<times> string \<times> string"

definition name_lines :: "name_entry \<Rightarrow> string list" where
  "name_lines = (\<lambda>(pre, cell, name). [pre @ ''/'' @ name, pre @ ''/'' @ cell])"

definition name_ok :: "name_entry \<Rightarrow> bool" where
  "name_ok = (\<lambda>(pre, cell, name).
     CHR ''/'' \<notin> set pre \<and> single_line (pre @ ''/'' @ name) \<and> single_line (pre @ ''/'' @ cell))"

definition name_pair :: "name_entry \<Rightarrow> string \<times> string" where
  "name_pair = (\<lambda>(pre, cell, name). (cell, name))"

lemma read_path_row:
  "timing_row_ok r \<Longrightarrow> \<exists>cs. read_path (csv_parse (row_line r)) = Inr (cs, row_path r)"
  by (cases r) (simp add: timing_row_ok_def row_line_def row_path_def csv_parse_row read_path_def nth_res_def cell_of_point)

lemma map_res_ok: "list_all (\<lambda>x. \<exists>c. f x = Inr (c, g x)) xs \<Longrightarrow> \<exists>rs. map_res f xs = Inr rs \<and> map snd rs = map g xs"
  by (induction xs) auto

lemma map_res_map: "map_res f (map g xs) = map_res (\<lambda>x. f (g x)) xs"
  by (induction xs) simp_all

lemma extract_rows:
  assumes "list_all timing_row_ok rows"
  shows "\<exists>cs. extract_path_info (file_text (map row_line rows)) = Inr (cs, map row_path rows)"
proof -
  have "list_all single_line (map row_line rows)"
    using assms by (auto simp: list_all_iff timing_row_ok_def row_line_def)
  note ls = lines_of_file(1) [OF this]
  have "list_all (\<lambda>r. \<exists>c. read_path (csv_parse (row_line r)) = Inr (c, row_path r)) rows"
    using assms read_path_row by (simp add: list_all_iff)
  from map_res_ok [of "\<lambda>r. read_path (csv_parse (row_line r))" row_path, OF this] show ?thesis
    by (auto simp: extract_path_info_def ls map_res_map)
qed

lemma second_part_slash: "CHR ''/'' \<notin> set pre \<Longrightarrow> second_part (pre @ CHR ''/'' # s) = Inr s"
proof -
  assume "CHR ''/'' \<notin> set pre"
  then have "dropWhile (\<lambda>c. c \<noteq> CHR ''/'') (pre @ CHR ''/'' # s) = CHR ''/'' # s"
    by (subst dropWhile_append2) auto
  then show ?thesis by (simp add: second_part_def)
qed

lemma names_dict_entries:
  "list_all name_ok ns \<Longrightarrow> distinct (map (fst \<circ> name_pair) ns) \<Longrightarrow> \<forall>e\<in>set ns. fst (name_pair e) \<notin> fst ` set d \<Longrightarrow>
   names_dict d (map (\<lambda>l. l @ newline) (concat (map name_lines ns))) = Inr (d @ map name_pair ns)"
proof (induction ns arbitrary: d)
  case (Cons e ns)
  obtain pre cell name where e: "e = (pre, cell, name)" by (cases e)
  have "names_dict (d @ [(cell, name)]) (map (\<lambda>l. l @ newline) (concat (map name_lines ns)))
      = Inr ((d @ [(cell, name)]) @ map name_pair ns)"
    using Cons.prems e by (intro Cons.IH) (auto simp: name_pair_def image_iff)
  with Cons.prems e show ?case
    by (simp add: name_lines_def name_ok_def name_pair_def newline_def butlast_append second_part_slash dict_set_new)
qed simp

text \<open>
  A timing report comes back with a header line and, for each row, its two points and the number:
  a pin of a generated cell as the name that yosys listed for the cell, or as the cell when it
  listed none, and a port as it was.
\<close>

theorem timing_names_translated:
  assumes "list_all timing_row_ok rows"
    and "list_all name_ok ns" and "distinct (map (fst \<circ> name_pair) ns)"
  shows "translate_timing_csv fmt (file_text (map row_line rows)) (file_text (concat (map name_lines ns))) =
    Inr (file_text (''Start Point, End Point, WNS (ns)'' #
      map (\<lambda>(a, b, v, x). dict_get (map name_pair ns) (point_cell a) (point_cell a) @ '','' @
             dict_get (map name_pair ns) (point_cell b) (point_cell b) @ '','' @ fmt x) rows))"
proof -
  from extract_rows [OF assms(1)] obtain cs where
    e: "extract_path_info (file_text (map row_line rows)) = Inr (cs, map row_path rows)" by blast
  have "list_all single_line (concat (map name_lines ns))"
    using assms(2) by (auto simp: list_all_iff name_ok_def name_lines_def)
  from lines_of_file(2) [OF this] names_dict_entries [OF assms(2,3), of "[]"]
  have d: "build_translated_names_dict (file_text (concat (map name_lines ns))) = Inr (map name_pair ns)"
    by (simp add: build_translated_names_dict_def)
  show ?thesis
    by (simp only: translate_timing_csv_def e bind_res_simps prod.case translate_path_info_def d)
      (simp add: file_text_def row_path_def o_def split_def)
qed

definition sample_rows :: "timing_row list" where
  "sample_rows = [(Pin ''12'' ''Q'', Port ''out_o'', ''-1.5'', - 3 / 2)]"

definition sample_names :: "name_entry list" where
  "sample_names = [(''top'', ''_12_'', ''u_if.pc'')]"

theorem timing_names_translated_witness:
  "translate_timing_csv (\<lambda>x. ''-1.5'') (file_text (map row_line sample_rows)) (file_text (concat (map name_lines sample_names))) =
    Inr (file_text (''Start Point, End Point, WNS (ns)'' #
      map (\<lambda>(a, b, v, x). dict_get (map name_pair sample_names) (point_cell a) (point_cell a) @ '','' @
             dict_get (map name_pair sample_names) (point_cell b) (point_cell b) @ '','' @ ''-1.5'') sample_rows))"
proof (rule timing_names_translated)
  show "list_all timing_row_ok sample_rows" by code_simp
  show "list_all name_ok sample_names" by code_simp
  show "distinct (map (fst \<circ> name_pair) sample_names)" by code_simp
qed

text \<open>The result replaces the report; read again, its header line is taken for a path.\<close>

lemma header_not_a_path:
  "read_path (csv_parse ''Start Point, End Point, WNS (ns)'')
    = Inl (ValueError (''could not convert string to float: '' @ repr_str '' WNS (ns)''))"
  by code_simp

theorem translated_report_unreadable:
  assumes "translate_timing_csv fmt rpt names = Inr out"
  shows "\<exists>e. translate_timing_csv fmt' out names' = Inl (ValueError e)"
proof -
  from assms obtain body where out: "out = ''Start Point, End Point, WNS (ns)'' @ CHR 0x0A # body"
    by (auto simp: translate_timing_csv_def bind_res_Inr newline_def)
  have "text_lines out = ''Start Point, End Point, WNS (ns)'' # text_lines body"
  proof -
    have h: "single_line ''Start Point, End Point, WNS (ns)''" by code_simp
    have "split_on (CHR 0x0A) (universal_newlines out)
        = ''Start Point, End Point, WNS (ns)'' # split_on (CHR 0x0A) (universal_newlines body)"
      unfolding out universal_plain [OF h] split_on_def universal_newlines.simps
      using h by (subst if_not_P, simp, intro split_by_append_sep) (auto simp: single_line_def)
    then show ?thesis by (simp add: text_lines_def Let_def)
  qed
  then show ?thesis
    by (simp only: translate_timing_csv_def extract_path_info_def list.map map_res.simps header_not_a_path bind_res_simps)
      simp
qed

section \<open>The area of a netlist\<close>

text \<open>
  A cell of a library: its name, lines up to its area, the text and value of the area, and lines up
  to the next cell.
\<close>

type_synonym lib_cell = "string \<times> string list \<times> string \<times> rat \<times> string list"

definition other_line :: "string \<Rightarrow> bool" where
  "other_line l \<longleftrightarrow> single_line l \<and> \<not> starts_with ''  cell ('' l \<and> \<not> starts_with (CHR 0x09 # ''area'') l"

definition plain_name :: "string \<Rightarrow> bool" where
  "plain_name n \<longleftrightarrow> n \<noteq> [] \<and> no_ws n \<and> CHR ''('' \<notin> set n \<and> CHR '')'' \<notin> set n"

definition plain_number :: "string \<Rightarrow> rat \<Rightarrow> bool" where
  "plain_number v x \<longleftrightarrow> v \<noteq> [] \<and> no_ws v \<and> CHR '';'' \<notin> set v \<and> float_of v = Inr x"

definition lib_cell_lines :: "lib_cell \<Rightarrow> string list" where
  "lib_cell_lines = (\<lambda>(n, inner, v, a, after).
     (''  cell ('' @ n @ '') {'') # inner @ (CHR 0x09 # ''area : '' @ v @ '';'') # after)"

definition lib_cell_ok :: "lib_cell \<Rightarrow> bool" where
  "lib_cell_ok = (\<lambda>(n, inner, v, a, after).
     plain_name n \<and> plain_number v a \<and> list_all other_line inner \<and> list_all other_line after)"

definition cell_area :: "lib_cell \<Rightarrow> string \<times> rat" where
  "cell_area = (\<lambda>(n, inner, v, a, after). (n, a))"

lemma ws_newline: "is_ws (CHR 0x0A)" "is_ws (CHR '' '')" "is_ws (CHR 0x09)"
  by (simp_all add: is_ws_def)

lemma strip_chars_middle:
  assumes "list_all (\<lambda>c. c \<in> set cs) u" "list_all (\<lambda>c. c \<in> set cs) w" "list_all (\<lambda>c. c \<notin> set cs) v"
  shows "strip_chars cs (u @ v @ w) = v"
proof (cases "v = []")
  case True
  have "dropWhile (\<lambda>c. c \<in> set cs) (u @ w) = []"
    unfolding dropWhile_eq_Nil_conv using assms(1,2) by (auto simp: list_all_iff)
  then show ?thesis unfolding strip_chars_def True append_Nil by (simp only: rev.simps dropWhile.simps)
next
  case False
  have keep: "dropWhile (\<lambda>c. c \<in> set cs) (y @ x @ z) = x @ z"
    if "list_all (\<lambda>c. c \<in> set cs) y" "x \<noteq> []" "list_all (\<lambda>c. c \<notin> set cs) x" for x y z
    using that by (subst dropWhile_append2; cases x) (auto simp: list_all_iff)
  have "dropWhile (\<lambda>c. c \<in> set cs) (rev w @ rev v @ []) = rev v @ []"
    using assms False by (intro keep) simp_all
  with keep [OF assms(1) False assms(3), of w] show ?thesis by (simp add: strip_chars_def)
qed

lemma fold_other:
  "list_all other_line ls \<Longrightarrow> fold_res (lib_line path) st (enumerate k (map (\<lambda>l. l @ newline) ls)) = Inr st"
proof (induction ls arbitrary: k)
  case (Cons l ls)
  have pre: "starts_with p (l @ newline) \<longleftrightarrow> starts_with p l" if "CHR 0x0A \<notin> set p" for p
    using that by (auto simp: starts_with_iff newline_def append_eq_append_conv2 Cons_eq_append_conv append_eq_Cons_conv)
  from Cons.prems have "\<not> starts_with ''  cell ('' (l @ newline)" "\<not> starts_with (CHR 0x09 # ''area'') (l @ newline)"
    by (simp_all add: other_line_def pre)
  with Cons show ?case by (cases st) (simp add: lib_line_def)
qed simp

lemma read_cell_line:
  assumes "plain_name n"
  shows "lib_line path (cells, None) (k, (''  cell ('' @ n @ '') {'') @ newline) = Inr (cells, Some n)"
proof -
  from assms have n: "no_ws (''('' @ n @ '')'')" by (auto simp: plain_name_def no_ws_def is_ws_def)
  have "split_ws ((''  cell ('' @ n @ '') {'') @ newline) = split_ws (''cell'' @ CHR '' '' # (''('' @ n @ '')'') @ CHR '' '' # ''{'' @ newline)"
    by (simp add: split_ws_sep ws_newline)
  also have "\<dots> = ''cell'' # (''('' @ n @ '')'') # split_ws (''{'' @ newline)"
    using split_ws_word_sep [OF n, of "CHR '' ''" "''{'' @ newline"]
    by (subst split_ws_word_sep) (simp_all add: ws_newline, simp add: no_ws_def is_ws_def)
  finally have "nth_res (split_ws ((''  cell ('' @ n @ '') {'') @ newline)) 1 = Inr (''('' @ n @ '')'')"
    by (simp add: nth_res_def)
  moreover have "strip_chars ''()'' (''('' @ n @ '')'') = n"
    using assms by (intro strip_chars_middle) (auto simp: plain_name_def list_all_iff)
  moreover have "starts_with ''  cell ('' ((''  cell ('' @ n @ '') {'') @ newline)" by (simp add: starts_with_iff)
  ultimately show ?thesis by (simp add: lib_line_def del: append.simps append_assoc)
qed

lemma read_area_line:
  assumes "plain_number v a"
  shows "lib_line path (cells, Some n) (k, (CHR 0x09 # ''area : '' @ v @ '';'') @ newline) = Inr (dict_set n a cells, None)"
proof -
  from assms have v: "no_ws (v @ '';'')" by (auto simp: plain_number_def no_ws_def is_ws_def)
  have "split_ws ((CHR 0x09 # ''area : '' @ v @ '';'') @ newline) = split_ws (''area'' @ CHR '' '' # '':'' @ CHR '' '' # (v @ '';'') @ newline)"
    by (simp add: split_ws_sep ws_newline)
  also have "\<dots> = ''area'' # '':'' # split_ws ((v @ '';'') @ newline)"
    by (subst split_ws_word_sep, simp_all add: ws_newline, simp add: no_ws_def is_ws_def)
      (subst split_ws_word_sep [of "'':''", simplified], simp_all add: ws_newline, simp add: no_ws_def is_ws_def)
  also have "split_ws ((v @ '';'') @ newline) = [v @ '';'']"
    unfolding newline_def using v by (subst split_ws_word_sep) (simp_all add: ws_newline, simp add: split_ws_def)
  finally have "nth_res (split_ws ((CHR 0x09 # ''area : '' @ v @ '';'') @ newline)) 2 = Inr (v @ '';'')"
    by (simp add: nth_res_def)
  moreover have "strip_chars '';'' ([] @ v @ '';'') = v"
    using assms by (intro strip_chars_middle) (auto simp: plain_number_def list_all_iff)
  moreover have "starts_with (CHR 0x09 # ''area'') ((CHR 0x09 # ''area : '' @ v @ '';'') @ newline)"
    "\<not> starts_with ''  cell ('' ((CHR 0x09 # ''area : '' @ v @ '';'') @ newline)" by (auto simp: starts_with_iff)
  ultimately show ?thesis using assms
    by (simp add: lib_line_def plain_number_def misformatted_def del: append.simps append_assoc) simp
qed

lemma read_lib_cells:
  assumes "list_all lib_cell_ok cells" "distinct (map (fst \<circ> cell_area) cells)"
    "\<forall>c\<in>set cells. fst (cell_area c) \<notin> fst ` set d"
  shows "fold_res (lib_line path) (d, None) (enumerate k (map (\<lambda>l. l @ newline) (concat (map lib_cell_lines cells))))
    = Inr (d @ map cell_area cells, None)"
  using assms
proof (induction cells arbitrary: d k)
  case (Cons c cells)
  obtain n inner v a after where c: "c = (n, inner, v, a, after)" by (cases c)
  from Cons.prems(1) c have ok: "plain_name n" "plain_number v a" "list_all other_line inner" "list_all other_line after"
    by (simp_all add: lib_cell_ok_def)
  from Cons.prems(3) c have new: "n \<notin> fst ` set d" by (simp add: cell_area_def)
  have IH: "fold_res (lib_line path) (d @ [(n, a)], None) (enumerate j (map (\<lambda>l. l @ newline) (concat (map lib_cell_lines cells))))
      = Inr ((d @ [(n, a)]) @ map cell_area cells, None)" for j
    using Cons.prems c by (intro Cons.IH) (auto simp: cell_area_def image_iff)
  have "lib_cell_lines c = (''  cell ('' @ n @ '') {'') # inner @ (CHR 0x09 # ''area : '' @ v @ '';'') # after"
    "cell_area c = (n, a)" by (simp_all add: c lib_cell_lines_def cell_area_def)
  then show ?case
    by (simp add: enumerate_append_eq read_cell_line [OF ok(1), simplified]
        read_area_line [OF ok(2), simplified] fold_other [OF ok(3)] fold_other [OF ok(4)] dict_set_new [OF new] IH)
qed simp

text \<open>A line of the area report: a cell and how often it occurs, then anything.\<close>

type_synonym area_row = "string \<times> string \<times> string \<times> rat \<times> string"

definition area_line :: "area_row \<Rightarrow> string" where
  "area_line = (\<lambda>(indent, c, v, q, more). indent @ c @ '' '' @ v @ '' '' @ more)"

definition area_row_ok :: "area_row \<Rightarrow> bool" where
  "area_row_ok = (\<lambda>(indent, c, v, q, more).
     list_all is_ws indent \<and> no_ws c \<and> c \<noteq> [] \<and> plain_number v q \<and> single_line (indent @ c @ '' '' @ v @ '' '' @ more))"

definition row_weight :: "(string, rat) dict \<Rightarrow> area_row \<Rightarrow> rat" where
  "row_weight ws = (\<lambda>(indent, c, v, q, more). case map_of ws c of None \<Rightarrow> 0 | Some w \<Rightarrow> q * w)"

lemma read_area_row:
  assumes "area_row_ok r"
  shows "report_line path ws ge (k, area_line r @ newline) = Inr (ge + row_weight ws r)"
proof -
  obtain indent c v q more where r: "r = (indent, c, v, q, more)" by (cases r)
  have sp: "split_ws (u @ s) = split_ws s" if "list_all is_ws u" for u s
    using that by (induction u) (simp_all add: split_ws_sep)
  from assms r have ok: "list_all is_ws indent" "no_ws c" "c \<noteq> []" "no_ws v" "v \<noteq> []" "float_of v = Inr q"
    by (simp_all add: area_row_ok_def plain_number_def)
  have "split_ws (area_line r @ newline) = c # v # split_ws (more @ newline)"
    using ok by (simp add: r area_line_def sp split_ws_word_sep ws_newline)
  then show ?thesis using ok(6)
    by (simp add: report_line_def nth_res_def misformatted_def row_weight_def r split: option.split)
qed

lemma read_area_rows:
  "list_all area_row_ok rows \<Longrightarrow>
   fold_res (report_line path ws) ge (enumerate k (map (\<lambda>l. l @ newline) (map area_line rows)))
    = Inr (ge + sum_list (map (row_weight ws) rows))"
  by (induction rows arbitrary: ge k) (simp_all add: read_area_row add.assoc)

lemma weights_ok: "r \<noteq> 0 \<Longrightarrow> weights cells r = Inr (map (\<lambda>(c, a). (c, a / r)) cells)"
  by (induction cells) (auto simp: weights_def)

lemma map_of_scaled: "map_of (map (\<lambda>(c, a). (c, a / r)) d) k = map_option (\<lambda>a. a / (r :: rat)) (map_of d k)"
  by (induction d) auto


definition sample_lib :: "lib_cell list" where
  "sample_lib = [(''NAND2_X1'', [''x''], ''0.5'', 1 / 2, [''  }'']), (''DFF'', [], ''4'', 4, [])]"

definition sample_area :: "area_row list" where
  "sample_area = [(''  '', ''DFF'', ''10'', 10, ''40''), ([], ''other'', ''1'', 1, [])]"


text \<open>A reference cell without area divides by zero.\<close>

theorem zero_reference_raises:
  assumes "fold_res (lib_line path) ([], None) (enumerate 0 (readlines lib)) = Inr (cells, c)"
    and "map_of cells ref_cell = Some 0"
  shows "read_lib path lib ref_cell = Inl ZeroDivisionError"
proof -
  from assms(2) obtain x xs where "cells = x # xs" by (cases cells) auto
  with assms show ?thesis by (cases x) (simp add: read_lib_def weights_def)
qed

end
