(* ===== verification/Stream_Top.thy ===== *)
theory Stream_Top
  imports Accelerator Skid_Buffer
begin

text \<open>
  The stream side of \<^verbatim>\<open>rtl/sys/top_axi_int.v\<close> as a whole: the skid buffers of the K, X and A
  streams, the join, the systolic array, the adder and the skid buffer of the Y stream, in one
  clock edge \<open>top_step\<close>.  The last part closes the loop: three sources hand over their beats in
  order, with any gaps, and a sink takes the beats of Y, with any pauses.  The properties say that
  what the sink has taken is at every time a prefix of the expected rows, and that under fair
  offers it takes all of them.
\<close>

section \<open>The top level\<close>

record ('x, 'k, 'm, 'y) top_state =
  SKID_K :: "('k list \<times> bool) skid"
  SKID_X :: "('x list \<times> bool) skid"
  SKID_A :: "('y list \<times> bool) skid"
  SKID_Y :: "('y list \<times> bool) skid"
  SA :: "('x, 'k, 'm, 'y) sa_state"

text \<open>
  The external signals of a cycle; a beat is the data of the bus and the last flag.  The user
  field travels beside them and has no reader.
\<close>

record ('x, 'k, 'y) top_ext =
  top_rstn :: bool
  k_skid_tvalid :: bool
  k_skid_beat :: "'k list \<times> bool"
  x_skid_tvalid :: bool
  x_skid_beat :: "'x list \<times> bool"
  a_skid_tvalid :: bool
  a_skid_beat :: "'y list \<times> bool"
  y_skid_tready :: bool

text \<open>The wires between the skid buffers and the array.\<close>

definition core_in :: "('x, 'k, 'm, 'y) top_state \<Rightarrow> ('x, 'k, 'y) top_ext \<Rightarrow> ('x, 'k, 'y) top_in" where
  "core_in s i =
     \<lparr>t_rstn = top_rstn i,
      k_tvalid = skid_m_valid (SKID_K s), k_tlast = snd (skid_m_data (SKID_K s)), k_tdata = fst (skid_m_data (SKID_K s)),
      x_tvalid = skid_m_valid (SKID_X s), x_tlast = snd (skid_m_data (SKID_X s)), x_tdata = fst (skid_m_data (SKID_X s)),
      a_tvalid = skid_m_valid (SKID_A s), a_tdata = fst (skid_m_data (SKID_A s)),
      y_tready = skid_s_ready (SKID_Y s)\<rparr>"

definition a_tready :: "dims \<Rightarrow> ('x, 'k, 'm, 'y) sa_state \<Rightarrow> ('x, 'k, 'y) top_in \<Rightarrow> bool" where
  "a_tready P s i \<longleftrightarrow> y_tready i \<and> m_valid P s"

definition y_tvalid :: "dims \<Rightarrow> ('x, 'k, 'm, 'y) sa_state \<Rightarrow> ('x, 'k, 'y) top_in \<Rightarrow> bool" where
  "y_tvalid P s i \<longleftrightarrow> a_tvalid i \<and> m_valid P s"

definition k_port :: "dims \<Rightarrow> ('x, 'k, 'm, 'y) top_state \<Rightarrow> ('x, 'k, 'y) top_ext \<Rightarrow> ('k list \<times> bool) skid_in" where
  "k_port P s i = \<lparr>skid_s_valid = k_skid_tvalid i, skid_s_data = k_skid_beat i,
     skid_m_ready = k_tready P (SA s) (core_in s i)\<rparr>"

definition x_port :: "dims \<Rightarrow> ('x, 'k, 'm, 'y) top_state \<Rightarrow> ('x, 'k, 'y) top_ext \<Rightarrow> ('x list \<times> bool) skid_in" where
  "x_port P s i = \<lparr>skid_s_valid = x_skid_tvalid i, skid_s_data = x_skid_beat i,
     skid_m_ready = x_tready P (SA s) (core_in s i)\<rparr>"

definition a_port :: "dims \<Rightarrow> ('x, 'k, 'm, 'y) top_state \<Rightarrow> ('x, 'k, 'y) top_ext \<Rightarrow> ('y list \<times> bool) skid_in" where
  "a_port P s i = \<lparr>skid_s_valid = a_skid_tvalid i, skid_s_data = a_skid_beat i,
     skid_m_ready = a_tready P (SA s) (core_in s i)\<rparr>"

definition y_port :: "dims \<Rightarrow> ('x, 'k, 'm, 'y::plus) top_state \<Rightarrow> ('x, 'k, 'y) top_ext \<Rightarrow> ('y list \<times> bool) skid_in" where
  "y_port P s i = \<lparr>skid_s_valid = y_tvalid P (SA s) (core_in s i),
     skid_s_data = (y_tdata P (SA s) (core_in s i), y_tlast P (SA s) (core_in s i)),
     skid_m_ready = y_skid_tready i\<rparr>"

text \<open>After reset the registers of the buffers hold the zeros of their widths.\<close>

definition zero_beat :: "nat \<Rightarrow> 'a::zero list \<times> bool" where
  "zero_beat n = (replicate n 0, False)"

definition top_reset :: "dims \<Rightarrow> ('wx::len word, 'wk::len word, 'wm::len word, 'wy::len word) top_state" where
  "top_reset P =
     \<lparr>SKID_K = skid_reset (zero_beat (dim_C P)), SKID_X = skid_reset (zero_beat (dim_R P)),
      SKID_A = skid_reset (zero_beat (dim_R P)), SKID_Y = skid_reset (zero_beat (dim_R P)),
      SA = sa_reset P\<rparr>"

definition top_step :: "dims \<Rightarrow> ('wx::len word, 'wk::len word, 'wm::len word, 'wy::len word) top_state
    \<Rightarrow> ('wx word, 'wk word, 'wy word) top_ext \<Rightarrow> ('wx word, 'wk word, 'wm word, 'wy word) top_state" where
  "top_step P s i =
     (if \<not> top_rstn i then top_reset P
      else \<lparr>SKID_K = skid_step (SKID_K s) (k_port P s i), SKID_X = skid_step (SKID_X s) (x_port P s i),
            SKID_A = skid_step (SKID_A s) (a_port P s i), SKID_Y = skid_step (SKID_Y s) (y_port P s i),
            SA = sa_step P (SA s) (sa_of (core_in s i))\<rparr>)"

section \<open>Sources and sink\<close>

record ('x, 'k, 'm, 'y) loop_state =
  hw :: "('x, 'k, 'm, 'y) top_state"
  k_src :: "('k list \<times> bool) list"
  x_src :: "('x list \<times> bool) list"
  a_src :: "('y list \<times> bool) list"
  y_snk :: "('y list \<times> bool) list"

text \<open>In which streams a beat is offered in a cycle, and whether the sink takes one.\<close>

record offers =
  k_offer :: bool
  x_offer :: bool
  a_offer :: bool
  y_take :: bool

definition src_valid :: "bool \<Rightarrow> 'b list \<Rightarrow> bool" where
  "src_valid off src \<longleftrightarrow> off \<and> src \<noteq> []"

definition src_beat :: "'b \<Rightarrow> 'b list \<Rightarrow> 'b" where
  "src_beat z src = (case src of [] \<Rightarrow> z | b # _ \<Rightarrow> b)"

definition loop_ext :: "dims \<Rightarrow> ('x::zero, 'k::zero, 'm, 'y::zero) loop_state \<Rightarrow> offers \<Rightarrow> ('x, 'k, 'y) top_ext" where
  "loop_ext P l f =
     \<lparr>top_rstn = True,
      k_skid_tvalid = src_valid (k_offer f) (k_src l), k_skid_beat = src_beat (zero_beat (dim_C P)) (k_src l),
      x_skid_tvalid = src_valid (x_offer f) (x_src l), x_skid_beat = src_beat (zero_beat (dim_R P)) (x_src l),
      a_skid_tvalid = src_valid (a_offer f) (a_src l), a_skid_beat = src_beat (zero_beat (dim_R P)) (a_src l),
      y_skid_tready = y_take f\<rparr>"

text \<open>A source drops the beat that is accepted, the sink appends the beat that it takes.\<close>

definition src_next :: "'b skid \<Rightarrow> 'b skid_in \<Rightarrow> 'b list \<Rightarrow> 'b list" where
  "src_next s i src = drop (length (skid_push s i)) src"

definition loop_step :: "dims \<Rightarrow> ('wx::len word, 'wk::len word, 'wm::len word, 'wy::len word) loop_state
    \<Rightarrow> offers \<Rightarrow> ('wx word, 'wk word, 'wm word, 'wy word) loop_state" where
  "loop_step P l f =
     (let s = hw l; i = loop_ext P l f
      in \<lparr>hw = top_step P s i,
          k_src = src_next (SKID_K s) (k_port P s i) (k_src l),
          x_src = src_next (SKID_X s) (x_port P s i) (x_src l),
          a_src = src_next (SKID_A s) (a_port P s i) (a_src l),
          y_snk = y_snk l @ skid_pop (SKID_Y s) (y_port P s i)\<rparr>)"

primrec loop_at :: "dims \<Rightarrow> ('wx::len word, 'wk::len word, 'wm::len word, 'wy::len word) loop_state
    \<Rightarrow> (nat \<Rightarrow> offers) \<Rightarrow> nat \<Rightarrow> ('wx word, 'wk word, 'wm word, 'wy word) loop_state" where
  "loop_at P l fs 0 = l"
| "loop_at P l fs (Suc t) = loop_step P (loop_at P l fs t) (fs t)"

text \<open>The rows of a matrix as one packet: the last flag is on the last beat.\<close>

definition packet :: "'a list \<Rightarrow> ('a \<times> bool) list" where
  "packet rows = tab (length rows) (\<lambda>i. (rows ! i, Suc i = length rows))"

definition loop_init :: "dims \<Rightarrow> 'wk word list list \<Rightarrow> 'wx word list list \<Rightarrow> 'wy word list list
    \<Rightarrow> ('wx::len word, 'wk::len word, 'wm::len word, 'wy::len word) loop_state" where
  "loop_init P ks xs as =
     \<lparr>hw = top_reset P, k_src = packet ks, x_src = packet xs, a_src = packet as, y_snk = []\<rparr>"

lemma length_packet [simp]: "length (packet rows) = length rows"
  by (simp add: packet_def)

lemma nth_packet [simp]: "i < length rows \<Longrightarrow> packet rows ! i = (rows ! i, Suc i = length rows)"
  by (simp add: packet_def)

section \<open>A source, a skid buffer and a consumer\<close>

text \<open>What is in the buffer and in the source together loses exactly what is popped.\<close>

lemma fed_step:
  assumes "skid_good s" "skid_s_valid i = src_valid f src" "skid_s_data i = src_beat z src"
  shows "skid_held s @ src = skid_pop s i @ skid_held (skid_step s i) @ src_next s i src"
proof -
  have "src = skid_push s i @ src_next s i src"
    using assms(2,3) by (cases src) (auto simp: skid_push_def src_next_def src_valid_def src_beat_def)
  then have "skid_held s @ src = (skid_held s @ skid_push s i) @ src_next s i src" by simp
  also have "\<dots> = (skid_pop s i @ skid_held (skid_step s i)) @ src_next s i src"
    by (simp only: skid_step_law [OF assms(1)])
  finally show ?thesis by simp
qed

lemma skid_head:
  assumes "skid_good s"
  shows "skid_m_valid s \<longleftrightarrow> skid_held s \<noteq> []"
    and "skid_m_valid s \<Longrightarrow> skid_held s = skid_m_data s # tl (skid_held s)"
    and "skid_s_ready s \<longleftrightarrow> length (skid_held s) < 2"
  using assms by (cases "fsm s"; simp add: skid_good_def skid_held_def)+

text \<open>After the first cycle, in which nothing is offered, the buffer is empty and accepts.\<close>

lemma skid_first:
  assumes "\<not> skid_s_valid i"
  shows "skid_held (skid_step (skid_reset z) i) = []" "skid_push (skid_reset z) i = []"
    "skid_pop (skid_reset z) i = []"
  using assms by (simp_all add: skid_reset_def skid_defs)

section \<open>A packet seen so far\<close>

text \<open>
  The array is ready in every cycle as long as the beats up to that cycle can be completed to
  one packet: at most one last beat, and no beat after it.
\<close>

definition packet_so_far :: "dims \<Rightarrow> ('wx::len, 'wk::len) beats \<Rightarrow> nat \<Rightarrow> bool" where
  "packet_so_far P inp t \<longleftrightarrow>
     (\<forall>u\<le>t. rstn (inp u) \<and> length (sx_data (inp u)) = dim_R P) \<and>
     (\<forall>u v. u < v \<longrightarrow> v \<le> t \<longrightarrow> s_valid (inp u) \<longrightarrow> s_last (inp u) \<longrightarrow> \<not> s_valid (inp v))"

lemma sa_at_cong: "(\<And>u. u < t \<Longrightarrow> inp u = inp' u) \<Longrightarrow> sa_at P inp t = sa_at P inp' t"
  by (induction t) simp_all

lemma complete_packet:
  assumes "packet_so_far P inp t"
  shows "\<exists>inp' T. one_packet P inp' T \<and> (\<forall>u\<le>t. inp' u = inp u)
    \<and> (T = Suc t \<or> T \<le> t \<and> s_valid (inp T) \<and> s_last (inp T))"
proof (cases "\<exists>u\<le>t. s_valid (inp u) \<and> s_last (inp u)")
  case True
  then obtain T where T: "T \<le> t" "s_valid (inp T)" "s_last (inp T)" by blast
  let ?inp = "\<lambda>u. if u \<le> t then inp u else (inp t)\<lparr>s_valid := False\<rparr>"
  have uniq: "u = T" if "u \<le> t" "s_valid (inp u)" "s_last (inp u)" for u
    using that T assms unfolding packet_so_far_def by (metis linorder_neqE_nat)
  have after: "\<not> s_valid (inp v)" if "T < v" "v \<le> t" for v
    using that T assms unfolding packet_so_far_def by blast
  have shape: "rstn (?inp u) \<and> length (sx_data (?inp u)) = dim_R P" for u
    using assms by (simp add: packet_so_far_def)
  have once: "s_valid (?inp u) \<and> s_last (?inp u) \<longleftrightarrow> u = T" for u
    using T uniq [of u] by auto
  have none: "\<not> s_valid (?inp u)" if "T < u" for u
    using that after [of u] by simp
  have "one_packet P ?inp T"
    unfolding one_packet_def using shape once none by blast
  then show ?thesis using T by (intro exI [of _ ?inp] exI [of _ T]) simp
next
  case False
  let ?inp = "\<lambda>u. if u \<le> t then inp u else (inp t)\<lparr>s_valid := u = Suc t, s_last := True\<rparr>"
  have shape: "rstn (?inp u) \<and> length (sx_data (?inp u)) = dim_R P" for u
    using assms by (simp add: packet_so_far_def)
  have once: "s_valid (?inp u) \<and> s_last (?inp u) \<longleftrightarrow> u = Suc t" for u
    using False by (cases "u \<le> t") auto
  have none: "\<not> s_valid (?inp u)" if "Suc t < u" for u
    using that by simp
  have "one_packet P ?inp (Suc t)"
    unfolding one_packet_def using shape once none by blast
  then show ?thesis by (intro exI [of _ ?inp] exI [of _ "Suc t"]) simp
qed

lemma ready_so_far:
  fixes inp :: "('wx::len, 'wk::len) beats"
  assumes "packet_so_far P inp t" "dims_ok P"
    and "LENGTH('wx) + LENGTH('wk) \<le> LENGTH('wm::len)"
  shows "s_ready P (sa_at P inp t :: ('wx word, 'wk word, 'wm word, 'wy::len word) sa_state) (inp t)"
proof -
  obtain inp' T where p: "one_packet P inp' T" "\<And>u. u \<le> t \<Longrightarrow> inp' u = inp u"
    using complete_packet [OF assms(1)] by blast
  have s: "(sa_at P inp t :: ('wx word, 'wk word, 'wm word, 'wy word) sa_state) = sa_at P inp' t"
    using p(2) by (intro sa_at_cong) simp
  show ?thesis
    unfolding s p(2) [OF order_refl, symmetric]
    by (rule conjunct1 [OF packet_output [OF assms(2) p(1) assms(3)]])
qed

lemma silent_so_far:
  fixes inp :: "('wx::len, 'wk::len) beats"
  assumes "packet_so_far P inp t" "dims_ok P" "\<not> (\<exists>u<t. s_valid (inp u) \<and> s_last (inp u))"
    and "LENGTH('wx) + LENGTH('wk) \<le> LENGTH('wm::len)"
  shows "\<not> m_valid P (sa_at P inp t :: ('wx word, 'wk word, 'wm word, 'wy::len word) sa_state)"
proof -
  let ?s = "sa_at P inp t :: ('wx word, 'wk word, 'wm word, 'wy word) sa_state"
  obtain inp' T where p: "one_packet P inp' T" "\<And>u. u \<le> t \<Longrightarrow> inp' u = inp u"
    and T: "T = Suc t \<or> T \<le> t \<and> s_valid (inp T) \<and> s_last (inp T)"
    using complete_packet [OF assms(1)] by blast
  have "\<not> T < t" using T assms(3) by auto
  then have late: "t < out_time P T" using assms(2) by (simp add: out_time_def dims_ok_def)
  have s: "?s = sa_at P inp' t" using p(2) by (intro sa_at_cong) simp
  obtain ro_f where "?s = pipe P inp' t ro_f (rv_at P inp' T t) (rl_at P inp' T t)"
    unfolding s using sa_at_pipe [OF p(1) assms(2), where 'wm = 'wm and 'wy = 'wy] by blast
  from control_at(1) [OF p(1) assms(2) this] show ?thesis using late by simp
qed

section \<open>The invariant of the closed loop\<close>

definition skid_all :: "('b \<Rightarrow> bool) \<Rightarrow> 'b skid \<Rightarrow> bool" where
  "skid_all Q s \<longleftrightarrow> Q (skid_m_data s) \<and> Q (buffer s)"

lemma skid_all_step: "skid_all Q s \<Longrightarrow> Q (skid_s_data i) \<Longrightarrow> skid_all Q (skid_step s i)"
  by (simp add: skid_all_def skid_step_def Let_def split: skid_fsm.splits)

definition wide :: "nat \<Rightarrow> 'b list \<times> bool \<Rightarrow> bool" where
  "wide n b \<longleftrightarrow> length (fst b) = n"

text \<open>
  The array has taken the beats \<open>bs\<close>, the adder the words \<open>aw\<close>, and the adder has produced the
  beats \<open>yb\<close>: the rest of each packet is in its buffer and its source, and what was produced is
  in the sink or in the last buffer.
\<close>

definition loop_inv :: "dims \<Rightarrow> 'wk word list list \<Rightarrow> 'wx word list list \<Rightarrow> 'wy word list list
    \<Rightarrow> ('wx word, 'wk word) sa_in list \<Rightarrow> 'wy word list list \<Rightarrow> ('wy word list \<times> bool) list
    \<Rightarrow> ('wx::len word, 'wk::len word, 'wm::len word, 'wy::len word) loop_state \<Rightarrow> bool" where
  "loop_inv P ks xs as bs aw yb l \<longleftrightarrow>
     skid_good (SKID_K (hw l)) \<and> skid_good (SKID_X (hw l)) \<and>
     skid_good (SKID_A (hw l)) \<and> skid_good (SKID_Y (hw l)) \<and>
     skid_all (wide (dim_R P)) (SKID_X (hw l)) \<and> (\<forall>b\<in>set (x_src l). wide (dim_R P) b) \<and>
     packet ks = map (\<lambda>b. (sk_data b, s_last b)) bs @ skid_held (SKID_K (hw l)) @ k_src l \<and>
     packet xs = map (\<lambda>b. (sx_data b, s_last b)) bs @ skid_held (SKID_X (hw l)) @ x_src l \<and>
     (bs \<noteq> [] \<longrightarrow> skid_held (SKID_K (hw l)) = [] \<longrightarrow> snd (skid_m_data (SKID_K (hw l))) = s_last (last bs)) \<and>
     (bs \<noteq> [] \<longrightarrow> skid_held (SKID_X (hw l)) = [] \<longrightarrow> snd (skid_m_data (SKID_X (hw l))) = s_last (last bs)) \<and>
     as = aw @ map fst (skid_held (SKID_A (hw l)) @ a_src l) \<and>
     yb = y_snk l @ skid_held (SKID_Y (hw l))"

text \<open>The beat that the array is offered, and the pops of the four buffers.\<close>

abbreviation core_of :: "dims \<Rightarrow> ('wx::len word, 'wk::len word, 'wm::len word, 'wy::len word) loop_state
    \<Rightarrow> offers \<Rightarrow> ('wx word, 'wk word, 'wy word) top_in" where
  "core_of P l f \<equiv> core_in (hw l) (loop_ext P l f)"

lemma core_of_sel:
  "s_valid (sa_of (core_of P l f)) \<longleftrightarrow> skid_m_valid (SKID_K (hw l)) \<and> skid_m_valid (SKID_X (hw l))"
  "s_last (sa_of (core_of P l f)) \<longleftrightarrow> snd (skid_m_data (SKID_K (hw l))) \<and> snd (skid_m_data (SKID_X (hw l)))"
  "sk_data (sa_of (core_of P l f)) = fst (skid_m_data (SKID_K (hw l)))"
  "sx_data (sa_of (core_of P l f)) = fst (skid_m_data (SKID_X (hw l)))"
  "rstn (sa_of (core_of P l f))"
  "m_ready (sa_of (core_of P l f)) \<longleftrightarrow> skid_s_ready (SKID_Y (hw l)) \<and> skid_m_valid (SKID_A (hw l))"
  by (simp_all add: sa_of_def core_in_def loop_ext_def)

lemma pops:
  assumes "s_ready P (SA (hw l)) (sa_of (core_of P l f))"
  shows "skid_pop (SKID_K (hw l)) (k_port P (hw l) (loop_ext P l f))
      = (if s_valid (sa_of (core_of P l f)) then [skid_m_data (SKID_K (hw l))] else [])"
    and "skid_pop (SKID_X (hw l)) (x_port P (hw l) (loop_ext P l f))
      = (if s_valid (sa_of (core_of P l f)) then [skid_m_data (SKID_X (hw l))] else [])"
  using assms
  by (auto simp: skid_pop_def k_port_def x_port_def k_tready_def x_tready_def core_of_sel)
    (auto simp: core_in_def)

lemma a_pop:
  "map fst (skid_pop (SKID_A (hw l)) (a_port P (hw l) (loop_ext P l f))) = a_beat P (SA (hw l)) (core_of P l f)"
  by (auto simp: skid_pop_def a_port_def a_tready_def a_beat_def core_in_def)

lemma y_push:
  "skid_push (SKID_Y (hw l)) (y_port P (hw l) (loop_ext P l f)) = y_beat P (SA (hw l)) (core_of P l f)"
  by (auto simp: skid_push_def y_port_def y_tvalid_def y_beat_def core_in_def)

lemma loop_step_sel:
  "SKID_K (hw (loop_step P l f)) = skid_step (SKID_K (hw l)) (k_port P (hw l) (loop_ext P l f))"
  "SKID_X (hw (loop_step P l f)) = skid_step (SKID_X (hw l)) (x_port P (hw l) (loop_ext P l f))"
  "SKID_A (hw (loop_step P l f)) = skid_step (SKID_A (hw l)) (a_port P (hw l) (loop_ext P l f))"
  "SKID_Y (hw (loop_step P l f)) = skid_step (SKID_Y (hw l)) (y_port P (hw l) (loop_ext P l f))"
  "SA (hw (loop_step P l f)) = sa_step P (SA (hw l)) (sa_of (core_of P l f))"
  "k_src (loop_step P l f) = src_next (SKID_K (hw l)) (k_port P (hw l) (loop_ext P l f)) (k_src l)"
  "x_src (loop_step P l f) = src_next (SKID_X (hw l)) (x_port P (hw l) (loop_ext P l f)) (x_src l)"
  "a_src (loop_step P l f) = src_next (SKID_A (hw l)) (a_port P (hw l) (loop_ext P l f)) (a_src l)"
  "y_snk (loop_step P l f) = y_snk l @ skid_pop (SKID_Y (hw l)) (y_port P (hw l) (loop_ext P l f))"
  by (simp_all add: loop_step_def Let_def top_step_def loop_ext_def)

lemma port_sel:
  "skid_s_valid (k_port P s (loop_ext P l f)) = src_valid (k_offer f) (k_src l)"
  "skid_s_data (k_port P s (loop_ext P l f)) = src_beat (zero_beat (dim_C P)) (k_src l)"
  "skid_s_valid (x_port P s (loop_ext P l f)) = src_valid (x_offer f) (x_src l)"
  "skid_s_data (x_port P s (loop_ext P l f)) = src_beat (zero_beat (dim_R P)) (x_src l)"
  "skid_s_valid (a_port P s (loop_ext P l f)) = src_valid (a_offer f) (a_src l)"
  "skid_s_data (a_port P s (loop_ext P l f)) = src_beat (zero_beat (dim_R P)) (a_src l)"
  "skid_m_ready (y_port P s (loop_ext P l f)) = y_take f"
  by (simp_all add: k_port_def x_port_def a_port_def y_port_def loop_ext_def)

text \<open>The heads of the K and X buffers are the beats with the number of those taken.\<close>

lemma packet_head:
  assumes "packet rows = xs @ b # ys"
  shows "b = (rows ! length xs, Suc (length xs) = length rows)" and "length xs < length rows"
proof -
  have len: "length rows = length xs + Suc (length ys)"
    using arg_cong [OF assms, of length] by simp
  then show "length xs < length rows" by simp
  then show "b = (rows ! length xs, Suc (length xs) = length rows)"
    using arg_cong [OF assms, of "\<lambda>bs. bs ! length xs"] by simp
qed

lemma offered_beat:
  assumes inv: "loop_inv P ks xs as bs aw yb l" and len: "length ks = length xs"
    and v: "s_valid (sa_of (core_of P l f))"
  shows "skid_m_data (SKID_K (hw l)) = (ks ! length bs, Suc (length bs) = length ks)"
    and "skid_m_data (SKID_X (hw l)) = (xs ! length bs, Suc (length bs) = length ks)"
    and "length bs < length ks"
proof -
  have g: "skid_good (SKID_K (hw l))" "skid_good (SKID_X (hw l))" using inv by (simp_all add: loop_inv_def)
  have m: "skid_m_valid (SKID_K (hw l))" "skid_m_valid (SKID_X (hw l))" using v by (simp_all add: core_of_sel)
  obtain ku where "skid_held (SKID_K (hw l)) = skid_m_data (SKID_K (hw l)) # ku"
    by (rule that [OF skid_head(2) [OF g(1) m(1)]])
  moreover obtain xu where "skid_held (SKID_X (hw l)) = skid_m_data (SKID_X (hw l)) # xu"
    by (rule that [OF skid_head(2) [OF g(2) m(2)]])
  ultimately have "packet ks = map (\<lambda>b. (sk_data b, s_last b)) bs @ skid_m_data (SKID_K (hw l)) # ku @ k_src l"
    "packet xs = map (\<lambda>b. (sx_data b, s_last b)) bs @ skid_m_data (SKID_X (hw l)) # xu @ x_src l"
    using inv by (simp_all add: loop_inv_def)
  from packet_head [OF this(1)] packet_head [OF this(2)]
  show "skid_m_data (SKID_K (hw l)) = (ks ! length bs, Suc (length bs) = length ks)"
    "skid_m_data (SKID_X (hw l)) = (xs ! length bs, Suc (length bs) = length ks)"
    "length bs < length ks"
    by (simp_all add: len)
qed

lemma emptied:
  assumes "skid_good s" "skid_held (skid_step s i) = []"
  shows "skid_m_data (skid_step s i) = skid_m_data s" "skid_pop s i = [] \<Longrightarrow> skid_held s = []"
  using assms by (cases "fsm s"; auto simp: skid_defs Let_def split: if_splits)+

lemma src_next_set: "b \<in> set (src_next s i src) \<Longrightarrow> b \<in> set src"
  by (auto simp: src_next_def dest: in_set_dropD)

lemma wide_src_beat: "\<forall>b\<in>set src. wide n b \<Longrightarrow> wide n (src_beat (zero_beat n) src)"
  by (cases src) (simp_all add: src_beat_def zero_beat_def wide_def)

lemma loop_inv_step:
  assumes inv: "loop_inv P ks xs as bs aw yb l" and len: "length ks = length xs"
    and rdy: "s_ready P (SA (hw l)) (sa_of (core_of P l f))"
  shows "loop_inv P ks xs as
     (bs @ (if s_valid (sa_of (core_of P l f)) then [sa_of (core_of P l f)] else []))
     (aw @ a_beat P (SA (hw l)) (core_of P l f)) (yb @ y_beat P (SA (hw l)) (core_of P l f)) (loop_step P l f)"
proof -
  let ?e = "loop_ext P l f" and ?s = "hw l" and ?c = "core_of P l f"
  have good: "skid_good (SKID_K ?s)" "skid_good (SKID_X ?s)" "skid_good (SKID_A ?s)" "skid_good (SKID_Y ?s)"
    using inv by (simp_all add: loop_inv_def)
  have fk: "skid_held (SKID_K ?s) @ k_src l = skid_pop (SKID_K ?s) (k_port P ?s ?e)
      @ skid_held (SKID_K (hw (loop_step P l f))) @ k_src (loop_step P l f)"
    unfolding loop_step_sel by (rule fed_step [OF good(1) port_sel(1,2)])
  have fx: "skid_held (SKID_X ?s) @ x_src l = skid_pop (SKID_X ?s) (x_port P ?s ?e)
      @ skid_held (SKID_X (hw (loop_step P l f))) @ x_src (loop_step P l f)"
    unfolding loop_step_sel by (rule fed_step [OF good(2) port_sel(3,4)])
  have fa: "skid_held (SKID_A ?s) @ a_src l = skid_pop (SKID_A ?s) (a_port P ?s ?e)
      @ skid_held (SKID_A (hw (loop_step P l f))) @ a_src (loop_step P l f)"
    unfolding loop_step_sel by (rule fed_step [OF good(3) port_sel(5,6)])
  have k: "packet ks = map (\<lambda>b. (sk_data b, s_last b)) (bs @ (if s_valid (sa_of ?c) then [sa_of ?c] else []))
      @ skid_held (SKID_K (hw (loop_step P l f))) @ k_src (loop_step P l f)"
    and x: "packet xs = map (\<lambda>b. (sx_data b, s_last b)) (bs @ (if s_valid (sa_of ?c) then [sa_of ?c] else []))
      @ skid_held (SKID_X (hw (loop_step P l f))) @ x_src (loop_step P l f)"
    using inv fk fx offered_beat [OF inv len, of f]
    unfolding pops [OF rdy] by (auto simp: loop_inv_def core_of_sel)
  have a: "as = (aw @ a_beat P (SA ?s) ?c)
      @ map fst (skid_held (SKID_A (hw (loop_step P l f))) @ a_src (loop_step P l f))"
    using inv arg_cong [OF fa, of "map fst"]
    unfolding a_pop [symmetric] by (simp add: loop_inv_def)
  have y: "yb @ y_beat P (SA ?s) ?c = y_snk (loop_step P l f) @ skid_held (SKID_Y (hw (loop_step P l f)))"
    using inv skid_step_law [OF good(4), of "y_port P ?s ?e"]
    unfolding loop_step_sel y_push [symmetric] by (simp add: loop_inv_def)
  let ?bs = "bs @ (if s_valid (sa_of ?c) then [sa_of ?c] else [])"
  have "snd (skid_m_data (SKID_K (hw (loop_step P l f)))) = s_last (last ?bs)"
    if "?bs \<noteq> []" "skid_held (SKID_K (hw (loop_step P l f))) = []"
    using that inv emptied [OF good(1), of "k_port P ?s ?e"] offered_beat [OF inv len, of f] pops(1) [OF rdy]
    unfolding loop_step_sel by (cases "s_valid (sa_of ?c)") (auto simp: loop_inv_def core_of_sel)
  moreover have "snd (skid_m_data (SKID_X (hw (loop_step P l f)))) = s_last (last ?bs)"
    if "?bs \<noteq> []" "skid_held (SKID_X (hw (loop_step P l f))) = []"
    using that inv emptied [OF good(2), of "x_port P ?s ?e"] offered_beat [OF inv len, of f] pops(2) [OF rdy]
    unfolding loop_step_sel by (cases "s_valid (sa_of ?c)") (auto simp: loop_inv_def core_of_sel)
  moreover have "skid_all (wide (dim_R P)) (SKID_X (hw (loop_step P l f)))"
    using inv by (simp add: loop_inv_def loop_step_sel skid_all_step port_sel wide_src_beat)
  moreover have "\<forall>b\<in>set (x_src (loop_step P l f)). wide (dim_R P) b"
    using inv by (auto simp: loop_inv_def loop_step_sel dest: src_next_set)
  ultimately show ?thesis
    unfolding loop_inv_def using k x a y by (simp add: loop_step_sel)
qed

text \<open>After the first cycle, in which no source offers a beat, nothing has been taken.\<close>

definition quiet_start :: "offers \<Rightarrow> bool" where
  "quiet_start f \<longleftrightarrow> \<not> k_offer f \<and> \<not> x_offer f \<and> \<not> a_offer f"

lemma loop_init_sel:
  "hw (loop_init P ks xs as) = top_reset P" "k_src (loop_init P ks xs as) = packet ks"
  "x_src (loop_init P ks xs as) = packet xs" "a_src (loop_init P ks xs as) = packet as"
  "y_snk (loop_init P ks xs as) = []"
  by (simp_all add: loop_init_def)

lemma top_reset_sel:
  "SKID_K (top_reset P) = skid_reset (zero_beat (dim_C P))" "SKID_X (top_reset P) = skid_reset (zero_beat (dim_R P))"
  "SKID_A (top_reset P) = skid_reset (zero_beat (dim_R P))" "SKID_Y (top_reset P) = skid_reset (zero_beat (dim_R P))"
  "SA (top_reset P) = sa_reset P"
  by (simp_all add: top_reset_def)

lemma packet_rows: "map fst (packet rows) = rows"
  by (rule nth_equalityI) (simp_all add: packet_def)

lemma loop_inv_start:
  assumes "quiet_start f" "\<forall>x\<in>set xs. length x = dim_R P"
  shows "loop_inv P ks xs as [] [] [] (loop_step P (loop_init P ks xs as
    :: ('wx::len word, 'wk::len word, 'wm::len word, 'wy::len word) loop_state) f)"
proof -
  let ?l = "loop_init P ks xs as :: ('wx word, 'wk word, 'wm word, 'wy word) loop_state"
  let ?e = "loop_ext P ?l f"
  have novalid: "\<not> skid_s_valid (k_port P (hw ?l) ?e)" "\<not> skid_s_valid (x_port P (hw ?l) ?e)"
    "\<not> skid_s_valid (a_port P (hw ?l) ?e)" "\<not> skid_s_valid (y_port P (hw ?l) ?e)"
    using assms(1)
    by (simp_all add: port_sel src_valid_def quiet_start_def)
      (simp add: y_port_def y_tvalid_def core_in_def loop_init_sel top_reset_sel skid_reset_def)
  have w: "\<forall>b\<in>set (packet xs). wide (dim_R P) b"
    using assms(2) by (auto simp: packet_def tab_def wide_def)
  have sx: "skid_all (wide (dim_R P)) (skid_step (SKID_X (hw ?l)) (x_port P (hw ?l) ?e))"
    by (rule skid_all_step)
      (simp_all add: skid_all_def loop_init_sel top_reset_sel skid_reset_def port_sel wide_src_beat [OF w],
       simp_all add: wide_def zero_beat_def)
  show ?thesis
    using skid_first [OF novalid(1)] skid_first [OF novalid(2)] skid_first [OF novalid(3)] skid_first [OF novalid(4)]
      sx w by (simp add: loop_inv_def loop_step_sel loop_init_sel top_reset_sel src_next_def packet_rows)
qed

section \<open>The run of the closed loop\<close>

definition core_at :: "dims \<Rightarrow> ('wx::len word, 'wk::len word, 'wm::len word, 'wy::len word) loop_state
    \<Rightarrow> (nat \<Rightarrow> offers) \<Rightarrow> nat \<Rightarrow> ('wx word, 'wk word, 'wy word) top_in" where
  "core_at P l fs t = core_of P (loop_at P l fs t) (fs t)"

abbreviation beat_at :: "dims \<Rightarrow> ('wx::len word, 'wk::len word, 'wm::len word, 'wy::len word) loop_state
    \<Rightarrow> (nat \<Rightarrow> offers) \<Rightarrow> ('wx, 'wk) beats" where
  "beat_at P l fs \<equiv> \<lambda>t. sa_of (core_at P l fs t)"

lemma SA_loop_at:
  fixes l :: "('wx::len word, 'wk::len word, 'wm::len word, 'wy::len word) loop_state"
  assumes "l = loop_init P ks xs as"
  shows "SA (hw (loop_at P l fs t)) = sa_at P (beat_at P l fs) t"
  by (induction t) (simp_all add: loop_init_sel top_reset_sel loop_step_sel core_at_def, simp add: assms loop_init_sel top_reset_sel)

lemma y_run_snoc: "y_run P s (is @ [i]) = y_run P s is @ y_beat P (foldl (\<lambda>s i. sa_step P s (sa_of i)) s is) i"
  by (induction "is" arbitrary: s) simp_all

lemma a_run_snoc: "a_run P s (is @ [i]) = a_run P s is @ a_beat P (foldl (\<lambda>s i. sa_step P s (sa_of i)) s is) i"
  by (induction "is" arbitrary: s) simp_all

lemma sa_at_foldl: "sa_at P (\<lambda>t. sa_of (c t)) t = foldl (\<lambda>s i. sa_step P s (sa_of i)) (sa_reset P) (map c [0..<t])"
  by (induction t) simp_all

lemma last_taken:
  assumes "loop_inv P ks xs as bs aw yb l" "b \<in> set bs" "s_last b"
  shows "length bs = length ks"
proof -
  obtain i where i: "i < length bs" "bs ! i = b" using assms(2) by (auto simp: in_set_conv_nth)
  have p: "packet ks = map (\<lambda>b. (sk_data b, s_last b)) bs @ skid_held (SKID_K (hw l)) @ k_src l"
    using assms(1) by (simp add: loop_inv_def)
  have le: "length bs \<le> length ks" using arg_cong [OF p, of length] by simp
  have "packet ks ! i = (sk_data b, s_last b)" using i by (simp add: p nth_append)
  then have "Suc i = length ks" using assms(3) i le by simp
  then show ?thesis using i le by simp
qed

text \<open>The state after \<open>t\<close> cycles, and what has been taken and produced until then.\<close>

abbreviation inv_at :: "dims \<Rightarrow> 'wk word list list \<Rightarrow> 'wx word list list \<Rightarrow> 'wy word list list
    \<Rightarrow> ('wx::len word, 'wk::len word, 'wm::len word, 'wy::len word) loop_state \<Rightarrow> (nat \<Rightarrow> offers) \<Rightarrow> nat \<Rightarrow> bool" where
  "inv_at P ks xs as l fs t \<equiv> loop_inv P ks xs as (filter s_valid (map (beat_at P l fs) [0..<t]))
     (a_run P (SA (hw l)) (map (core_at P l fs) [0..<t])) (y_run P (SA (hw l)) (map (core_at P l fs) [0..<t]))
     (loop_at P l fs t)"

lemma inv_so_far:
  assumes inv: "\<And>v. 0 < v \<Longrightarrow> v \<le> t \<Longrightarrow> inv_at P ks xs as l fs v"
    and l: "l = loop_init P ks xs as" and len: "length ks = length xs"
  shows "packet_so_far P (beat_at P l fs) t"
  unfolding packet_so_far_def
proof (intro conjI allI impI)
  show "rstn (beat_at P l fs u)" for u by (simp add: core_at_def core_of_sel)
  show "length (sx_data (beat_at P l fs u)) = dim_R P" if "u \<le> t" for u
  proof (cases u)
    case 0
    then show ?thesis by (simp add: l core_at_def sa_of_def core_in_def loop_init_sel top_reset_sel skid_reset_def zero_beat_def)
  next
    case (Suc v)
    then have "inv_at P ks xs as l fs u" using that by (intro inv) simp_all
    then show ?thesis by (simp add: loop_inv_def core_at_def core_of_sel skid_all_def wide_def)
  qed
  show "\<not> s_valid (beat_at P l fs v)"
    if "u < v" "v \<le> t" "s_valid (beat_at P l fs u)" "s_last (beat_at P l fs u)" for u v
  proof
    assume v: "s_valid (beat_at P l fs v)"
    have i: "inv_at P ks xs as l fs v" using that by (intro inv) simp_all
    have "beat_at P l fs u \<in> set (filter s_valid (map (beat_at P l fs) [0..<v]))"
      using that by (auto simp del: map_map)
    from last_taken [OF i this that(4)] offered_beat(3) [OF i len v [unfolded core_at_def]]
    show False by simp
  qed
qed

lemma inv_at_all:
  fixes l :: "('wx::len word, 'wk::len word, 'wm::len word, 'wy::len word) loop_state"
  assumes l: "l = loop_init P ks xs as" and len: "length ks = length xs"
    and start: "quiet_start (fs 0)" and w: "\<forall>x\<in>set xs. length x = dim_R P"
    and P: "dims_ok P" and bits: "LENGTH('wx) + LENGTH('wk) \<le> LENGTH('wm)"
  shows "inv_at P ks xs as l fs (Suc t)"
proof (induction t rule: less_induct)
  case (less t)
  show ?case
  proof (cases t)
    case 0
    have "\<not> s_valid (beat_at P l fs 0)" "a_beat P (SA (hw l)) (core_at P l fs 0) = []"
      "y_beat P (SA (hw l)) (core_at P l fs 0) = []"
      by (simp_all add: l core_at_def a_beat_def y_beat_def core_of_sel loop_init_sel top_reset_sel skid_reset_def)
        (simp_all add: sa_of_def core_in_def loop_init_sel top_reset_sel skid_reset_def)
    then show ?thesis using loop_inv_start [OF start w, of ks as, where 'wm = 'wm] by (simp add: 0 l)
  next
    case (Suc u)
    have invs: "inv_at P ks xs as l fs v" if "0 < v" "v \<le> t" for v
      using less.IH [of "v - 1"] that by simp
    have sa: "SA (hw (loop_at P l fs t)) = sa_at P (beat_at P l fs) t" by (rule SA_loop_at [OF l])
    have rdy: "s_ready P (SA (hw (loop_at P l fs t))) (sa_of (core_of P (loop_at P l fs t) (fs t)))"
      unfolding sa using ready_so_far [OF inv_so_far [OF invs l len] P bits] by (simp add: core_at_def)
    have f: "foldl (\<lambda>s i. sa_step P s (sa_of i)) (SA (hw l)) (map (core_at P l fs) [0..<t])
        = SA (hw (loop_at P l fs t))"
      unfolding sa sa_at_foldl by (simp add: l loop_init_sel top_reset_sel)
    have pos: "0 < t" by (simp add: Suc)
    have v: "filter s_valid (map (beat_at P l fs) [0..<Suc t]) = filter s_valid (map (beat_at P l fs) [0..<t])
        @ (if s_valid (beat_at P l fs t) then [beat_at P l fs t] else [])" by simp
    have m: "map (core_at P l fs) [0..<Suc t] = map (core_at P l fs) [0..<t] @ [core_at P l fs t]" by simp
    show ?thesis
      unfolding v m y_run_snoc a_run_snoc f loop_at.simps(2)
      using loop_inv_step [OF invs [OF pos order_refl] len rdy] by (simp only: core_at_def)
  qed
qed

section \<open>What reaches the sink\<close>

text \<open>The rows of \<open>k^T x + a\<close> in machine arithmetic, column by column as Y carries them.\<close>

definition expected :: "dims \<Rightarrow> 'wk::len word list list \<Rightarrow> 'wx::len word list list
    \<Rightarrow> 'wy::len word list list \<Rightarrow> 'wy word list list" where
  "expected P ks xs as = tab (dim_C P) (\<lambda>c. tab (dim_R P) (\<lambda>r.
     (\<Sum>i\<leftarrow>[0..<length ks]. word_of_int (sint (xs ! i ! r) * sint (ks ! i ! c))) + as ! c ! r))"

lemma reference_expected:
  fixes as :: "'wy::len word list list"
  assumes "bs \<noteq> []" "\<forall>b\<in>set (butlast bs). \<not> s_last b" "s_last (last bs)"
    and "map sk_data bs = ks" "map sx_data bs = xs" and "length as = dim_C P"
  shows "map2 (\<lambda>m a. tab (dim_R P) (\<lambda>r. m ! r + a ! r)) (map fst (reference P (\<lambda>_ _. 0) bs)) as
    = expected P ks xs as"
proof -
  have sum: "(\<Sum>b\<leftarrow>bs. word_of_int (sint (sx_data b ! r) * sint (sk_data b ! c)))
      = (\<Sum>i\<leftarrow>[0..<length ks]. word_of_int (sint (xs ! i ! r) * sint (ks ! i ! c)) :: 'wy word)" for r c
  proof -
    have "map (\<lambda>b. word_of_int (sint (sx_data b ! r) * sint (sk_data b ! c)) :: 'wy word) bs
        = map (\<lambda>i. word_of_int (sint (xs ! i ! r) * sint (ks ! i ! c))) [0..<length ks]"
      by (rule nth_equalityI) (simp_all add: assms(4,5) [symmetric] del: of_int_mult)
    then show ?thesis by (rule arg_cong)
  qed
  have cols: "map fst (reference P (\<lambda>_ _. 0 :: 'wy word) bs) = tab (dim_C P) (\<lambda>c. tab (dim_R P) (\<lambda>r.
      \<Sum>i\<leftarrow>[0..<length ks]. word_of_int (sint (xs ! i ! r) * sint (ks ! i ! c))))"
    using reference_packet [of "butlast bs" "last bs" P "\<lambda>_ _. 0 :: 'wy word"] assms(1-3)
    by (simp add: sum tab_def del: of_int_mult map_append)
  show ?thesis
    unfolding cols by (intro nth_equalityI) (simp_all add: assms(6) expected_def del: of_int_mult)
qed

lemma all_taken:
  assumes "loop_inv P ks xs as bs aw yb l" "length bs = length ks" "length ks = length xs"
  shows "map sk_data bs = ks" and "map sx_data bs = xs"
proof -
  have p: "packet ks = map (\<lambda>b. (sk_data b, s_last b)) bs @ skid_held (SKID_K (hw l)) @ k_src l"
    "packet xs = map (\<lambda>b. (sx_data b, s_last b)) bs @ skid_held (SKID_X (hw l)) @ x_src l"
    using assms(1) by (simp_all add: loop_inv_def)
  have "skid_held (SKID_K (hw l)) @ k_src l = []" "skid_held (SKID_X (hw l)) @ x_src l = []"
    using arg_cong [OF p(1), of length] arg_cong [OF p(2), of length] assms(2,3) by simp_all
  with p have "packet ks = map (\<lambda>b. (sk_data b, s_last b)) bs" "packet xs = map (\<lambda>b. (sx_data b, s_last b)) bs"
    by simp_all
  from this [THEN arg_cong, of "map fst"]
  show "map sk_data bs = ks" "map sx_data bs = xs" by (simp_all add: packet_rows o_def)
qed

lemma take_own_length: "xs = take n ys \<Longrightarrow> xs = take (length xs) ys"
  by (simp add: min_def)

text \<open>
  What the adder has produced is a prefix of the expected rows: before the last beat of the packet
  the array is silent, after it the array delivers the columns of the product.
\<close>

lemma array_prefix:
  fixes l :: "('wx::len word, 'wk::len word, 'wm::len word, 'wy::len word) loop_state"
  assumes l: "l = loop_init P ks xs as" and len: "length ks = length xs"
    and start: "quiet_start (fs 0)" and w: "\<forall>x\<in>set xs. length x = dim_R P"
    and P: "dims_ok P" and bits: "LENGTH('wx) + LENGTH('wk) \<le> LENGTH('wm)"
    and out_def: "out = sa_run P (SA (hw l)) (map (beat_at P l fs) [0..<Suc t])"
  shows "out = [] \<or> (\<exists>bs. bs \<noteq> [] \<and> (\<forall>b\<in>set (butlast bs). \<not> s_last b) \<and> s_last (last bs) \<and>
    map sk_data bs = ks \<and> map sx_data bs = xs \<and> out = take (length out) (reference P (\<lambda>_ _. 0) bs))"
proof -
  note invs = inv_at_all [where fs = fs, OF l len start w P bits]
  have inv: "inv_at P ks xs as l fs v" if "0 < v" for v
    using invs [of "v - 1"] that by simp
  obtain inp' T where p: "one_packet P inp' T" "\<forall>u\<le>t. inp' u = beat_at P l fs u"
    and T: "T = Suc t \<or> T \<le> t \<and> s_valid (beat_at P l fs T) \<and> s_last (beat_at P l fs T)"
    using complete_packet [OF inv_so_far [OF inv l len, of t]] by blast
  let ?bs = "filter s_valid (map inp' [0..<Suc T])"
  have rs: "SA (hw l) = sa_reset P" by (simp add: l loop_init_sel top_reset_sel)
  have m: "map (beat_at P l fs) [0..<Suc t] = map inp' [0..<Suc t]" using p(2) by simp
  have out: "out = take (length (filter (\<lambda>u. m_ready (inp' u)) [out_time P T..<Suc t])) (reference P (\<lambda>_ _. 0) ?bs)"
    unfolding out_def rs m by (rule conjunct2 [OF packet_output [OF P p(1) bits]])
  show ?thesis
  proof (cases "T = Suc t")
    case True
    then show ?thesis using out by (simp add: out_time_def)
  next
    case False
    then have T: "T \<le> t" "s_valid (beat_at P l fs T)" "s_last (beat_at P l fs T)" using T by simp_all
    have eq: "?bs = filter s_valid (map (beat_at P l fs) [0..<Suc T])"
      using p(2) T(1) by (intro arg_cong [where f = "filter s_valid"]) simp
    have inT: "inv_at P ks xs as l fs (Suc T)" by (intro inv) simp
    have mem: "beat_at P l fs T \<in> set (filter s_valid (map (beat_at P l fs) [0..<Suc T]))"
      using T(2) by (auto simp del: map_map)
    have n: "length ?bs = length ks" unfolding eq by (rule last_taken [OF inT mem T(3)])
    note all_taken [OF inT n [unfolded eq] len, folded eq]
    moreover have "?bs \<noteq> []" using mem unfolding eq by auto
    ultimately show ?thesis
      using take_own_length [OF out] packet_beats [OF p(1)] by blast
  qed
qed

lemma map2_takes: "map2 f (take n xs) (take n ys) = take n (map2 f xs ys)"
  by (simp add: take_map take_zip)

lemma last_beat_last:
  assumes "loop_inv P ks xs as bs aw yb l" "length bs = length ks" "bs \<noteq> []"
  shows "s_last (last bs)"
proof -
  have p: "packet ks = map (\<lambda>b. (sk_data b, s_last b)) bs @ skid_held (SKID_K (hw l)) @ k_src l"
    using assms(1) by (simp add: loop_inv_def)
  have "0 < length bs" using assms(3) by simp
  then have "packet ks ! (length bs - 1) = (sk_data (last bs), s_last (last bs))"
    unfolding p using assms(3) by (simp add: nth_append last_conv_nth)
  moreover have "snd (packet ks ! (length ks - 1))" using \<open>0 < length bs\<close> assms(2) by simp
  ultimately show ?thesis using assms(2) by simp
qed

text \<open>
  When a row leaves, all beats of the packet have been taken and the emptied buffers of K and X
  still show the last flag: the flag of the array is passed on.
\<close>

lemma row_sees_last:
  fixes l :: "('wx::len word, 'wk::len word, 'wm::len word, 'wy::len word) loop_state"
  assumes l: "l = loop_init P ks xs as" and len: "length ks = length xs"
    and start: "quiet_start (fs 0)" and w: "\<forall>x\<in>set xs. length x = dim_R P"
    and P: "dims_ok P" and bits: "LENGTH('wx) + LENGTH('wk) \<le> LENGTH('wm)"
    and mv: "m_valid P (SA (hw (loop_at P l fs t)))"
  shows "s_last (beat_at P l fs t)"
proof -
  note invs = inv_at_all [where fs = fs, OF l len start w P bits]
  have inv: "inv_at P ks xs as l fs v" if "0 < v" for v
    using invs [of "v - 1"] that by simp
  have "\<exists>u<t. s_valid (beat_at P l fs u) \<and> s_last (beat_at P l fs u)"
    using silent_so_far [OF inv_so_far [OF inv l len, of t] P _ bits] mv unfolding SA_loop_at [OF l] by blast
  then obtain u where u: "u < t" "s_valid (beat_at P l fs u)" "s_last (beat_at P l fs u)" by blast
  let ?bs = "filter s_valid (map (beat_at P l fs) [0..<t])"
  have mem: "beat_at P l fs u \<in> set ?bs" using u by (auto simp del: map_map)
  then have ne: "?bs \<noteq> []" by (metis empty_iff empty_set)
  have i: "inv_at P ks xs as l fs t" using u(1) by (intro inv) simp
  have n: "length ?bs = length ks" by (rule last_taken [OF i mem u(3)])
  have "packet ks = map (\<lambda>b. (sk_data b, s_last b)) ?bs @ skid_held (SKID_K (hw (loop_at P l fs t))) @ k_src (loop_at P l fs t)"
    "packet xs = map (\<lambda>b. (sx_data b, s_last b)) ?bs @ skid_held (SKID_X (hw (loop_at P l fs t))) @ x_src (loop_at P l fs t)"
    using i unfolding loop_inv_def by blast+
  from this [THEN arg_cong, of length] n len
  have "skid_held (SKID_K (hw (loop_at P l fs t))) = []" "skid_held (SKID_X (hw (loop_at P l fs t))) = []"
    by (simp_all only: length_append length_map length_packet) simp_all
  then show ?thesis
    using i ne last_beat_last [OF i n ne] unfolding loop_inv_def core_at_def core_of_sel by blast
qed

lemma sa_run_snoc: "sa_run P s (is @ [i]) = sa_run P s is @ m_beat P (foldl (sa_step P) s is) i"
  by (induction "is" arbitrary: s) simp_all

lemma y_beat_flag:
  assumes "m_valid P s \<Longrightarrow> s_last (sa_of i)"
  shows "map snd (y_beat P s i) = map snd (m_beat P s (sa_of i))"
proof -
  have "en_shift P s (sa_of i) \<longleftrightarrow> a_tvalid i \<and> m_valid P s \<and> y_tready i"
    by (auto simp: en_shift_def sa_of_def)
  then show ?thesis using assms by (simp add: y_beat_def m_beat_def y_tlast_def)
qed

lemma y_last_flags:
  fixes s0 :: "('wx::len word, 'wk::len word, 'wm::len word, 'wy::len word) sa_state"
  assumes "s0 = sa_reset P"
    and "\<And>u. u < t \<Longrightarrow> m_valid P (sa_at P (\<lambda>t. sa_of (c t)) u :: ('wx word, 'wk word, 'wm word, 'wy word) sa_state)
      \<Longrightarrow> s_last (sa_of (c u))"
  shows "map snd (y_run P s0 (map c [0..<t])) = map snd (sa_run P s0 (map (\<lambda>t. sa_of (c t)) [0..<t]))"
  using assms(2)
proof (induction t)
  case (Suc t)
  let ?s = "sa_at P (\<lambda>t. sa_of (c t)) t :: ('wx word, 'wk word, 'wm word, 'wy word) sa_state"
  have f: "foldl (sa_step P) s0 (map (\<lambda>t. sa_of (c t)) [0..<t]) = ?s"
    by (simp add: assms(1) sa_at_foldl foldl_map)
  have g: "foldl (\<lambda>s i. sa_step P s (sa_of i)) s0 (map c [0..<t]) = ?s"
    by (simp add: assms(1) sa_at_foldl)
  have m: "map c [0..<Suc t] = map c [0..<t] @ [c t]"
    "map (\<lambda>t. sa_of (c t)) [0..<Suc t] = map (\<lambda>t. sa_of (c t)) [0..<t] @ [sa_of (c t)]" by simp_all
  have "map snd (y_beat P ?s (c t)) = map snd (m_beat P ?s (sa_of (c t)))"
    by (rule y_beat_flag) (use Suc.prems [of t] in simp)
  then show ?case
    using Suc unfolding m y_run_snoc sa_run_snoc f g by simp
qed simp

lemma produced_rows:
  fixes l :: "('wx::len word, 'wk::len word, 'wm::len word, 'wy::len word) loop_state"
  assumes l: "l = loop_init P ks xs as" and len: "length ks = length xs" "length as = dim_C P"
    and start: "quiet_start (fs 0)" and w: "\<forall>x\<in>set xs. length x = dim_R P"
    and P: "dims_ok P" and bits: "LENGTH('wx) + LENGTH('wk) \<le> LENGTH('wm)"
    and yb: "yb = y_run P (SA (hw l)) (map (core_at P l fs) [0..<Suc t])"
  shows "map fst yb = take (length yb) (expected P ks xs as)"
proof -
  let ?is = "map (core_at P l fs) [0..<Suc t]"
  let ?g = "\<lambda>m a. tab (dim_R P) (\<lambda>r. m ! r + a ! r :: 'wy word)"
  define out where "out = sa_run P (SA (hw l)) (map (beat_at P l fs) [0..<Suc t])"
  have o: "map sa_of ?is = map (beat_at P l fs) [0..<Suc t]" by simp
  define ar where "ar = a_run P (SA (hw l)) ?is"
  have y: "map fst yb = map2 ?g (map fst out) ar" and n: "length ar = length out"
    using y_run_add [of P "SA (hw l)" ?is] unfolding yb out_def ar_def o by blast+
  have ly: "length yb = length out" using arg_cong [OF y, of length] n by simp
  obtain rest where "as = ar @ rest"
    using inv_at_all [where fs = fs, OF l len(1) start w P bits, of t] unfolding loop_inv_def ar_def by blast
  then have ar: "ar = take (length out) as" using n by simp
  from array_prefix [where fs = fs, OF l len(1) start w P bits out_def] show ?thesis
  proof (elim disjE exE conjE)
    fix bs :: "('wx word, 'wk word) sa_in list"
    assume "bs \<noteq> []" "\<forall>b\<in>set (butlast bs). \<not> s_last b" "s_last (last bs)"
      "map sk_data bs = ks" "map sx_data bs = xs"
    then have e: "map2 ?g (map fst (reference P (\<lambda>_ _. 0) bs)) as = expected P ks xs as"
      using len(2) by (intro reference_expected) auto
    assume "out = take (length out) (reference P (\<lambda>_ _. 0) bs)"
    then have "map fst out = take (length out) (map fst (reference P (\<lambda>_ _. 0) bs))"
      by (metis take_map)
    then have "map fst yb = map2 ?g (take (length out) (map fst (reference P (\<lambda>_ _. 0) bs))) (take (length out) as)"
      using y ar by simp
    then show ?thesis unfolding map2_takes e ly .
  qed (use y ly in simp)
qed

lemma reference_flags:
  assumes "bs \<noteq> []" "\<forall>b\<in>set (butlast bs). \<not> s_last b" "s_last (last bs)"
  shows "map snd (reference P (\<lambda>_ _. 0 :: 'wy::len word) bs) = tab (dim_C P) (\<lambda>c. Suc c = dim_C P)"
proof -
  have "map snd (reference P (\<lambda>_ _. 0 :: 'wy word) bs) = tab (dim_C P) (\<lambda>c. c = dim_C P - 1)"
    using reference_packet [of "butlast bs" "last bs" P "\<lambda>_ _. 0 :: 'wy word"] assms
    by (simp add: tab_def del: of_int_mult map_append)
  then show ?thesis by (auto intro: tab_cong)
qed

lemma packet_flags: "map snd (packet rows) = tab (length rows) (\<lambda>i. Suc i = length rows)"
  by (simp add: packet_def tab_def)

lemma length_expected [simp]: "length (expected P ks xs as) = dim_C P"
  by (simp add: expected_def)

lemma produced_packet:
  fixes l :: "('wx::len word, 'wk::len word, 'wm::len word, 'wy::len word) loop_state"
  assumes l: "l = loop_init P ks xs as" and len: "length ks = length xs" "length as = dim_C P"
    and start: "quiet_start (fs 0)" and w: "\<forall>x\<in>set xs. length x = dim_R P"
    and P: "dims_ok P" and bits: "LENGTH('wx) + LENGTH('wk) \<le> LENGTH('wm)"
    and yb: "yb = y_run P (SA (hw l)) (map (core_at P l fs) [0..<Suc t])"
  shows "yb = take (length yb) (packet (expected P ks xs as))"
proof (rule pair_list_eqI)
  have "map fst yb = take (length yb) (expected P ks xs as)"
    by (rule produced_rows [where fs = fs, OF l len start w P bits yb])
  then show "map fst yb = map fst (take (length yb) (packet (expected P ks xs as)))"
    by (simp add: packet_rows flip: take_map)
  define out where "out = sa_run P (SA (hw l)) (map (beat_at P l fs) [0..<Suc t])"
  have r: "SA (hw l) = sa_reset P" by (simp add: l loop_init_sel top_reset_sel)
  have fl: "map snd yb = map snd out"
    unfolding yb out_def
    by (rule y_last_flags [OF r])
      (rule row_sees_last [where fs = fs, OF l len(1) start w P bits], simp only: SA_loop_at [OF l])
  from array_prefix [where fs = fs, OF l len(1) start w P bits out_def]
  show "map snd yb = map snd (take (length yb) (packet (expected P ks xs as)))"
  proof (elim disjE exE conjE)
    fix bs :: "('wx word, 'wk word) sa_in list"
    assume bs: "bs \<noteq> []" "\<forall>b\<in>set (butlast bs). \<not> s_last b" "s_last (last bs)"
      and "out = take (length out) (reference P (\<lambda>_ _. 0) bs)"
    then have "map snd out = take (length out) (map snd (reference P (\<lambda>_ _. 0 :: 'wy word) bs))"
      by (metis take_map)
    moreover have "length out = length yb" using arg_cong [OF fl, of length] by simp
    ultimately show ?thesis by (simp add: fl reference_flags [OF bs] packet_flags flip: take_map)
  qed (use fl in simp)
qed

lemma sink_produced:
  fixes l :: "('wx::len word, 'wk::len word, 'wm::len word, 'wy::len word) loop_state"
  assumes l: "l = loop_init P ks xs as" and len: "length ks = length xs" "length as = dim_C P"
    and start: "quiet_start (fs 0)" and w: "\<forall>x\<in>set xs. length x = dim_R P"
    and P: "dims_ok P" and bits: "LENGTH('wx) + LENGTH('wk) \<le> LENGTH('wm)"
  shows "y_snk (loop_at P l fs t) = take (length (y_snk (loop_at P l fs t))) (packet (expected P ks xs as))"
proof (cases t)
  case 0
  then show ?thesis by (simp add: l loop_init_sel)
next
  case (Suc u)
  let ?yb = "y_run P (SA (hw l)) (map (core_at P l fs) [0..<t])"
  have yb: "?yb = y_snk (loop_at P l fs t) @ skid_held (SKID_Y (hw (loop_at P l fs t)))"
    using inv_at_all [where fs = fs, OF l len(1) start w P bits, of u] unfolding Suc loop_inv_def by blast
  have "?yb = take (length ?yb) (packet (expected P ks xs as))"
    unfolding Suc by (rule produced_packet [where fs = fs, OF l len start w P bits refl])
  then have "y_snk (loop_at P l fs t) @ skid_held (SKID_Y (hw (loop_at P l fs t)))
      = take (length (y_snk (loop_at P l fs t)) + length (skid_held (SKID_Y (hw (loop_at P l fs t))))) (packet (expected P ks xs as))"
    by (simp only: yb length_append)
  from arg_cong [OF this, of "take (length (y_snk (loop_at P l fs t)))"]
  show ?thesis by simp
qed

section \<open>Progress\<close>

text \<open>Something that is true again and again.\<close>

definition again :: "(nat \<Rightarrow> bool) \<Rightarrow> bool" where
  "again e \<longleftrightarrow> (\<forall>t. \<exists>u\<ge>t. e u)"

lemma again_first:
  assumes "again e"
  shows "\<exists>u\<ge>t. e u \<and> (\<forall>v. t \<le> v \<longrightarrow> v < u \<longrightarrow> \<not> e v)"
proof -
  obtain w where "t \<le> w \<and> e w" using assms by (auto simp: again_def)
  from ex_least_nat_le [where P = "\<lambda>u. t \<le> u \<and> e u", OF this]
  show ?thesis by blast
qed

text \<open>A count that grows again and again while it is below a bound reaches the bound.\<close>

lemma count_reaches:
  fixes f :: "nat \<Rightarrow> nat"
  assumes mono: "mono f" and grow: "\<And>t. t0 \<le> t \<Longrightarrow> f t < n \<Longrightarrow> \<exists>u\<ge>t. f u < f (Suc u)"
  shows "\<exists>t\<ge>t0. n \<le> f t"
  using grow
proof (induction n)
  case 0
  then show ?case by auto
next
  case (Suc n)
  obtain t where t: "t0 \<le> t" "n \<le> f t" using Suc.IH Suc.prems less_Suc_eq by metis
  show ?case
  proof (cases "f t < Suc n")
    case True
    obtain u where u: "t \<le> u" "f u < f (Suc u)" using Suc.prems [OF t(1) True] by blast
    have "f t \<le> f u" using mono u(1) by (auto simp: mono_def)
    then show ?thesis using t u by (intro exI [of _ "Suc u"]) simp
  next
    case False
    then show ?thesis using t(1) by (intro exI [of _ t]) simp
  qed
qed

text \<open>A word that waits in a buffer waits until it is popped; a source that offers fills the buffer.\<close>

lemma held_keeps:
  "skid_good s \<Longrightarrow> skid_pop s i = [] \<Longrightarrow> skid_held s \<noteq> [] \<Longrightarrow> skid_held (skid_step s i) \<noteq> []"
  using skid_step_law [of s i] by auto

lemma held_empty_pop: "skid_good s \<Longrightarrow> skid_held s = [] \<Longrightarrow> skid_pop s i = []"
  by (simp add: skid_pop_def skid_head(1))

lemma held_until:
  assumes step: "\<And>t. s (Suc t) = skid_step (s t) (i t)" and good: "\<And>t. 0 < t \<Longrightarrow> skid_good (s t)"
    and "0 < t" "t \<le> u" "skid_held (s t) \<noteq> []" and none: "\<And>v. t \<le> v \<Longrightarrow> v < u \<Longrightarrow> skid_pop (s v) (i v) = []"
  shows "skid_held (s u) \<noteq> []"
  using assms(4) none
proof (induction u rule: dec_induct)
  case base
  show ?case by fact
next
  case (step u)
  then show ?case using \<open>0 < t\<close> by (simp add: assms(1) held_keeps [OF good])
qed

lemma fed_head:
  assumes step: "\<And>t. s (Suc t) = skid_step (s t) (i t)" and good: "\<And>t. 0 < t \<Longrightarrow> skid_good (s t)"
    and src: "\<And>t. src (Suc t) = src_next (s t) (i t) (src t)"
    and valid: "\<And>t. skid_s_valid (i t) = src_valid (off t) (src t)"
    and fair: "again off" and "0 < t" "skid_held (s t) @ src t \<noteq> []"
  shows "\<exists>u\<ge>t. skid_held (s u) \<noteq> [] \<and> (\<forall>v. t \<le> v \<longrightarrow> v < u \<longrightarrow> skid_pop (s v) (i v) = [])"
proof (cases "skid_held (s t) = []")
  case True
  obtain w where w: "t \<le> w" "off w" and quiet: "\<And>v. t \<le> v \<Longrightarrow> v < w \<Longrightarrow> \<not> off v"
    using again_first [OF fair, of t] by blast
  have still: "skid_held (s v) = [] \<and> src v = src t" if "t \<le> v" "v \<le> w" for v
    using that
  proof (induction v rule: dec_induct)
    case base
    show ?case using True by simp
  next
    case (step v)
    have "skid_push (s v) (i v) = []" using quiet [of v] step by (simp add: skid_push_def valid src_valid_def)
    moreover have "skid_held (s v) = []" "src v = src t" using step by simp_all
    ultimately show ?case
      using skid_step_law [OF good, of v "i v"] \<open>0 < t\<close> step by (simp add: assms(1) src src_next_def)
  qed
  have good_w: "skid_good (s w)" and e: "skid_held (s w) = []" using good w \<open>0 < t\<close> still [of w] by simp_all
  have "skid_push (s w) (i w) = [skid_s_data (i w)]"
    using still [OF w(1)] assms(7) True w(2) skid_head(3) [OF good_w]
    by (simp add: skid_push_def valid src_valid_def)
  then have "skid_held (skid_step (s w) (i w)) = [skid_s_data (i w)]"
    using skid_step_law [OF good_w, of "i w"] held_empty_pop [OF good_w e, of "i w"] e by simp
  then have "skid_held (s (Suc w)) \<noteq> []" by (simp add: step)
  moreover have "skid_pop (s v) (i v) = []" if "t \<le> v" "v < Suc w" for v
    using still [of v] that good [of v] \<open>0 < t\<close> by (simp add: held_empty_pop)
  ultimately show ?thesis using w(1) by (intro exI [of _ "Suc w"]) simp
qed (intro exI [of _ t], simp)

section \<open>Under fair offers everything arrives\<close>

definition closed_run :: "dims \<Rightarrow> 'wk word list list \<Rightarrow> 'wx word list list \<Rightarrow> 'wy word list list
    \<Rightarrow> (nat \<Rightarrow> offers) \<Rightarrow> ('wx::len word, 'wk::len word, 'wm::len word, 'wy::len word) loop_state \<Rightarrow> bool" where
  "closed_run P ks xs as fs l \<longleftrightarrow>
     l = loop_init P ks xs as \<and> length ks = length xs \<and> length as = dim_C P \<and> quiet_start (fs 0) \<and>
     (\<forall>x\<in>set xs. length x = dim_R P) \<and> dims_ok P \<and> LENGTH('wx) + LENGTH('wk) \<le> LENGTH('wm)"

lemma closed_inv: "closed_run P ks xs as fs l \<Longrightarrow> 0 < t \<Longrightarrow> inv_at P ks xs as l fs t"
  using inv_at_all [where t = "t - 1" and fs = fs and l = l] by (simp add: closed_run_def)

lemma run_so_far: "closed_run P ks xs as fs l \<Longrightarrow> packet_so_far P (beat_at P l fs) t"
  using closed_inv [of P ks xs as fs l] by (intro inv_so_far [where ks = ks and xs = xs and as = as]) (auto simp: closed_run_def)

lemma run_SA: "closed_run P ks xs as fs l \<Longrightarrow> SA (hw (loop_at P l fs t)) = sa_at P (beat_at P l fs) t"
  by (rule SA_loop_at) (simp add: closed_run_def)

lemma run_ready:
  fixes l :: "('wx::len word, 'wk::len word, 'wm::len word, 'wy::len word) loop_state"
  assumes "closed_run P ks xs as fs l"
  shows "s_ready P (SA (hw (loop_at P l fs t))) (sa_of (core_of P (loop_at P l fs t) (fs t)))"
proof -
  have "dims_ok P" "LENGTH('wx) + LENGTH('wk) \<le> LENGTH('wm)" using assms by (simp_all add: closed_run_def)
  from ready_so_far [OF run_so_far [OF assms] this] show ?thesis
    unfolding run_SA [OF assms] by (simp only: core_at_def)
qed

text \<open>The three fed buffers and the buffer of Y, along the run.\<close>

lemma run_feeds:
  "SKID_K (hw (loop_at P l fs (Suc t))) = skid_step (SKID_K (hw (loop_at P l fs t)))
     (k_port P (hw (loop_at P l fs t)) (loop_ext P (loop_at P l fs t) (fs t)))"
  "SKID_X (hw (loop_at P l fs (Suc t))) = skid_step (SKID_X (hw (loop_at P l fs t)))
     (x_port P (hw (loop_at P l fs t)) (loop_ext P (loop_at P l fs t) (fs t)))"
  "SKID_A (hw (loop_at P l fs (Suc t))) = skid_step (SKID_A (hw (loop_at P l fs t)))
     (a_port P (hw (loop_at P l fs t)) (loop_ext P (loop_at P l fs t) (fs t)))"
  "SKID_Y (hw (loop_at P l fs (Suc t))) = skid_step (SKID_Y (hw (loop_at P l fs t)))
     (y_port P (hw (loop_at P l fs t)) (loop_ext P (loop_at P l fs t) (fs t)))"
  "k_src (loop_at P l fs (Suc t)) = src_next (SKID_K (hw (loop_at P l fs t)))
     (k_port P (hw (loop_at P l fs t)) (loop_ext P (loop_at P l fs t) (fs t))) (k_src (loop_at P l fs t))"
  "x_src (loop_at P l fs (Suc t)) = src_next (SKID_X (hw (loop_at P l fs t)))
     (x_port P (hw (loop_at P l fs t)) (loop_ext P (loop_at P l fs t) (fs t))) (x_src (loop_at P l fs t))"
  "a_src (loop_at P l fs (Suc t)) = src_next (SKID_A (hw (loop_at P l fs t)))
     (a_port P (hw (loop_at P l fs t)) (loop_ext P (loop_at P l fs t) (fs t))) (a_src (loop_at P l fs t))"
  by (simp_all add: loop_step_sel)

lemma run_good:
  assumes "closed_run P ks xs as fs l" "0 < t"
  shows "skid_good (SKID_K (hw (loop_at P l fs t)))" "skid_good (SKID_X (hw (loop_at P l fs t)))"
    "skid_good (SKID_A (hw (loop_at P l fs t)))" "skid_good (SKID_Y (hw (loop_at P l fs t)))"
  using closed_inv [OF assms] by (simp_all add: loop_inv_def)

text \<open>The beats taken before cycle \<open>t\<close>.\<close>

definition beats_taken :: "dims \<Rightarrow> ('wx::len word, 'wk::len word, 'wm::len word, 'wy::len word) loop_state
    \<Rightarrow> (nat \<Rightarrow> offers) \<Rightarrow> nat \<Rightarrow> nat" where
  "beats_taken P l fs t = length (filter s_valid (map (beat_at P l fs) [0..<t]))"

lemma beats_taken_Suc:
  "beats_taken P l fs (Suc t) = beats_taken P l fs t + (if s_valid (beat_at P l fs t) then 1 else 0)"
  by (simp add: beats_taken_def)

lemma next_beat:
  assumes run: "closed_run P ks xs as fs l"
    and fair: "again (\<lambda>t. k_offer (fs t))" "again (\<lambda>t. x_offer (fs t))"
    and t: "0 < t" "beats_taken P l fs t < length ks"
  shows "\<exists>u\<ge>t. s_valid (beat_at P l fs u)"
proof (rule ccontr)
  assume "\<not> (\<exists>u\<ge>t. s_valid (beat_at P l fs u))"
  then have never: "\<not> s_valid (sa_of (core_of P (loop_at P l fs u) (fs u)))" if "t \<le> u" for u
    using that by (auto simp: core_at_def)
  let ?s = "\<lambda>t. hw (loop_at P l fs t)" and ?e = "\<lambda>t. loop_ext P (loop_at P l fs t) (fs t)"
  have none: "skid_pop (SKID_K (?s u)) (k_port P (?s u) (?e u)) = []"
    "skid_pop (SKID_X (?s u)) (x_port P (?s u) (?e u)) = []" if "t \<le> u" for u
    using pops [OF run_ready [OF run, of u]] never [OF that] by simp_all
  have "skid_held (SKID_K (?s t)) @ k_src (loop_at P l fs t) \<noteq> []"
    "skid_held (SKID_X (?s t)) @ x_src (loop_at P l fs t) \<noteq> []"
    using closed_inv [OF run t(1)] t(2) run
    unfolding loop_inv_def closed_run_def beats_taken_def by (auto dest!: arg_cong [where f = length])
  note left = this
  obtain u where u: "t \<le> u" "skid_held (SKID_K (?s u)) \<noteq> []"
    using fed_head [where s = "\<lambda>t. SKID_K (?s t)", OF run_feeds(1) run_good(1) [OF run] run_feeds(5)
        port_sel(1) fair(1) t(1) left(1)] by blast
  obtain v where v: "t \<le> v" "skid_held (SKID_X (?s v)) \<noteq> []"
    using fed_head [where s = "\<lambda>t. SKID_X (?s t)", OF run_feeds(2) run_good(2) [OF run] run_feeds(6)
        port_sel(3) fair(2) t(1) left(2)] by blast
  let ?m = "max u v"
  have "skid_held (SKID_K (?s ?m)) \<noteq> []"
    by (rule held_until [where s = "\<lambda>t. SKID_K (?s t)", OF run_feeds(1) run_good(1) [OF run] _ _ u(2) none(1)])
      (use u(1) t(1) in simp_all)
  moreover have "skid_held (SKID_X (?s ?m)) \<noteq> []"
    by (rule held_until [where s = "\<lambda>t. SKID_X (?s t)", OF run_feeds(2) run_good(2) [OF run] _ _ v(2) none(2)])
      (use v(1) t(1) in simp_all)
  moreover have "t \<le> ?m" "0 < ?m" using u(1) t(1) by simp_all
  ultimately show False
    using never [of ?m] run_good(1,2) [OF run, of ?m] by (simp add: core_of_sel skid_head(1))
qed

lemma mono_beats_taken: "mono (beats_taken P l fs)"
  by (rule mono_iff_le_Suc [THEN iffD2]) (simp add: beats_taken_Suc)

lemma packet_completes:
  assumes run: "closed_run P ks xs as fs l" and ne: "ks \<noteq> []"
    and fair: "again (\<lambda>t. k_offer (fs t))" "again (\<lambda>t. x_offer (fs t))"
  shows "\<exists>T. one_packet P (beat_at P l fs) T"
proof -
  have grow: "\<exists>u\<ge>t. beats_taken P l fs u < beats_taken P l fs (Suc u)"
    if t: "1 \<le> t" "beats_taken P l fs t < length ks" for t
  proof -
    obtain u where "t \<le> u" "s_valid (beat_at P l fs u)" using next_beat [OF run fair _ t(2)] t(1) by auto
    then show ?thesis by (intro exI [of _ u]) (simp add: beats_taken_Suc)
  qed
  obtain t where t1: "1 \<le> t" and t2: "length ks \<le> beats_taken P l fs t"
    using count_reaches [where ?t0.0 = 1, OF mono_beats_taken grow] by blast
  then have t: "0 < t" "length ks \<le> beats_taken P l fs t" by simp_all
  let ?bs = "filter s_valid (map (beat_at P l fs) [0..<t])"
  have p: "packet ks = map (\<lambda>b. (sk_data b, s_last b)) ?bs @ skid_held (SKID_K (hw (loop_at P l fs t))) @ k_src (loop_at P l fs t)"
    using closed_inv [OF run t(1)] unfolding loop_inv_def by blast
  have n: "length ?bs = length ks"
    using arg_cong [OF p, of length] t(2) by (simp add: beats_taken_def)
  then have bs: "?bs \<noteq> []" using ne by (metis length_0_conv)
  have "s_last (last ?bs)" by (rule last_beat_last [OF closed_inv [OF run t(1)] n bs])
  moreover have "last ?bs \<in> set ?bs" using bs by (rule last_in_set)
  ultimately obtain T where T: "s_valid (beat_at P l fs T)" "s_last (beat_at P l fs T)"
    by (auto simp del: filter_map)
  have far: "packet_so_far P (beat_at P l fs) v" for v by (rule run_so_far [OF run])
  have after: "\<not> s_valid (beat_at P l fs v)" if "T < v" for v
    using far [of v] T that unfolding packet_so_far_def by blast
  have before: "\<not> (s_valid (beat_at P l fs u) \<and> s_last (beat_at P l fs u))" if "u < T" for u
    using far [of T] T that unfolding packet_so_far_def by blast
  have "s_valid (beat_at P l fs u) \<and> s_last (beat_at P l fs u) \<longleftrightarrow> u = T" for u
    using after before T by (metis linorder_neqE_nat)
  then have "one_packet P (beat_at P l fs) T"
    using far after unfolding one_packet_def packet_so_far_def by blast
  then show ?thesis by blast
qed

text \<open>The words of A taken before cycle \<open>t\<close>; as many columns have left the array.\<close>

definition words_taken :: "dims \<Rightarrow> ('wx::len word, 'wk::len word, 'wm::len word, 'wy::len word) loop_state
    \<Rightarrow> (nat \<Rightarrow> offers) \<Rightarrow> nat \<Rightarrow> nat" where
  "words_taken P l fs t = length (a_run P (SA (hw l)) (map (core_at P l fs) [0..<t]))"

lemma run_foldl:
  assumes "closed_run P ks xs as fs l"
  shows "foldl (\<lambda>s i. sa_step P s (sa_of i)) (SA (hw l)) (map (core_at P l fs) [0..<t]) = SA (hw (loop_at P l fs t))"
  unfolding run_SA [OF assms] sa_at_foldl using assms
  by (simp add: closed_run_def loop_init_sel top_reset_sel)

lemma words_taken_Suc:
  assumes "closed_run P ks xs as fs l"
  shows "words_taken P l fs (Suc t) = words_taken P l fs t + length (a_beat P (SA (hw (loop_at P l fs t))) (core_at P l fs t))"
proof -
  have m: "map (core_at P l fs) [0..<Suc t] = map (core_at P l fs) [0..<t] @ [core_at P l fs t]" by simp
  show ?thesis unfolding words_taken_def m a_run_snoc run_foldl [OF assms] by simp
qed

lemma words_taken_eq:
  fixes l :: "('wx::len word, 'wk::len word, 'wm::len word, 'wy::len word) loop_state"
  assumes run: "closed_run P ks xs as fs l" and T: "one_packet P (beat_at P l fs) T"
  shows "words_taken P l fs t = min (dim_C P) (taken P (beat_at P l fs) T t)"
    and "length (y_run P (SA (hw l)) (map (core_at P l fs) [0..<t])) = words_taken P l fs t"
proof -
  let ?is = "map (core_at P l fs) [0..<t]"
  have o: "map sa_of ?is = map (beat_at P l fs) [0..<t]" by simp
  have ok: "dims_ok P" "LENGTH('wx) + LENGTH('wk) \<le> LENGTH('wm)" and r: "SA (hw l) = sa_at P (beat_at P l fs) 0"
    using run by (simp_all add: closed_run_def loop_init_sel top_reset_sel)
  have "sa_run P (SA (hw l)) (map (beat_at P l fs) [0..<t])
      = take (taken P (beat_at P l fs) T t) (product_beats P (beat_at P l fs) T)"
    unfolding r using sa_run_at [of P "beat_at P l fs" 0 t, where 'wm = 'wm and 'wy = 'wy]
      taken_beats [OF T ok, where 'wy = 'wy] by simp
  moreover have "length (product_beats P (beat_at P l fs) T :: ('wy word list \<times> bool) list) = dim_C P"
    by (simp add: product_beats_def)
  moreover have "length (a_run P (SA (hw l)) ?is) = length (sa_run P (SA (hw l)) (map (beat_at P l fs) [0..<t]))"
    unfolding o [symmetric] by (rule conjunct2 [OF y_run_add])
  ultimately show "words_taken P l fs t = min (dim_C P) (taken P (beat_at P l fs) T t)"
    by (simp only: words_taken_def length_take)
  show "length (y_run P (SA (hw l)) ?is) = words_taken P l fs t"
    using arg_cong [OF conjunct1 [OF y_run_add [of P "SA (hw l)" ?is]], of length]
      conjunct2 [OF y_run_add [of P "SA (hw l)" ?is]]
    unfolding words_taken_def by (simp only: length_map length_zip min.idem)
qed

lemma next_word:
  assumes run: "closed_run P ks xs as fs l" and T: "one_packet P (beat_at P l fs) T"
    and fair: "again (\<lambda>t. a_offer (fs t))" "again (\<lambda>t. y_take (fs t))"
    and t: "0 < t" "out_time P T \<le> t" "words_taken P l fs t < dim_C P"
  shows "\<exists>u\<ge>t. a_beat P (SA (hw (loop_at P l fs u))) (core_at P l fs u) \<noteq> []"
proof (rule ccontr)
  let ?s = "\<lambda>t. hw (loop_at P l fs t)"
  assume "\<not> (\<exists>u\<ge>t. a_beat P (SA (?s u)) (core_at P l fs u) \<noteq> [])"
  then have never: "a_beat P (SA (?s u)) (core_at P l fs u) = []" if "t \<le> u" for u using that by blast
  have same: "words_taken P l fs u = words_taken P l fs t" if "t \<le> u" for u
    using that by (induction u rule: dec_induct) (simp_all add: words_taken_Suc [OF run] never)
  have mv: "m_valid P (SA (?s u))" if "t \<le> u" for u
  proof -
    have ok: "dims_ok P" using run by (simp add: closed_run_def)
    obtain ro_f where s: "SA (?s u) = pipe P (beat_at P l fs) u ro_f (rv_at P (beat_at P l fs) T u) (rl_at P (beat_at P l fs) T u)"
      unfolding run_SA [OF run] using sa_at_pipe [OF T ok] by blast
    show ?thesis
      using control_at(1) [OF T ok s] words_taken_eq(1) [OF run T, of u] same [OF that] t(2,3) that by simp
  qed
  have none: "skid_pop (SKID_A (?s u)) (a_port P (?s u) (loop_ext P (loop_at P l fs u) (fs u))) = []" if "t \<le> u" for u
    using a_pop [where P = P and l = "loop_at P l fs u" and f = "fs u"] never [OF that] by (simp add: core_at_def)
  have left: "skid_held (SKID_A (?s t)) @ a_src (loop_at P l fs t) \<noteq> []"
  proof
    assume "skid_held (SKID_A (?s t)) @ a_src (loop_at P l fs t) = []"
    then have "as = a_run P (SA (hw l)) (map (core_at P l fs) [0..<t])"
      using closed_inv [OF run t(1)] by (simp add: loop_inv_def)
    then have "length as = words_taken P l fs t" unfolding words_taken_def by (rule arg_cong)
    then show False using run t(3) by (simp add: closed_run_def)
  qed
  obtain u where u: "t \<le> u" "skid_held (SKID_A (?s u)) \<noteq> []"
    using fed_head [where s = "\<lambda>t. SKID_A (?s t)", OF run_feeds(3) run_good(3) [OF run] run_feeds(7)
        port_sel(5) fair(1) t(1) left] by blast
  have busy: "\<not> skid_s_ready (SKID_Y (?s v))" if "u \<le> v" for v
  proof -
    have v: "0 < v" "t \<le> v" using that u(1) t(1) by simp_all
    have "skid_held (SKID_A (?s v)) \<noteq> []"
      by (rule held_until [where s = "\<lambda>t. SKID_A (?s t)", OF run_feeds(3) run_good(3) [OF run] _ that u(2) none])
        (use u(1) t(1) in simp_all)
    then have "a_tvalid (core_at P l fs v)"
      using run_good(3) [OF run v(1)] by (simp add: core_at_def core_in_def skid_head(1))
    then show ?thesis
      using never [OF v(2)] mv [OF v(2)] by (simp add: a_beat_def core_at_def core_in_def split: if_splits)
  qed
  obtain v where v: "u \<le> v" "y_take (fs v)" using fair(2) by (auto simp: again_def)
  have "skid_good (SKID_Y (?s v))" using run_good(4) [OF run, of v] v(1) u(1) t(1) by simp
  then have "skid_s_ready (SKID_Y (?s (Suc v)))"
    unfolding run_feeds using busy [OF v(1)] v(2)
    by (cases "fsm (SKID_Y (?s v))") (simp_all add: skid_step_def state_next_def skid_good_def port_sel)
  then show False using busy [of "Suc v"] v(1) by simp
qed

lemma next_row:
  assumes run: "closed_run P ks xs as fs l" and fair: "again (\<lambda>t. y_take (fs t))"
    and t: "0 < t" "skid_held (SKID_Y (hw (loop_at P l fs t))) \<noteq> []"
  shows "\<exists>u\<ge>t. length (y_snk (loop_at P l fs u)) < length (y_snk (loop_at P l fs (Suc u)))"
proof (rule ccontr)
  let ?s = "\<lambda>t. hw (loop_at P l fs t)"
  assume no: "\<not> (\<exists>u\<ge>t. length (y_snk (loop_at P l fs u)) < length (y_snk (loop_at P l fs (Suc u))))"
  have none: "skid_pop (SKID_Y (?s u)) (y_port P (?s u) (loop_ext P (loop_at P l fs u) (fs u))) = []" if "t \<le> u" for u
    using no that by (auto simp: loop_step_sel)
  obtain u where u: "t \<le> u" "y_take (fs u)" using fair by (auto simp: again_def)
  have "skid_held (SKID_Y (?s u)) \<noteq> []"
    by (rule held_until [where s = "\<lambda>t. SKID_Y (?s t)", OF run_feeds(4) run_good(4) [OF run] t(1) u(1) t(2) none]) simp
  then show False
    using none [OF u(1)] u run_good(4) [OF run, of u] t(1) by (simp add: skid_pop_def port_sel skid_head(1))
qed

lemma mono_words_taken: "closed_run P ks xs as fs l \<Longrightarrow> mono (words_taken P l fs)"
  by (rule mono_iff_le_Suc [THEN iffD2]) (simp add: words_taken_Suc)

lemma mono_sink: "mono (\<lambda>t. length (y_snk (loop_at P l fs t)))"
  by (rule mono_iff_le_Suc [THEN iffD2]) (simp add: loop_step_sel)

lemma sink_completes:
  assumes run: "closed_run P ks xs as fs l" and ne: "ks \<noteq> []"
    and kx: "again (\<lambda>t. k_offer (fs t))" "again (\<lambda>t. x_offer (fs t))"
    and ay: "again (\<lambda>t. a_offer (fs t))" "again (\<lambda>t. y_take (fs t))"
  shows "\<exists>t. \<forall>u\<ge>t. y_snk (loop_at P l fs u) = packet (expected P ks xs as)"
proof -
  obtain T where T: "one_packet P (beat_at P l fs) T" using packet_completes [OF run ne kx] by blast
  let ?t0 = "Suc (out_time P T)"
  have words: "\<exists>u\<ge>t. words_taken P l fs u < words_taken P l fs (Suc u)"
    if t: "?t0 \<le> t" "words_taken P l fs t < dim_C P" for t
  proof -
    have "0 < t" "out_time P T \<le> t" using t(1) by simp_all
    from next_word [OF run T ay this t(2)] show ?thesis by (simp add: words_taken_Suc [OF run])
  qed
  obtain t1 where t1: "?t0 \<le> t1" "dim_C P \<le> words_taken P l fs t1"
    using count_reaches [OF mono_words_taken [OF run] words] by blast
  have rows: "\<exists>u\<ge>t. length (y_snk (loop_at P l fs u)) < length (y_snk (loop_at P l fs (Suc u)))"
    if t: "t1 \<le> t" "length (y_snk (loop_at P l fs t)) < dim_C P" for t
  proof -
    have "0 < t" using t1(1) t(1) by simp
    have "dim_C P \<le> words_taken P l fs t"
      using t1(2) monoD [OF mono_words_taken [OF run] t(1)] by simp
    moreover have "y_run P (SA (hw l)) (map (core_at P l fs) [0..<t])
        = y_snk (loop_at P l fs t) @ skid_held (SKID_Y (hw (loop_at P l fs t)))"
      using closed_inv [OF run \<open>0 < t\<close>] by (simp add: loop_inv_def)
    ultimately have "skid_held (SKID_Y (hw (loop_at P l fs t))) \<noteq> []"
      using t(2) words_taken_eq(2) [OF run T, of t] by auto
    then show ?thesis by (rule next_row [OF run ay(2) \<open>0 < t\<close>])
  qed
  obtain t2 where t2: "t1 \<le> t2" "dim_C P \<le> length (y_snk (loop_at P l fs t2))"
    using count_reaches [OF mono_sink rows] by blast
  have "y_snk (loop_at P l fs u) = packet (expected P ks xs as)" if "t2 \<le> u" for u
  proof -
    have "dim_C P \<le> length (y_snk (loop_at P l fs u))" using t2(2) monoD [OF mono_sink that, of P l fs] by simp
    moreover have "y_snk (loop_at P l fs u) = take (length (y_snk (loop_at P l fs u))) (packet (expected P ks xs as))"
      using run by (intro sink_produced [where fs = fs]) (simp_all add: closed_run_def)
    ultimately show ?thesis by simp
  qed
  then show ?thesis by blast
qed

section \<open>Properties\<close>

text \<open>
  C3: The stream side never delivers a wrong row.  For every size and latency, with any gaps in the
  three sources and any pauses of the sink, what the sink holds after any number of cycles is a
  prefix of the rows of \<open>k^T x + a\<close>: nothing is lost, repeated or reordered in the four skid
  buffers, the join and the array.
\<close>
theorem stream_top_rows:
  fixes l :: "('wx::len word, 'wk::len word, 'wm::len word, 'wy::len word) loop_state"
  assumes "l = loop_init P ks xs as" "length ks = length xs" "length as = dim_C P"
    and "quiet_start (fs 0)" "\<forall>x\<in>set xs. length x = dim_R P"
    and "dims_ok P" "LENGTH('wx) + LENGTH('wk) \<le> LENGTH('wm)"
  shows "y_snk (loop_at P l fs t) = take (length (y_snk (loop_at P l fs t))) (packet (expected P ks xs as))"
  by (rule sink_produced [where fs = fs, OF assms])

text \<open>
  C4: The stream side delivers every row: when the three sources offer again and again, and the sink
  is ready again and again, then from some cycle on the sink holds all the rows of \<open>k^T x + a\<close>.
\<close>
theorem stream_top_delivers:
  fixes l :: "('wx::len word, 'wk::len word, 'wm::len word, 'wy::len word) loop_state"
  assumes "l = loop_init P ks xs as" "length ks = length xs" "length as = dim_C P" "ks \<noteq> []"
    and "quiet_start (fs 0)" "\<forall>x\<in>set xs. length x = dim_R P"
    and "dims_ok P" "LENGTH('wx) + LENGTH('wk) \<le> LENGTH('wm)"
    and "again (\<lambda>t. k_offer (fs t))" "again (\<lambda>t. x_offer (fs t))"
      "again (\<lambda>t. a_offer (fs t))" "again (\<lambda>t. y_take (fs t))"
  shows "\<exists>t. \<forall>u\<ge>t. y_snk (loop_at P l fs u) = packet (expected P ks xs as)"
  using assms by (intro sink_completes) (simp_all add: closed_run_def)

text \<open>A run with gaps and pauses.\<close>

definition demo_offers :: "nat \<Rightarrow> offers" where
  "demo_offers t = \<lparr>k_offer = (t mod 5 = 3), x_offer = (0 < t \<and> t mod 2 = 0),
     a_offer = (t mod 4 = 3), y_take = (t mod 5 = 4)\<rparr>"

definition demo_loop :: "(8 word, 8 word, 16 word, 32 word) loop_state" where
  "demo_loop = loop_init top_dims [[1, 2], [3, 4]] [[5, -6], [7, 8]] [[100, 200], [300, 400]]"

lemma demo_again:
  "again (\<lambda>t. k_offer (demo_offers t))" "again (\<lambda>t. x_offer (demo_offers t))"
  "again (\<lambda>t. a_offer (demo_offers t))" "again (\<lambda>t. y_take (demo_offers t))"
proof -
  have "again e" if "0 < n" "\<And>t. e (n * t + c)" for n c :: nat and e
    unfolding again_def
  proof
    fix t
    have "t \<le> n * t + c" using that(1) by (cases n) simp_all
    then show "\<exists>u\<ge>t. e u" using that(2) by blast
  qed
  note go = this
  show "again (\<lambda>t. k_offer (demo_offers t))" by (rule go [of 5 _ 3]) (simp_all add: demo_offers_def)
  show "again (\<lambda>t. x_offer (demo_offers t))" by (rule go [of 2 _ 2]) (simp_all add: demo_offers_def)
  show "again (\<lambda>t. a_offer (demo_offers t))" by (rule go [of 4 _ 3]) (simp_all add: demo_offers_def)
  show "again (\<lambda>t. y_take (demo_offers t))" by (rule go [of 5 _ 4]) (simp_all add: demo_offers_def)
qed

definition demo_rows :: "(32 word list \<times> bool) list" where
  "demo_rows = [([126, 218], False), ([338, 420], True)]"

lemma demo_expected:
  "packet (expected top_dims [[1, 2], [3, 4 :: 8 word]] [[5, -6], [7, 8 :: 8 word]] [[100, 200], [300, 400 :: 32 word]])
    = demo_rows" by code_simp

lemma demo_ok:
  "quiet_start (demo_offers 0)" "dims_ok top_dims" "LENGTH(8) + LENGTH(8) \<le> LENGTH(16)"
  "length [[1, 2], [3, 4 :: 8 word]] = length [[5, -6], [7, 8 :: 8 word]]"
  "length [[100, 200], [300, 400 :: 32 word]] = dim_C top_dims"
  "\<forall>x\<in>set [[5, -6], [7, 8 :: 8 word]]. length x = dim_R top_dims"
  by (simp_all add: quiet_start_def demo_offers_def dims_ok_def top_dims_def)

theorem stream_top_rows_witness:
  "y_snk (loop_at top_dims demo_loop demo_offers 25)
     = take (length (y_snk (loop_at top_dims demo_loop demo_offers 25))) demo_rows"
  unfolding demo_expected [symmetric]
  by (rule stream_top_rows [where fs = demo_offers, OF demo_loop_def demo_ok(4,5,1,6,2,3)])

theorem stream_top_delivers_witness:
  "\<exists>t. y_snk (loop_at top_dims demo_loop demo_offers t) = demo_rows"
  using stream_top_delivers [where fs = demo_offers, OF demo_loop_def demo_ok(4,5) _ demo_ok(1,6,2,3) demo_again]
  unfolding demo_expected by blast

end
