(* ===== verification/Accel_System.thy ===== *)
theory Accel_System
  imports Stream_Top Dma_Controller
begin

text \<open>
  The accelerator as one system: the memory that the firmware and the DMA engines share, the
  firmware of \<^verbatim>\<open>c/firmware.h\<close> with the address translation of \<^verbatim>\<open>firebridge/fb_fw_wrap.h\<close>, the
  registers of the DMA controller and the stream side of \<^verbatim>\<open>top_axi_int.v\<close>.

  The DMA engines and width adapters (the third-party modules \<^verbatim>\<open>rtl/ext/alex_*\<close>) appear as their
  contract: a read channel turns the bytes of its descriptor into beats of the bus width, in
  order, and the write channel stores the bytes of the beats it gets from its address on, at most
  as many as its descriptor says.
\<close>

section \<open>Addresses\<close>

definition FB_SIM_DDR_BASE :: "32 word" where
  "FB_SIM_DDR_BASE = 0x20000000"

definition fb_shorten_ptr :: "64 word \<Rightarrow> 64 word \<Rightarrow> 32 word" where
  "fb_shorten_ptr addr p_mem = ucast (addr - p_mem) + FB_SIM_DDR_BASE"

definition fb_widen_ptr :: "32 word \<Rightarrow> 64 word \<Rightarrow> 64 word" where
  "fb_widen_ptr addr p_mem = ucast addr - ucast FB_SIM_DDR_BASE + p_mem"

text \<open>The memory behind \<open>p_mem\<close> is a list of bytes.\<close>

definition fb_c_read_ddr8_addr32 :: "64 word \<Rightarrow> byte list \<Rightarrow> 32 word \<Rightarrow> byte" where
  "fb_c_read_ddr8_addr32 p_mem mem addr = mem ! unat (fb_widen_ptr addr p_mem - p_mem)"

definition fb_c_write_ddr8_addr32 :: "64 word \<Rightarrow> byte list \<Rightarrow> 32 word \<Rightarrow> byte \<Rightarrow> byte list" where
  "fb_c_write_ddr8_addr32 p_mem mem addr d = mem[unat (fb_widen_ptr addr p_mem - p_mem) := d]"

text \<open>
  A register of the firmware is an element of an array of \<open>fb_reg_t\<close> at the base address; the
  hardware takes the distance from its own base in words of four bytes.
\<close>

definition fb_reg_addr :: "nat \<Rightarrow> 32 word \<Rightarrow> nat \<Rightarrow> 32 word" where
  "fb_reg_addr REG_WIDTH base n = base + of_nat (n * (REG_WIDTH div 8))"

definition reg_wr_addr_ctrl :: "32 word \<Rightarrow> 32 word \<Rightarrow> 32 word" where
  "reg_wr_addr_ctrl base addr = drop_bit 2 (addr - base)"

section \<open>The firmware\<close>

definition firmware_transfer :: "64 word \<Rightarrow> nat \<Rightarrow> nat \<Rightarrow> nat \<Rightarrow> transfer" where
  "firmware_transfer p_mem R K C =
     (let m = memory_st R K C in
      \<lparr>k_ptr = fb_shorten_ptr (p_mem + of_nat (off_k m)) p_mem, k_bytes = of_nat (K * C),
       x_ptr = fb_shorten_ptr (p_mem + of_nat (off_x m)) p_mem, x_bytes = of_nat (K * R),
       a_ptr = fb_shorten_ptr (p_mem + of_nat (off_a m)) p_mem, a_bytes = of_nat (C * R * 4),
       y_ptr = fb_shorten_ptr (p_mem + of_nat (off_y m)) p_mem, y_bytes = of_nat (C * R * 4)\<rparr>)"

definition bus_writes :: "nat \<Rightarrow> 32 word \<Rightarrow> transfer \<Rightarrow> (32 word \<times> 32 word) list" where
  "bus_writes REG_WIDTH base t = map (\<lambda>(n, v). (fb_reg_addr REG_WIDTH base n, v)) (firmware_writes t)"

text \<open>\<open>run_sim\<close>: \<open>device\<close> is what the call of \<open>run\<close> does to the memory.\<close>

definition run_sim :: "(byte list \<Rightarrow> byte list) \<Rightarrow> nat \<Rightarrow> nat \<Rightarrow> nat \<Rightarrow> byte list \<Rightarrow> byte list \<Rightarrow> byte list \<times> byte list" where
  "run_sim device R K C kxa mem =
     (let mem1 = load_kxa R K C kxa mem; mem2 = device mem1
      in (mem2, take (C * R * 4) (drop (off_y (memory_st R K C)) mem2)))"

text \<open>\<open>check_output\<close> on the memory, and \<open>randomize_inputs\<close> with the numbers that \<open>rand\<close> returns.\<close>

definition check_memory :: "nat \<Rightarrow> nat \<Rightarrow> nat \<Rightarrow> byte list \<Rightarrow> nat" where
  "check_memory R K C mem =
     (let m = memory_st R K C
      in check_output R K C (mem_i8 mem (off_k m) C) (mem_i8 mem (off_x m) R)
           (mem_i32 mem (off_a m) R) (mem_i32 mem (off_y m) R))"

definition store_at :: "nat \<Rightarrow> byte list \<Rightarrow> byte list \<Rightarrow> byte list" where
  "store_at off bs mem = take off mem @ bs @ drop (off + length bs) mem"

definition randomize_inputs :: "(nat \<Rightarrow> 32 word) \<Rightarrow> nat \<Rightarrow> nat \<Rightarrow> nat \<Rightarrow> byte list \<Rightarrow> byte list" where
  "randomize_inputs rand R K C mem =
     (let m = memory_st R K C;
          mem1 = store_at (off_k m) (row_major K C (\<lambda>k c. ucast (rand (k * C + c)))) mem;
          mem2 = store_at (off_x m) (row_major K R (\<lambda>k r. ucast (rand (K * C + (k * R + r))))) mem1
      in store_at (off_a m)
           (concat (map enc_i32 (row_major C R (\<lambda>c r. rand (K * C + K * R + (c * R + r)))))) mem2)"

section \<open>The contract of the DMA engines\<close>

definition mm2s_bytes :: "64 word \<Rightarrow> byte list \<Rightarrow> 32 word \<times> 32 word \<Rightarrow> byte list" where
  "mm2s_bytes p_mem mem desc =
     map (\<lambda>i. fb_c_read_ddr8_addr32 p_mem mem (snd desc + of_nat i)) [0..<unat (fst desc)]"

definition chunks :: "nat \<Rightarrow> 'a list \<Rightarrow> 'a list list" where
  "chunks n xs = map (\<lambda>i. take n (drop (i * n) xs)) [0..<length xs div n]"

definition s2mm_write :: "64 word \<Rightarrow> byte list \<Rightarrow> 32 word \<times> 32 word \<Rightarrow> byte list \<Rightarrow> byte list" where
  "s2mm_write p_mem mem desc bs =
     foldl (\<lambda>m (i, b). fb_c_write_ddr8_addr32 p_mem m (snd desc + of_nat i) b) mem
       (enumerate 0 (take (unat (fst desc)) bs))"

text \<open>The memory after \<open>u\<close> cycles of the hardware with the descriptors of \<open>cfg\<close>.\<close>

definition accelerator :: "64 word \<Rightarrow> dims \<Rightarrow> regs \<Rightarrow> (nat \<Rightarrow> offers) \<Rightarrow> nat \<Rightarrow> byte list \<Rightarrow> byte list" where
  "accelerator p_mem P cfg fs u mem =
     (let ks = chunks (dim_C P) (mm2s_bytes p_mem mem (mm2s_desc cfg 0));
          xs = chunks (dim_R P) (mm2s_bytes p_mem mem (mm2s_desc cfg 1));
          as = chunks (dim_R P) (map dec_i32 (chunks 4 (mm2s_bytes p_mem mem (mm2s_desc cfg 2))));
          l = (loop_init P ks xs as :: (8 word, 8 word, 16 word, 32 word) loop_state)
      in s2mm_write p_mem mem (s2mm_desc cfg)
           (concat (map enc_i32 (concat (map fst (y_snk (loop_at P l fs u)))))))"

section \<open>Address arithmetic\<close>

text \<open>The window of the device addresses.\<close>

definition window :: nat where
  "window = 2 ^ 32 - 0x20000000"

lemma unat_small: "n < 2 ^ LENGTH('w) \<Longrightarrow> unat (of_nat n :: 'w::len word) = n"
  by (simp add: unsigned_of_nat take_bit_nat_eq_self)

lemma ucast_of_nat_up: "n < 2 ^ 32 \<Longrightarrow> (ucast (of_nat n :: 32 word) :: 64 word) = of_nat n"
  by (simp add: unsigned_of_nat take_bit_nat_eq_self)

lemma widen_shorten:
  assumes "off + i < window"
  shows "unat (fb_widen_ptr (fb_shorten_ptr (p_mem + of_nat off) p_mem + of_nat i) p_mem - p_mem) = off + i"
proof -
  have small: "off + i + 0x20000000 < 2 ^ 32" "off < 2 ^ 64" using assms by (simp_all add: window_def)
  have "(ucast (of_nat off :: 64 word) :: 32 word) = of_nat off"
    using small(2) by (simp add: unsigned_of_nat take_bit_nat_eq_self)
  then have a: "fb_shorten_ptr (p_mem + of_nat off) p_mem + of_nat i = of_nat (off + i + 0x20000000)"
    by (simp add: fb_shorten_ptr_def FB_SIM_DDR_BASE_def)
  have "(ucast (of_nat (off + i + 0x20000000) :: 32 word) :: 64 word) = of_nat (off + i + 0x20000000)"
    by (rule ucast_of_nat_up [OF small(1)])
  then have "fb_widen_ptr (of_nat (off + i + 0x20000000)) p_mem - p_mem = of_nat (off + i)"
    by (simp add: fb_widen_ptr_def FB_SIM_DDR_BASE_def)
  moreover have "unat (of_nat (off + i) :: 64 word) = off + i"
    using small(1) by (intro unat_small) simp
  ultimately show ?thesis by (simp only: a)
qed

lemma mm2s_bytes_eq:
  assumes "off + n \<le> length mem" "length mem \<le> window"
  shows "mm2s_bytes p_mem mem (of_nat n, fb_shorten_ptr (p_mem + of_nat off) p_mem) = take n (drop off mem)"
proof -
  have n: "unat (of_nat n :: 32 word) = n" using assms by (intro unat_small) (simp add: window_def)
  have "fb_c_read_ddr8_addr32 p_mem mem (fb_shorten_ptr (p_mem + of_nat off) p_mem + of_nat i) = mem ! (off + i)"
    if "i < n" for i
    using that assms widen_shorten [of off i p_mem] by (simp add: fb_c_read_ddr8_addr32_def)
  then show ?thesis
    using assms by (intro nth_equalityI) (simp_all add: mm2s_bytes_def n)
qed

lemma store_updates:
  assumes "off + length bs \<le> length mem"
  shows "foldl (\<lambda>m (i, b). m[off + i := b]) mem (enumerate 0 bs) = store_at off bs mem"
  using assms
proof (induction bs rule: rev_induct)
  case (snoc b bs)
  have "foldl (\<lambda>m (i, b). m[off + i := b]) mem (enumerate 0 bs) = store_at off bs mem"
    using snoc by simp
  then show ?case
    using snoc.prems
    by (simp add: enumerate_append_eq store_at_def list_update_append Cons_nth_drop_Suc [symmetric])
qed (simp add: store_at_def)

lemma length_store_at: "off + length bs \<le> length mem \<Longrightarrow> length (store_at off bs mem) = length mem"
  by (simp add: store_at_def)

lemma s2mm_write_eq:
  assumes "off + n \<le> length mem" "length mem \<le> window" "length bs \<le> n"
  shows "s2mm_write p_mem mem (of_nat n, fb_shorten_ptr (p_mem + of_nat off) p_mem) bs = store_at off bs mem"
proof -
  have n: "unat (of_nat n :: 32 word) = n" using assms by (intro unat_small) (simp add: window_def)
  have "foldl (\<lambda>m (i, b). fb_c_write_ddr8_addr32 p_mem m (fb_shorten_ptr (p_mem + of_nat off) p_mem + of_nat i) b) mem
      (enumerate 0 bs) = foldl (\<lambda>m (i, b). m[off + i := b]) mem (enumerate 0 bs)"
  proof (rule foldl_cong [OF refl refl])
    fix x :: "nat \<times> byte" and m
    assume "x \<in> set (enumerate 0 bs)"
    then have "off + fst x < window" using assms by (auto simp: in_set_enumerate_eq)
    then show "(case x of (i, b) \<Rightarrow> fb_c_write_ddr8_addr32 p_mem m (fb_shorten_ptr (p_mem + of_nat off) p_mem + of_nat i) b)
        = (case x of (i, b) \<Rightarrow> m[off + i := b])"
      by (cases x) (simp add: fb_c_write_ddr8_addr32_def widen_shorten)
  qed
  then show ?thesis
    using assms by (simp add: s2mm_write_def n store_updates)
qed

section \<open>Rows from bytes\<close>

lemma length_chunks [simp]: "length (chunks n xs) = length xs div n"
  by (simp add: chunks_def)

lemma chunks_nth:
  assumes "i < length xs div n" "j < n"
  shows "chunks n xs ! i ! j = xs ! (i * n + j)"
proof -
  have "Suc i * n \<le> length xs div n * n" using assms(1) by (intro mult_le_mono1) simp
  then have "i * n + n \<le> length xs div n * n" by simp
  also have "\<dots> \<le> length xs" by (rule div_times_less_eq_dividend)
  finally have "i * n + n \<le> length xs" .
  then show ?thesis using assms by (simp add: chunks_def)
qed

lemma chunks_rows: "0 < n \<Longrightarrow> length xs = k * n \<Longrightarrow> x \<in> set (chunks n xs) \<Longrightarrow> length x = n"
proof -
  assume a: "0 < n" "length xs = k * n" "x \<in> set (chunks n xs)"
  then obtain i where i: "i < k" "x = take n (drop (i * n) xs)" by (auto simp: chunks_def)
  have "Suc i * n \<le> k * n" using i(1) by (intro mult_le_mono1) simp
  then show "length x = n" using i(2) a(2) by simp
qed

section \<open>The matrices in memory\<close>

lemma align_up_ge: "0 < a \<Longrightarrow> n \<le> align_up n a"
proof -
  assume a: "0 < a"
  have "n + (a - 1) = (n + (a - 1)) div a * a + (n + (a - 1)) mod a" by simp
  moreover have "(n + (a - 1)) mod a < a" using a by simp
  ultimately show ?thesis unfolding align_up_def by linarith
qed

lemma layout:
  "off_k (memory_st R K C) = 0" "off_x (memory_st R K C) = K * C"
  "K * C + K * R \<le> off_a (memory_st R K C)"
  "off_y (memory_st R K C) = off_a (memory_st R K C) + C * R * 4"
  "off_y (memory_st R K C) + C * R * 4 \<le> size_of (memory_st R K C)"
  using align_up_ge [of 4 "K * C + K * R"] align_up_ge [of 4]
  by (simp_all add: memory_st_def Let_def)

lemma i8_rows:
  assumes "off + n * m \<le> length mem" "0 < m"
  defines "rows \<equiv> chunks m (take (n * m) (drop off mem))"
  shows "length rows = n" and "i < n \<Longrightarrow> j < m \<Longrightarrow> sint (rows ! i ! j) = mem_i8 mem off m i j"
    and "\<forall>x\<in>set rows. length x = m"
proof -
  have len: "length (take (n * m) (drop off mem)) = n * m" using assms(1) by simp
  show "length rows = n" using len assms(2) by (simp add: rows_def)
  show "sint (rows ! i ! j) = mem_i8 mem off m i j" if "i < n" "j < m"
    using that len assms(1,2) index_bound [OF that] by (simp add: rows_def chunks_nth mem_i8_def)
  show "\<forall>x\<in>set rows. length x = m"
    unfolding rows_def using chunks_rows [OF assms(2) len] by blast
qed

lemma i32_rows:
  assumes "off + n * m * 4 \<le> length mem" "0 < m"
  defines "rows \<equiv> chunks m (map dec_i32 (chunks 4 (take (n * m * 4) (drop off mem))))"
  shows "length rows = n" and "i < n \<Longrightarrow> j < m \<Longrightarrow> rows ! i ! j = word_of_int (mem_i32 mem off m i j)"
proof -
  let ?bs = "take (n * m * 4) (drop off mem)"
  have len: "length ?bs = n * m * 4" using assms(1) by simp
  have lw: "length (map dec_i32 (chunks 4 ?bs)) = n * m" using len by simp
  show "length rows = n" using lw assms(2) by (simp add: rows_def del: length_map)
  show "rows ! i ! j = word_of_int (mem_i32 mem off m i j)" if "i < n" "j < m"
  proof -
    have ij: "i * m + j < n * m" by (rule index_bound [OF that])
    have "rows ! i ! j = map dec_i32 (chunks 4 ?bs) ! (i * m + j)"
      unfolding rows_def by (rule chunks_nth) (use that lw assms(2) in simp_all)
    also have "\<dots> = dec_i32 (chunks 4 ?bs ! (i * m + j))" using ij len by (intro nth_map) simp
    also have "chunks 4 ?bs ! (i * m + j) = take 4 (drop ((i * m + j) * 4) ?bs)"
      using ij len by (simp add: chunks_def)
    also have "\<dots> = take 4 (drop (off + (i * m + j) * 4) mem)"
    proof -
      have "Suc (i * m + j) * 4 \<le> n * m * 4" using ij by (intro mult_le_mono1) simp
      then have "min 4 (n * m * 4 - (i * m + j) * 4) = 4" by simp
      then show ?thesis by (simp add: drop_take take_take add.commute)
    qed
    finally show ?thesis by (simp add: mem_i32_def)
  qed
qed

lemma expected_c_sum:
  assumes "length ks = K" "dim_R P = R" "dim_C P = C"
    and "\<And>i c. i < K \<Longrightarrow> c < C \<Longrightarrow> sint (ks ! i ! c) = k i c"
    and "\<And>i r. i < K \<Longrightarrow> r < R \<Longrightarrow> sint (xs ! i ! r) = x i r"
    and "\<And>c r. c < C \<Longrightarrow> r < R \<Longrightarrow> as ! c ! r = word_of_int (a c r)"
  shows "concat (expected P ks xs as) = row_major C R (c_sum K k x a)"
proof -
  have "expected P ks xs as = map (\<lambda>c. map (c_sum K k x a c) [0..<R]) [0..<C]"
    unfolding expected_def assms(1-3) tab_def
  proof (intro map_cong refl)
    fix c r assume "c \<in> set [0..<C]" "r \<in> set [0..<R]"
    then have cr: "c < C" "r < R" by simp_all
    have "(\<Sum>i\<leftarrow>[0..<K]. word_of_int (sint (xs ! i ! r) * sint (ks ! i ! c)))
        = (\<Sum>i\<leftarrow>[0..<K]. word_of_int (k i c) * word_of_int (x i r) :: 32 word)"
      using cr assms(4,5) by (intro arg_cong [where f = sum_list] map_cong refl) (simp add: mult.commute)
    then show "(\<Sum>i\<leftarrow>[0..<K]. word_of_int (sint (xs ! i ! r) * sint (ks ! i ! c))) + as ! c ! r = c_sum K k x a c r"
      using assms(6) [OF cr] by (simp add: c_sum_def foldl_plus_sum_list)
  qed
  then show ?thesis by (simp add: row_major_def)
qed

section \<open>The registers on the bus\<close>

text \<open>What the controller is given for the writes that the firmware puts on the bus.\<close>

definition decode_writes :: "32 word \<Rightarrow> (32 word \<times> 32 word) list \<Rightarrow> (nat \<times> 32 word) list" where
  "decode_writes base ws = map (\<lambda>(a, v). (unat (reg_wr_addr_ctrl base a), v)) ws"

lemma reg_decode:
  assumes "n < 2 ^ 30"
  shows "unat (reg_wr_addr_ctrl base (fb_reg_addr 32 base n)) = n"
proof -
  have u: "unat (of_nat (n * 4) :: 32 word) = n * 4" using assms by (intro unat_small) simp
  have "unat (drop_bit 2 (of_nat (n * 4) :: 32 word)) = drop_bit 2 (unat (of_nat (n * 4) :: 32 word))"
    by (rule unat_drop_bit_eq)
  also have "\<dots> = n" unfolding u by (simp add: drop_bit_eq_div)
  finally show ?thesis by (simp add: reg_wr_addr_ctrl_def fb_reg_addr_def)
qed

lemma decode_firmware: "decode_writes base (bus_writes 32 base t) = firmware_writes t"
proof -
  have "\<forall>w\<in>set (firmware_writes t). fst w < 2 ^ 30"
    by (simp add: firmware_writes_def reg_no_eq reg_defs)
  then show ?thesis
    by (auto simp: decode_writes_def bus_writes_def reg_decode intro!: map_idI)
qed

section \<open>The whole transfer\<close>

definition system_dims :: "nat \<Rightarrow> nat \<Rightarrow> nat \<Rightarrow> nat \<Rightarrow> dims" where
  "system_dims R C LM LA = \<lparr>dim_R = R, dim_C = C, dim_LM = LM, dim_LA = LA\<rparr>"

definition result_bytes :: "nat \<Rightarrow> nat \<Rightarrow> nat \<Rightarrow> byte list \<Rightarrow> byte list" where
  "result_bytes R K C mem =
     (let m = memory_st R K C
      in concat (map enc_i32 (row_major C R
           (c_sum K (mem_i8 mem (off_k m) C) (mem_i8 mem (off_x m) R) (mem_i32 mem (off_a m) R)))))"

lemma length_result_bytes [simp]: "length (result_bytes R K C mem) = C * R * 4"
  by (simp add: result_bytes_def Let_def i32.length_enc_seq)

text \<open>
  The cycles of the bus in which the firmware programs the controller: out of reset, with any
  cycles between its nine writes, the last of which starts the transfer.
\<close>

definition firmware_drives :: "32 word \<Rightarrow> 64 word \<Rightarrow> nat \<Rightarrow> nat \<Rightarrow> nat \<Rightarrow> dma_in list \<Rightarrow> dma_in \<Rightarrow> bool" where
  "firmware_drives base p_mem R K C is go \<longleftrightarrow>
     (\<forall>i\<in>set is. dma_in.rstn i) \<and> dma_in.rstn go \<and> wr_en go \<and>
     map (\<lambda>i. (wr_addr i, wr_data i)) (filter wr_en (is @ [go]))
       = decode_writes base (bus_writes 32 base (firmware_transfer p_mem R K C))"

definition fair_offers :: "(nat \<Rightarrow> offers) \<Rightarrow> bool" where
  "fair_offers fs \<longleftrightarrow> again (\<lambda>t. k_offer (fs t)) \<and> again (\<lambda>t. x_offer (fs t)) \<and>
     again (\<lambda>t. a_offer (fs t)) \<and> again (\<lambda>t. y_take (fs t))"

text \<open>
  With the descriptors of the firmware the accelerator is the closed loop on the rows in memory,
  and the write channel stores what has reached the sink at the place of \<open>y\<close>.
\<close>

lemma accelerator_loop:
  assumes dims: "0 < R" "0 < C" "0 < K" "0 < LM" "0 < LA"
    and mem: "length mem = size_of (memory_st R K C)" "size_of (memory_st R K C) \<le> window"
    and drv: "firmware_drives base p_mem R K C is go"
    and start: "quiet_start (fs 0)"
  shows "\<exists>ks xs as (l :: (8 word, 8 word, 16 word, 32 word) loop_state).
    closed_run (system_dims R C LM LA) ks xs as fs l \<and> ks \<noteq> [] \<and>
    concat (map enc_i32 (concat (expected (system_dims R C LM LA) ks xs as))) = result_bytes R K C mem \<and>
    (\<forall>u. accelerator p_mem (system_dims R C LM LA) (dma_run cfg (is @ [go])) fs u mem
      = s2mm_write p_mem mem (of_nat (C * R * 4), fb_shorten_ptr (p_mem + of_nat (off_y (memory_st R K C))) p_mem)
          (concat (map enc_i32 (concat (map fst (y_snk (loop_at (system_dims R C LM LA) l fs u)))))))"
proof -
  let ?m = "memory_st R K C" and ?P = "system_dims R C LM LA" and ?cfg = "dma_run cfg (is @ [go])"
  let ?t = "firmware_transfer p_mem R K C"
  note lay = layout [where R = R and K = K and C = C]
  have fit: "off_k ?m + K * C \<le> length mem" "off_x ?m + K * R \<le> length mem"
    "off_a ?m + C * R * 4 \<le> length mem"
    using lay mem(1) by simp_all
  have w: "length mem \<le> window" using mem by simp
  have rst: "\<forall>i\<in>set is. dma_in.rstn i" "dma_in.rstn go" and go: "wr_en go"
    and ws: "map (\<lambda>i. (wr_addr i, wr_data i)) (filter wr_en (is @ [go])) = firmware_writes ?t"
    using drv unfolding firmware_drives_def decode_firmware by blast+
  from firmware_programs_dma [OF rst go ws, of cfg]
  have "mm2s_desc ?cfg 0 = (k_bytes ?t, k_ptr ?t)" "mm2s_desc ?cfg 1 = (x_bytes ?t, x_ptr ?t)"
    "mm2s_desc ?cfg 2 = (a_bytes ?t, a_ptr ?t)" "s2mm_desc ?cfg = (y_bytes ?t, y_ptr ?t)"
    by (simp_all only: Let_def)
  then have desc: "mm2s_desc ?cfg 0 = (of_nat (K * C), fb_shorten_ptr (p_mem + of_nat (off_k ?m)) p_mem)"
    "mm2s_desc ?cfg 1 = (of_nat (K * R), fb_shorten_ptr (p_mem + of_nat (off_x ?m)) p_mem)"
    "mm2s_desc ?cfg 2 = (of_nat (C * R * 4), fb_shorten_ptr (p_mem + of_nat (off_a ?m)) p_mem)"
    "s2mm_desc ?cfg = (of_nat (C * R * 4), fb_shorten_ptr (p_mem + of_nat (off_y ?m)) p_mem)"
    unfolding firmware_transfer_def Let_def by (simp_all only: transfer.select_convs)
  define ks where "ks = chunks C (take (K * C) (drop (off_k ?m) mem))"
  define xs where "xs = chunks R (take (K * R) (drop (off_x ?m) mem))"
  define as where "as = chunks R (map dec_i32 (chunks 4 (take (C * R * 4) (drop (off_a ?m) mem))))"
  note k = i8_rows [OF fit(1) dims(2), folded ks_def]
  note x = i8_rows [OF fit(2) dims(1), folded xs_def]
  note a = i32_rows [OF fit(3) dims(1), folded as_def]
  have P: "dim_R ?P = R" "dim_C ?P = C" "dims_ok ?P" using dims by (simp_all add: system_dims_def dims_ok_def)
  let ?l = "loop_init ?P ks xs as :: (8 word, 8 word, 16 word, 32 word) loop_state"
  have "concat (expected ?P ks xs as) = row_major C R
      (c_sum K (mem_i8 mem (off_k ?m) C) (mem_i8 mem (off_x ?m) R) (mem_i32 mem (off_a ?m) R))"
    by (rule expected_c_sum [OF k(1) P(1,2) k(2) x(2) a(2)])
  then have "concat (map enc_i32 (concat (expected ?P ks xs as))) = result_bytes R K C mem"
    by (simp only: result_bytes_def Let_def)
  moreover have "accelerator p_mem ?P ?cfg fs u mem = s2mm_write p_mem mem (s2mm_desc ?cfg)
      (concat (map enc_i32 (concat (map fst (y_snk (loop_at ?P ?l fs u))))))" for u
    unfolding accelerator_def Let_def desc P(1,2) mm2s_bytes_eq [OF fit(1) w] mm2s_bytes_eq [OF fit(2) w]
      mm2s_bytes_eq [OF fit(3) w] ks_def xs_def as_def ..
  moreover have "closed_run ?P ks xs as fs ?l"
    using k(1) x(1,3) a(1) P start by (simp add: closed_run_def)
  moreover have "ks \<noteq> []" using k(1) dims(3) by auto
  ultimately show ?thesis unfolding desc(4) by blast
qed

lemma take_packet: "ys = take n (packet rows) \<Longrightarrow> map fst ys = take n rows"
  by (simp add: packet_rows flip: take_map)

lemma concat_take_uniform: "\<forall>x\<in>set xs. length x = n \<Longrightarrow> concat (take k xs) = take (k * n) (concat xs)"
  by (induction xs arbitrary: k) (auto simp: take_Cons split: nat.splits)

lemma take_enc_seq: "concat (map enc_i32 (take k ws)) = take (k * 4) (concat (map enc_i32 ws))"
  using concat_take_uniform [of "map enc_i32 ws" 4 k] by (simp add: i32.enc_width take_map)

lemma accelerator_partial:
  assumes dims: "0 < R" "0 < C" "0 < K" "0 < LM" "0 < LA"
    and mem: "length mem = size_of (memory_st R K C)" "size_of (memory_st R K C) \<le> window"
    and drv: "firmware_drives base p_mem R K C is go"
    and start: "quiet_start (fs 0)"
  shows "\<exists>n. accelerator p_mem (system_dims R C LM LA) (dma_run cfg (is @ [go])) fs u mem
    = store_at (off_y (memory_st R K C)) (take (n * R * 4) (result_bytes R K C mem)) mem"
proof -
  let ?P = "system_dims R C LM LA" and ?off = "off_y (memory_st R K C)"
  obtain ks xs as and l :: "(8 word, 8 word, 16 word, 32 word) loop_state"
    where run: "closed_run ?P ks xs as fs l"
      and out: "concat (map enc_i32 (concat (expected ?P ks xs as))) = result_bytes R K C mem"
      and acc: "\<forall>u. accelerator p_mem ?P (dma_run cfg (is @ [go])) fs u mem
        = s2mm_write p_mem mem (of_nat (C * R * 4), fb_shorten_ptr (p_mem + of_nat ?off) p_mem)
            (concat (map enc_i32 (concat (map fst (y_snk (loop_at ?P l fs u))))))"
    using accelerator_loop [where fs = fs, OF dims mem drv start] by blast
  have fit: "?off + C * R * 4 \<le> length mem" "length mem \<le> window"
    using layout(5) [of R K C] mem by simp_all
  let ?n = "length (y_snk (loop_at ?P l fs u))"
  have "y_snk (loop_at ?P l fs u) = take ?n (packet (expected ?P ks xs as))"
    using run by (intro sink_produced [where fs = fs]) (simp_all add: closed_run_def)
  then have rows: "map fst (y_snk (loop_at ?P l fs u)) = take ?n (expected ?P ks xs as)"
    by (rule take_packet)
  have wide: "\<forall>row\<in>set (expected ?P ks xs as). length row = R"
    by (auto simp: expected_def tab_def system_dims_def)
  have "concat (map enc_i32 (concat (map fst (y_snk (loop_at ?P l fs u))))) = take (?n * R * 4) (result_bytes R K C mem)"
    unfolding rows concat_take_uniform [OF wide] take_enc_seq out ..
  then have "accelerator p_mem ?P (dma_run cfg (is @ [go])) fs u mem = store_at ?off (take (?n * R * 4) (result_bytes R K C mem)) mem"
    using acc [THEN spec, of u] s2mm_write_eq [OF fit, of "take (?n * R * 4) (result_bytes R K C mem)" p_mem] by simp
  then show ?thesis by blast
qed

lemma accelerator_result:
  assumes dims: "0 < R" "0 < C" "0 < K" "0 < LM" "0 < LA"
    and mem: "length mem = size_of (memory_st R K C)" "size_of (memory_st R K C) \<le> window"
    and drv: "firmware_drives base p_mem R K C is go"
    and start: "quiet_start (fs 0)"
    and fair: "fair_offers fs"
  shows "\<exists>t. \<forall>u\<ge>t. accelerator p_mem (system_dims R C LM LA) (dma_run cfg (is @ [go])) fs u mem
    = store_at (off_y (memory_st R K C)) (result_bytes R K C mem) mem"
proof -
  let ?P = "system_dims R C LM LA" and ?off = "off_y (memory_st R K C)"
  obtain ks xs as and l :: "(8 word, 8 word, 16 word, 32 word) loop_state"
    where run: "closed_run ?P ks xs as fs l" "ks \<noteq> []"
      and out: "concat (map enc_i32 (concat (expected ?P ks xs as))) = result_bytes R K C mem"
      and acc: "\<forall>u. accelerator p_mem ?P (dma_run cfg (is @ [go])) fs u mem
        = s2mm_write p_mem mem (of_nat (C * R * 4), fb_shorten_ptr (p_mem + of_nat ?off) p_mem)
            (concat (map enc_i32 (concat (map fst (y_snk (loop_at ?P l fs u))))))"
    using accelerator_loop [where fs = fs, OF dims mem drv start] by blast
  have fit: "?off + C * R * 4 \<le> length mem" "length mem \<le> window"
    using layout(5) [of R K C] mem by simp_all
  obtain t where t: "\<forall>u\<ge>t. y_snk (loop_at ?P l fs u) = packet (expected ?P ks xs as)"
    using sink_completes [OF run] fair unfolding fair_offers_def by blast
  have "accelerator p_mem ?P (dma_run cfg (is @ [go])) fs u mem = store_at ?off (result_bytes R K C mem) mem" if "t \<le> u" for u
    using acc [THEN spec, of u] t [THEN spec, of u] that s2mm_write_eq [OF fit, of "result_bytes R K C mem" p_mem]
    by (simp add: packet_rows out)
  then show ?thesis by blast
qed

section \<open>What the firmware sees\<close>

lemma mem_i8_store:
  "off' + n * m \<le> off \<Longrightarrow> off \<le> length mem \<Longrightarrow> i < n \<Longrightarrow> j < m \<Longrightarrow>
    mem_i8 (store_at off bs mem) off' m i j = mem_i8 mem off' m i j"
  using index_bound [of i n j m] by (simp add: mem_i8_def store_at_def nth_append)

lemma mem_i32_store:
  assumes "off' + n * m * 4 \<le> off" "off \<le> length mem" "i < n" "j < m"
  shows "mem_i32 (store_at off bs mem) off' m i j = mem_i32 mem off' m i j"
proof -
  have "Suc (i * m + j) * 4 \<le> n * m * 4"
    using index_bound [OF assms(3,4)] by (intro mult_le_mono1) simp
  then have fit: "off' + (i * m + j) * 4 + 4 \<le> off" using assms(1) by simp
  have "take 4 (drop n (take off mem @ ys)) = take 4 (drop n mem)" if "n + 4 \<le> off" for n and ys :: "byte list"
    using that assms(2) by (simp add: drop_take)
  from this [OF fit] show ?thesis by (simp only: mem_i32_def store_at_def)
qed

lemma c_sum_cong:
  assumes "\<And>l. l < K \<Longrightarrow> k l c = k' l c" "\<And>l. l < K \<Longrightarrow> x l r = x' l r" "a c r = a' c r"
  shows "c_sum K k x a c r = c_sum K k' x' a' c r"
proof -
  have "map (\<lambda>l. k l c * x l r) [0..<K] = map (\<lambda>l. k' l c * x' l r) [0..<K]"
    using assms(1,2) by (intro map_cong refl) simp
  then show ?thesis unfolding c_sum_dot dot_def using assms(3) by (simp only:)
qed

lemma stored_result_checks:
  assumes mem: "length mem = size_of (memory_st R K C)"
  shows "check_memory R K C (store_at (off_y (memory_st R K C)) (result_bytes R K C mem) mem) = 0"
proof -
  let ?m = "memory_st R K C"
  let ?k = "mem_i8 mem (off_k ?m) C" and ?x = "mem_i8 mem (off_x ?m) R" and ?a = "mem_i32 mem (off_a ?m) R"
  let ?mem' = "store_at (off_y ?m) (result_bytes R K C mem) mem"
  note lay = layout [where R = R and K = K and C = C]
  have le: "off_y ?m \<le> length mem" using lay mem by simp
  have "mem_i32 ?mem' (off_y ?m) R c r = sint (c_sum K (mem_i8 ?mem' (off_k ?m) C) (mem_i8 ?mem' (off_x ?m) R)
      (mem_i32 ?mem' (off_a ?m) R) c r)" if cr: "c < C" "r < R" for c r
  proof -
    have "mem_i32 ?mem' (off_y ?m) R c r = sint (c_sum K ?k ?x ?a c r)"
      using mem_i32_row_major_at [OF cr, of "take (off_y ?m) mem"] le
      by (simp add: store_at_def result_bytes_def Let_def)
    moreover have "c_sum K (mem_i8 ?mem' (off_k ?m) C) (mem_i8 ?mem' (off_x ?m) R) (mem_i32 ?mem' (off_a ?m) R) c r
        = c_sum K ?k ?x ?a c r"
    proof (rule c_sum_cong)
      show "mem_i8 ?mem' (off_k ?m) C l c = ?k l c" if "l < K" for l
        by (rule mem_i8_store [OF _ le that cr(1)]) (use lay in simp)
      show "mem_i8 ?mem' (off_x ?m) R l r = ?x l r" if "l < K" for l
        by (rule mem_i8_store [OF _ le that cr(2)]) (use lay in simp)
      show "mem_i32 ?mem' (off_a ?m) R c r = ?a c r"
        by (rule mem_i32_store [OF _ le cr]) (use lay in simp)
    qed
    ultimately show ?thesis by simp
  qed
  then have "row_major C R (\<lambda>c r. mem_i32 ?mem' (off_y ?m) R c r \<noteq> sint (c_sum K (mem_i8 ?mem' (off_k ?m) C)
      (mem_i8 ?mem' (off_x ?m) R) (mem_i32 ?mem' (off_a ?m) R) c r)) = row_major C R (\<lambda>c r. False)"
    by (intro row_major_cong) simp
  then show ?thesis
    by (simp add: check_memory_def check_output_def Let_def) (simp add: row_major_def filter_concat)
qed

lemma length_load_kxa:
  assumes "golden_main rnd R K C = Inr f" "length mem = size_of (memory_st R K C)"
  shows "length (load_kxa R K C (kxa_bin f) mem) = length mem"
  unfolding load_kxa_eq [OF assms(1)] using layout [where R = R and K = K and C = C] assms(2)
  by (simp add: i32.length_enc_seq)

lemma golden_result:
  assumes gold: "golden_main rnd R K C = Inr f" "randint_ok rnd" "4 dvd K * C + K * R"
    and mem: "length mem = size_of (memory_st R K C)"
  shows "result_bytes R K C (load_kxa R K C (kxa_bin f) mem) = y_exp_bin f"
proof -
  let ?m = "memory_st R K C" and ?mem = "load_kxa R K C (kxa_bin f) mem"
  note in_memory = firmware_reads_kxa [OF gold(2,3,1) mem]
  have "c_sum K (mem_i8 ?mem (off_k ?m) C) (mem_i8 ?mem (off_x ?m) R) (mem_i32 ?mem (off_a ?m) R) c r
      = word_of_int (y_spec rnd K c r)" if "c < C" "r < R" for c r
  proof -
    have "c_sum K (mem_i8 ?mem (off_k ?m) C) (mem_i8 ?mem (off_x ?m) R) (mem_i32 ?mem (off_a ?m) R) c r
        = c_sum K (k_of rnd) (x_of rnd) (a_of rnd) c r"
      using in_memory that by (intro c_sum_cong) simp_all
    then show ?thesis by (simp add: c_sum_dot y_spec_def)
  qed
  then have "row_major C R (c_sum K (mem_i8 ?mem (off_k ?m) C) (mem_i8 ?mem (off_x ?m) R) (mem_i32 ?mem (off_a ?m) R))
      = row_major C R (\<lambda>c r. word_of_int (y_spec rnd K c r))"
    by (intro row_major_cong) simp
  then show ?thesis
    using gold(1) by (auto simp: result_bytes_def Let_def golden_main_eq)
qed

section \<open>Properties\<close>




text \<open>A transfer of two by two matrices.\<close>

definition demo_base :: "32 word" where
  "demo_base = 0xB0000000"

definition demo_ptr :: "64 word" where
  "demo_ptr = 0x7FFF12345678"

definition demo_bus :: "(nat \<times> 32 word) list" where
  "demo_bus = decode_writes demo_base (bus_writes 32 demo_base (firmware_transfer demo_ptr 2 2 2))"

lemma demo_drives: "firmware_drives demo_base demo_ptr 2 2 2 (map bus_write (butlast demo_bus)) (bus_write (last demo_bus))"
proof -
  have f: "filter wr_en (map bus_write ws) = map bus_write ws" for ws by (induction ws) (simp_all add: bus_write_def)
  have w: "map (\<lambda>i. (wr_addr i, wr_data i)) (map bus_write ws) = ws" for ws by (simp add: bus_write_def o_def)
  have "demo_bus \<noteq> []" by (simp add: demo_bus_def decode_firmware firmware_writes_def)
  then have "butlast demo_bus @ [last demo_bus] = demo_bus" by simp
  from arg_cong [OF this, of "map bus_write"]
  have "map bus_write (butlast demo_bus) @ [bus_write (last demo_bus)] = map bus_write demo_bus"
    by (simp only: map_append list.map)
  then have "map (\<lambda>i. (wr_addr i, wr_data i)) (filter wr_en (map bus_write (butlast demo_bus) @ [bus_write (last demo_bus)])) = demo_bus"
    by (simp only: f w)
  then show ?thesis by (simp only: firmware_drives_def demo_bus_def) (auto simp: bus_write_def)
qed

definition demo_mem :: "byte list" where
  "demo_mem = map of_nat [0..<40]"

abbreviation demo_accelerator :: "nat \<Rightarrow> byte list \<Rightarrow> byte list" where
  "demo_accelerator \<equiv> accelerator demo_ptr (system_dims 2 2 1 1)
     (dma_run (\<lambda>_. 0) (map bus_write (butlast demo_bus) @ [bus_write (last demo_bus)])) demo_offers"

lemma demo_fits: "length demo_mem = size_of (memory_st 2 2 2)" "size_of (memory_st 2 2 2) \<le> window"
  by (simp_all add: demo_mem_def memory_st_def Let_def align_up_def window_def)

lemma demo_fair: "quiet_start (demo_offers 0)" "fair_offers demo_offers"
  by (simp_all add: fair_offers_def demo_again demo_ok(1))

lemma demo_sizes: "0 < (2 :: nat)" "0 < (1 :: nat)" "4 dvd 2 * 2 + 2 * (2 :: nat)" by simp_all




section \<open>Random inputs, wide registers\<close>

lemma mem_i8_stored:
  "i < n \<Longrightarrow> j < m \<Longrightarrow> off \<le> length mem \<Longrightarrow> mem_i8 (store_at off (row_major n m f) mem) off m i j = sint (f i j)"
  using index_bound [of i n j m] by (simp add: mem_i8_def store_at_def nth_append row_major_nth)

text \<open>
  \<open>randomize_inputs\<close> fills the three matrices row by row with the numbers in the order in which
  they are drawn, the int8 ones cut to their low byte, and leaves \<open>y\<close> as it was.
\<close>
theorem random_inputs:
  assumes "length mem = size_of (memory_st R K C)" and "mem' = randomize_inputs rand R K C mem"
  shows "k < K \<Longrightarrow> c < C \<Longrightarrow> mem_i8 mem' (off_k (memory_st R K C)) C k c = sint (ucast (rand (k * C + c)) :: 8 word)"
    and "k < K \<Longrightarrow> r < R \<Longrightarrow> mem_i8 mem' (off_x (memory_st R K C)) R k r = sint (ucast (rand (K * C + (k * R + r))) :: 8 word)"
    and "c < C \<Longrightarrow> r < R \<Longrightarrow> mem_i32 mem' (off_a (memory_st R K C)) R c r = sint (rand (K * C + K * R + (c * R + r)))"
    and "drop (off_y (memory_st R K C)) mem' = drop (off_y (memory_st R K C)) mem" and "length mem' = length mem"
proof -
  let ?m = "memory_st R K C"
  note lay = layout [where R = R and K = K and C = C]
  define ks :: "byte list" where "ks = row_major K C (\<lambda>k c. ucast (rand (k * C + c)))"
  define xs :: "byte list" where "xs = row_major K R (\<lambda>k r. ucast (rand (K * C + (k * R + r))))"
  define as where "as = concat (map enc_i32 (row_major C R (\<lambda>c r. rand (K * C + K * R + (c * R + r)))))"
  have len: "length ks = K * C" "length xs = K * R" "length as = C * R * 4"
    by (simp_all add: ks_def xs_def as_def i32.length_enc_seq)
  define m1 where "m1 = store_at (off_k ?m) ks mem"
  define m2 where "m2 = store_at (off_x ?m) xs m1"
  have l1: "length m1 = length mem" using lay assms(1) len by (simp add: m1_def length_store_at)
  have l2: "length m2 = length mem" using lay assms(1) len l1 by (simp add: m2_def length_store_at)
  have mem': "mem' = store_at (off_a ?m) as m2"
    by (simp add: assms(2) randomize_inputs_def Let_def m1_def m2_def ks_def xs_def as_def)
  show "length mem' = length mem" using lay assms(1) len l2 by (simp add: mem' length_store_at)
  show "drop (off_y ?m) mem' = drop (off_y ?m) mem"
    using lay assms(1) len by (simp add: mem' m2_def m1_def store_at_def)
  show "mem_i8 mem' (off_k ?m) C k c = sint (ucast (rand (k * C + c)) :: 8 word)" if "k < K" "c < C"
  proof -
    have "mem_i8 mem' (off_k ?m) C k c = mem_i8 m2 (off_k ?m) C k c"
      unfolding mem' by (rule mem_i8_store [OF _ _ that]) (use lay l2 assms(1) in simp_all)
    also have "\<dots> = mem_i8 m1 (off_k ?m) C k c"
      unfolding m2_def by (rule mem_i8_store [OF _ _ that]) (use lay l1 assms(1) in simp_all)
    also have "\<dots> = sint (ucast (rand (k * C + c)) :: 8 word)"
      unfolding m1_def ks_def by (rule mem_i8_stored [OF that]) (use lay in simp)
    finally show ?thesis .
  qed
  show "mem_i8 mem' (off_x ?m) R k r = sint (ucast (rand (K * C + (k * R + r))) :: 8 word)" if "k < K" "r < R"
  proof -
    have "mem_i8 mem' (off_x ?m) R k r = mem_i8 m2 (off_x ?m) R k r"
      unfolding mem' by (rule mem_i8_store [OF _ _ that]) (use lay l2 assms(1) in simp_all)
    also have "\<dots> = sint (ucast (rand (K * C + (k * R + r))) :: 8 word)"
      unfolding m2_def xs_def by (rule mem_i8_stored [OF that]) (use lay l1 assms(1) in simp)
    finally show ?thesis .
  qed
  show "mem_i32 mem' (off_a ?m) R c r = sint (rand (K * C + K * R + (c * R + r)))" if "c < C" "r < R"
    using mem_i32_row_major_at [OF that, of "take (off_a ?m) m2"] lay l2 assms(1)
    by (simp add: mem' store_at_def as_def)
qed

text \<open>
  With 64-bit registers (\<open>--AXIL_WIDTH 64\<close>) the firmware's array of registers has elements of eight
  bytes, but the hardware still counts in words of four: every write but that of the start bit
  arrives at a register with twice its number.
\<close>
theorem wide_registers_missed:
  "decode_writes base (bus_writes 64 base t) = map (\<lambda>(n, v). (2 * n, v)) (firmware_writes t)"
proof -
  have "unat (reg_wr_addr_ctrl base (fb_reg_addr 64 base n)) = 2 * n" if "n < 16" for n
  proof -
    have "fb_reg_addr 64 base n = fb_reg_addr 32 base (2 * n)" by (simp add: fb_reg_addr_def)
    then show ?thesis using reg_decode [of "2 * n" base] that by simp
  qed
  moreover have "\<forall>w\<in>set (firmware_writes t). fst w < 16"
    by (simp add: firmware_writes_def reg_no_eq reg_defs)
  ultimately show ?thesis by (auto simp: decode_writes_def bus_writes_def)
qed

end
