(* ===== verification/Regression_Flow.thy ===== *)
theory Regression_Flow
  imports Run_Test Reports
begin

text \<open>
  The last three stages of a regression in a row: \<^verbatim>\<open>run_rtl.py\<close> simulates a test and exports its
  record, \<^verbatim>\<open>check_logs.py\<close> reads the record, judges the trace and the log and exports it again,
  and \<^verbatim>\<open>collect_results.py\<close> reads the records of all tests and returns the exit status of the
  regression.  The stages communicate through the record only, so their composition is the
  composition of the functions of the theories Run_Test, Check_Logs and Reports.
\<close>

section \<open>A test through two stages\<close>

text \<open>What a job finds outside: the simulator, and the files that it leaves.\<close>

record job =
  j_out :: outside
  j_trr :: trr
  j_trace :: "string list option res"
  j_log :: "string list res"

text \<open>
  A stage leaves the record that it exports last, or the one that it found.  The check of the
  logs is made when the simulation script returns; a check that raises exports nothing.
\<close>

definition exported :: "trr \<Rightarrow> effect list \<Rightarrow> trr" where
  "exported t es = foldl (\<lambda>t e. case e of ExportTrr t' \<Rightarrow> t' | _ \<Rightarrow> t) t es"

definition final_record :: "regression_metadata \<Rightarrow> job \<Rightarrow> trr" where
  "final_record m j =
     (case run_rtl (j_out j) m (j_trr j) of
        (es, Inl e) \<Rightarrow> exported (j_trr j) es
      | (es, Inr _) \<Rightarrow>
          let s = exported (j_trr j) es
          in (case compare_test_run (j_trace j) (j_log j) s of Inr t \<Rightarrow> t | Inl e \<Rightarrow> s))"

definition regression :: "report_env \<Rightarrow> regression_metadata \<Rightarrow> job list
    \<Rightarrow> regression_metadata \<times> int reporting" where
  "regression env m js = collect_main env m (map (\<lambda>j. Inr (final_record m j)) js)"

text \<open>A run that nobody has judged yet, and what it has to show to pass.\<close>

definition fresh :: "job \<Rightarrow> bool" where
  "fresh j \<longleftrightarrow> trr_passed (j_trr j) \<noteq> Some True \<and> trr_failure_mode (j_trr j) \<noteq> Some TIMEOUT"

definition good_run :: "regression_metadata \<Rightarrow> job \<Rightarrow> bool" where
  "good_run m j \<longleftrightarrow>
     (\<exists>es t cmds ls csv uvm. run_rtl (j_out j) m (j_trr j) = (es, Inr 0) \<and> last es = ExportTrr t
        \<and> trr_rtl_cmds t = Some cmds \<and> (\<forall>cmd\<in>set cmds. o_proc (j_out j) cmd \<noteq> TimesOut)
        \<and> j_trace j = Inr (Some ls) \<and> process_ibex_sim_log True (opt_text id (trr_rtl_trace t)) (Some ls) = Inr csv
        \<and> j_log j = Inr uvm \<and> list_ex is_pass_line uvm \<and> \<not> list_ex is_fail_line uvm \<and> \<not> early_error uvm)"

section \<open>Lemmas\<close>

lemma prepare_rtl_passed: "prepare_rtl out m t = Inr (t', d, cmds) \<Longrightarrow> trr_passed t' = trr_passed t"
  by (auto simp: prepare_rtl_def Let_def res_simps)

lemma sim_loop_exports: "sim_loop out m fl cmds = (es, r) \<Longrightarrow> ExportTrr t \<notin> set es"
  by (induction cmds arbitrary: es r) (auto simp: Let_def split: prod.splits sum.splits)

lemma run_rtl_exports:
  assumes "run_rtl out m t = (es, r)" "ExportTrr t' \<in> set es"
  shows "trr_passed t' = trr_passed t"
  using assms prepare_rtl_passed sim_loop_exports
  by (fastforce simp: run_rtl_def killed_def Let_def split: sum.splits prod.splits option.splits if_splits)

lemma exported_cases: "exported t es = t \<or> ExportTrr (exported t es) \<in> set es"
proof (induction es rule: rev_induct)
  case (snoc e es)
  then show ?case by (cases e) (auto simp: exported_def)
qed (simp add: exported_def)

lemma exported_last: "es \<noteq> [] \<Longrightarrow> last es = ExportTrr t \<Longrightarrow> exported t0 es = t"
  by (cases es rule: rev_cases) (simp_all add: exported_def)

lemma exported_passed: "run_rtl out m t = (es, r) \<Longrightarrow> trr_passed (exported t es) = trr_passed t"
  using exported_cases [of t es] run_rtl_exports [of out m t es r] by metis

lemma final_passes:
  assumes "fresh j"
  shows "is_passing (final_record m j) \<longleftrightarrow> good_run m j"
proof (cases "run_rtl (j_out j) m (j_trr j)")
  case (Pair es r)
  have keep: "trr_passed (exported (j_trr j) es) \<noteq> Some True"
    using exported_passed [OF Pair] assms by (simp add: fresh_def)
  show ?thesis
  proof (cases r)
    case (Inl e)
    then show ?thesis using Pair keep by (auto simp: final_record_def good_run_def is_passing_def)
  next
    case (Inr ret)
    with Pair have run: "run_rtl (j_out j) m (j_trr j) = (es, Inr ret)" by simp
    obtain s cmds where ret: "ret = 0" "last es = ExportTrr s" and cmds: "trr_rtl_cmds s = Some cmds"
      and mode: "if (\<exists>cmd\<in>set cmds. o_proc (j_out j) cmd = TimesOut) \<or> trr_failure_mode (j_trr j) = Some TIMEOUT
        then \<forall>tr lg. compare_test_run tr lg s = Inr (s\<lparr>trr_passed := Some False\<rparr>)
        else trr_failure_mode s = trr_failure_mode (j_trr j)"
      using killed_run_fails [OF run] by blast
    have "es \<noteq> []" using run by (auto simp: run_rtl_def Let_def split: sum.splits prod.splits option.splits if_splits)
    then have ex: "exported (j_trr j) es = s" using ret(2) by (rule exported_last)
    have fin: "final_record m j = (case compare_test_run (j_trace j) (j_log j) s of Inr t \<Rightarrow> t | Inl e \<Rightarrow> s)"
      by (simp add: final_record_def run ex)
    show ?thesis
    proof (cases "\<exists>cmd\<in>set cmds. o_proc (j_out j) cmd = TimesOut")
      case True
      then have "final_record m j = s\<lparr>trr_passed := Some False\<rparr>" using mode by (simp add: fin)
      then show ?thesis using True run ret cmds by (auto simp: is_passing_def good_run_def)
    next
      case False
      have s: "trr_passed s \<noteq> Some True" "trr_failure_mode s \<noteq> Some TIMEOUT"
        using keep ex assms False mode by (auto simp: fresh_def)
      have "is_passing (final_record m j) \<longleftrightarrow> (\<exists>t. compare_test_run (j_trace j) (j_log j) s = Inr t \<and> is_passing t)"
        using s(1) by (cases "compare_test_run (j_trace j) (j_log j) s") (auto simp: fin is_passing_def)
      also have "\<dots> \<longleftrightarrow> good_run m j"
        using run_passes [OF s, of "j_trace j" "j_log j"] run ret cmds False by (auto simp: good_run_def)
      finally show ?thesis .
    qed
  qed
qed

section \<open>Properties\<close>

text \<open>
  C5: The exit status of a regression says what its runs did.  When the collection ends normally for
  runs that nobody has judged before, the status is 0 exactly when there was a run and every run
  is good: its simulation script returned, none of its commands was killed, its trace could be
  converted, and its log reports a pass, no failure and no early error.  No killed or failing
  simulation is lost between the stages.
\<close>
theorem regression_verdict:
  assumes "\<forall>j\<in>set js. fresh j" and "regression env m js = (m', es, Inr n)"
  shows "js \<noteq> [] \<and> n = (if list_all (good_run m) js then 0 else 1)"
proof -
  obtain ts where ts: "map (\<lambda>j. Inr (final_record m j) :: trr res) js = map Inr ts" "ts \<noteq> []"
    and n: "n = (if list_all is_passing ts then 0 else 1)"
    using collect_status(1) [OF assms(2) [unfolded regression_def]] by blast
  have "map Inr ts = (map Inr (map (final_record m) js) :: trr res list)" by (simp add: ts(1) [symmetric] o_def)
  then have "ts = map (final_record m) js" by (simp only: inj_map_eq_map inj_Inl inj_Inr)
  then show ?thesis
    using n ts(2) assms(1) final_passes by (auto simp: list_all_iff)
qed

text \<open>A regression of two runs of the same test: one is good, the simulator of the other is killed.\<close>

definition demo_good_job :: job where
  "demo_good_job = \<lparr>j_out = demo_sim_out\<lparr>o_proc := (\<lambda>cmd. Exits 0)\<rparr>, j_trr = demo_rtl_trr,
     j_trace = Inr (Some demo_trace), j_log = Inr demo_uvm_log\<rparr>"

definition demo_killed_job :: job where
  "demo_killed_job = demo_good_job\<lparr>j_out := demo_sim_out\<rparr>"

lemma demo_fresh: "\<forall>j\<in>set [demo_good_job, demo_killed_job]. fresh j"
  by (simp add: fresh_def demo_good_job_def demo_killed_job_def)
    (simp add: demo_rtl_trr_def demo_gen_trr_def empty_trr_def)

lemma demo_statuses:
  "snd (snd (regression sample_env demo_gen_md [demo_good_job])) = Inr 0"
  "snd (snd (regression sample_env demo_gen_md [demo_good_job, demo_killed_job])) = Inr 1"
  by code_simp+

theorem regression_verdict_witness:
  "good_run demo_gen_md demo_good_job \<and> \<not> list_all (good_run demo_gen_md) [demo_good_job, demo_killed_job]"
proof -
  obtain m1 es1 where one: "regression sample_env demo_gen_md [demo_good_job] = (m1, es1, Inr 0)"
    using demo_statuses(1) by (metis prod.collapse)
  obtain m2 es2 where two: "regression sample_env demo_gen_md [demo_good_job, demo_killed_job] = (m2, es2, Inr 1)"
    using demo_statuses(2) by (metis prod.collapse)
  have "\<forall>j\<in>set [demo_good_job]. fresh j" using demo_fresh by simp
  from regression_verdict [OF this one] regression_verdict [OF demo_fresh two]
  show ?thesis by (auto split: if_splits)
qed

end
