(* ===== verification/Spec2Isabelle.thy ===== *)
theory Spec2Isabelle
  imports Golden Sys_Config Dma_Controller Ibex_Config Ibex_Cmd Scripts_Lib Tool_Cmds
    Trace_Lib Ibex_Log Spike_Log Trace_Compare Check_Logs Systolic Skid_Buffer Accelerator
    Tool_Req Directed_Schema Test_Selection Metadata_Props Metadata_Lock Gen_Testlist Sv2v
    Instr_Gen Run_Test Build_Tb Formal_Spec Cov_Report Reports
    Syn_Flow Accel_System Regression_Flow
begin

text \<open>
  A verification development for axis-systolic-array: the Python programs that configure the
  accelerator system, generate its reference data, and run and judge the verification of the
  Ibex core next to it, with the hardware and the firmware they meet.

  \<^bold>\<open>The program and its parts.\<close>  The accelerator computes \<open>y = k^T x + a\<close> on int8 matrices.  A run of
  the system goes through these parts:

  \<^item> \<^verbatim>\<open>run/config.py\<close> writes the hardware, firmware and build configuration (theory
    Sys_Config: \<open>parse_args\<close>, \<open>generate\<close>, the four files as exact text).
  \<^item> \<^verbatim>\<open>run/golden.py\<close> draws the matrices and writes \<^verbatim>\<open>kxa.bin\<close>, \<^verbatim>\<open>y_exp.bin\<close> (theory Golden:
    \<open>golden_main\<close>); \<^verbatim>\<open>c/firmware.h\<close> reads the first file into \<open>Memory_st\<close>, starts the DMA
    (theory Dma_Controller: \<open>firmware_writes\<close>), writes the result to \<^verbatim>\<open>y.bin\<close> and checks it
    (\<open>run_sim\<close> of Accel_System, \<open>check_output\<close> of Golden).
  \<^item> \<^verbatim>\<open>rtl/sys/dma_controller.sv\<close> is the register file between the two (theory
    Dma_Controller: \<open>dma_step\<close>, one clock edge); \<^verbatim>\<open>rtl/sa\<close> is the systolic array (Systolic:
    \<open>sa_step\<close>), \<^verbatim>\<open>rtl/sys/skid_buffer.sv\<close> its stream buffer (Skid_Buffer) and
    \<^verbatim>\<open>rtl/sys/top_axi_int.v\<close> joins the streams around the array (Accelerator: the join and the
    adder; Stream_Top: with the skid buffers, one clock edge \<open>top_step\<close>, and a closed loop of
    sources and sink around it).  Accel_System puts memory, firmware, registers and streams
    together, with the address translation of \<^verbatim>\<open>firebridge/fb_fw_wrap.h\<close>.
  \<^item> The Ibex flow under \<^verbatim>\<open>ibex-soc\<close>: \<^verbatim>\<open>util/ibex_config.py\<close> turns a named configuration into
    simulator options (theory Ibex_Config); \<^verbatim>\<open>scripts/ibex_cmd.py\<close> calls it and filters the
    test list (Ibex_Cmd); \<^verbatim>\<open>scripts/scripts_lib.py\<close> runs commands and formats data
    (Scripts_Lib); \<^verbatim>\<open>scripts/riscvdv_interface.py\<close> fills command templates (Tool_Cmds);
    \<^verbatim>\<open>util/check_tool_requirements.py\<close> checks the installed tools (Tool_Req);
    \<^verbatim>\<open>util/sv2v_in_place.py\<close> converts sources (Sv2v); \<^verbatim>\<open>dv/formal/buildspec.py\<close> selects the
    instructions of the formal specification (Formal_Spec); \<^verbatim>\<open>syn/python\<close> names the cells of timing
    reports and weighs the area of a netlist (Syn_Flow).
  \<^item> A regression: \<^verbatim>\<open>directed_tests/gen_testlist.py\<close> writes the list of directed tests
    (Gen_Testlist), \<^verbatim>\<open>directed_test_schema.py\<close> reads it (Directed_Schema); \<^verbatim>\<open>metadata.py\<close> selects
    tests and creates one record per test and seed (Metadata, Test_Selection, Metadata_Props), which
    later scripts update under a lock (Metadata_Lock).
  \<^item> For each record: \<^verbatim>\<open>run_instr_gen.py\<close> generates a program (Instr_Gen), \<^verbatim>\<open>compile_test.py\<close>
    compiles it and \<^verbatim>\<open>run_rtl.py\<close> simulates it (Run_Test), with the testbench of \<^verbatim>\<open>compile_tb.py\<close>;
    \<^verbatim>\<open>merge_cov.py\<close> merges the coverage (Build_Tb).
  \<^item> After a simulation, \<^verbatim>\<open>ibex_log_to_trace_csv.py\<close> and \<^verbatim>\<open>spike_log_to_trace_csv.py\<close> read the
    traces of the core and of the reference simulator (Ibex_Log, Spike_Log) with the trace
    library \<^verbatim>\<open>lib.py\<close>, \<^verbatim>\<open>riscv_trace_csv.py\<close> (Trace_Lib); \<^verbatim>\<open>instr_trace_compare.py\<close> compares
    them (Trace_Compare); \<^verbatim>\<open>check_logs.py\<close> gives the verdict (Check_Logs) and stores it in the record
    of the run, \<^verbatim>\<open>test_run_result.py\<close> (Run_Record).
  \<^item> At the end \<^verbatim>\<open>collect_results.py\<close> splits the runs and writes the reports of \<^verbatim>\<open>report_lib\<close>: the
    text report (Check_Logs), JUnit, dvsim, HTML and SVG (Reports), with the coverage that
    \<^verbatim>\<open>util.py\<close> reads from Xcelium's tables (Cov_Report).  Regression_Flow composes simulation,
    check and collection.

  \<^bold>\<open>How the code is modelled.\<close>  An exception is the left value of the type \<open>res\<close> (Py_Prelude),
  with the class and the message the code gives; \<open>bind_res\<close> is sequencing.  Python integers are
  \<open>int\<close>, strings are character lists, dictionaries are association lists in insertion order
  (Py_Values); the 32-bit registers and the bytes of files are words (Bytes holds the
  two's complement codecs, with the locale \<open>codec\<close>).  Regular expressions are values of a
  datatype with a backtracking matcher that follows the order of Python's engine (Regex); shell
  quoting and splitting follow \<open>shlex\<close> (Shlex), paths \<open>pathlib\<close> and \<open>os.path\<close> on their text
  (Py_Path).  What a program reads from a file, the environment or a process is an argument of
  its model; a script that runs processes is the list of its effects and its status (\<open>effect\<close>
  and \<open>outside\<close> of Instr_Gen).  Hardware is one function per clock edge on the record of its
  registers; concurrent scripts are the step relation \<open>lock_step\<close>.

  \<^bold>\<open>Bounds.\<close>  Every loop is a structural recursion on the data it walks, with two exceptions.
  \<open>mtch\<close> of Regex stops its star on an iteration that consumes nothing, as Python's engine does.
  \<open>process_regression_list\<close> follows imports between files: its bound is the recursion limit of the
  interpreter, exceeding it is \<open>RecursionError\<close>, and the termination property gives a depth that
  suffices for acyclic imports.

  \<^bold>\<open>What is proved.\<close>  Reference data: the firmware finds the drawn matrices in memory, the
  expected file holds the dot products modulo 2^32, and the C check accepts it.  Hardware: the
  array without stalls computes the product; behind its skid buffers it delivers the rows of the
  result in order whatever the gaps and pauses, never a wrong one, and all of them when every
  stream moves again and again; the skid buffer is a queue, the generated header reads back as the
  register numbers, the firmware programs every channel and its polling ends exactly when a
  success arrives; where a stall or a misplaced flag corrupts the result is a theorem too.  The
  system: for one transfer after reset the file \<^verbatim>\<open>y.bin\<close> becomes the file \<^verbatim>\<open>y_exp.bin\<close>, the
  firmware's check passes for any matrices, and nothing but the result is ever written.
  Configuration: which dictionaries and test lists are accepted, which error each wrong one
  raises, and that the printed options read back.
  A regression: the options of the command line reach the fields, the records on disk are the
  tests and seeds that are listed, the selected tests are the ones asked for, locked updates are
  serial and an unlocked reader is not.  Commands: quoting, template substitution, relocation of
  generated commands, the outcome of running a command on every path.  Scripts: which failures
  their status reports and which it hides, and that a killed simulation never passes.  Logs:
  completeness of the trace readers, an exact characterisation of the log check, of the trace
  comparison and of the verdict.  Reports: the coverage tables read back as what they show, each
  run is in exactly one JUnit case of its test, and a normal end of the collection means that all
  runs were loaded, with status zero exactly when all passed.  Through the stages: the status of
  a regression is zero exactly when every run returned, was not killed and left a good trace and
  log.

  \<^bold>\<open>Interfaces as locales.\<close>  \<open>codec\<close> (Bytes) for fixed-width binary codecs, \<open>done_flag\<close>
  (Dma_Controller) for a device that is polled, \<open>word_quoting\<close> (Shlex) for a quoting function and
  its reader, \<open>stream_buffer\<close> (Skid_Buffer) for a buffer between two handshakes.  Each is
  interpreted on the model's own definitions.

  \<^bold>\<open>Not modelled.\<close>  The SystemVerilog of Ibex, the testbenches, the third-party DMA library (its
  contract is stated in Accel_System: bytes of a descriptor in order, and back), transfers after
  the first one without a reset between them (the array then meets the stall between back to back
  packets that Systolic describes), the vendored IP and tools, the random program generator, the
  scripts of the FPGA and synthesis tools; the settings of the documentation builder
  (\<^verbatim>\<open>doc/conf.py\<close>) and the templates filled through Mako; and, in the modelled scripts, the
  operating system calls (processes, files, pickling), which are arguments, and floating point
  rounding: the reports compute with rationals, and the text of a percentage is
  a parameter.
\<close>

end
